(* ===== verification/Fleet_Prelude.thy ===== *)
theory Fleet_Prelude
  imports Main
begin

text \<open>
  Shared vocabulary of the development: the theorem collections, the error monad in which every
  fallible handler is written, the fragment of JavaScript strings and numbers that the sources use,
  keyed tables (the model of SQL tables) and reachability of step relations.

  Strings are the UTF-8 bytes of the JavaScript string (\<open>char list\<close>). Case mapping and
  \<open>js_trim\<close> act on the ASCII range, which is where the identifiers, states and tokens of
  the program live; the one place that trims decoded user text (the click identifiers of a captured
  suffix, theory \<open>Capture_Suffix\<close>) uses the full set of white space. Times and durations are
  integers counting milliseconds.
\<close>

named_theorems fleet_defs \<open>definitions unfolded by the component proofs\<close>
named_theorems fleet_inv \<open>preservation facts for invariants\<close>

type_synonym time = int
type_synonym ms = int

section \<open>Results: a thrown error or a value\<close>

definition bindE :: "'e + 'a \<Rightarrow> ('a \<Rightarrow> 'e + 'b) \<Rightarrow> 'e + 'b" where
  "bindE r f = (case r of Inl e \<Rightarrow> Inl e | Inr x \<Rightarrow> f x)"

definition throwIf :: "bool \<Rightarrow> 'e \<Rightarrow> 'e + unit" where
  "throwIf b e = (if b then Inl e else Inr ())"

fun foldE :: "('a \<Rightarrow> 's \<Rightarrow> 'e + 's) \<Rightarrow> 'a list \<Rightarrow> 's \<Rightarrow> 'e + 's" where
  "foldE f [] s = Inr s"
| "foldE f (x # xs) s = bindE (f x s) (foldE f xs)"

fun mapE :: "('a \<Rightarrow> 'e + 'b) \<Rightarrow> 'a list \<Rightarrow> 'e + 'b list" where
  "mapE f [] = Inr []"
| "mapE f (x # xs) = bindE (f x) (\<lambda>y. bindE (mapE f xs) (\<lambda>ys. Inr (y # ys)))"

lemma bindE_simps [simp]: "bindE (Inl e) f = Inl e" "bindE (Inr x) f = f x"
  by (simp_all add: bindE_def)

lemma bindE_Inr_conv: "bindE r f = Inr y \<longleftrightarrow> (\<exists>x. r = Inr x \<and> f x = Inr y)"
  by (cases r) simp_all

lemma bindE_Inl_conv: "bindE r f = Inl e \<longleftrightarrow> r = Inl e \<or> (\<exists>x. r = Inr x \<and> f x = Inl e)"
  by (cases r) simp_all

lemma throwIf_Inr_conv [simp]: "throwIf b e = Inr u \<longleftrightarrow> \<not> b"
  by (simp add: throwIf_def)

lemma throwIf_Inl_conv [simp]: "throwIf b e = Inl e' \<longleftrightarrow> b \<and> e' = e"
  by (auto simp: throwIf_def)

lemma throwIf_simps [simp]: "throwIf True e = Inl e" "throwIf False e = Inr ()"
  by (simp_all add: throwIf_def)

text \<open>A property kept by the body of a loop that may throw is kept by the loop.\<close>

lemma foldE_invariant:
  assumes "foldE f xs s = Inr s'" and "P s"
    and "\<And>x s s'. x \<in> set xs \<Longrightarrow> P s \<Longrightarrow> f x s = Inr s' \<Longrightarrow> P s'"
  shows "P s'"
  using assms
proof (induction xs arbitrary: s)
  case Nil
  then show ?case by simp
next
  case (Cons x xs)
  then obtain s1 where s1: "f x s = Inr s1" "foldE f xs s1 = Inr s'"
    by (auto simp: bindE_Inr_conv)
  have "P s1"
    by (rule Cons.prems(3) [of x s]) (use Cons.prems(2) s1(1) in simp_all)
  then show ?case
    by (rule Cons.IH [OF s1(2)]) (use Cons.prems(3) in auto)
qed

lemma mapE_Inr_length: "mapE f xs = Inr ys \<Longrightarrow> length ys = length xs"
  by (induction xs arbitrary: ys) (auto simp: bindE_Inr_conv)

lemma mapE_Inr_set:
  "mapE f xs = Inr ys \<Longrightarrow> y \<in> set ys \<Longrightarrow> \<exists>x\<in>set xs. f x = Inr y"
  by (induction xs arbitrary: ys) (auto simp: bindE_Inr_conv)

lemma mapE_Inr_mem:
  "mapE f xs = Inr ys \<Longrightarrow> x \<in> set xs \<Longrightarrow> \<exists>y\<in>set ys. f x = Inr y"
  by (induction xs arbitrary: ys) (auto simp: bindE_Inr_conv)

section \<open>Lists\<close>

lemma in_map_filter: "y \<in> set (List.map_filter f xs) \<longleftrightarrow> (\<exists>x\<in>set xs. f x = Some y)"
  by (induction xs) (auto simp: map_filter_simps split: option.splits)

lemma find_SomeD: "find p xs = Some x \<Longrightarrow> x \<in> set xs \<and> p x"
  by (auto simp: find_Some_iff)

lemma distinct_subset_length: "distinct xs \<Longrightarrow> set xs \<subseteq> set ys \<Longrightarrow> length xs \<le> length ys"
  by (metis card_length card_mono distinct_card le_trans List.finite_set)

lemma distinct_same_length:
  assumes "distinct xs" and "\<And>x y. x \<in> set xs \<Longrightarrow> y \<in> set xs \<Longrightarrow> x = y"
  shows "length xs \<le> 1"
proof (cases xs)
  case (Cons a r)
  with assms have "set xs \<subseteq> set [a]" by auto
  from distinct_subset_length [OF assms(1) this] show ?thesis by simp
qed simp

section \<open>JavaScript strings\<close>

definition is_digit :: "char \<Rightarrow> bool" where
  "is_digit c \<longleftrightarrow> 48 \<le> (of_char c :: nat) \<and> (of_char c :: nat) \<le> 57"

definition is_lower :: "char \<Rightarrow> bool" where
  "is_lower c \<longleftrightarrow> 97 \<le> (of_char c :: nat) \<and> (of_char c :: nat) \<le> 122"

definition is_upper :: "char \<Rightarrow> bool" where
  "is_upper c \<longleftrightarrow> 65 \<le> (of_char c :: nat) \<and> (of_char c :: nat) \<le> 90"

definition is_alnum :: "char \<Rightarrow> bool" where
  "is_alnum c \<longleftrightarrow> is_digit c \<or> is_lower c \<or> is_upper c"

definition js_space :: "char \<Rightarrow> bool" where
  "js_space c \<longleftrightarrow> (of_char c :: nat) \<in> {9, 10, 11, 12, 13, 32}"

definition lower_char :: "char \<Rightarrow> char" where
  "lower_char c = (if is_upper c then char_of ((of_char c :: nat) + 32) else c)"

definition upper_char :: "char \<Rightarrow> char" where
  "upper_char c = (if is_lower c then char_of ((of_char c :: nat) - 32) else c)"

definition to_lower :: "string \<Rightarrow> string" where "to_lower = map lower_char"

definition to_upper :: "string \<Rightarrow> string" where "to_upper = map upper_char"

definition js_trim :: "string \<Rightarrow> string" where
  "js_trim s = rev (dropWhile js_space (rev (dropWhile js_space s)))"

definition starts_with :: "string \<Rightarrow> string \<Rightarrow> bool" where
  "starts_with p s \<longleftrightarrow> take (length p) s = p"

definition ends_with :: "string \<Rightarrow> string \<Rightarrow> bool" where
  "ends_with p s \<longleftrightarrow> starts_with (rev p) (rev s)"

fun contains :: "string \<Rightarrow> string \<Rightarrow> bool" where
  "contains p [] = (p = [])"
| "contains p (c # s) = (starts_with p (c # s) \<or> contains p s)"

text \<open>\<open>s.split(c)\<close>: always at least one part.\<close>

fun split_char :: "char \<Rightarrow> string \<Rightarrow> string list" where
  "split_char c [] = [[]]"
| "split_char c (x # s) =
     (if x = c then [] # split_char c s
      else (case split_char c s of [] \<Rightarrow> [[x]] | p # ps \<Rightarrow> (x # p) # ps))"

text \<open>\<open>s.indexOf(c)\<close> for one code unit, \<open>None\<close> for -1.\<close>

fun index_of :: "char \<Rightarrow> string \<Rightarrow> nat option" where
  "index_of c [] = None"
| "index_of c (x # s) = (if x = c then Some 0 else map_option Suc (index_of c s))"

fun digits_value :: "string \<Rightarrow> nat \<Rightarrow> nat" where
  "digits_value [] acc = acc"
| "digits_value (c # s) acc = digits_value s (10 * acc + (of_char c - 48))"

function nat_digits :: "nat \<Rightarrow> string" where
  "nat_digits n = (if n < 10 then [char_of (48 + n)] else nat_digits (n div 10) @ [char_of (48 + n mod 10)])"
  by pat_completeness auto
termination by (relation "measure (\<lambda>n. n)") auto

declare nat_digits.simps [simp del]

lemma js_trim_Nil [simp]: "js_trim [] = []"
  by (simp add: js_trim_def)

lemma dropWhile_hd: "xs = [] \<or> \<not> p (hd xs) \<Longrightarrow> dropWhile p xs = xs"
  by (cases xs) auto

lemma js_trim_idem [simp]: "js_trim (js_trim s) = js_trim s"
proof -
  let ?u = "dropWhile js_space s"
  let ?v = "dropWhile js_space (rev ?u)"
  have head: "rev ?v = [] \<or> \<not> js_space (hd (rev ?v))"
  proof (cases "?v = []")
    case True
    then show ?thesis by simp
  next
    case False
    obtain ws where ws: "rev ?u = ws @ ?v"
      by (metis takeWhile_dropWhile_id)
    then have u: "?u = rev ?v @ rev ws" by (metis rev_append rev_rev_ident)
    from False have "hd (rev ?v) = hd (rev ?v @ rev ws)" by (simp add: hd_append2 del: dropWhile_eq_Nil_conv)
    with u have "hd (rev ?v) = hd ?u" by simp
    moreover have "\<not> js_space (hd ?u)"
      using False by (intro hd_dropWhile) (auto dest: set_dropWhileD)
    ultimately show ?thesis by simp
  qed
  have "dropWhile js_space (rev ?v) = rev ?v" using head by (rule dropWhile_hd)
  moreover have "dropWhile js_space ?v = ?v" by (rule dropWhile_idem)
  ultimately show ?thesis by (simp add: js_trim_def)
qed

lemma split_char_ne [simp]: "split_char c s \<noteq> []"
  by (cases s) (auto split: list.splits)

lemma digits_value_append: "digits_value (s @ t) acc = digits_value t (digits_value s acc)"
  by (induction s arbitrary: acc) auto

lemma of_char_digit: "n < 10 \<Longrightarrow> (of_char (char_of (48 + n) :: char) :: nat) = 48 + n"
  by (simp add: of_char_of)

lemma digits_value_nat_digits: "digits_value (nat_digits n) 0 = n"
proof (induction n rule: nat_digits.induct)
  case (1 n)
  show ?case
  proof (cases "n < 10")
    case True
    then show ?thesis by (simp add: nat_digits.simps [of n] of_char_digit)
  next
    case False
    with 1 show ?thesis
      by (simp add: nat_digits.simps [of n] digits_value_append of_char_digit)
  qed
qed

lemma nat_digits_digit: "c \<in> set (nat_digits n) \<Longrightarrow> is_digit c"
proof (induction n rule: nat_digits.induct)
  case (1 n)
  have d: "m < 10 \<Longrightarrow> is_digit (char_of (48 + m))" for m :: nat
    by (simp add: is_digit_def of_char_digit)
  from 1 show ?case
    by (cases "n < 10") (auto simp: nat_digits.simps [of n] d)
qed

lemma nat_digits_ne [simp]: "nat_digits n \<noteq> []"
  by (subst nat_digits.simps) simp

section \<open>JavaScript numbers\<close>

definition clamp :: "'a::linorder \<Rightarrow> 'a \<Rightarrow> 'a \<Rightarrow> 'a" where
  "clamp lo hi x = max lo (min hi x)"

lemma clamp_bounds: "lo \<le> hi \<Longrightarrow> lo \<le> clamp lo hi x \<and> clamp lo hi x \<le> hi"
  by (auto simp: clamp_def max_def min_def)

text \<open>The configuration idiom \<open>Math.max(lo, Number(env) || dflt)\<close>: a missing, zero or
  non-numeric setting takes the default, and the result is never below the floor.\<close>

definition env_floor :: "int \<Rightarrow> int \<Rightarrow> int option \<Rightarrow> int" where
  "env_floor lo dflt v =
     max lo (case v of None \<Rightarrow> dflt | Some n \<Rightarrow> if n = 0 then dflt else n)"

lemma env_floor_ge [simp]: "lo \<le> env_floor lo dflt v"
  by (simp add: env_floor_def)

section \<open>Keyed tables\<close>

definition update_where :: "('r \<Rightarrow> bool) \<Rightarrow> ('r \<Rightarrow> 'r) \<Rightarrow> 'r list \<Rightarrow> 'r list" where
  "update_where p f rows = map (\<lambda>r. if p r then f r else r) rows"

lemma set_update_where:
  "set (update_where p f rows) = (\<lambda>r. if p r then f r else r) ` set rows"
  by (simp add: update_where_def)

lemma update_where_Nil [simp]: "update_where p f [] = []"
  by (simp add: update_where_def)

lemma length_update_where [simp]: "length (update_where p f rows) = length rows"
  by (simp add: update_where_def)

lemma update_where_none: "(\<And>r. r \<in> set rows \<Longrightarrow> \<not> p r) \<Longrightarrow> update_where p f rows = rows"
  by (induction rows) (auto simp: update_where_def)

lemma map_update_where: "(\<And>r. p r \<Longrightarrow> g (f r) = g r) \<Longrightarrow> map g (update_where p f rows) = map g rows"
  by (induction rows) (auto simp: update_where_def)

lemma ball_update_where:
  assumes "\<forall>r\<in>set rows. P r" and "\<And>r. r \<in> set rows \<Longrightarrow> p r \<Longrightarrow> P r \<Longrightarrow> P (f r)"
  shows "\<forall>r\<in>set (update_where p f rows). P r"
  using assms by (auto simp: set_update_where)

lemma update_where_keeps: "r \<in> set rows \<Longrightarrow> \<not> p r \<Longrightarrow> r \<in> set (update_where p f rows)"
  by (induction rows) (auto simp: update_where_def)

lemma update_where_hit: "r \<in> set rows \<Longrightarrow> p r \<Longrightarrow> f r \<in> set (update_where p f rows)"
  by (induction rows) (auto simp: update_where_def)

lemma in_update_whereE:
  assumes "r' \<in> set (update_where p f rows)"
  obtains r where "r \<in> set rows" "p r" "r' = f r" | "r' \<in> set rows" "\<not> p r'"
  using assms by (auto simp: set_update_where split: if_splits)

text \<open>A table with a key column: rows are addressed by their key.\<close>

definition lookup_by :: "('r \<Rightarrow> 'k) \<Rightarrow> 'k \<Rightarrow> 'r list \<Rightarrow> 'r option" where
  "lookup_by key k rows = find (\<lambda>r. key r = k) rows"

lemma lookup_by_SomeD: "lookup_by key k rows = Some r \<Longrightarrow> r \<in> set rows \<and> key r = k"
  by (auto simp: lookup_by_def find_Some_iff)

lemma lookup_by_None_iff: "lookup_by key k rows = None \<longleftrightarrow> k \<notin> key ` set rows"
  by (auto simp: lookup_by_def find_None_iff)

lemma lookup_by_Nil [simp]: "lookup_by key k [] = None"
  by (simp add: lookup_by_def)

lemma lookup_by_Cons [simp]:
  "lookup_by key k (r # rows) = (if key r = k then Some r else lookup_by key k rows)"
  by (simp add: lookup_by_def)

lemma lookup_append: "lookup_by key k (xs @ ys) = (case lookup_by key k xs of None \<Rightarrow> lookup_by key k ys | Some x \<Rightarrow> Some x)"
  by (induction xs) auto

lemma lookup_update_rows:
  assumes "\<And>r. key (f r) = key r"
  shows "lookup_by key k (update_where p f rows) = map_option (\<lambda>r. if p r then f r else r) (lookup_by key k rows)"
  using assms by (induction rows) (auto simp: update_where_def)

lemma list_ex_lookup: "list_ex (\<lambda>a. key a = k) rows \<longleftrightarrow> lookup_by key k rows \<noteq> None"
  by (induction rows) auto

lemma lookup_by_mem:
  "distinct (map key rows) \<Longrightarrow> r \<in> set rows \<Longrightarrow> lookup_by key (key r) rows = Some r"
  by (induction rows) auto

lemma distinct_key_eq:
  "distinct (map key rows) \<Longrightarrow> r \<in> set rows \<Longrightarrow> r' \<in> set rows \<Longrightarrow> key r = key r' \<Longrightarrow> r = r'"
  by (metis lookup_by_mem option.inject)

text \<open>The contract a component relies on when it stores rows: the updates it performs do not touch
  the key column, so the table keeps its key constraint and an update is visible exactly at the
  rows it addresses.\<close>

locale keyed_table =
  fixes key :: "'r \<Rightarrow> 'k" and upd :: "'u \<Rightarrow> 'r \<Rightarrow> 'r"
  assumes key_upd: "key (upd u r) = key r"
begin

lemma keys_update: "map key (update_where p (upd u) rows) = map key rows"
  by (rule map_update_where) (rule key_upd)

lemma distinct_update: "distinct (map key rows) \<Longrightarrow> distinct (map key (update_where p (upd u) rows))"
  by (simp add: keys_update)

lemma lookup_update:
  "lookup_by key k (update_where (\<lambda>r. key r = k) (upd u) rows) = map_option (upd u) (lookup_by key k rows)"
  by (induction rows) (auto simp: update_where_def key_upd)

lemma lookup_update_other:
  "k' \<noteq> k \<Longrightarrow> lookup_by key k' (update_where (\<lambda>r. key r = k) (upd u) rows) = lookup_by key k' rows"
  by (induction rows) (auto simp: update_where_def key_upd)

end

section \<open>Step systems\<close>

inductive reachable_from :: "('s \<Rightarrow> bool) \<Rightarrow> ('s \<Rightarrow> 's \<Rightarrow> bool) \<Rightarrow> 's \<Rightarrow> bool"
  for init :: "'s \<Rightarrow> bool" and step :: "'s \<Rightarrow> 's \<Rightarrow> bool" where
  init: "init s \<Longrightarrow> reachable_from init step s"
| step: "reachable_from init step s \<Longrightarrow> step s t \<Longrightarrow> reachable_from init step t"

text \<open>An inductive invariant of a step system holds in every reachable state.\<close>

locale step_invariant =
  fixes init :: "'s \<Rightarrow> bool" and step :: "'s \<Rightarrow> 's \<Rightarrow> bool" and inv :: "'s \<Rightarrow> bool"
  assumes inv_init: "init s \<Longrightarrow> inv s"
    and inv_step: "inv s \<Longrightarrow> step s t \<Longrightarrow> inv t"
begin

lemma reachable_inv: "reachable_from init step s \<Longrightarrow> inv s"
  by (induction rule: reachable_from.induct) (auto intro: inv_init inv_step)

end

end
