(* ===== verification/Capture_Suffix.thy ===== *)
theory Capture_Suffix
  imports Fleet_Prelude
begin

text \<open>
  The suffix gate of \<open>packages/contracts/src/captureSafety.ts\<close>: which captured query strings
  may be handed to a delivery. The code walks \<open>new URLSearchParams(value)\<close>; the WHATWG
  form-urlencoded parser is modelled here on the UTF-8 bytes of the string. A value that is not a
  string is \<open>None\<close>.
\<close>

section \<open>The form-urlencoded parser\<close>

definition hex_value :: "char \<Rightarrow> nat option" where
  "hex_value c =
     (let n = (of_char c :: nat) in
      if is_digit c then Some (n - 48)
      else if 97 \<le> n \<and> n \<le> 102 then Some (n - 87)
      else if 65 \<le> n \<and> n \<le> 70 then Some (n - 55)
      else None)"

fun percent_decode :: "string \<Rightarrow> string" where
  "percent_decode (c # h # l # s) =
     (if c = CHR ''%'' then
        (case (hex_value h, hex_value l) of
           (Some a, Some b) \<Rightarrow> char_of (16 * a + b) # percent_decode s
         | _ \<Rightarrow> c # percent_decode (h # l # s))
      else c # percent_decode (h # l # s))"
| "percent_decode (c # s) = c # percent_decode s"
| "percent_decode [] = []"

definition plus_to_space :: "string \<Rightarrow> string" where
  "plus_to_space = map (\<lambda>c. if c = CHR ''+'' then CHR '' '' else c)"

definition decode_pair :: "string \<Rightarrow> string \<times> string" where
  "decode_pair piece =
     (let (name, value) = (case index_of CHR ''='' piece of
            None \<Rightarrow> (piece, []) | Some i \<Rightarrow> (take i piece, drop (Suc i) piece))
      in (percent_decode (plus_to_space name), percent_decode (plus_to_space value)))"

text \<open>The constructor drops one leading question mark; empty pieces are skipped.\<close>

definition search_params :: "string \<Rightarrow> (string \<times> string) list" where
  "search_params s =
     map decode_pair (filter (\<lambda>p. p \<noteq> [])
       (split_char CHR ''&'' (case s of c # r \<Rightarrow> (if c = CHR ''?'' then r else s) | [] \<Rightarrow> [])))"

text \<open>\<open>field.trim().length === 0\<close>: the bytes are a concatenation of encodings of the white
  space JavaScript trims, which includes U+00A0, U+1680, U+2000..U+200A, U+2028, U+2029, U+202F,
  U+205F, U+3000 and U+FEFF.\<close>

definition wide_space3 :: "nat \<Rightarrow> nat \<Rightarrow> nat \<Rightarrow> bool" where
  "wide_space3 a b c \<longleftrightarrow>
     (a = 225 \<and> b = 154 \<and> c = 128)
   \<or> (a = 226 \<and> b = 128 \<and> (128 \<le> c \<and> c \<le> 138 \<or> c = 168 \<or> c = 169 \<or> c = 175))
   \<or> (a = 226 \<and> b = 129 \<and> c = 159)
   \<or> (a = 227 \<and> b = 128 \<and> c = 128)
   \<or> (a = 239 \<and> b = 187 \<and> c = 191)"

fun blank_utf8 :: "string \<Rightarrow> bool" where
  "blank_utf8 [] = True"
| "blank_utf8 (a # s) =
     (if js_space a then blank_utf8 s
      else (case s of
        b # t \<Rightarrow>
          (if (of_char a :: nat) = 194 \<and> (of_char b :: nat) = 160 then blank_utf8 t
           else (case t of c # u \<Rightarrow> wide_space3 (of_char a) (of_char b) (of_char c) \<and> blank_utf8 u
                 | [] \<Rightarrow> False))
      | [] \<Rightarrow> False))"

section \<open>\<open>deliverySuffixIssue\<close>\<close>

datatype suffix_issue =
    NotAString
  | ChallengeParameter
  | EmptyIdentifier string

definition challenge_key :: "string \<Rightarrow> bool" where
  "challenge_key key =
     (let k = to_lower key in
      starts_with ''__cf_chl_'' k \<or> k = ''__cf_chl'' \<or> k = ''cf_chl_prog'' \<or> k = ''cf_chl_seq'')"

definition identifier_key :: "string \<Rightarrow> bool" where
  "identifier_key key \<longleftrightarrow> to_lower key \<in> {''irclickid'', ''im_ref''}"

fun scan_params :: "(string \<times> string) list \<Rightarrow> string option \<Rightarrow> suffix_issue option" where
  "scan_params [] incomplete = map_option EmptyIdentifier incomplete"
| "scan_params ((key, field) # ps) incomplete =
     (if challenge_key key then Some ChallengeParameter
      else if identifier_key key \<and> blank_utf8 field then scan_params ps (Some (to_lower key))
      else scan_params ps incomplete)"

definition deliverySuffixIssue :: "string option \<Rightarrow> suffix_issue option" where
  "deliverySuffixIssue value =
     (case value of None \<Rightarrow> Some NotAString | Some s \<Rightarrow> scan_params (search_params s) None)"

definition assertDeliverableSuffix :: "string option \<Rightarrow> suffix_issue + string" where
  "assertDeliverableSuffix value =
     (case deliverySuffixIssue value of
        Some issue \<Rightarrow> Inl issue
      | None \<Rightarrow> (case value of Some s \<Rightarrow> Inr s | None \<Rightarrow> Inl NotAString))"

section \<open>What the gate accepts and which issue it reports\<close>

definition deliverable :: "string \<Rightarrow> bool" where
  "deliverable s \<longleftrightarrow> deliverySuffixIssue (Some s) = None"

lemma scan_params_None:
  "scan_params ps inc = None \<longleftrightarrow>
     inc = None \<and> (\<forall>(k, v)\<in>set ps. \<not> challenge_key k \<and> \<not> (identifier_key k \<and> blank_utf8 v))"
  by (induction ps inc rule: scan_params.induct) auto

lemma scan_params_challenge:
  "scan_params ps inc = Some ChallengeParameter \<longleftrightarrow> (\<exists>(k, v)\<in>set ps. challenge_key k)"
  by (induction ps inc rule: scan_params.induct) auto

lemma scan_params_not_NotAString [simp]: "scan_params ps inc \<noteq> Some NotAString"
  by (induction ps inc rule: scan_params.induct) auto

text \<open>The identifier named in the message is the last blank one of the query.\<close>

lemma scan_params_empty_id:
  "\<forall>(k, v)\<in>set ps. \<not> challenge_key k \<Longrightarrow>
   scan_params ps inc =
     map_option EmptyIdentifier
       (case filter (\<lambda>(k, v). identifier_key k \<and> blank_utf8 v) (rev ps) of
          [] \<Rightarrow> inc | (k, v) # _ \<Rightarrow> Some (to_lower k))"
proof (induction ps inc rule: scan_params.induct)
  case (1 inc)
  then show ?case by simp
next
  case (2 key field ps inc)
  then show ?case by (auto split: list.splits prod.splits)
qed

lemma deliverable_iff:
  "deliverable s \<longleftrightarrow>
     (\<forall>(k, v)\<in>set (search_params s). \<not> challenge_key k \<and> (identifier_key k \<longrightarrow> \<not> blank_utf8 v))"
  by (auto simp: deliverable_def deliverySuffixIssue_def scan_params_None)

lemma assertDeliverableSuffix_Inr_iff:
  "assertDeliverableSuffix v = Inr s \<longleftrightarrow> v = Some s \<and> deliverable s"
  by (cases v) (auto simp: assertDeliverableSuffix_def deliverable_def deliverySuffixIssue_def
      split: option.splits)

end
