(* ===== verification/Fleet_Schedule.thy ===== *)
theory Fleet_Schedule
  imports Fleet_Prelude
begin

text \<open>
  The tunables of \<open>web/lib/script-bridge-store.ts\<close> and its scheduling arithmetic: the distance
  between two phases of the hourly trigger, the next slot of a learned schedule and the adaptive
  execution window that decides how long a worker may run before it must hand over.

  A setting is an optional integer (\<open>None\<close> for an unset or non-numeric variable). A timestamp
  column that is NULL, or that does not parse, is \<open>None\<close>. Products with decimal fractions are
  exact rationals; IEEE rounding of \<open>availableMs * 0.35\<close> is not modelled.
\<close>

section \<open>Configuration\<close>

record fleet_env =
  TAH_SCRIPT_MAX_ATTEMPTS :: "int option"
  TAH_SCRIPT_LEASE_MS :: "int option"
  TAH_SCRIPT_MIN_DELIVERY_INTERVAL_MS :: "int option"
  TAH_SCRIPT_HANDOFF_ALLOWANCE_MS :: "int option"
  TAH_SCRIPT_SHARD_STALE_MS :: "int option"
  TAH_SCRIPT_ACCOUNT_READY_MS :: "int option"
  TAH_SCRIPT_SCHEDULE_INTERVAL_MS :: "int option"
  TAH_SCRIPT_SCHEDULE_TOLERANCE_MS :: "int option"
  TAH_SCRIPT_ADAPTIVE_HANDOFF_MARGIN_MS :: "int option"
  TAH_SCRIPT_PHASE_ONE_MAX_MS :: "int option"
  TAH_SCRIPT_PHASE_TWO_RESERVE_MS :: "int option"
  TAH_SCRIPT_MIN_USEFUL_WINDOW_MS :: "int option"

record fleet_config =
  MAX_ATTEMPTS :: int
  LEASE_MS :: ms
  MIN_INTERVAL_MS :: ms
  HANDOFF_ALLOWANCE_MS :: ms
  SHARD_STALE_MS :: ms
  ACCOUNT_READY_MS :: ms
  SCHEDULE_INTERVAL_MS :: ms
  SCHEDULE_TOLERANCE_MS :: ms
  HANDOFF_MARGIN_MS :: ms
  PHASE_ONE_MAX_MS :: ms
  PHASE_TWO_RESERVE_MAX_MS :: ms
  MIN_USEFUL_WINDOW_MS :: ms

definition SHARD_CAPACITY :: nat where "SHARD_CAPACITY = 40"

definition MAX_LEASE_JOBS :: nat where "MAX_LEASE_JOBS = 200"

definition fleet_config_of :: "fleet_env \<Rightarrow> fleet_config" where
  "fleet_config_of env = \<lparr>
     MAX_ATTEMPTS = env_floor 1 8 (TAH_SCRIPT_MAX_ATTEMPTS env),
     LEASE_MS = env_floor (35 * 60000) (35 * 60000) (TAH_SCRIPT_LEASE_MS env),
     MIN_INTERVAL_MS = env_floor 58000 58000 (TAH_SCRIPT_MIN_DELIVERY_INTERVAL_MS env),
     HANDOFF_ALLOWANCE_MS = env_floor 60000 (15 * 60000) (TAH_SCRIPT_HANDOFF_ALLOWANCE_MS env),
     SHARD_STALE_MS = env_floor 60000 (75 * 60000) (TAH_SCRIPT_SHARD_STALE_MS env),
     ACCOUNT_READY_MS = env_floor 60000 75000 (TAH_SCRIPT_ACCOUNT_READY_MS env),
     SCHEDULE_INTERVAL_MS = env_floor (45 * 60000) (60 * 60000) (TAH_SCRIPT_SCHEDULE_INTERVAL_MS env),
     SCHEDULE_TOLERANCE_MS = env_floor 60000 (8 * 60000) (TAH_SCRIPT_SCHEDULE_TOLERANCE_MS env),
     HANDOFF_MARGIN_MS = env_floor 60000 (2 * 60000) (TAH_SCRIPT_ADAPTIVE_HANDOFF_MARGIN_MS env),
     PHASE_ONE_MAX_MS = min (28 * 60000) (env_floor 60000 (28 * 60000) (TAH_SCRIPT_PHASE_ONE_MAX_MS env)),
     PHASE_TWO_RESERVE_MAX_MS = env_floor (2 * 60000) (10 * 60000) (TAH_SCRIPT_PHASE_TWO_RESERVE_MS env),
     MIN_USEFUL_WINDOW_MS = env_floor 60000 (3 * 60000) (TAH_SCRIPT_MIN_USEFUL_WINDOW_MS env) \<rparr>"

text \<open>The bounds every configuration satisfies, whatever the environment says.\<close>

definition sane_config :: "fleet_config \<Rightarrow> bool" where
  "sane_config c \<longleftrightarrow>
     1 \<le> MAX_ATTEMPTS c \<and> 2100000 \<le> LEASE_MS c \<and> 58000 \<le> MIN_INTERVAL_MS c
   \<and> 60000 \<le> ACCOUNT_READY_MS c \<and> 2700000 \<le> SCHEDULE_INTERVAL_MS c
   \<and> 60000 \<le> SCHEDULE_TOLERANCE_MS c \<and> 60000 \<le> HANDOFF_MARGIN_MS c
   \<and> 60000 \<le> PHASE_ONE_MAX_MS c \<and> PHASE_ONE_MAX_MS c \<le> 1680000
   \<and> 120000 \<le> PHASE_TWO_RESERVE_MAX_MS c \<and> 60000 \<le> MIN_USEFUL_WINDOW_MS c"

lemma sane_fleet_config_of [simp]: "sane_config (fleet_config_of env)"
  by (simp add: sane_config_def fleet_config_of_def env_floor_def)

definition default_env :: fleet_env where
  "default_env = \<lparr>
     TAH_SCRIPT_MAX_ATTEMPTS = None, TAH_SCRIPT_LEASE_MS = None,
     TAH_SCRIPT_MIN_DELIVERY_INTERVAL_MS = None, TAH_SCRIPT_HANDOFF_ALLOWANCE_MS = None,
     TAH_SCRIPT_SHARD_STALE_MS = None, TAH_SCRIPT_ACCOUNT_READY_MS = None,
     TAH_SCRIPT_SCHEDULE_INTERVAL_MS = None, TAH_SCRIPT_SCHEDULE_TOLERANCE_MS = None,
     TAH_SCRIPT_ADAPTIVE_HANDOFF_MARGIN_MS = None, TAH_SCRIPT_PHASE_ONE_MAX_MS = None,
     TAH_SCRIPT_PHASE_TWO_RESERVE_MS = None, TAH_SCRIPT_MIN_USEFUL_WINDOW_MS = None \<rparr>"

section \<open>Schedule arithmetic\<close>

definition dateMs :: "time option \<Rightarrow> ms" where
  "dateMs v = (case v of None \<Rightarrow> 0 | Some t \<Rightarrow> t)"

definition schedulePhaseDistance :: "fleet_config \<Rightarrow> ms \<Rightarrow> ms \<Rightarrow> ms" where
  "schedulePhaseDistance cfg left right =
     (let distance = \<bar>left - right\<bar> mod SCHEDULE_INTERVAL_MS cfg
      in min distance (SCHEDULE_INTERVAL_MS cfg - distance))"

definition nextScheduleSlot :: "fleet_config \<Rightarrow> ms \<Rightarrow> ms \<Rightarrow> ms" where
  "nextScheduleSlot cfg anchorMs nowMs =
     (if anchorMs \<le> 0 then nowMs + SCHEDULE_INTERVAL_MS cfg
      else (let periods = (nowMs - anchorMs) div SCHEDULE_INTERVAL_MS cfg + 1
            in anchorMs + max 1 periods * SCHEDULE_INTERVAL_MS cfg))"

datatype schedule_mode = Learning | Scheduled | ScheduleShift | OffCycle

record schedule_row =
  last_execution_started_at :: "time option"
  schedule_anchor_at :: "time option"
  schedule_sample_count :: int

record execution_window =
  w_invocationId :: string
  w_startedAt :: time
  w_phaseOneStopAt :: time
  w_hardStopAt :: time
  w_nextExpectedStartAt :: time
  w_handoffMarginMs :: ms
  w_phaseOneBudgetMs :: ms
  w_phaseTwoReserveMs :: ms
  w_scheduleMode :: schedule_mode
  w_scheduleLearned :: bool
  w_scheduleSampleCount :: int
  w_scheduleAnchorAt :: time
  w_shouldYield :: bool

text \<open>The first half of \<open>adaptiveExecutionWindow\<close>: what the start of this execution says about
  the learned trigger phase (anchor, number of samples, mode).\<close>

definition learn_schedule :: "fleet_config \<Rightarrow> schedule_row \<Rightarrow> time \<Rightarrow> ms \<times> int \<times> schedule_mode" where
  "learn_schedule cfg row startedMs =
     (let previousStartMs = dateMs (last_execution_started_at row);
          anchorMs = dateMs (schedule_anchor_at row);
          samples = max 0 (schedule_sample_count row)
      in if anchorMs = 0 then (startedMs, 1, Learning)
         else if schedulePhaseDistance cfg startedMs anchorMs \<le> SCHEDULE_TOLERANCE_MS cfg
         then (let samples' = min 100 (samples + 1)
               in (startedMs, samples', if samples' \<ge> 2 then Scheduled else Learning))
         else if previousStartMs > 0 \<and> startedMs - previousStartMs \<ge> 45 * 60000
              \<and> schedulePhaseDistance cfg startedMs previousStartMs \<le> SCHEDULE_TOLERANCE_MS cfg
         then (startedMs, 2, ScheduleShift)
         else if samples < 2 then (startedMs, 1, Learning)
         else (anchorMs, samples, OffCycle))"

definition nextExpectedMs :: "fleet_config \<Rightarrow> schedule_mode \<Rightarrow> ms \<Rightarrow> time \<Rightarrow> time" where
  "nextExpectedMs cfg mode anchorMs startedMs =
     (if mode = OffCycle then nextScheduleSlot cfg anchorMs startedMs
      else startedMs + SCHEDULE_INTERVAL_MS cfg)"

definition hardStopMs :: "fleet_config \<Rightarrow> time \<Rightarrow> time \<Rightarrow> time" where
  "hardStopMs cfg startedMs nextMs = max startedMs (nextMs - HANDOFF_MARGIN_MS cfg)"

definition phaseTwoReserveMs :: "fleet_config \<Rightarrow> ms \<Rightarrow> ms" where
  "phaseTwoReserveMs cfg availableMs =
     min (PHASE_TWO_RESERVE_MAX_MS cfg) (max (2 * 60000) (availableMs * 35 div 100))"

definition phaseOneBudgetMs :: "fleet_config \<Rightarrow> ms \<Rightarrow> ms" where
  "phaseOneBudgetMs cfg availableMs =
     (if availableMs < MIN_USEFUL_WINDOW_MS cfg then 0
      else min (PHASE_ONE_MAX_MS cfg) (max 0 (availableMs - phaseTwoReserveMs cfg availableMs)))"

definition adaptiveExecutionWindow ::
  "fleet_config \<Rightarrow> schedule_row \<Rightarrow> time \<Rightarrow> string \<Rightarrow> execution_window" where
  "adaptiveExecutionWindow cfg row startedMs invocationId =
     (case learn_schedule cfg row startedMs of (anchorMs, samples, mode) \<Rightarrow>
      let next = nextExpectedMs cfg mode anchorMs startedMs;
          hardStop = hardStopMs cfg startedMs next;
          availableMs = max 0 (hardStop - startedMs)
      in \<lparr> w_invocationId = invocationId, w_startedAt = startedMs,
           w_phaseOneStopAt = startedMs + phaseOneBudgetMs cfg availableMs,
           w_hardStopAt = hardStop, w_nextExpectedStartAt = next,
           w_handoffMarginMs = HANDOFF_MARGIN_MS cfg,
           w_phaseOneBudgetMs = phaseOneBudgetMs cfg availableMs,
           w_phaseTwoReserveMs = phaseTwoReserveMs cfg availableMs, w_scheduleMode = mode,
           w_scheduleLearned = (samples \<ge> 2), w_scheduleSampleCount = samples,
           w_scheduleAnchorAt = anchorMs, w_shouldYield = (availableMs < MIN_USEFUL_WINDOW_MS cfg) \<rparr>)"

section \<open>Properties of the arithmetic\<close>

lemma sane_interval_pos: "sane_config cfg \<Longrightarrow> 0 < SCHEDULE_INTERVAL_MS cfg"
  by (simp add: sane_config_def)

lemma schedulePhaseDistance_bounds:
  assumes "sane_config cfg"
  shows "0 \<le> schedulePhaseDistance cfg a b \<and> 2 * schedulePhaseDistance cfg a b \<le> SCHEDULE_INTERVAL_MS cfg"
proof -
  let ?d = "\<bar>a - b\<bar> mod SCHEDULE_INTERVAL_MS cfg"
  have "0 \<le> ?d" "?d < SCHEDULE_INTERVAL_MS cfg"
    using sane_interval_pos [OF assms] by simp_all
  then show ?thesis by (auto simp: schedulePhaseDistance_def Let_def min_def)
qed

text \<open>The distance is a distance on the circle of trigger phases: it does not depend on the order of
  the two instants nor on whole periods between them.\<close>

lemma schedulePhaseDistance_commute: "schedulePhaseDistance cfg a b = schedulePhaseDistance cfg b a"
  by (simp add: schedulePhaseDistance_def abs_minus_commute)

lemma min_mod_neg:
  fixes x n :: int
  assumes "0 < n"
  shows "min (x mod n) (n - x mod n) = min ((- x) mod n) (n - (- x) mod n)"
  by (cases "x mod n = 0") (use assms in \<open>auto simp: zmod_zminus1_eq_if\<close>)

lemma schedulePhaseDistance_signed:
  assumes "sane_config cfg"
  shows "schedulePhaseDistance cfg a b =
    min ((a - b) mod SCHEDULE_INTERVAL_MS cfg)
        (SCHEDULE_INTERVAL_MS cfg - (a - b) mod SCHEDULE_INTERVAL_MS cfg)"
  using min_mod_neg [OF sane_interval_pos [OF assms], of "a - b"]
  by (simp add: schedulePhaseDistance_def Let_def abs_if)

lemma schedulePhaseDistance_periodic:
  assumes "sane_config cfg"
  shows "schedulePhaseDistance cfg (a + k * SCHEDULE_INTERVAL_MS cfg) b = schedulePhaseDistance cfg a b"
proof -
  have "(a + k * SCHEDULE_INTERVAL_MS cfg - b) mod SCHEDULE_INTERVAL_MS cfg
        = ((a - b) + k * SCHEDULE_INTERVAL_MS cfg) mod SCHEDULE_INTERVAL_MS cfg"
    by (simp add: algebra_simps)
  then show ?thesis by (simp add: schedulePhaseDistance_signed [OF assms])
qed

lemma nextScheduleSlot_future:
  assumes "sane_config cfg"
  shows "nowMs < nextScheduleSlot cfg anchorMs nowMs"
proof (cases "anchorMs \<le> 0")
  case True
  then show ?thesis using sane_interval_pos [OF assms] by (simp add: nextScheduleSlot_def)
next
  case False
  let ?n = "SCHEDULE_INTERVAL_MS cfg"
  let ?p = "(nowMs - anchorMs) div ?n + 1"
  have n: "0 < ?n" by (rule sane_interval_pos [OF assms])
  have "nowMs - anchorMs = (nowMs - anchorMs) div ?n * ?n + (nowMs - anchorMs) mod ?n"
    by simp
  moreover have "(nowMs - anchorMs) mod ?n < ?n" using n by simp
  moreover have "?p * ?n = (nowMs - anchorMs) div ?n * ?n + ?n" by (simp add: distrib_right)
  ultimately have "nowMs - anchorMs < ?p * ?n" by linarith
  also have "\<dots> \<le> max 1 ?p * ?n" using n by (simp add: mult_right_mono)
  finally show ?thesis using False by (simp add: nextScheduleSlot_def Let_def)
qed

text \<open>When now is not before the anchor, the slot is the first one of the learned phase that lies
  strictly in the future.\<close>

lemma nextScheduleSlot_first:
  assumes "sane_config cfg" "0 < anchorMs" "anchorMs \<le> nowMs"
  shows "nextScheduleSlot cfg anchorMs nowMs - SCHEDULE_INTERVAL_MS cfg \<le> nowMs"
    and "SCHEDULE_INTERVAL_MS cfg dvd nextScheduleSlot cfg anchorMs nowMs - anchorMs"
proof -
  let ?n = "SCHEDULE_INTERVAL_MS cfg"
  have n: "0 < ?n" by (rule sane_interval_pos [OF assms(1)])
  have "0 \<le> (nowMs - anchorMs) div ?n" using assms n by (simp add: pos_imp_zdiv_nonneg_iff)
  then have slot: "nextScheduleSlot cfg anchorMs nowMs = anchorMs + ((nowMs - anchorMs) div ?n + 1) * ?n"
    using assms by (simp add: nextScheduleSlot_def Let_def max_def)
  have "(nowMs - anchorMs) div ?n * ?n \<le> nowMs - anchorMs"
    using n by (simp add: minus_mod_eq_div_mult [symmetric])
  then show "nextScheduleSlot cfg anchorMs nowMs - ?n \<le> nowMs"
    by (simp add: slot algebra_simps)
  show "?n dvd nextScheduleSlot cfg anchorMs nowMs - anchorMs" by (simp add: slot)
qed

lemma learn_schedule_samples:
  assumes "learn_schedule cfg row s = (anchor, n, mode)"
  shows "1 \<le> n" and "mode = Scheduled \<or> mode = ScheduleShift \<or> mode = OffCycle \<Longrightarrow> 2 \<le> n"
    and "mode = Learning \<Longrightarrow> n < 2" and "mode \<noteq> OffCycle \<Longrightarrow> anchor = s"
  using assms by (auto simp: learn_schedule_def Let_def split: if_splits)

lemma nextExpectedMs_future: "sane_config cfg \<Longrightarrow> s < nextExpectedMs cfg mode anchor s"
  by (simp add: nextExpectedMs_def nextScheduleSlot_future sane_interval_pos)

lemma phaseTwoReserveMs_bounds:
  "sane_config cfg \<Longrightarrow> 120000 \<le> phaseTwoReserveMs cfg a \<and> phaseTwoReserveMs cfg a \<le> PHASE_TWO_RESERVE_MAX_MS cfg"
  by (simp add: phaseTwoReserveMs_def sane_config_def)

text \<open>Phase one never exceeds its maximum, and when it runs at all it leaves the reserve of phase
  two untouched.\<close>

lemma phaseOneBudgetMs_bounds:
  assumes "sane_config cfg" and "0 \<le> a"
  shows "0 \<le> phaseOneBudgetMs cfg a" "phaseOneBudgetMs cfg a \<le> PHASE_ONE_MAX_MS cfg"
    "phaseOneBudgetMs cfg a = 0 \<or> phaseOneBudgetMs cfg a + phaseTwoReserveMs cfg a \<le> a"
    "phaseOneBudgetMs cfg a \<le> a"
proof -
  have r: "0 \<le> phaseTwoReserveMs cfg a" using phaseTwoReserveMs_bounds [OF assms(1), of a] by simp
  have m: "0 \<le> PHASE_ONE_MAX_MS cfg" using assms(1) by (simp add: sane_config_def)
  show "0 \<le> phaseOneBudgetMs cfg a" "phaseOneBudgetMs cfg a \<le> PHASE_ONE_MAX_MS cfg"
    "phaseOneBudgetMs cfg a = 0 \<or> phaseOneBudgetMs cfg a + phaseTwoReserveMs cfg a \<le> a"
    "phaseOneBudgetMs cfg a \<le> a"
    using r m assms(2) by (auto simp: phaseOneBudgetMs_def)
qed

lemma window_fields:
  assumes "learn_schedule cfg row s = (anchor, n, mode)"
    and "next = nextExpectedMs cfg mode anchor s" and "a = max 0 (hardStopMs cfg s next - s)"
  shows "w_startedAt (adaptiveExecutionWindow cfg row s i) = s"
    "w_nextExpectedStartAt (adaptiveExecutionWindow cfg row s i) = next"
    "w_hardStopAt (adaptiveExecutionWindow cfg row s i) = hardStopMs cfg s next"
    "w_phaseOneStopAt (adaptiveExecutionWindow cfg row s i) = s + phaseOneBudgetMs cfg a"
    "w_phaseOneBudgetMs (adaptiveExecutionWindow cfg row s i) = phaseOneBudgetMs cfg a"
    "w_phaseTwoReserveMs (adaptiveExecutionWindow cfg row s i) = phaseTwoReserveMs cfg a"
    "w_shouldYield (adaptiveExecutionWindow cfg row s i) = (a < MIN_USEFUL_WINDOW_MS cfg)"
    "w_scheduleMode (adaptiveExecutionWindow cfg row s i) = mode"
    "w_scheduleSampleCount (adaptiveExecutionWindow cfg row s i) = n"
    "w_scheduleLearned (adaptiveExecutionWindow cfg row s i) = (2 \<le> n)"
    "w_scheduleAnchorAt (adaptiveExecutionWindow cfg row s i) = anchor"
  by (simp_all add: adaptiveExecutionWindow_def assms Let_def)

text \<open>Every execution window is well formed: it starts before phase one stops, phase one stops before the
  hard stop, and the hard stop lies strictly before the next expected start, by exactly the handoff margin
  whenever there is any time at all; phase one, if it runs, leaves the whole reserve of phase two; a window
  that tells the worker to yield gives phase one no time.\<close>

theorem execution_window_ordered:
  assumes "sane_config cfg" and "w = adaptiveExecutionWindow cfg row s i"
  shows "w_startedAt w \<le> w_phaseOneStopAt w \<and> w_phaseOneStopAt w \<le> w_hardStopAt w
    \<and> w_hardStopAt w < w_nextExpectedStartAt w
    \<and> (w_hardStopAt w = w_startedAt w \<or> w_hardStopAt w + w_handoffMarginMs w = w_nextExpectedStartAt w)
    \<and> (w_phaseOneBudgetMs w = 0 \<or> w_phaseOneStopAt w + w_phaseTwoReserveMs w \<le> w_hardStopAt w)
    \<and> (w_shouldYield w \<longrightarrow> w_phaseOneStopAt w = w_startedAt w)"
proof -
  obtain anchor n mode where l: "learn_schedule cfg row s = (anchor, n, mode)"
    by (metis prod_cases3)
  define nx where "nx = nextExpectedMs cfg mode anchor s"
  define a where "a = max 0 (hardStopMs cfg s nx - s)"
  note f = window_fields [OF l nx_def a_def, of i, folded assms(2)]
  have nx: "s < nx" unfolding nx_def by (rule nextExpectedMs_future [OF assms(1)])
  have m: "0 < HANDOFF_MARGIN_MS cfg" using assms(1) by (simp add: sane_config_def)
  have a: "0 \<le> a" "hardStopMs cfg s nx = s + a" by (simp_all add: a_def hardStopMs_def)
  have h: "hardStopMs cfg s nx < nx" "hardStopMs cfg s nx = s \<or> hardStopMs cfg s nx + HANDOFF_MARGIN_MS cfg = nx"
    using nx m by (auto simp: hardStopMs_def)
  have mg: "w_handoffMarginMs w = HANDOFF_MARGIN_MS cfg"
    by (simp add: assms(2) adaptiveExecutionWindow_def l Let_def)
  show ?thesis
    using phaseOneBudgetMs_bounds [OF assms(1) a(1)] h a(2)
    by (auto simp: f mg phaseOneBudgetMs_def)
qed

text \<open>Learning the hourly trigger: there is always at least one sample and the mode is Learning exactly until
  there are two; the anchor follows every start except an off-cycle one, which keeps anchor and sample count
  and lies outside the tolerance around the learned phase.\<close>

theorem schedule_learning:
  assumes "learn_schedule cfg row s = (anchor, n, mode)"
  shows "(mode = Learning \<longleftrightarrow> n < 2) \<and> (mode \<noteq> OffCycle \<longrightarrow> anchor = s) \<and> 1 \<le> n
    \<and> (mode = OffCycle \<longrightarrow> Some anchor = schedule_anchor_at row \<and> n = schedule_sample_count row
         \<and> SCHEDULE_TOLERANCE_MS cfg < schedulePhaseDistance cfg s anchor)"
  using assms by (auto simp: learn_schedule_def Let_def dateMs_def split: if_splits option.splits)

theorem execution_window_ordered_witness:
  "\<exists>w. w = adaptiveExecutionWindow (fleet_config_of default_env) \<lparr>last_execution_started_at = None, schedule_anchor_at = None,
      schedule_sample_count = 0\<rparr> 1000 ''i'' \<and> w_startedAt w \<le> w_phaseOneStopAt w \<and> w_hardStopAt w < w_nextExpectedStartAt w"
  using execution_window_ordered [OF sane_fleet_config_of refl, of default_env
      "\<lparr>last_execution_started_at = None, schedule_anchor_at = None, schedule_sample_count = 0\<rparr>" 1000 "''i''"] by simp

theorem schedule_learning_witness:
  "\<exists>anchor n. learn_schedule (fleet_config_of default_env) \<lparr>last_execution_started_at = Some 5000000,
      schedule_anchor_at = Some 5000000, schedule_sample_count = 3\<rparr> 6800000 = (anchor, n, OffCycle) \<and> Some anchor = Some 5000000"
proof -
  let ?row = "\<lparr>last_execution_started_at = Some 5000000, schedule_anchor_at = Some 5000000, schedule_sample_count = 3\<rparr>"
  obtain anchor n mode where l: "learn_schedule (fleet_config_of default_env) ?row 6800000 = (anchor, n, mode)"
    by (metis prod_cases3)
  have "(case learn_schedule (fleet_config_of default_env) ?row 6800000 of (_, _, m) \<Rightarrow> m = OffCycle)" by code_simp
  then have m: "mode = OffCycle" by (simp add: l)
  from schedule_learning [OF l] l m show ?thesis by simp
qed

end
