(* ===== verification/Bridge_Tables.thy ===== *)
theory Bridge_Tables
  imports Capture_Suffix Fleet_Schedule
    "HOL-Library.Char_ord" "HOL-Library.List_Lexorder" "HOL-Library.Product_Lexorder"
begin

text \<open>
  The relational state behind \<open>web/lib/script-bridge-store.ts\<close>, one record per table of
  \<open>migrations/\<close> with the columns the store reads or writes, and the errors its operations throw.
  A handler runs inside one transaction: its model takes the database and returns either the error,
  in which case the transaction is rolled back and the database is unchanged, or the new database
  and the handler's result. Text is ordered bytewise. SHA-256 (\<open>digest\<close>), fresh identifiers and
  the clock are parameters.
\<close>

record target_row =
  t_target_id :: string
  t_campaign_record_id :: string
  t_campaign_name :: string
  t_manager_customer_id :: string
  t_customer_id :: string
  t_google_campaign_id :: string
  t_shard_id :: string
  t_enabled :: bool
  t_min_delivery_interval_ms :: ms
  t_last_applied_at :: "time option"
  t_last_applied_suffix_hash :: "string option"
  t_archived_at :: "time option"
  t_updated_at :: time

record capture_row =
  c_capture_id :: int
  c_target_id :: string
  c_version :: int
  c_exact_suffix :: string
  c_suffix_hash :: string
  c_source_run_id :: "string option"
  c_egress_identity :: "string option"
  c_captured_at :: time

datatype job_state = Pending | Leased | Applied | Failed | Dead | Superseded

record job_row =
  j_job_id :: string
  j_target_id :: string
  j_capture_id :: int
  j_state :: job_state
  j_attempt_count :: int
  j_available_at :: time
  j_leased_at :: "time option"
  j_leased_until :: "time option"
  j_lease_token_hash :: "string option"
  j_worker_id :: "string option"
  j_lease_shard_id :: "string option"
  j_applied_at :: "time option"
  j_verified_suffix_hash :: "string option"
  j_last_error :: "string option"
  j_created_at :: time
  j_updated_at :: time

record shard_row =
  s_shard_id :: string
  s_token_hash :: string
  s_enabled :: bool
  s_deleted_at :: "time option"
  s_last_poll_at :: "time option"
  s_last_ack_at :: "time option"
  s_last_error :: "string option"
  s_previous_execution_started_at :: "time option"
  s_last_execution_started_at :: "time option"
  s_last_execution_completed_at :: "time option"
  s_last_invocation_id :: "string option"
  s_last_execution_status :: "string option"
  s_schedule_anchor_at :: "time option"
  s_schedule_sample_count :: int
  s_expected_next_start_at :: "time option"
  s_phase_one_stop_at :: "time option"
  s_hard_stop_at :: "time option"
  s_handoff_margin_ms :: ms
  s_updated_at :: time

record activity_row =
  a_shard_id :: string
  a_customer_id :: string
  a_manifest_seen_at :: "time option"
  a_last_poll_at :: "time option"
  a_worker_id :: "string option"

record audit_row =
  au_action :: string
  au_resource_type :: string
  au_resource_id :: string

record alert_row =
  al_fingerprint :: string
  al_scope :: string
  al_shard_id :: "string option"
  al_resolved :: bool
  al_resolved_at :: "time option"

record heartbeat_row =
  hb_component_id :: string
  hb_component_type :: string

text \<open>The health tables are created by another service; \<open>None\<close> is a table that does not exist
  (\<open>to_regclass\<close> returns NULL).\<close>

record fleet_db =
  targets :: "target_row list"
  captures :: "capture_row list"
  jobs :: "job_row list"
  shards :: "shard_row list"
  shard_managers :: "(string \<times> string) list"
  activity :: "activity_row list"
  audit_log :: "audit_row list"
  next_capture_id :: int
  health_alerts :: "alert_row list option"
  heartbeats :: "heartbeat_row list option"

datatype bridge_error =
    RecordIdRequired
  | CustomerAndCampaignRequired
  | InvalidManagerId
  | InvalidCustomerId
  | InvalidCampaignId
  | InvalidShardId
  | InvalidTargetId
  | InvalidRecordId
  | StrongTokenRequired
  | ConfirmationRequired
  | ShardMixedManagers string
  | ShardBelongsTo string string
  | ShardDifferentManager string
  | ShardDeleted
  | ShardInactive
  | ShardNotFound
  | ShardNotRegistered
  | ShardHasCampaigns
  | ShardHasActiveLease
  | ShardExecutionRunning
  | NoExecutionWindow
  | TargetOwnedElsewhere
  | RecordAssignedElsewhere
  | TargetNotFound
  | TargetMissing
  | TargetSelectorRequired
  | UndeliverableSuffix suffix_issue
  | UniqueViolation
  | CheckViolation
  | IntegerOutOfRange

section \<open>Reading the tables\<close>

abbreviation target_of :: "fleet_db \<Rightarrow> string \<Rightarrow> target_row option" where
  "target_of db tid \<equiv> lookup_by t_target_id tid (targets db)"

abbreviation shard_of :: "fleet_db \<Rightarrow> string \<Rightarrow> shard_row option" where
  "shard_of db sid \<equiv> lookup_by s_shard_id sid (shards db)"

abbreviation capture_of :: "fleet_db \<Rightarrow> int \<Rightarrow> capture_row option" where
  "capture_of db cid \<equiv> lookup_by c_capture_id cid (captures db)"

abbreviation job_of :: "fleet_db \<Rightarrow> string \<Rightarrow> job_row option" where
  "job_of db jid \<equiv> lookup_by j_job_id jid (jobs db)"

abbreviation manager_of :: "fleet_db \<Rightarrow> string \<Rightarrow> string option" where
  "manager_of db sid \<equiv> map_of (shard_managers db) sid"

text \<open>\<open>ORDER BY captured_at DESC, capture_id DESC LIMIT 1\<close>.\<close>

definition capture_key :: "capture_row \<Rightarrow> time \<times> int" where
  "capture_key c = (c_captured_at c, c_capture_id c)"

fun newest_capture :: "capture_row list \<Rightarrow> capture_row option" where
  "newest_capture [] = None"
| "newest_capture (c # cs) =
     (case newest_capture cs of
        None \<Rightarrow> Some c
      | Some d \<Rightarrow> if capture_key c < capture_key d then Some d else Some c)"

definition latest_capture :: "fleet_db \<Rightarrow> string \<Rightarrow> capture_row option" where
  "latest_capture db tid = newest_capture (filter (\<lambda>c. c_target_id c = tid) (captures db))"

definition is_latest :: "fleet_db \<Rightarrow> job_row \<Rightarrow> bool" where
  "is_latest db j \<longleftrightarrow> map_option c_capture_id (latest_capture db (j_target_id j)) = Some (j_capture_id j)"

section \<open>Identifiers\<close>

definition normalizeId :: "string \<Rightarrow> string" where
  "normalizeId value = filter is_digit value"

definition digits10 :: "string \<Rightarrow> bool" where
  "digits10 s \<longleftrightarrow> length s = 10 \<and> list_all is_digit s"

definition digits8to20 :: "string \<Rightarrow> bool" where
  "digits8to20 s \<longleftrightarrow> 8 \<le> length s \<and> length s \<le> 20 \<and> list_all is_digit s"

definition shard_name_char :: "char \<Rightarrow> bool" where
  "shard_name_char c \<longleftrightarrow> is_alnum c \<or> c \<in> {CHR ''.'', CHR ''_'', CHR '':'', CHR ''-''}"

definition shard_name :: "string \<Rightarrow> bool" where
  "shard_name s = (case s of [] \<Rightarrow> False | c # r \<Rightarrow> is_alnum c \<and> length r \<le> 79 \<and> list_all shard_name_char r)"

definition normalizeFleetShardId :: "string \<Rightarrow> bridge_error + string" where
  "normalizeFleetShardId value =
     (let i = js_trim value in if shard_name i then Inr i else Inl InvalidShardId)"

definition normalizeFleetManagerId :: "string \<Rightarrow> bridge_error + string" where
  "normalizeFleetManagerId value =
     (let raw = js_trim value; i = filter (\<lambda>c. \<not> (js_space c \<or> c = CHR ''-'')) raw
      in if raw = [] \<or> \<not> list_all (\<lambda>c. is_digit c \<or> js_space c \<or> c = CHR ''-'') raw \<or> \<not> digits10 i
         then Inl InvalidManagerId else Inr i)"

record target_input =
  in_campaignRecordId :: string
  in_campaignName :: string
  in_managerCustomerId :: string
  in_customerId :: string
  in_googleCampaignId :: string
  in_shardId :: string

text \<open>An optional field of the input that is absent is the empty string, which the code treats alike
  (\<open>input.managerCustomerId || ""\<close>, \<open>input.shardId || "default"\<close>).\<close>

definition targetId :: "(string \<Rightarrow> string) \<Rightarrow> target_input \<Rightarrow> string" where
  "targetId digest input =
     take 40 (digest (normalizeId (in_managerCustomerId input) @ '':'' @
                      normalizeId (in_customerId input) @ '':'' @
                      normalizeId (in_googleCampaignId input)))"

section \<open>Facts about newest captures and identifiers\<close>

lemma newest_capture_None [simp]: "newest_capture cs = None \<longleftrightarrow> cs = []"
  by (cases cs) (auto split: option.splits)

lemma newest_capture_max:
  "newest_capture cs = Some c \<Longrightarrow> c \<in> set cs \<and> (\<forall>d\<in>set cs. capture_key d \<le> capture_key c)"
proof (induction cs arbitrary: c)
  case Nil
  then show ?case by simp
next
  case (Cons a cs)
  show ?case
  proof (cases "newest_capture cs")
    case None
    with Cons.prems show ?thesis by simp
  next
    case (Some d)
    with Cons.IH [OF Some] Cons.prems show ?thesis
      by (cases "capture_key a < capture_key d") force+
  qed
qed

lemma latest_capture_SomeD:
  assumes "latest_capture db tid = Some c"
  shows "c \<in> set (captures db)" "c_target_id c = tid"
    "\<And>d. d \<in> set (captures db) \<Longrightarrow> c_target_id d = tid \<Longrightarrow> capture_key d \<le> capture_key c"
  using newest_capture_max [of "filter (\<lambda>c. c_target_id c = tid) (captures db)" c] assms
  by (auto simp: latest_capture_def)

lemma latest_capture_cong: "captures db = captures db' \<Longrightarrow> latest_capture db = latest_capture db'"
  by (simp add: latest_capture_def fun_eq_iff)

lemma latest_capture_captures [simp]:
  "latest_capture (db\<lparr>jobs := x\<rparr>) = latest_capture db"
  "latest_capture (db\<lparr>targets := y\<rparr>) = latest_capture db"
  "latest_capture (db\<lparr>shards := z\<rparr>) = latest_capture db"
  "latest_capture (db\<lparr>activity := a\<rparr>) = latest_capture db"
  "latest_capture (db\<lparr>shard_managers := b\<rparr>) = latest_capture db"
  by (rule latest_capture_cong, simp)+

lemma is_latest_captures [simp]:
  "is_latest (db\<lparr>jobs := x\<rparr>) = is_latest db"
  "is_latest (db\<lparr>targets := y\<rparr>) = is_latest db"
  "is_latest (db\<lparr>shards := z\<rparr>) = is_latest db"
  "is_latest (db\<lparr>activity := a\<rparr>) = is_latest db"
  by (simp_all add: is_latest_def fun_eq_iff)

lemma filter_eq_idI: "list_all p xs \<Longrightarrow> filter p xs = xs"
  by (induction xs) auto

lemma is_digit_not_space: "is_digit c \<Longrightarrow> \<not> js_space c \<and> c \<noteq> CHR ''-''"
  by (auto simp: is_digit_def js_space_def)

lemma digits10_trim: "digits10 m \<Longrightarrow> js_trim m = m"
proof -
  assume "digits10 m"
  then have d: "\<And>c. c \<in> set m \<Longrightarrow> \<not> js_space c"
    by (auto simp: digits10_def list_all_iff dest: is_digit_not_space)
  have id: "\<And>s. set s \<subseteq> set m \<Longrightarrow> dropWhile js_space s = s"
    by (rule dropWhile_hd) (metis d hd_in_set subsetD)
  show "js_trim m = m" by (simp add: js_trim_def id)
qed

lemma normalizeFleetManagerId_Inr_digits:
  "normalizeFleetManagerId v = Inr m \<Longrightarrow> digits10 m"
  by (auto simp: normalizeFleetManagerId_def Let_def split: if_splits)

lemma normalizeFleetManagerId_digits10:
  assumes "digits10 m"
  shows "normalizeFleetManagerId m = Inr m"
proof -
  have d: "c \<in> set m \<Longrightarrow> is_digit c" for c using assms by (auto simp: digits10_def list_all_iff)
  have f: "filter (\<lambda>c. \<not> (js_space c \<or> c = CHR ''-'')) m = m"
    by (rule filter_eq_idI) (auto simp: list_all_iff dest!: d is_digit_not_space)
  have ne: "m \<noteq> []" using assms by (auto simp: digits10_def)
  have al: "list_all (\<lambda>c. is_digit c \<or> js_space c \<or> c = CHR ''-'') m" using d by (auto simp: list_all_iff)
  show ?thesis
    unfolding normalizeFleetManagerId_def Let_def digits10_trim [OF assms] f using ne al assms by simp
qed

lemma normalizeFleetShardId_Inr:
  "normalizeFleetShardId v = Inr i \<longleftrightarrow> i = js_trim v \<and> shard_name i"
  by (auto simp: normalizeFleetShardId_def Let_def)

end
