(* ===== verification/Bridge_Enrollment.thy ===== *)
theory Bridge_Enrollment
  imports Bridge_Tables
begin

text \<open>
  Enrollment of campaigns into Fleet shards (\<open>web/lib/script-bridge-store.ts\<close>): binding a shard
  to one Google Ads manager account, registering and deleting shards, assigning a campaign to a shard
  with free capacity, pausing, resuming and removing campaigns. Every handler is one transaction
  under the advisory lock \<open>fleet-enrollment-assignment\<close>, so enrollments are serialised.
\<close>

section \<open>Shard guards and the manager binding\<close>

definition shard_deleted :: "fleet_db \<Rightarrow> string \<Rightarrow> bool" where
  "shard_deleted db sid = (case shard_of db sid of None \<Rightarrow> False | Some s \<Rightarrow> s_deleted_at s \<noteq> None)"

definition assertShardNotDeleted :: "fleet_db \<Rightarrow> string \<Rightarrow> bridge_error + unit" where
  "assertShardNotDeleted db sid = throwIf (shard_deleted db sid) ShardDeleted"

definition lockActiveShard :: "fleet_db \<Rightarrow> string \<Rightarrow> bridge_error + unit" where
  "lockActiveShard db sid =
     (case shard_of db sid of
        None \<Rightarrow> Inl ShardInactive
      | Some s \<Rightarrow> throwIf (\<not> s_enabled s \<or> s_deleted_at s \<noteq> None) ShardInactive)"

definition live_targets :: "fleet_db \<Rightarrow> string \<Rightarrow> target_row list" where
  "live_targets db sid = filter (\<lambda>t. t_shard_id t = sid \<and> t_archived_at t = None) (targets db)"

definition bindFleetShardManager ::
  "fleet_db \<Rightarrow> string \<Rightarrow> string \<Rightarrow> bridge_error + string \<times> fleet_db" where
  "bindFleetShardManager db sid requested =
     bindE (assertShardNotDeleted db sid) (\<lambda>_.
     bindE (mapE normalizeFleetManagerId (filter (\<lambda>m. m \<noteq> [])
              ((case manager_of db sid of None \<Rightarrow> [] | Some m \<Rightarrow> [m])
               @ remdups (map t_manager_customer_id (live_targets db sid))))) (\<lambda>ms.
     let managers = remdups (ms @ (if requested = [] then [] else [requested]))
     in if length managers > 1 then Inl (ShardDifferentManager sid)
        else (case managers of
            [] \<Rightarrow> Inr ([], db)
          | m # _ \<Rightarrow>
              (case manager_of db sid of
                 None \<Rightarrow> Inr (m, db\<lparr>shard_managers := (sid, m) # shard_managers db\<rparr>)
               | Some m' \<Rightarrow> if m' = m then Inr (m, db) else Inl (ShardDifferentManager [])))))"

section \<open>Choosing a shard\<close>

text \<open>\<open>WHERE enabled AND shard_id=$1 AND campaign_record_id<>$2\<close>.\<close>

definition occupants :: "fleet_db \<Rightarrow> string \<Rightarrow> string \<Rightarrow> target_row list" where
  "occupants db sid rec =
     filter (\<lambda>t. t_enabled t \<and> t_shard_id t = sid \<and> t_campaign_record_id t \<noteq> rec) (targets db)"

definition managers_in :: "target_row list \<Rightarrow> string list" where
  "managers_in ts = filter (\<lambda>m. m \<noteq> []) (map t_manager_customer_id ts)"

definition min_text :: "string list \<Rightarrow> string option" where
  "min_text xs = (case xs of [] \<Rightarrow> None | x # r \<Rightarrow> Some (fold min r x))"

definition shard_ids_like :: "fleet_db \<Rightarrow> string \<Rightarrow> string list" where
  "shard_ids_like db prefix =
     remdups (filter (starts_with prefix) (map s_shard_id (shards db) @ map t_shard_id (targets db)))"

definition available_shard :: "fleet_db \<Rightarrow> string \<Rightarrow> string \<Rightarrow> string \<Rightarrow> string option" where
  "available_shard db mgr rec prefix =
     find (\<lambda>sid. \<not> shard_deleted db sid
               \<and> (manager_of db sid = None \<or> manager_of db sid = Some mgr)
               \<and> length (occupants db sid rec) < SHARD_CAPACITY
               \<and> (let m = min_text (managers_in (filter (\<lambda>t. t_enabled t \<and> t_shard_id t = sid) (targets db)))
                  in m = None \<or> m = Some mgr))
       (sort (shard_ids_like db prefix))"

text \<open>The number of a shard id \<open>prefix<digits>\<close>.\<close>

definition shard_number :: "string \<Rightarrow> string \<Rightarrow> nat option" where
  "shard_number prefix sid =
     (let ds = drop (length prefix) sid
      in if starts_with prefix sid \<and> ds \<noteq> [] \<and> list_all is_digit ds then Some (digits_value ds 0) else None)"

definition highest_number :: "string \<Rightarrow> string list \<Rightarrow> nat" where
  "highest_number prefix ids =
     fold (\<lambda>sid cur. case shard_number prefix sid of Some n \<Rightarrow> max cur n | None \<Rightarrow> cur) ids 0"

definition padStart3 :: "string \<Rightarrow> string" where
  "padStart3 s = replicate (3 - length s) CHR ''0'' @ s"

definition fresh_shard :: "fleet_db \<Rightarrow> string \<Rightarrow> string" where
  "fresh_shard db prefix =
     prefix @ padStart3 (nat_digits (Suc (highest_number prefix (shard_ids_like db prefix))))"

definition shard_prefix :: "string \<Rightarrow> string" where
  "shard_prefix mgr = ''mcc-'' @ mgr @ ''-''"

text \<open>The occupancy checks on the first choice and the fallback when it is full or retired.\<close>

definition choose_shard ::
  "fleet_db \<Rightarrow> string \<Rightarrow> string \<Rightarrow> string \<Rightarrow> bool \<Rightarrow> bridge_error + string" where
  "choose_shard db mgr rec sid retired =
     (let occ = occupants db sid rec; ms = managers_in occ in
      if length (remdups ms) > 1 then Inl (ShardMixedManagers sid)
      else if (case min_text ms of None \<Rightarrow> False | Some m \<Rightarrow> m \<noteq> mgr)
        then Inl (ShardBelongsTo sid (case min_text ms of None \<Rightarrow> [] | Some m \<Rightarrow> m))
      else if length occ \<ge> SHARD_CAPACITY \<or> retired
        then Inr (case available_shard db mgr rec (shard_prefix mgr) of
                    Some s \<Rightarrow> s | None \<Rightarrow> fresh_shard db (shard_prefix mgr))
      else Inr sid)"

section \<open>\<open>upsertBridgeTarget\<close>\<close>

definition requested_shard :: "target_input \<Rightarrow> string" where
  "requested_shard input = js_trim (if in_shardId input = [] then ''default'' else in_shardId input)"

definition validate_target :: "target_input \<Rightarrow> bridge_error + unit" where
  "validate_target input =
     (let mgr = normalizeId (in_managerCustomerId input); cust = normalizeId (in_customerId input);
          camp = normalizeId (in_googleCampaignId input) in
      if js_trim (in_campaignRecordId input) = [] then Inl RecordIdRequired
      else if cust = [] \<or> camp = [] then Inl CustomerAndCampaignRequired
      else if \<not> digits10 mgr then Inl InvalidManagerId
      else if \<not> digits10 cust then Inl InvalidCustomerId
      else if \<not> digits8to20 camp then Inl InvalidCampaignId
      else if \<not> shard_name (requested_shard input) then Inl InvalidShardId
      else Inr ())"

definition target_values ::
  "fleet_config \<Rightarrow> target_input \<Rightarrow> string \<Rightarrow> time \<Rightarrow> target_row \<Rightarrow> target_row" where
  "target_values cfg input sid now t = t\<lparr>
     t_campaign_record_id := in_campaignRecordId input,
     t_campaign_name := in_campaignName input,
     t_manager_customer_id := normalizeId (in_managerCustomerId input),
     t_customer_id := normalizeId (in_customerId input),
     t_google_campaign_id := normalizeId (in_googleCampaignId input),
     t_shard_id := sid,
     t_min_delivery_interval_ms := MIN_INTERVAL_MS cfg,
     t_enabled := True, t_archived_at := None, t_updated_at := now \<rparr>"

definition blank_target :: "string \<Rightarrow> target_row" where
  "blank_target tid = \<lparr>
     t_target_id = tid, t_campaign_record_id = [], t_campaign_name = [], t_manager_customer_id = [],
     t_customer_id = [], t_google_campaign_id = [], t_shard_id = [], t_enabled = True,
     t_min_delivery_interval_ms = 0, t_last_applied_at = None, t_last_applied_suffix_hash = None,
     t_archived_at = None, t_updated_at = 0 \<rparr>"

definition triple_taken :: "fleet_db \<Rightarrow> target_input \<Rightarrow> string \<Rightarrow> bool" where
  "triple_taken db input tid \<longleftrightarrow>
     (\<exists>t\<in>set (targets db). t_target_id t \<noteq> tid
        \<and> t_manager_customer_id t = normalizeId (in_managerCustomerId input)
        \<and> t_customer_id t = normalizeId (in_customerId input)
        \<and> t_google_campaign_id t = normalizeId (in_googleCampaignId input))"

text \<open>The conflict checks and the final UPDATE or INSERT. A violated unique constraint is SQL error
  23505, which the handler reports as \<open>TargetOwnedElsewhere\<close>.\<close>

definition save_target ::
  "fleet_config \<Rightarrow> target_input \<Rightarrow> string \<Rightarrow> string \<Rightarrow> time \<Rightarrow> fleet_db \<Rightarrow> bridge_error + fleet_db" where
  "save_target cfg input tid sid now db =
     (let targetOwner = target_of db tid;
          recordOwner = lookup_by t_campaign_record_id (in_campaignRecordId input) (targets db) in
      if (case targetOwner of None \<Rightarrow> False
          | Some t \<Rightarrow> t_campaign_record_id t \<noteq> in_campaignRecordId input \<and> t_enabled t \<and> t_archived_at t = None)
        then Inl TargetOwnedElsewhere
      else if (case recordOwner of None \<Rightarrow> False | Some t \<Rightarrow> t_target_id t \<noteq> tid)
        then Inl RecordAssignedElsewhere
      else if triple_taken db input tid then Inl TargetOwnedElsewhere
      else Inr (case targetOwner of
          Some _ \<Rightarrow> db\<lparr>targets := update_where (\<lambda>t. t_target_id t = tid) (target_values cfg input sid now) (targets db)\<rparr>
        | None \<Rightarrow> db\<lparr>targets := targets db @ [target_values cfg input sid now (blank_target tid)]\<rparr>))"

definition upsertBridgeTarget ::
  "fleet_config \<Rightarrow> (string \<Rightarrow> string) \<Rightarrow> time \<Rightarrow> target_input \<Rightarrow> fleet_db
    \<Rightarrow> bridge_error + (string \<times> string) \<times> fleet_db" where
  "upsertBridgeTarget cfg digest now input db =
     bindE (validate_target input) (\<lambda>_.
     let mgr = normalizeId (in_managerCustomerId input);
         requested = requested_shard input;
         tid = targetId digest input;
         first = (if requested = ''default'' then shard_prefix mgr @ ''001'' else requested);
         retired = shard_deleted db first in
     bindE (if requested \<noteq> ''default'' \<or> \<not> retired then bindFleetShardManager db first mgr else Inr ([], db)) (\<lambda>(_, db1).
     bindE (choose_shard db1 mgr (in_campaignRecordId input) first retired) (\<lambda>sid.
     bindE (bindFleetShardManager db1 sid mgr) (\<lambda>(_, db2).
     bindE (save_target cfg input tid sid now db2) (\<lambda>db3. Inr ((tid, sid), db3))))))"

section \<open>Shards\<close>

definition new_shard :: "string \<Rightarrow> string \<Rightarrow> time \<Rightarrow> shard_row" where
  "new_shard sid hash now = \<lparr>
     s_shard_id = sid, s_token_hash = hash, s_enabled = True, s_deleted_at = None,
     s_last_poll_at = None, s_last_ack_at = None, s_last_error = None,
     s_previous_execution_started_at = None, s_last_execution_started_at = None,
     s_last_execution_completed_at = None, s_last_invocation_id = None,
     s_last_execution_status = None, s_schedule_anchor_at = None, s_schedule_sample_count = 0,
     s_expected_next_start_at = None, s_phase_one_stop_at = None, s_hard_stop_at = None,
     s_handoff_margin_ms = 120000, s_updated_at = now \<rparr>"

definition registerBridgeShard ::
  "(string \<Rightarrow> string) \<Rightarrow> time \<Rightarrow> string \<Rightarrow> string \<Rightarrow> string \<Rightarrow> fleet_db
    \<Rightarrow> bridge_error + (string \<times> string) \<times> fleet_db" where
  "registerBridgeShard digest now shardId rawToken requestedManager db =
     bindE (normalizeFleetShardId shardId) (\<lambda>sid.
     bindE (throwIf (length rawToken < 24) StrongTokenRequired) (\<lambda>_.
     bindE (if requestedManager = [] then Inr [] else normalizeFleetManagerId requestedManager) (\<lambda>mgr.
     bindE (bindFleetShardManager db sid mgr) (\<lambda>(m, db1).
       Inr ((sid, m),
         (case shard_of db1 sid of
            None \<Rightarrow> db1\<lparr>shards := shards db1 @ [new_shard sid (digest rawToken) now]\<rparr>
          | Some _ \<Rightarrow> db1\<lparr>shards := update_where (\<lambda>s. s_shard_id s = sid)
                (\<lambda>s. s\<lparr>s_token_hash := digest rawToken, s_enabled := True, s_updated_at := now\<rparr>) (shards db1)\<rparr>))))))"

text \<open>\<open>createBridgeShard\<close> generates the token and returns it once.\<close>

definition createBridgeShard ::
  "(string \<Rightarrow> string) \<Rightarrow> time \<Rightarrow> string \<Rightarrow> string \<Rightarrow> string \<Rightarrow> fleet_db
    \<Rightarrow> bridge_error + (string \<times> string \<times> string) \<times> fleet_db" where
  "createBridgeShard digest now token shardId requestedManager db =
     bindE (registerBridgeShard digest now shardId token requestedManager db)
       (\<lambda>((sid, m), db'). Inr ((sid, m, token), db'))"

definition authenticateBridgeShard ::
  "(string \<Rightarrow> string) \<Rightarrow> string \<Rightarrow> string \<Rightarrow> fleet_db \<Rightarrow> bool" where
  "authenticateBridgeShard digest shardId rawToken db =
     (rawToken \<noteq> [] \<and>
      (case shard_of db shardId of
         None \<Rightarrow> False
       | Some s \<Rightarrow> s_deleted_at s = None \<and> s_enabled s \<and> s_token_hash s = digest rawToken))"

datatype delete_result = AlreadyDeleted | DeletedNow

definition terminal_statuses :: "string list" where
  "terminal_statuses = [''completed'', ''yielded'', ''empty'', ''failed'']"

text \<open>The window in which the shard's last execution may still be running.\<close>

definition execution_may_run :: "shard_row \<Rightarrow> time \<Rightarrow> bool" where
  "execution_may_run s now =
     (let terminal = (case s_last_execution_status s of None \<Rightarrow> False | Some st \<Rightarrow> st \<in> set terminal_statuses);
          startedAt = dateMs (s_last_execution_started_at s);
          finishedAt = dateMs (s_last_execution_completed_at s);
          hardStop = dateMs (s_hard_stop_at s);
          lastPoll = dateMs (s_last_poll_at s);
          activeUntil = (if startedAt \<noteq> 0 then (if hardStop \<noteq> 0 then hardStop else startedAt + 65 * 60000)
                         else if lastPoll \<noteq> 0 then lastPoll + 65 * 60000 else 0)
      in (startedAt = 0 \<or> (\<not> terminal \<and> finishedAt < startedAt)) \<and> activeUntil > now)"

definition holds_active_lease :: "fleet_db \<Rightarrow> string \<Rightarrow> time \<Rightarrow> job_row \<Rightarrow> bool" where
  "holds_active_lease db sid now j =
     (case target_of db (j_target_id j) of
        None \<Rightarrow> False
      | Some t \<Rightarrow> j_state j = Leased
          \<and> (case j_leased_until j of None \<Rightarrow> True | Some u \<Rightarrow> now \<le> u)
          \<and> (case j_lease_shard_id j of Some l \<Rightarrow> l = sid | None \<Rightarrow> t_shard_id t = sid))"

text \<open>The writes of a successful deletion: the tombstone with a revoked token, the audit entry and the
  clearing of current health state.\<close>

definition mark_shard_deleted :: "(string \<Rightarrow> string) \<Rightarrow> time \<Rightarrow> string \<Rightarrow> string \<Rightarrow> fleet_db \<Rightarrow> fleet_db" where
  "mark_shard_deleted digest now newToken sid db = db\<lparr>
     shards := update_where (\<lambda>r. s_shard_id r = sid)
       (\<lambda>r. r\<lparr>s_enabled := False, s_deleted_at := Some now, s_token_hash := digest newToken, s_updated_at := now\<rparr>)
       (shards db),
     audit_log := audit_log db @ [\<lparr>au_action = ''fleet.shard.deleted'', au_resource_type = ''script_shard'', au_resource_id = sid\<rparr>],
     health_alerts := map_option (update_where
        (\<lambda>a. al_shard_id a = Some sid \<and> al_scope a = ''script-fleet'' \<and> \<not> al_resolved a)
        (\<lambda>a. a\<lparr>al_resolved := True, al_resolved_at := Some now\<rparr>)) (health_alerts db),
     heartbeats := map_option (filter (\<lambda>h. \<not> (hb_component_type h = ''apps-script-shard''
        \<and> hb_component_id h = ''shard:'' @ sid))) (heartbeats db) \<rparr>"

definition deleteBridgeShard ::
  "(string \<Rightarrow> string) \<Rightarrow> time \<Rightarrow> string \<Rightarrow> string \<Rightarrow> string \<Rightarrow> fleet_db
    \<Rightarrow> bridge_error + delete_result \<times> fleet_db" where
  "deleteBridgeShard digest now newToken shardId confirmed db =
     bindE (normalizeFleetShardId shardId) (\<lambda>sid.
     bindE (throwIf (confirmed \<noteq> sid) ConfirmationRequired) (\<lambda>_.
     case shard_of db sid of
       None \<Rightarrow> Inl ShardNotRegistered
     | Some s \<Rightarrow>
        if s_deleted_at s \<noteq> None then Inr (AlreadyDeleted, db)
        else if live_targets db sid \<noteq> [] then Inl ShardHasCampaigns
        else if list_ex (holds_active_lease db sid now) (jobs db) then Inl ShardHasActiveLease
        else if execution_may_run s now then Inl ShardExecutionRunning
        else Inr (DeletedNow, mark_shard_deleted digest now newToken sid db)))"

definition completeBridgeInvocation ::
  "time \<Rightarrow> string \<Rightarrow> string \<Rightarrow> string \<Rightarrow> fleet_db \<Rightarrow> bool \<times> fleet_db" where
  "completeBridgeInvocation now sid invocationId status db =
     (let st = (if status \<in> set terminal_statuses then status else ''completed'');
          hit = (\<lambda>s. s_shard_id s = sid \<and> s_last_invocation_id s = Some invocationId)
      in (list_ex hit (shards db),
          db\<lparr>shards := update_where hit (\<lambda>s. s\<lparr>s_last_execution_completed_at := Some now,
               s_last_execution_status := Some st, s_updated_at := now\<rparr>) (shards db)\<rparr>))"

section \<open>Pausing, resuming and removing a campaign\<close>

definition clear_lease :: "time \<Rightarrow> job_row \<Rightarrow> job_row" where
  "clear_lease now j = j\<lparr>j_leased_at := None, j_leased_until := None, j_lease_token_hash := None,
     j_worker_id := None, j_updated_at := now\<rparr>"

definition supersede :: "time \<Rightarrow> job_row \<Rightarrow> job_row" where
  "supersede now j = (clear_lease now j)\<lparr>j_state := Superseded\<rparr>"

definition live_record :: "string \<Rightarrow> target_row \<Rightarrow> bool" where
  "live_record rec t \<longleftrightarrow> t_campaign_record_id t = rec \<and> t_archived_at t = None"

definition setBridgeTargetEnabled ::
  "time \<Rightarrow> string \<Rightarrow> bool \<Rightarrow> fleet_db \<Rightarrow> bridge_error + fleet_db" where
  "setBridgeTargetEnabled now rec enabled db =
     bindE (if enabled then
         (case find (live_record rec) (targets db) of
            None \<Rightarrow> Inl TargetMissing
          | Some t \<Rightarrow> bindE (normalizeFleetManagerId (t_manager_customer_id t)) (\<lambda>m.
                      bindE (bindFleetShardManager db (t_shard_id t) m) (\<lambda>(_, db1). Inr db1)))
       else Inr db) (\<lambda>db1.
     case find (live_record rec) (targets db1) of
       None \<Rightarrow> Inl TargetMissing
     | Some t \<Rightarrow>
        (let db2 = db1\<lparr>targets := update_where (live_record rec)
               (\<lambda>t. t\<lparr>t_enabled := enabled, t_updated_at := now\<rparr>) (targets db1)\<rparr>
         in Inr (if enabled then db2
                 else db2\<lparr>jobs := update_where
                   (\<lambda>j. j_target_id j = t_target_id t \<and> j_state j \<in> {Pending, Failed, Leased})
                   (supersede now) (jobs db2)\<rparr>)))"

definition hex40 :: "string \<Rightarrow> bool" where
  "hex40 s \<longleftrightarrow> length s = 40 \<and> list_all (\<lambda>c. hex_value c \<noteq> None) s"

text \<open>Deleting a target cascades to its captures and jobs (foreign keys ON DELETE CASCADE).\<close>

definition remove_target :: "string \<Rightarrow> fleet_db \<Rightarrow> fleet_db" where
  "remove_target tid db = db\<lparr>
     targets := filter (\<lambda>t. t_target_id t \<noteq> tid) (targets db),
     captures := filter (\<lambda>c. c_target_id c \<noteq> tid) (captures db),
     jobs := filter (\<lambda>j. j_target_id j \<noteq> tid \<and>
               (\<forall>c\<in>set (captures db). c_capture_id c = j_capture_id j \<longrightarrow> c_target_id c \<noteq> tid)) (jobs db) \<rparr>"

definition deleteBridgeTarget ::
  "string \<Rightarrow> string \<Rightarrow> fleet_db \<Rightarrow> bridge_error + target_row option \<times> fleet_db" where
  "deleteBridgeTarget targetIdInput recordInput db =
     (let tid = js_trim targetIdInput; rec = js_trim recordInput in
      if tid \<noteq> [] \<and> \<not> hex40 tid then Inl InvalidTargetId
      else if tid = [] \<and> rec = [] then Inl TargetSelectorRequired
      else if length rec > 120 then Inl InvalidRecordId
      else (case (if tid \<noteq> [] then target_of db tid else lookup_by t_campaign_record_id rec (targets db)) of
          None \<Rightarrow> Inr (None, db)
        | Some t \<Rightarrow> Inr (Some t, remove_target (t_target_id t)
            (db\<lparr>audit_log := audit_log db @ [\<lparr>au_action = ''fleet.target.deleted'',
                  au_resource_type = ''fleet_target'', au_resource_id = t_target_id t\<rparr>]\<rparr>))))"

end
