(* ===== verification/Bridge_Ownership.thy ===== *)
theory Bridge_Ownership
  imports Bridge_Enrollment
begin

text \<open>
  What enrollment guarantees: a shard only ever holds campaigns of the one manager account it is
  bound to, bindings never change, deleted shards stay empty and their names stay reserved, and an
  enrollment never fills a shard beyond its capacity.
\<close>

section \<open>Invariants\<close>

definition keys_ok :: "fleet_db \<Rightarrow> bool" where
  "keys_ok db \<longleftrightarrow> distinct (map t_target_id (targets db)) \<and> distinct (map t_campaign_record_id (targets db))
     \<and> distinct (map s_shard_id (shards db))"

definition owned :: "fleet_db \<Rightarrow> bool" where
  "owned db \<longleftrightarrow> (\<forall>t\<in>set (targets db). t_archived_at t = None \<longrightarrow>
     digits10 (t_manager_customer_id t) \<and> manager_of db (t_shard_id t) = Some (t_manager_customer_id t)
     \<and> \<not> shard_deleted db (t_shard_id t))"

definition enrollment_inv :: "fleet_db \<Rightarrow> bool" where
  "enrollment_inv db \<longleftrightarrow> keys_ok db \<and> owned db"

definition enabled_on :: "fleet_db \<Rightarrow> string \<Rightarrow> target_row list" where
  "enabled_on db sid = filter (\<lambda>t. t_enabled t \<and> t_shard_id t = sid) (targets db)"

definition within_capacity :: "fleet_db \<Rightarrow> bool" where
  "within_capacity db \<longleftrightarrow> (\<forall>sid. length (enabled_on db sid) \<le> SHARD_CAPACITY)"

section \<open>The manager binding\<close>

lemma shard_deleted_cong: "shards db' = shards db \<Longrightarrow> shard_deleted db' = shard_deleted db"
  by (simp add: shard_deleted_def fun_eq_iff)

lemma shard_deleted_simps [simp]:
  "shard_deleted (db\<lparr>shard_managers := x\<rparr>) = shard_deleted db"
  "shard_deleted (db\<lparr>targets := y\<rparr>) = shard_deleted db"
  "shard_deleted (db\<lparr>jobs := z\<rparr>) = shard_deleted db"
  by (rule shard_deleted_cong, simp)+

lemma length_le_1_same: "\<not> 1 < length (remdups xs) \<Longrightarrow> x \<in> set xs \<Longrightarrow> y \<in> set xs \<Longrightarrow> x = y"
proof -
  assume l: "\<not> 1 < length (remdups xs)" and xy: "x \<in> set xs" "y \<in> set xs"
  then have "card (set xs) \<le> 1" by (simp add: length_remdups_card_conv)
  then show "x = y" using xy by (metis card_le_Suc0_iff_eq One_nat_def List.finite_set)
qed

text \<open>Everything a successful binding tells its caller.\<close>

lemma bind_Inr:
  assumes b: "bindFleetShardManager db sid req = Inr (m, db')"
  shows "\<not> shard_deleted db sid"
    and "db' = db \<or> (db' = db\<lparr>shard_managers := (sid, m) # shard_managers db\<rparr> \<and> manager_of db sid = None)"
    and "m \<noteq> [] \<Longrightarrow> manager_of db' sid = Some m"
    and "req \<noteq> [] \<Longrightarrow> m = req"
    and "t \<in> set (live_targets db sid) \<Longrightarrow> t_manager_customer_id t \<noteq> [] \<Longrightarrow>
           normalizeFleetManagerId (t_manager_customer_id t) = Inr m"
proof -
  let ?raw = "filter (\<lambda>m. m \<noteq> []) ((case manager_of db sid of None \<Rightarrow> [] | Some m \<Rightarrow> [m])
               @ remdups (map t_manager_customer_id (live_targets db sid)))"
  let ?req = "if req = [] then [] else [req]"
  from b obtain ms where nd: "\<not> shard_deleted db sid" and ms: "mapE normalizeFleetManagerId ?raw = Inr ms"
    and rest: "(let managers = remdups (ms @ ?req)
     in if length managers > 1 then Inl (ShardDifferentManager sid)
        else (case managers of [] \<Rightarrow> Inr ([], db)
          | m # _ \<Rightarrow> (case manager_of db sid of
                 None \<Rightarrow> Inr (m, db\<lparr>shard_managers := (sid, m) # shard_managers db\<rparr>)
               | Some m' \<Rightarrow> if m' = m then Inr (m, db) else Inl (ShardDifferentManager [])))) = Inr (m, db')"
    by (auto simp: bindFleetShardManager_def assertShardNotDeleted_def bindE_Inr_conv)
  show "\<not> shard_deleted db sid" by (rule nd)
  have small: "\<not> 1 < length (remdups (ms @ ?req))"
    using rest by (auto simp: Let_def split: if_splits)
  have cases: "(remdups (ms @ ?req) = [] \<and> m = [] \<and> db' = db) \<or>
     (\<exists>r. remdups (ms @ ?req) = m # r \<and> (manager_of db sid = Some m \<and> db' = db
        \<or> manager_of db sid = None \<and> db' = db\<lparr>shard_managers := (sid, m) # shard_managers db\<rparr>))"
    using rest small by (auto simp: Let_def split: list.splits option.splits if_splits)
  have mem: "m \<in> set (ms @ ?req)" if "ms @ ?req \<noteq> []"
    using cases that by (metis list.set_intros(1) remdups_eq_nil_iff set_remdups)
  show "db' = db \<or> (db' = db\<lparr>shard_managers := (sid, m) # shard_managers db\<rparr> \<and> manager_of db sid = None)"
    using cases by auto
  show "m \<noteq> [] \<Longrightarrow> manager_of db' sid = Some m" using cases by auto
  show "req \<noteq> [] \<Longrightarrow> m = req"
    using mem length_le_1_same [OF small, of m req] by simp
  show "normalizeFleetManagerId (t_manager_customer_id t) = Inr m"
    if t: "t \<in> set (live_targets db sid)" "t_manager_customer_id t \<noteq> []"
  proof -
    have "t_manager_customer_id t \<in> set ?raw" using t by auto
    then obtain y where y: "normalizeFleetManagerId (t_manager_customer_id t) = Inr y" "y \<in> set ms"
      using mapE_Inr_mem [OF ms] by blast
    then have "m \<in> set (ms @ ?req)" by (intro mem) auto
    then have "y = m" using y(2) by (intro length_le_1_same [OF small]) auto
    with y(1) show ?thesis by simp
  qed
qed

lemma bind_frame:
  assumes "bindFleetShardManager db sid req = Inr (m, db')"
  shows "targets db' = targets db" "shards db' = shards db" "jobs db' = jobs db" "captures db' = captures db"
    "next_capture_id db' = next_capture_id db" "activity db' = activity db"
  using bind_Inr(2) [OF assms] by auto

lemma bind_extends:
  assumes "bindFleetShardManager db sid req = Inr (m, db')" and "manager_of db s = Some x"
  shows "manager_of db' s = Some x"
  using bind_Inr(2) [OF assms(1)] assms(2) by auto

lemma owned_bind:
  assumes "owned db" and b: "bindFleetShardManager db sid req = Inr (m, db')"
  shows "owned db'"
proof -
  have sd: "shard_deleted db' = shard_deleted db" by (rule shard_deleted_cong) (rule bind_frame [OF b])
  show ?thesis
    using assms(1) unfolding owned_def sd bind_frame [OF b] by (auto intro: bind_extends [OF b])
qed

lemma keys_ok_bind: "keys_ok db \<Longrightarrow> bindFleetShardManager db sid req = Inr (m, db') \<Longrightarrow> keys_ok db'"
  by (simp add: keys_ok_def bind_frame)

lemma enrollment_inv_bind [fleet_inv]:
  "enrollment_inv db \<Longrightarrow> bindFleetShardManager db sid req = Inr (m, db') \<Longrightarrow> enrollment_inv db'"
  by (auto simp: enrollment_inv_def intro: owned_bind keys_ok_bind)

section \<open>Fresh shard names\<close>

lemma starts_with_append [simp]: "starts_with p (p @ s)"
  by (simp add: starts_with_def)

lemma digits_value_zeros: "digits_value (replicate k CHR ''0'' @ s) 0 = digits_value s 0"
  by (induction k) simp_all

lemma list_all_nat_digits [simp]: "list_all is_digit (nat_digits n)"
  by (auto simp: list_all_iff intro: nat_digits_digit)

lemma shard_number_fresh: "shard_number p (p @ padStart3 (nat_digits n)) = Some n"
proof -
  have "list_all is_digit (padStart3 (nat_digits n))"
    by (auto simp: padStart3_def list_all_append list_all_iff is_digit_def
        dest: nat_digits_digit)
  then show ?thesis
    by (simp add: shard_number_def padStart3_def digits_value_zeros digits_value_nat_digits)
qed

lemma highest_number_aux:
  "x \<le> fold (\<lambda>sid cur. case shard_number p sid of Some n \<Rightarrow> max cur n | None \<Rightarrow> cur) ids x"
  "sid \<in> set ids \<Longrightarrow> shard_number p sid = Some n \<Longrightarrow>
     n \<le> fold (\<lambda>sid cur. case shard_number p sid of Some n \<Rightarrow> max cur n | None \<Rightarrow> cur) ids x"
proof (induction ids arbitrary: x)
  case (Cons a ids)
  let ?step = "\<lambda>x. case shard_number p a of Some n \<Rightarrow> max x n | None \<Rightarrow> x"
  { case 1
    have "x \<le> ?step x" by (simp split: option.splits)
    also have "\<dots> \<le> fold (\<lambda>sid cur. case shard_number p sid of Some n \<Rightarrow> max cur n | None \<Rightarrow> cur) ids (?step x)"
      by (rule Cons.IH(1))
    finally show ?case by simp }
  { case 2
    show ?case
    proof (cases "sid = a")
      case True
      with 2 have "n \<le> ?step x" by simp
      also have "\<dots> \<le> fold (\<lambda>sid cur. case shard_number p sid of Some n \<Rightarrow> max cur n | None \<Rightarrow> cur) ids (?step x)"
        by (rule Cons.IH(1))
      finally show ?thesis by simp
    next
      case False
      with 2 Cons.IH(2) show ?thesis by simp
    qed }
qed simp_all

lemma fresh_shard_unused: "fresh_shard db p \<notin> set (shard_ids_like db p)"
proof
  assume "fresh_shard db p \<in> set (shard_ids_like db p)"
  then have "Suc (highest_number p (shard_ids_like db p)) \<le> highest_number p (shard_ids_like db p)"
    unfolding highest_number_def fresh_shard_def
    by (rule highest_number_aux(2) [OF _ shard_number_fresh])
  then show False by simp
qed

lemma in_shard_ids_like:
  "x \<in> set (shard_ids_like db p) \<longleftrightarrow> starts_with p x \<and> (x \<in> s_shard_id ` set (shards db) \<or> x \<in> t_shard_id ` set (targets db))"
  by (auto simp: shard_ids_like_def)

lemma fresh_shard_prefix: "starts_with p (fresh_shard db p)"
  by (simp add: fresh_shard_def)

lemma fresh_shard_empty:
  "t \<in> set (targets db) \<Longrightarrow> t_shard_id t \<noteq> fresh_shard db p"
  "s \<in> set (shards db) \<Longrightarrow> s_shard_id s \<noteq> fresh_shard db p"
  using fresh_shard_unused [of db p] unfolding in_shard_ids_like
  by (metis fresh_shard_prefix imageI)+

section \<open>Capacity\<close>

lemma choose_shard_room:
  assumes "choose_shard db mgr rec sid retired = Inr sid'"
  shows "length (occupants db sid' rec) < SHARD_CAPACITY"
proof (cases "length (occupants db sid rec) \<ge> SHARD_CAPACITY \<or> retired")
  case False
  with assms show ?thesis by (auto simp: choose_shard_def Let_def split: if_splits)
next
  case True
  with assms have s: "sid' = (case available_shard db mgr rec (shard_prefix mgr) of
      Some s \<Rightarrow> s | None \<Rightarrow> fresh_shard db (shard_prefix mgr))"
    by (auto simp: choose_shard_def Let_def split: if_splits)
  show ?thesis
  proof (cases "available_shard db mgr rec (shard_prefix mgr)")
    case None
    with s have "occupants db sid' rec = []"
      by (auto simp: occupants_def filter_empty_conv dest: fresh_shard_empty(1))
    then show ?thesis by (simp add: SHARD_CAPACITY_def)
  next
    case (Some a)
    with s have "sid' = a" by simp
    with Some show ?thesis by (auto simp: available_shard_def find_Some_iff)
  qed
qed

text \<open>A shard chosen for a campaign is never a deleted one unless the binding refuses it.\<close>

lemma upsert_Inr:
  assumes "upsertBridgeTarget cfg digest now input db = Inr ((tid, sid), db')"
  obtains db1 db2 m where "validate_target input = Inr ()" "tid = targetId digest input"
    "db1 = db \<or> (\<exists>s m1. bindFleetShardManager db s (normalizeId (in_managerCustomerId input)) = Inr (m1, db1))"
    "\<exists>first retired. choose_shard db1 (normalizeId (in_managerCustomerId input)) (in_campaignRecordId input) first retired = Inr sid"
    "bindFleetShardManager db1 sid (normalizeId (in_managerCustomerId input)) = Inr (m, db2)"
    "save_target cfg input tid sid now db2 = Inr db'"
proof -
  let ?mgr = "normalizeId (in_managerCustomerId input)"
  let ?first = "if requested_shard input = ''default'' then shard_prefix ?mgr @ ''001'' else requested_shard input"
  from assms obtain m1 db1 m db2 where u: "validate_target input = Inr ()" "tid = targetId digest input"
    "(if requested_shard input \<noteq> ''default'' \<or> \<not> shard_deleted db ?first
      then bindFleetShardManager db ?first ?mgr else Inr ([], db)) = Inr (m1, db1)"
    "choose_shard db1 ?mgr (in_campaignRecordId input) ?first (shard_deleted db ?first) = Inr sid"
    "bindFleetShardManager db1 sid ?mgr = Inr (m, db2)" "save_target cfg input tid sid now db2 = Inr db'"
    unfolding upsertBridgeTarget_def Let_def bindE_Inr_conv by (auto simp: bindE_Inr_conv)
  have "db1 = db \<or> (\<exists>s m1. bindFleetShardManager db s ?mgr = Inr (m1, db1))"
    using u(3) by (auto split: if_splits)
  moreover have "\<exists>first retired. choose_shard db1 ?mgr (in_campaignRecordId input) first retired = Inr sid"
    using u(4) by blast
  ultimately show thesis using u(1,2,5,6) by (intro that)
qed

lemma validate_manager: "validate_target input = Inr () \<Longrightarrow> digits10 (normalizeId (in_managerCustomerId input))"
  by (auto simp: validate_target_def Let_def split: if_splits)

lemma digits10_ne: "digits10 m \<Longrightarrow> m \<noteq> []"
  by (auto simp: digits10_def)

lemma save_target_Inr:
  assumes "save_target cfg input tid sid now db = Inr db'"
  obtains (update) t0 where "target_of db tid = Some t0"
      "targets db' = update_where (\<lambda>t. t_target_id t = tid) (target_values cfg input sid now) (targets db)"
      "\<And>t. t \<in> set (targets db) \<Longrightarrow> t_campaign_record_id t = in_campaignRecordId input \<Longrightarrow> keys_ok db \<Longrightarrow> t_target_id t = tid"
      "db' = db\<lparr>targets := targets db'\<rparr>"
    | (insert) "tid \<notin> t_target_id ` set (targets db)" "in_campaignRecordId input \<notin> t_campaign_record_id ` set (targets db)"
      "targets db' = targets db @ [target_values cfg input sid now (blank_target tid)]" "db' = db\<lparr>targets := targets db'\<rparr>"
proof -
  let ?ro = "lookup_by t_campaign_record_id (in_campaignRecordId input) (targets db)"
  have ro: "?ro = None \<or> (\<exists>t. ?ro = Some t \<and> t_target_id t = tid)"
    using assms by (auto simp: save_target_def Let_def split: if_splits option.splits)
  have rec: "t_target_id t = tid" if "t \<in> set (targets db)" "t_campaign_record_id t = in_campaignRecordId input" "keys_ok db" for t
    using ro that lookup_by_mem [of t_campaign_record_id "targets db" t] by (auto simp: keys_ok_def)
  show thesis
  proof (cases "target_of db tid")
    case None
    then have nt: "tid \<notin> t_target_id ` set (targets db)" by (simp add: lookup_by_None_iff)
    moreover from this ro have "?ro = None" by (auto dest: lookup_by_SomeD)
    ultimately show thesis
      using assms None by (intro insert) (auto simp: save_target_def Let_def lookup_by_None_iff split: if_splits option.splits)
  next
    case (Some t0)
    with assms have "db' = db\<lparr>targets := update_where (\<lambda>t. t_target_id t = tid) (target_values cfg input sid now) (targets db)\<rparr>"
      by (auto simp: save_target_def Let_def split: if_splits option.splits)
    then show thesis by (intro update [OF Some _ rec]) auto
  qed
qed

lemma target_values_simps [simp]:
  "t_target_id (target_values cfg input sid now t) = t_target_id t"
  "t_campaign_record_id (target_values cfg input sid now t) = in_campaignRecordId input"
  "t_manager_customer_id (target_values cfg input sid now t) = normalizeId (in_managerCustomerId input)"
  "t_customer_id (target_values cfg input sid now t) = normalizeId (in_customerId input)"
  "t_shard_id (target_values cfg input sid now t) = sid"
  "t_enabled (target_values cfg input sid now t)"
  "t_archived_at (target_values cfg input sid now t) = None"
  "t_last_applied_at (target_values cfg input sid now t) = t_last_applied_at t"
  "t_min_delivery_interval_ms (target_values cfg input sid now t) = MIN_INTERVAL_MS cfg"
  "t_target_id (blank_target tid) = tid"
  by (simp_all add: target_values_def blank_target_def)

lemma save_target_row:
  assumes "save_target cfg input tid sid now db = Inr db'" and "t \<in> set (targets db')"
  shows "(t \<in> set (targets db) \<and> t_target_id t \<noteq> tid) \<or> (\<exists>t0. t = target_values cfg input sid now t0 \<and> t_target_id t0 = tid)"
  using assms(1)
proof (cases rule: save_target_Inr)
  case (update t0)
  with assms(2) show ?thesis by (auto simp: set_update_where)
next
  case insert
  with assms(2) show ?thesis by (auto simp: image_iff)
qed

lemma owned_save:
  assumes "owned db" "save_target cfg input tid sid now db = Inr db'"
    "digits10 (normalizeId (in_managerCustomerId input))"
    "manager_of db sid = Some (normalizeId (in_managerCustomerId input))" "\<not> shard_deleted db sid"
  shows "owned db'"
proof -
  have "db' = db\<lparr>targets := targets db'\<rparr>" using assms(2) by (rule save_target_Inr) auto
  then have fr: "shard_managers db' = shard_managers db" "shard_deleted db' = shard_deleted db"
    by (metis fleet_db.simps(5) fleet_db.select_convs(5) fleet_db.surjective fleet_db.update_convs(1), metis shard_deleted_simps(2))
  show ?thesis
    using assms(1,3-5) unfolding owned_def fr
    by (auto dest!: save_target_row [OF assms(2)])
qed

lemma distinct_map_update_one:
  assumes "distinct (map k rows)" "distinct (map g rows)" "\<And>r. k (f r) = k r" "\<And>r. g (f r) = v"
    "\<And>r. r \<in> set rows \<Longrightarrow> g r = v \<Longrightarrow> k r = x"
  shows "distinct (map g (update_where (\<lambda>r. k r = x) f rows))"
  using assms
proof (induction rows)
  case (Cons a rows)
  have IH: "distinct (map g (update_where (\<lambda>r. k r = x) f rows))"
    by (rule Cons.IH) (use Cons.prems in auto)
  show ?case
  proof (cases "k a = x")
    case True
    then have tl: "update_where (\<lambda>r. k r = x) f rows = rows"
      by (intro update_where_none) (use Cons.prems(1) in \<open>auto simp: image_iff\<close>)
    have "v \<notin> g ` set rows"
      using Cons.prems(1,5) True by (metis image_iff list.set_intros(2) distinct.simps(2) list.simps(9) set_map)
    then show ?thesis using True Cons.prems tl by (simp add: update_where_def)
  next
    case False
    have "g a \<noteq> v" using False Cons.prems(5) by auto
    moreover have "g a \<notin> g ` set rows" using Cons.prems(2) by simp
    ultimately show ?thesis using IH False Cons.prems(4) by (auto simp: update_where_def split: if_splits)
  qed
qed simp

lemma keys_ok_save:
  assumes "keys_ok db" and s: "save_target cfg input tid sid now db = Inr db'"
  shows "keys_ok db'"
  using s
proof (cases rule: save_target_Inr)
  case (update t0)
  have "distinct (map t_target_id (targets db'))"
    using assms(1) update(2) by (simp add: keys_ok_def map_update_where)
  moreover have "distinct (map t_campaign_record_id (targets db'))"
    unfolding update(2)
    by (rule distinct_map_update_one [where v = "in_campaignRecordId input"])
       (use assms(1) update(3) in \<open>auto simp: keys_ok_def\<close>)
  moreover have "shards db' = shards db" by (subst update(4)) simp
  ultimately show ?thesis using assms(1) by (simp add: keys_ok_def)
next
  case insert
  have "shards db' = shards db" by (subst insert(4)) simp
  with insert assms(1) show ?thesis by (simp add: keys_ok_def)
qed

text \<open>Where the new or moved campaign ends up.\<close>

lemma upsert_facts:
  assumes "upsertBridgeTarget cfg digest now input db = Inr ((tid, sid), db')"
  obtains db2 where "targets db2 = targets db" "shards db2 = shards db" "captures db2 = captures db" "jobs db2 = jobs db"
    "next_capture_id db2 = next_capture_id db"
    "save_target cfg input tid sid now db2 = Inr db'"
    "manager_of db2 sid = Some (normalizeId (in_managerCustomerId input))" "\<not> shard_deleted db sid"
    "digits10 (normalizeId (in_managerCustomerId input))" "enrollment_inv db \<Longrightarrow> enrollment_inv db2"
    "length (occupants db sid (in_campaignRecordId input)) < SHARD_CAPACITY"
    "\<And>s m. manager_of db s = Some m \<Longrightarrow> manager_of db2 s = Some m"
proof -
  let ?mgr = "normalizeId (in_managerCustomerId input)"
  from assms obtain db1 db2 m where u: "validate_target input = Inr ()"
    "db1 = db \<or> (\<exists>s m1. bindFleetShardManager db s ?mgr = Inr (m1, db1))"
    "\<exists>first retired. choose_shard db1 ?mgr (in_campaignRecordId input) first retired = Inr sid"
    "bindFleetShardManager db1 sid ?mgr = Inr (m, db2)" "save_target cfg input tid sid now db2 = Inr db'"
    by (rule upsert_Inr) blast
  have d: "digits10 ?mgr" by (rule validate_manager [OF u(1)])
  have m: "m = ?mgr" by (rule bind_Inr(4) [OF u(4)]) (rule digits10_ne [OF d])
  have f1: "targets db1 = targets db" "shards db1 = shards db" "captures db1 = captures db" "jobs db1 = jobs db"
    "next_capture_id db1 = next_capture_id db"
    using u(2) by (auto simp: bind_frame)
  have sd: "shard_deleted db1 = shard_deleted db" by (rule shard_deleted_cong) (rule f1)
  have "length (occupants db1 sid (in_campaignRecordId input)) < SHARD_CAPACITY"
    using u(3) by (auto intro: choose_shard_room)
  then have room: "length (occupants db sid (in_campaignRecordId input)) < SHARD_CAPACITY"
    by (simp add: occupants_def f1)
  have ext: "manager_of db s = Some x \<Longrightarrow> manager_of db2 s = Some x" for s x
    using u(2) bind_extends [OF u(4)] bind_extends by blast
  show thesis
    by (rule that [of db2])
       (use u(2,5) f1 bind_frame [OF u(4)] bind_Inr(1,3) [OF u(4)] m d digits10_ne [OF d] room ext
         enrollment_inv_bind [OF _ u(4)] in \<open>auto simp: sd intro: enrollment_inv_bind\<close>)
qed

lemma enrollment_inv_upsert [fleet_inv]:
  assumes "enrollment_inv db" "upsertBridgeTarget cfg digest now input db = Inr ((tid, sid), db')"
  shows "enrollment_inv db'"
proof -
  from assms(2) obtain db2 where u: "shards db2 = shards db" "save_target cfg input tid sid now db2 = Inr db'"
    "manager_of db2 sid = Some (normalizeId (in_managerCustomerId input))" "\<not> shard_deleted db sid"
    "digits10 (normalizeId (in_managerCustomerId input))" "enrollment_inv db2"
    by (rule upsert_facts) (use assms(1) in blast)
  moreover have "shard_deleted db2 = shard_deleted db" by (rule shard_deleted_cong) (rule u(1))
  ultimately show ?thesis
    by (auto simp: enrollment_inv_def intro: keys_ok_save owned_save)
qed

lemma enabled_on_save:
  assumes "keys_ok db" "save_target cfg input tid sid now db = Inr db'"
  shows "length (enabled_on db' sid) \<le> Suc (length (occupants db sid (in_campaignRecordId input)))"
    and "s \<noteq> sid \<Longrightarrow> length (enabled_on db' s) \<le> length (enabled_on db s)"
proof -
  let ?rec = "in_campaignRecordId input"
  have k: "distinct (map t_target_id (targets db'))" using keys_ok_save [OF assms] by (simp add: keys_ok_def)
  have dt: "distinct (targets db')" using k by (simp add: distinct_map)
  have row: "(t \<in> set (targets db) \<and> t_target_id t \<noteq> tid) \<or> (\<exists>t0. t = target_values cfg input sid now t0 \<and> t_target_id t0 = tid)"
    if "t \<in> set (targets db')" for t
    using that by (rule save_target_row [OF assms(2)])
  have norec: "t_campaign_record_id t \<noteq> ?rec" if "t \<in> set (targets db)" "t_target_id t \<noteq> tid" for t
    using assms(2) by (rule save_target_Inr) (use that assms(1) in \<open>auto simp: image_iff\<close>)
  have sub: "set (filter (\<lambda>t. t_target_id t \<noteq> tid) (enabled_on db' sid)) \<subseteq> set (occupants db sid ?rec)"
  proof
    fix t assume "t \<in> set (filter (\<lambda>t. t_target_id t \<noteq> tid) (enabled_on db' sid))"
    then have t: "t \<in> set (targets db')" "t_enabled t" "t_shard_id t = sid" "t_target_id t \<noteq> tid"
      by (auto simp: enabled_on_def)
    then have "t \<in> set (targets db)" using row [OF t(1)] by (metis target_values_simps(1))
    with t norec show "t \<in> set (occupants db sid ?rec)" by (simp add: occupants_def)
  qed
  have "length (filter (\<lambda>t. t_target_id t \<noteq> tid) (enabled_on db' sid)) \<le> length (occupants db sid ?rec)"
    by (rule distinct_subset_length [OF _ sub]) (use dt in \<open>simp add: enabled_on_def\<close>)
  moreover have "length (filter (\<lambda>t. t_target_id t = tid) (enabled_on db' sid)) \<le> 1"
    by (rule distinct_same_length) (use dt distinct_key_eq [OF k] in \<open>auto simp: enabled_on_def\<close>)
  moreover have "length (enabled_on db' sid) = length (filter (\<lambda>t. t_target_id t = tid) (enabled_on db' sid))
      + length (filter (\<lambda>t. t_target_id t \<noteq> tid) (enabled_on db' sid))"
    by (simp add: sum_length_filter_compl)
  ultimately show "length (enabled_on db' sid) \<le> Suc (length (occupants db sid ?rec))" by simp
  show "length (enabled_on db' s) \<le> length (enabled_on db s)" if "s \<noteq> sid"
    by (rule distinct_subset_length) (use that dt in \<open>auto simp: enabled_on_def dest!: row\<close>)
qed

section \<open>The other enrollment handlers\<close>

lemma map_shard_id_update [simp]:
  "(\<And>r. s_shard_id (f r) = s_shard_id r) \<Longrightarrow> map s_shard_id (update_where p f rows) = map s_shard_id rows"
  by (rule map_update_where)

lemma lookup_by_append:
  "lookup_by key k (xs @ ys) = (case lookup_by key k xs of Some r \<Rightarrow> Some r | None \<Rightarrow> lookup_by key k ys)"
  by (induction xs) auto

lemma lookup_by_update_where:
  assumes "\<And>r. key (f r) = key r"
  shows "lookup_by key k (update_where p f rows) = map_option (\<lambda>r. if p r then f r else r) (lookup_by key k rows)"
  by (induction rows) (use assms in \<open>auto simp: update_where_def\<close>)

lemma shard_deleted_register:
  assumes "registerBridgeShard digest now shardId tok mgr db = Inr ((sid, m), db')"
  shows "shard_deleted db' = shard_deleted db" "targets db' = targets db" "\<not> shard_deleted db sid"
    "owned db \<Longrightarrow> owned db'" "keys_ok db \<Longrightarrow> keys_ok db'" "jobs db' = jobs db" "captures db' = captures db"
    "next_capture_id db' = next_capture_id db"
proof -
  from assms obtain r db1 where b: "bindFleetShardManager db sid r = Inr (m, db1)" and
    db': "db' = (case shard_of db1 sid of
            None \<Rightarrow> db1\<lparr>shards := shards db1 @ [new_shard sid (digest tok) now]\<rparr>
          | Some _ \<Rightarrow> db1\<lparr>shards := update_where (\<lambda>s. s_shard_id s = sid)
                (\<lambda>s. s\<lparr>s_token_hash := digest tok, s_enabled := True, s_updated_at := now\<rparr>) (shards db1)\<rparr>)"
    by (auto simp: registerBridgeShard_def bindE_Inr_conv)
  show nd: "\<not> shard_deleted db sid" by (rule bind_Inr(1) [OF b])
  show sd: "shard_deleted db' = shard_deleted db"
  proof
    fix x
    have "shard_deleted db' x = shard_deleted db1 x"
      by (cases "shard_of db1 sid")
         (auto simp: db' shard_deleted_def lookup_by_append lookup_by_update_where new_shard_def split: option.splits)
    then show "shard_deleted db' x = shard_deleted db x"
      by (simp add: shard_deleted_cong [OF bind_frame(2) [OF b]])
  qed
  show t: "targets db' = targets db" "jobs db' = jobs db" "captures db' = captures db" "next_capture_id db' = next_capture_id db"
    by (simp_all add: db' bind_frame [OF b] split: option.splits)
  have "shard_managers db' = shard_managers db1" by (simp add: db' split: option.splits)
  then show "owned db \<Longrightarrow> owned db'"
    using owned_bind [OF _ b] by (simp add: owned_def sd t(1) bind_frame [OF b] shard_deleted_cong [OF bind_frame(2) [OF b]])
  show "keys_ok db \<Longrightarrow> keys_ok db'"
    by (auto simp: keys_ok_def t(1)) (auto simp: db' bind_frame [OF b] lookup_by_None_iff new_shard_def split: option.splits)
qed

lemma enrollment_inv_register [fleet_inv]:
  "enrollment_inv db \<Longrightarrow> registerBridgeShard digest now shardId tok mgr db = Inr ((sid, m), db') \<Longrightarrow> enrollment_inv db'"
  by (auto simp: enrollment_inv_def dest: shard_deleted_register(4,5))

lemma deleteBridgeShard_cases:
  assumes "deleteBridgeShard digest now tok shardId conf db = Inr (r, db')"
  obtains (already) "r = AlreadyDeleted" "db' = db" "shard_deleted db conf"
    | (now) s where "r = DeletedNow" "shard_of db conf = Some s" "live_targets db conf = []"
        "\<not> list_ex (holds_active_lease db conf now) (jobs db)" "\<not> execution_may_run s now"
        "targets db' = targets db" "jobs db' = jobs db" "captures db' = captures db" "shard_managers db' = shard_managers db"
        "next_capture_id db' = next_capture_id db"
        "shards db' = update_where (\<lambda>r. s_shard_id r = conf)
            (\<lambda>r. r\<lparr>s_enabled := False, s_deleted_at := Some now, s_token_hash := digest tok, s_updated_at := now\<rparr>) (shards db)"
proof -
  from assms obtain s where s: "shard_of db conf = Some s" and r:
    "(if s_deleted_at s \<noteq> None then Inr (AlreadyDeleted, db)
        else if live_targets db conf \<noteq> [] then Inl ShardHasCampaigns
        else if list_ex (holds_active_lease db conf now) (jobs db) then Inl ShardHasActiveLease
        else if execution_may_run s now then Inl ShardExecutionRunning
        else Inr (DeletedNow, mark_shard_deleted digest now tok conf db)) = Inr (r, db')"
    unfolding deleteBridgeShard_def bindE_Inr_conv by (auto split: option.splits)
  show thesis
  proof (cases "s_deleted_at s = None")
    case False
    with r s show thesis by (intro already) (auto simp: shard_deleted_def)
  next
    case True
    with r have "r = DeletedNow" "db' = mark_shard_deleted digest now tok conf db"
      "live_targets db conf = []" "\<not> list_ex (holds_active_lease db conf now) (jobs db)" "\<not> execution_may_run s now"
      by (auto split: if_splits)
    with s show thesis by (intro now) (auto simp: mark_shard_deleted_def)
  qed
qed

lemma shard_deleted_after_delete:
  assumes "deleteBridgeShard digest now tok shardId conf db = Inr (r, db')"
  shows "shard_deleted db' x \<longleftrightarrow> shard_deleted db x \<or> x = conf"
  using assms
proof (cases rule: deleteBridgeShard_cases)
  case already
  then show ?thesis by auto
next
  case (now s)
  then show ?thesis
    by (auto simp: shard_deleted_def lookup_by_update_where dest: lookup_by_SomeD split: option.splits)
qed

lemma enrollment_inv_deleteShard [fleet_inv]:
  assumes "enrollment_inv db" "deleteBridgeShard digest now tok shardId conf db = Inr (r, db')"
  shows "enrollment_inv db'"
  using assms(2)
proof (cases rule: deleteBridgeShard_cases)
  case already
  with assms(1) show ?thesis by simp
next
  case (now s)
  have "keys_ok db'" using assms(1) now by (simp add: enrollment_inv_def keys_ok_def map_update_where)
  moreover have "owned db'"
    using assms(1) now(3)
    by (auto simp: enrollment_inv_def owned_def now shard_deleted_after_delete [OF assms(2)] live_targets_def filter_empty_conv)
  ultimately show ?thesis by (simp add: enrollment_inv_def)
qed

lemma setBridgeTargetEnabled_Inr:
  assumes "setBridgeTargetEnabled now rec en db = Inr db'"
  obtains db1 t where "db1 = db \<or> (\<exists>s m m'. bindFleetShardManager db s m = Inr (m', db1))"
    "find (live_record rec) (targets db) = Some t"
    "targets db' = update_where (live_record rec) (\<lambda>t. t\<lparr>t_enabled := en, t_updated_at := now\<rparr>) (targets db)"
    "jobs db' = (if en then jobs db else update_where
        (\<lambda>j. j_target_id j = t_target_id t \<and> j_state j \<in> {Pending, Failed, Leased}) (supersede now) (jobs db))"
    "shards db' = shards db" "captures db' = captures db" "shard_managers db' = shard_managers db1"
    "next_capture_id db' = next_capture_id db"
proof -
  from assms obtain db1 where b: "db1 = db \<or> (\<exists>s m m'. bindFleetShardManager db s m = Inr (m', db1))" and
    rest: "(case find (live_record rec) (targets db1) of
       None \<Rightarrow> Inl TargetMissing
     | Some t \<Rightarrow>
        (let db2 = db1\<lparr>targets := update_where (live_record rec)
               (\<lambda>t. t\<lparr>t_enabled := en, t_updated_at := now\<rparr>) (targets db1)\<rparr>
         in Inr (if en then db2
                 else db2\<lparr>jobs := update_where
                   (\<lambda>j. j_target_id j = t_target_id t \<and> j_state j \<in> {Pending, Failed, Leased})
                   (supersede now) (jobs db2)\<rparr>))) = Inr db'"
  proof -
    from assms obtain db1 where A: "(if en then
         (case find (live_record rec) (targets db) of
            None \<Rightarrow> Inl TargetMissing
          | Some t \<Rightarrow> bindE (normalizeFleetManagerId (t_manager_customer_id t)) (\<lambda>m.
                      bindE (bindFleetShardManager db (t_shard_id t) m) (\<lambda>(_, db1). Inr db1)))
       else Inr db) = Inr db1" and B: "(case find (live_record rec) (targets db1) of
       None \<Rightarrow> Inl TargetMissing
     | Some t \<Rightarrow>
        (let db2 = db1\<lparr>targets := update_where (live_record rec)
               (\<lambda>t. t\<lparr>t_enabled := en, t_updated_at := now\<rparr>) (targets db1)\<rparr>
         in Inr (if en then db2
                 else db2\<lparr>jobs := update_where
                   (\<lambda>j. j_target_id j = t_target_id t \<and> j_state j \<in> {Pending, Failed, Leased})
                   (supersede now) (jobs db2)\<rparr>))) = Inr db'"
      unfolding setBridgeTargetEnabled_def bindE_Inr_conv [of "if en then _ else _"] by (elim exE conjE)
    from A have "db1 = db \<or> (\<exists>s m m'. bindFleetShardManager db s m = Inr (m', db1))"
      by (auto simp: bindE_Inr_conv split: if_splits option.splits)
    then show thesis using B by (rule that)
  qed
  have f: "targets db1 = targets db" "jobs db1 = jobs db" "shards db1 = shards db" "captures db1 = captures db"
    "next_capture_id db1 = next_capture_id db"
    using b by (auto simp: bind_frame)
  from rest obtain t where t: "find (live_record rec) (targets db1) = Some t"
    by (auto split: option.splits)
  show thesis
    by (rule that [OF b]) (use rest t f in \<open>auto simp: Let_def\<close>)
qed

lemma enrollment_inv_setEnabled [fleet_inv]:
  assumes "enrollment_inv db" "setBridgeTargetEnabled now rec en db = Inr db'"
  shows "enrollment_inv db'"
  using assms(2)
proof (cases rule: setBridgeTargetEnabled_Inr)
  case (1 db1 t)
  have sd: "shard_deleted db' = shard_deleted db" by (rule shard_deleted_cong) (rule 1(5))
  have ext: "manager_of db s = Some m \<Longrightarrow> manager_of db' s = Some m" for s m
    using 1(1,7) bind_extends by auto
  have "keys_ok db'" using assms(1) by (simp add: enrollment_inv_def keys_ok_def 1 map_update_where)
  moreover have "owned db'"
    using assms(1) unfolding enrollment_inv_def owned_def sd
    by (auto simp: 1(3) set_update_where intro: ext)
  ultimately show ?thesis by (simp add: enrollment_inv_def)
qed

lemma deleteBridgeTarget_cases:
  assumes "deleteBridgeTarget tin rin db = Inr (r, db')"
  obtains (none) "r = None" "db' = db"
    | (some) t where "r = Some t" "t \<in> set (targets db)"
        "targets db' = filter (\<lambda>u. t_target_id u \<noteq> t_target_id t) (targets db)"
        "captures db' = filter (\<lambda>c. c_target_id c \<noteq> t_target_id t) (captures db)"
        "jobs db' = filter (\<lambda>j. j_target_id j \<noteq> t_target_id t \<and>
               (\<forall>c\<in>set (captures db). c_capture_id c = j_capture_id j \<longrightarrow> c_target_id c \<noteq> t_target_id t)) (jobs db)"
        "shards db' = shards db" "shard_managers db' = shard_managers db" "next_capture_id db' = next_capture_id db"
proof -
  let ?q = "if js_trim tin \<noteq> [] then target_of db (js_trim tin) else lookup_by t_campaign_record_id (js_trim rin) (targets db)"
  have r: "(case ?q of None \<Rightarrow> Inr (None, db)
        | Some t \<Rightarrow> Inr (Some t, remove_target (t_target_id t)
            (db\<lparr>audit_log := audit_log db @ [\<lparr>au_action = ''fleet.target.deleted'',
                  au_resource_type = ''fleet_target'', au_resource_id = t_target_id t\<rparr>]\<rparr>))) = (Inr (r, db') :: bridge_error + _)"
    using assms unfolding deleteBridgeTarget_def Let_def by (simp only: split: if_split_asm) simp_all
  show thesis
  proof (cases ?q)
    case None
    with r show thesis by (intro none) auto
  next
    case (Some t)
    then have "t \<in> set (targets db)" by (auto split: if_splits dest: lookup_by_SomeD)
    moreover from r Some have "r = Some t" "db' = remove_target (t_target_id t)
        (db\<lparr>audit_log := audit_log db @ [\<lparr>au_action = ''fleet.target.deleted'',
           au_resource_type = ''fleet_target'', au_resource_id = t_target_id t\<rparr>]\<rparr>)" by simp_all
    ultimately show thesis by (intro some) (simp_all add: remove_target_def)
  qed
qed

lemma enrollment_inv_remove [fleet_inv]:
  assumes "enrollment_inv db" "deleteBridgeTarget tin rin db = Inr (r, db')"
  shows "enrollment_inv db'"
  using assms(2)
proof (cases rule: deleteBridgeTarget_cases)
  case none
  with assms(1) show ?thesis by simp
next
  case (some t)
  have sd: "shard_deleted db' = shard_deleted db" by (rule shard_deleted_cong) (rule some(6))
  show ?thesis
    using assms(1) unfolding enrollment_inv_def keys_ok_def owned_def sd some(3,6,7)
    by (auto simp: distinct_map_filter)
qed

section \<open>Concrete states for the witnesses\<close>

definition empty_db :: fleet_db where
  "empty_db = \<lparr> targets = [], captures = [], jobs = [], shards = [], shard_managers = [], activity = [],
     audit_log = [], next_capture_id = 1, health_alerts = None, heartbeats = None \<rparr>"

definition default_cfg :: fleet_config where "default_cfg = fleet_config_of default_env"

definition sample_input :: "string \<Rightarrow> string \<Rightarrow> target_input" where
  "sample_input rec camp = \<lparr> in_campaignRecordId = rec, in_campaignName = ''Spring'',
     in_managerCustomerId = ''123-456-7890'', in_customerId = ''111-222-3333'',
     in_googleCampaignId = camp, in_shardId = [] \<rparr>"

lemma enrollment_inv_empty [simp]: "enrollment_inv empty_db"
  by (simp add: enrollment_inv_def keys_ok_def owned_def empty_db_def)

definition is_Inr :: "'e + 'a \<Rightarrow> bool" where
  "is_Inr r = (case r of Inr _ \<Rightarrow> True | Inl _ \<Rightarrow> False)"

lemma is_InrD: "is_Inr r \<Longrightarrow> \<exists>x. r = Inr x"
  by (cases r) (auto simp: is_Inr_def)

lemma is_InrD2: "is_Inr r \<Longrightarrow> \<exists>x y. r = Inr (x, y)"
  by (cases r) (auto simp: is_Inr_def)

lemma is_InrD3: "is_Inr r \<Longrightarrow> \<exists>x y z. r = Inr ((x, y), z)"
  by (cases r) (auto simp: is_Inr_def)

section \<open>Properties\<close>

text \<open>C9: Enrolling a campaign keeps every shard single-owner, and the campaign ends up enabled on the
  shard that was returned, bound to the manager account of the request, never on a deleted shard.\<close>

theorem upsert_single_owner:
  assumes "enrollment_inv db"
    and "upsertBridgeTarget cfg digest now input db = Inr ((tid, sid), db')"
  shows "enrollment_inv db' \<and> tid = targetId digest input
    \<and> manager_of db' sid = Some (normalizeId (in_managerCustomerId input)) \<and> \<not> shard_deleted db' sid
    \<and> (\<exists>t. target_of db' tid = Some t \<and> t_shard_id t = sid \<and> t_enabled t \<and> t_archived_at t = None
         \<and> t_campaign_record_id t = in_campaignRecordId input)"
proof -
  have tid: "tid = targetId digest input" using assms(2) by (rule upsert_Inr)
  have inv: "enrollment_inv db'" by (rule enrollment_inv_upsert [OF assms])
  from assms(2) obtain db2 where s: "save_target cfg input tid sid now db2 = Inr db'" by (rule upsert_facts)
  have "\<exists>t\<in>set (targets db'). \<exists>t0. t = target_values cfg input sid now t0 \<and> t_target_id t0 = tid"
    using s
  proof (cases rule: save_target_Inr)
    case (update t0)
    then show ?thesis by (force dest!: lookup_by_SomeD simp: set_update_where)
  next
    case insert
    then show ?thesis by (intro bexI [of _ "target_values cfg input sid now (blank_target tid)"]) auto
  qed
  then obtain t t0 where t: "t \<in> set (targets db')" "t = target_values cfg input sid now t0" "t_target_id t0 = tid"
    by blast
  then have "target_of db' tid = Some t"
    using inv lookup_by_mem [of t_target_id "targets db'" t] by (simp add: enrollment_inv_def keys_ok_def)
  moreover have "manager_of db' sid = Some (normalizeId (in_managerCustomerId input)) \<and> \<not> shard_deleted db' sid"
    using inv t by (auto simp: enrollment_inv_def owned_def)
  ultimately show ?thesis using inv tid t(2) by simp
qed

theorem upsert_single_owner_witness:
  "\<exists>tid sid db'. upsertBridgeTarget default_cfg (\<lambda>s. s) 5 (sample_input ''rec-1'' ''12345678'') empty_db = Inr ((tid, sid), db')
     \<and> enrollment_inv db' \<and> manager_of db' sid = Some ''1234567890''"
proof -
  have "is_Inr (upsertBridgeTarget default_cfg (\<lambda>s. s) 5 (sample_input ''rec-1'' ''12345678'') empty_db)"
    by code_simp
  then obtain tid sid db' where u:
    "upsertBridgeTarget default_cfg (\<lambda>s. s) 5 (sample_input ''rec-1'' ''12345678'') empty_db = Inr ((tid, sid), db')"
    by (blast dest: is_InrD3)
  moreover have "normalizeId (in_managerCustomerId (sample_input ''rec-1'' ''12345678'')) = ''1234567890''" by code_simp
  ultimately show ?thesis using upsert_single_owner [OF enrollment_inv_empty u] by auto
qed

text \<open>C10: An enrollment never fills a shard beyond its 40 campaigns, whichever of the three ways
  (first choice, another shard of the same manager, a new shard) the shard was chosen.\<close>

theorem upsert_within_capacity:
  assumes "enrollment_inv db" and "within_capacity db"
    and "upsertBridgeTarget cfg digest now input db = Inr ((tid, sid), db')"
  shows "within_capacity db'"
proof -
  from assms(3) obtain db2 where u: "targets db2 = targets db" "shards db2 = shards db"
    "save_target cfg input tid sid now db2 = Inr db'"
    "length (occupants db sid (in_campaignRecordId input)) < SHARD_CAPACITY"
    by (rule upsert_facts) blast
  have k: "keys_ok db2" using assms(1) by (simp add: enrollment_inv_def keys_ok_def u)
  have eq: "occupants db2 = occupants db" "enabled_on db2 = enabled_on db"
    by (simp_all add: occupants_def enabled_on_def u fun_eq_iff)
  have "length (enabled_on db' s) \<le> SHARD_CAPACITY" for s
    using enabled_on_save(1) [OF k u(3)] enabled_on_save(2) [OF k u(3), of s] u(4) assms(2)
    by (cases "s = sid") (auto simp: eq within_capacity_def intro: order_trans)
  then show ?thesis by (simp add: within_capacity_def)
qed

theorem upsert_within_capacity_witness:
  "\<exists>tid sid db'. upsertBridgeTarget default_cfg (\<lambda>s. s) 5 (sample_input ''rec-1'' ''12345678'') empty_db = Inr ((tid, sid), db')
     \<and> within_capacity db'"
proof -
  have "is_Inr (upsertBridgeTarget default_cfg (\<lambda>s. s) 5 (sample_input ''rec-1'' ''12345678'') empty_db)"
    by code_simp
  then obtain tid sid db' where u:
    "upsertBridgeTarget default_cfg (\<lambda>s. s) 5 (sample_input ''rec-1'' ''12345678'') empty_db = Inr ((tid, sid), db')"
    by (blast dest: is_InrD3)
  have "within_capacity empty_db" by (simp add: within_capacity_def enabled_on_def empty_db_def)
  from upsert_within_capacity [OF enrollment_inv_empty this u] u show ?thesis by blast
qed

text \<open>A deleted shard is a tombstone: no token authenticates it, it cannot be leased from, its name
  cannot be registered again by anyone, and it holds no campaign.\<close>

theorem deleted_shard_reserved:
  assumes "enrollment_inv db" and "deleteBridgeShard digest now tok shardId conf db = Inr (r, db')"
  shows "\<not> authenticateBridgeShard digest' conf raw db' \<and> lockActiveShard db' conf = Inl ShardInactive
    \<and> \<not> is_Inr (registerBridgeShard digest' now' conf raw mgr db')
    \<and> \<not> is_Inr (bindFleetShardManager db' conf mgr) \<and> live_targets db' conf = []"
proof -
  have d: "shard_deleted db' conf" by (simp add: shard_deleted_after_delete [OF assms(2)])
  then obtain s where s: "shard_of db' conf = Some s" "s_deleted_at s \<noteq> None"
    by (auto simp: shard_deleted_def split: option.splits)
  have "\<not> is_Inr (bindFleetShardManager db' c m)" if "c = conf" for c m
    using d that by (auto dest!: is_InrD bind_Inr(1))
  moreover have "\<not> is_Inr (registerBridgeShard digest' now' conf raw mgr db')"
  proof
    assume "is_Inr (registerBridgeShard digest' now' conf raw mgr db')"
    then obtain sid m db2 where reg: "registerBridgeShard digest' now' conf raw mgr db' = Inr ((sid, m), db2)"
      by (blast dest: is_InrD3)
    have "sid = js_trim conf"
      using reg by (auto simp: registerBridgeShard_def bindE_Inr_conv normalizeFleetShardId_Inr)
    moreover have "conf = js_trim shardId"
      using assms(2) by (auto simp: deleteBridgeShard_def bindE_Inr_conv normalizeFleetShardId_Inr)
    ultimately have "sid = conf" by simp
    with shard_deleted_register(3) [OF reg] d show False by simp
  qed
  moreover have "live_targets db' conf = []"
    using enrollment_inv_deleteShard [OF assms] d
    by (auto simp: live_targets_def enrollment_inv_def owned_def filter_empty_conv)
  ultimately show ?thesis using s by (simp add: authenticateBridgeShard_def lockActiveShard_def)
qed

definition one_shard_db :: fleet_db where
  "one_shard_db = empty_db\<lparr>shards := [new_shard ''mcc-1'' ''h'' 0]\<rparr>"

theorem deleted_shard_reserved_witness:
  "\<exists>r db'. deleteBridgeShard (\<lambda>s. s) 9 ''t'' '' mcc-1 '' ''mcc-1'' one_shard_db = Inr (r, db')
     \<and> \<not> authenticateBridgeShard (\<lambda>s. s) ''mcc-1'' ''h'' db'"
proof -
  have "is_Inr (deleteBridgeShard (\<lambda>s. s) 9 ''t'' '' mcc-1 '' ''mcc-1'' one_shard_db)" by code_simp
  then obtain r db' where d: "deleteBridgeShard (\<lambda>s. s) 9 ''t'' '' mcc-1 '' ''mcc-1'' one_shard_db = Inr (r, db')"
    by (blast dest: is_InrD2)
  have "enrollment_inv one_shard_db"
    by (simp add: enrollment_inv_def keys_ok_def owned_def one_shard_db_def empty_db_def)
  from deleted_shard_reserved [OF this d] d show ?thesis by blast
qed

text \<open>The token handed out when a shard is created authenticates exactly that shard's worker: the
  returned token is accepted, and any token with another digest is refused.\<close>

theorem create_then_authenticate:
  assumes "createBridgeShard digest now token shardId mgr db = Inr ((sid, m, token'), db')"
  shows "token' = token \<and> authenticateBridgeShard digest sid raw db' = (raw \<noteq> [] \<and> digest raw = digest token)"
proof -
  from assms have t: "token' = token" and r: "registerBridgeShard digest now shardId token mgr db = Inr ((sid, m), db')"
    by (auto simp: createBridgeShard_def bindE_Inr_conv)
  from r obtain q db1 where b: "bindFleetShardManager db sid q = Inr (m, db1)" and
    db': "db' = (case shard_of db1 sid of
            None \<Rightarrow> db1\<lparr>shards := shards db1 @ [new_shard sid (digest token) now]\<rparr>
          | Some _ \<Rightarrow> db1\<lparr>shards := update_where (\<lambda>s. s_shard_id s = sid)
                (\<lambda>s. s\<lparr>s_token_hash := digest token, s_enabled := True, s_updated_at := now\<rparr>) (shards db1)\<rparr>)"
    by (auto simp: registerBridgeShard_def bindE_Inr_conv)
  have nd: "\<not> shard_deleted db1 sid"
    using bind_Inr(1) [OF b] by (simp add: shard_deleted_cong [OF bind_frame(2) [OF b]])
  have "\<exists>s. shard_of db' sid = Some s \<and> s_deleted_at s = None \<and> s_enabled s \<and> s_token_hash s = digest token"
  proof (cases "shard_of db1 sid")
    case None
    then show ?thesis by (simp add: db' lookup_by_append new_shard_def)
  next
    case (Some s)
    with nd show ?thesis
      by (auto simp: db' lookup_by_update_where shard_deleted_def dest: lookup_by_SomeD)
  qed
  with t show ?thesis by (auto simp: authenticateBridgeShard_def)
qed

theorem create_then_authenticate_witness:
  "\<exists>sid m tok db'. createBridgeShard (\<lambda>s. s) 9 ''0123456789012345678901234567'' ''mcc-1'' [] empty_db = Inr ((sid, m, tok), db')
     \<and> authenticateBridgeShard (\<lambda>s. s) sid ''0123456789012345678901234567'' db'
     \<and> \<not> authenticateBridgeShard (\<lambda>s. s) sid ''guess'' db'"
proof -
  have "is_Inr (createBridgeShard (\<lambda>s. s) 9 ''0123456789012345678901234567'' ''mcc-1'' [] empty_db)" by code_simp
  then obtain sid m tok db' where c:
    "createBridgeShard (\<lambda>s. s) 9 ''0123456789012345678901234567'' ''mcc-1'' [] empty_db = Inr ((sid, m, tok), db')"
    by (metis is_InrD3 prod_cases3 old.prod.exhaust)
  from create_then_authenticate [OF c, of "''0123456789012345678901234567''"]
       create_then_authenticate [OF c, of "''guess''"] c show ?thesis by auto
qed

text \<open>The state of the next property: 40 enabled campaigns and one paused campaign on one shard.\<close>

definition crowd_target :: "nat \<Rightarrow> target_row" where
  "crowd_target n = (blank_target (nat_digits n))\<lparr>
     t_campaign_record_id := nat_digits n, t_manager_customer_id := ''1234567890'',
     t_shard_id := ''mcc-1'', t_enabled := (n \<noteq> 0)\<rparr>"

definition crowded_db :: fleet_db where
  "crowded_db = empty_db\<lparr>shards := [new_shard ''mcc-1'' ''h'' 0], shard_managers := [(''mcc-1'', ''1234567890'')],
     targets := map crowd_target [0..<41]\<rparr>"

lemma inj_nat_digits: "inj nat_digits"
  by (rule inj_on_inverseI [of _ "\<lambda>s. digits_value s 0"]) (rule digits_value_nat_digits)

lemma crowded_enrollment_inv: "enrollment_inv crowded_db"
proof -
  have f: "map t_target_id (targets crowded_db) = map nat_digits [0..<41]"
    "map t_campaign_record_id (targets crowded_db) = map nat_digits [0..<41]"
    by (simp_all add: crowded_db_def crowd_target_def blank_target_def comp_def)
  have "digits10 ''1234567890''" by code_simp
  moreover have "\<not> shard_deleted crowded_db ''mcc-1''"
    by (simp add: shard_deleted_def crowded_db_def new_shard_def)
  ultimately have "owned crowded_db"
    by (auto simp: owned_def) (auto simp: crowded_db_def crowd_target_def blank_target_def)
  moreover have "distinct (map nat_digits [0..<41])"
    using inj_nat_digits by (auto simp: distinct_map intro: inj_on_subset)
  ultimately show ?thesis by (simp add: enrollment_inv_def keys_ok_def f) (simp add: crowded_db_def)
qed

lemma length_filter_conj: "length (filter (\<lambda>x. P x \<and> Q x) xs) \<le> length (filter P xs)"
  by (induction xs) auto

lemma crowded_within_capacity: "within_capacity crowded_db"
proof -
  have "length (filter t_enabled (targets crowded_db)) = 40" by code_simp
  moreover have "length (enabled_on crowded_db s) \<le> length (filter t_enabled (targets crowded_db))" for s
    unfolding enabled_on_def by (rule length_filter_conj)
  ultimately show ?thesis by (simp add: within_capacity_def SHARD_CAPACITY_def)
qed

text \<open>Resuming a paused campaign does not look at the shard's occupancy: from a state that is
  within capacity it can put a 41st campaign on a shard, although 40 is documented as the hard
  maximum per shard.\<close>

theorem resume_exceeds_capacity:
  "\<exists>db db' now. enrollment_inv db \<and> within_capacity db
     \<and> setBridgeTargetEnabled now ''0'' True db = Inr db' \<and> enrollment_inv db' \<and> \<not> within_capacity db'"
proof -
  have "is_Inr (setBridgeTargetEnabled 7 ''0'' True crowded_db)" by code_simp
  then obtain db' where r: "setBridgeTargetEnabled 7 ''0'' True crowded_db = Inr db'" by (blast dest: is_InrD)
  have "(case setBridgeTargetEnabled 7 ''0'' True crowded_db of
      Inr d \<Rightarrow> length (enabled_on d ''mcc-1'') = 41 | Inl _ \<Rightarrow> False)" by code_simp
  then have "length (enabled_on db' ''mcc-1'') = 41" by (simp add: r)
  then have "\<not> within_capacity db'"
    by (auto simp: within_capacity_def SHARD_CAPACITY_def intro!: exI [of _ "''mcc-1''"])
  with r crowded_enrollment_inv crowded_within_capacity enrollment_inv_setEnabled [OF crowded_enrollment_inv r]
  show ?thesis by blast
qed

end
