(* ===== verification/Bridge_Delivery.thy ===== *)
theory Bridge_Delivery
  imports Bridge_Ownership
begin

text \<open>
  The delivery queue of \<open>web/lib/script-bridge-store.ts\<close>: a captured suffix becomes a job, a
  worker leases the newest job of each of its campaigns under a fencing token, applies it and
  acknowledges it with the suffix it read back; failures are retried with exponential back-off until
  the attempts are used up. Rows locked by a concurrent transaction (\<open>FOR UPDATE SKIP LOCKED\<close>) are
  the parameter \<open>locked\<close>; fresh job ids and lease tokens are the supplies \<open>uuid\<close> and \<open>tok\<close>.
\<close>

section \<open>Enqueueing a capture\<close>

definition new_job :: "string \<Rightarrow> string \<Rightarrow> int \<Rightarrow> time \<Rightarrow> job_row" where
  "new_job jid tid cid now = \<lparr>
     j_job_id = jid, j_target_id = tid, j_capture_id = cid, j_state = Pending, j_attempt_count = 0,
     j_available_at = now, j_leased_at = None, j_leased_until = None, j_lease_token_hash = None,
     j_worker_id = None, j_lease_shard_id = None, j_applied_at = None, j_verified_suffix_hash = None,
     j_last_error = None, j_created_at = now, j_updated_at = now \<rparr>"

definition job_for :: "string \<Rightarrow> int \<Rightarrow> job_row \<Rightarrow> bool" where
  "job_for tid cid j \<longleftrightarrow> j_target_id j = tid \<and> j_capture_id j = cid"

text \<open>\<open>INSERT ... ON CONFLICT (target_id,capture_id) DO UPDATE\<close>: the existing row is revised,
  otherwise a fresh row is added; a job id that is already taken violates the primary key.\<close>

definition insert_job ::
  "string \<Rightarrow> string \<Rightarrow> int \<Rightarrow> time \<Rightarrow> (job_row \<Rightarrow> job_row) \<Rightarrow> job_row list \<Rightarrow> bridge_error + job_row list" where
  "insert_job jid tid cid now revise js =
     (if list_ex (job_for tid cid) js then Inr (update_where (job_for tid cid) revise js)
      else if jid \<in> j_job_id ` set js then Inl UniqueViolation
      else Inr (js @ [new_job jid tid cid now]))"

definition open_other :: "string \<Rightarrow> int \<Rightarrow> job_row \<Rightarrow> bool" where
  "open_other tid cid j \<longleftrightarrow> j_target_id j = tid \<and> j_state j \<in> {Pending, Failed} \<and> j_capture_id j \<noteq> cid"

record capture_input =
  ci_target :: target_input
  ci_exactSuffix :: string
  ci_version :: "int option"
  ci_sourceRunId :: "string option"
  ci_egress :: "string option"

text \<open>\<open>input.version && Number.isSafeInteger(input.version) ? input.version : Date.now()\<close>.\<close>

definition capture_version :: "capture_input \<Rightarrow> time \<Rightarrow> int" where
  "capture_version input now =
     (case ci_version input of
        None \<Rightarrow> now
      | Some v \<Rightarrow> if v \<noteq> 0 \<and> \<bar>v\<bar> \<le> 2 ^ 53 - 1 then v else now)"

text \<open>Storing the capture: \<open>ON CONFLICT (target_id,version)\<close> overwrites suffix and hash of the stored
  capture and keeps an egress identity that is not replaced. The capture id sequence advances either
  way. Returns the capture id and the new table.\<close>

definition store_capture ::
  "(string \<Rightarrow> string) \<Rightarrow> string \<Rightarrow> capture_input \<Rightarrow> time \<Rightarrow> fleet_db \<Rightarrow> int \<times> fleet_db" where
  "store_capture digest tid input now db =
     (let v = capture_version input now; same = (\<lambda>c. c_target_id c = tid \<and> c_version c = v) in
      case find same (captures db) of
        Some c \<Rightarrow> (c_capture_id c, db\<lparr>next_capture_id := next_capture_id db + 1,
           captures := update_where same (\<lambda>c. c\<lparr>c_exact_suffix := ci_exactSuffix input,
               c_suffix_hash := digest (ci_exactSuffix input),
               c_egress_identity := (case ci_egress input of Some e \<Rightarrow> Some e | None \<Rightarrow> c_egress_identity c)\<rparr>) (captures db)\<rparr>)
      | None \<Rightarrow> (next_capture_id db, db\<lparr>next_capture_id := next_capture_id db + 1,
           captures := captures db @ [\<lparr>c_capture_id = next_capture_id db, c_target_id = tid, c_version = v,
             c_exact_suffix = ci_exactSuffix input, c_suffix_hash = digest (ci_exactSuffix input),
             c_source_run_id = ci_sourceRunId input, c_egress_identity = ci_egress input, c_captured_at = now\<rparr>]\<rparr>))"

definition revive_dead :: "time \<Rightarrow> job_row \<Rightarrow> job_row" where
  "revive_dead now j = j\<lparr>j_state := (if j_state j = Dead then Pending else j_state j), j_updated_at := now\<rparr>"

definition enqueue_capture ::
  "(string \<Rightarrow> string) \<Rightarrow> time \<Rightarrow> string \<Rightarrow> string \<Rightarrow> capture_input \<Rightarrow> fleet_db \<Rightarrow> bridge_error + int \<times> fleet_db" where
  "enqueue_capture digest now jid tid input db =
     (case store_capture digest tid input now db of (cid, db1) \<Rightarrow>
      bindE (insert_job jid tid cid now (revive_dead now)
               (update_where (open_other tid cid) (supersede now) (jobs db1)))
        (\<lambda>js. Inr (cid, db1\<lparr>jobs := js\<rparr>)))"

text \<open>The whole handler: the gate on the suffix, the enrollment transaction and the queueing
  transaction. The second failing does not undo the first.\<close>

definition enqueueBridgeCapture ::
  "fleet_config \<Rightarrow> (string \<Rightarrow> string) \<Rightarrow> time \<Rightarrow> string \<Rightarrow> capture_input \<Rightarrow> fleet_db
    \<Rightarrow> (bridge_error + string \<times> string \<times> int) \<times> fleet_db" where
  "enqueueBridgeCapture cfg digest now jid input db =
     (case assertDeliverableSuffix (Some (ci_exactSuffix input)) of
        Inl issue \<Rightarrow> (Inl (UndeliverableSuffix issue), db)
      | Inr _ \<Rightarrow>
         (case upsertBridgeTarget cfg digest now (ci_target input) db of
            Inl e \<Rightarrow> (Inl e, db)
          | Inr ((tid, sid), db1) \<Rightarrow>
             (case enqueue_capture digest now jid tid input db1 of
                Inl e \<Rightarrow> (Inl e, db1)
              | Inr (cid, db2) \<Rightarrow> (Inr (tid, sid, cid), db2))))"

definition requeue_closed :: "time \<Rightarrow> job_row \<Rightarrow> job_row" where
  "requeue_closed now j =
     (if j_state j \<in> {Dead, Superseded}
      then j\<lparr>j_state := Pending, j_attempt_count := 0, j_available_at := now, j_leased_at := None,
             j_leased_until := None, j_lease_token_hash := None, j_worker_id := None, j_last_error := None,
             j_updated_at := now\<rparr>
      else j\<lparr>j_updated_at := now\<rparr>)"

text \<open>\<open>Inr (None, db)\<close> is the result \<open>{ queued: false, state: "waiting_for_capture" }\<close>.\<close>

definition queueLatestBridgeCapture ::
  "time \<Rightarrow> string \<Rightarrow> string \<Rightarrow> fleet_db \<Rightarrow> bridge_error + int option \<times> fleet_db" where
  "queueLatestBridgeCapture now jid rec db =
     (case find (\<lambda>t. t_campaign_record_id t = rec \<and> t_enabled t) (targets db) of
        None \<Rightarrow> Inl TargetNotFound
      | Some t \<Rightarrow>
         (case latest_capture db (t_target_id t) of
            None \<Rightarrow> Inr (None, db)
          | Some c \<Rightarrow>
              bindE (insert_job jid (t_target_id t) (c_capture_id c) now (requeue_closed now)
                      (update_where (open_other (t_target_id t) (c_capture_id c)) (supersede now) (jobs db)))
                (\<lambda>js. Inr (Some (c_capture_id c), db\<lparr>jobs := js\<rparr>))))"

section \<open>Leasing\<close>

definition serves :: "string \<Rightarrow> string \<Rightarrow> target_row \<Rightarrow> bool" where
  "serves sid customer t \<longleftrightarrow> t_enabled t \<and> t_shard_id t = sid \<and> (customer = [] \<or> t_customer_id t = customer)"

text \<open>Newest captures of the served campaigns that have no job yet.\<close>

definition missing_jobs :: "fleet_db \<Rightarrow> string \<Rightarrow> string \<Rightarrow> (string \<times> int) list" where
  "missing_jobs db sid customer =
     List.map_filter (\<lambda>t.
        if serves sid customer t then
          (case latest_capture db (t_target_id t) of
             None \<Rightarrow> None
           | Some c \<Rightarrow> if list_ex (job_for (t_target_id t) (c_capture_id c)) (jobs db) then None
                       else Some (t_target_id t, c_capture_id c))
        else None) (targets db)"

text \<open>\<open>ON CONFLICT (target_id,capture_id) DO NOTHING\<close>; \<open>i\<close> counts the identifiers drawn.\<close>

fun insert_missing ::
  "(nat \<Rightarrow> string) \<Rightarrow> time \<Rightarrow> nat \<Rightarrow> (string \<times> int) list \<Rightarrow> job_row list \<Rightarrow> bridge_error + job_row list" where
  "insert_missing uuid now i [] js = Inr js"
| "insert_missing uuid now i ((tid, cid) # ms) js =
     bindE (insert_job (uuid i) tid cid now (\<lambda>j. j) js) (insert_missing uuid now (Suc i) ms)"

definition stale_open :: "fleet_db \<Rightarrow> job_row \<Rightarrow> bool" where
  "stale_open db j \<longleftrightarrow> j_state j \<in> {Pending, Failed}
     \<and> (case latest_capture db (j_target_id j) of None \<Rightarrow> False | Some c \<Rightarrow> j_capture_id j \<noteq> c_capture_id c)"

definition lease_expired :: "time \<Rightarrow> job_row \<Rightarrow> bool" where
  "lease_expired now j \<longleftrightarrow> j_state j = Leased \<and> (case j_leased_until j of None \<Rightarrow> False | Some u \<Rightarrow> u < now)"

text \<open>\<open>LEAST(3600, POWER(2,attempt_count)::int*10)\<close> seconds; the product is a 32-bit integer and SQL
  raises an error when it does not fit.\<close>

definition expiry_backoff_seconds :: "int \<Rightarrow> int" where
  "expiry_backoff_seconds attempts = min 3600 (2 ^ nat attempts * 10)"

definition expiry_backoff_fits :: "int \<Rightarrow> bool" where
  "expiry_backoff_fits attempts \<longleftrightarrow> 2 ^ nat attempts * 10 < (2 ^ 31 :: int)"

definition reclaim :: "fleet_config \<Rightarrow> time \<Rightarrow> job_row \<Rightarrow> job_row" where
  "reclaim cfg now j = (clear_lease now j)\<lparr>
     j_state := (if j_attempt_count j \<ge> MAX_ATTEMPTS cfg then Dead else Failed),
     j_available_at := (if j_attempt_count j \<ge> MAX_ATTEMPTS cfg then j_available_at j
                        else now + expiry_backoff_seconds (j_attempt_count j) * 1000),
     j_last_error := (case j_last_error j of Some e \<Rightarrow> Some e | None \<Rightarrow> Some ''Lease expired'')\<rparr>"

definition reclaim_expired :: "fleet_config \<Rightarrow> time \<Rightarrow> job_row list \<Rightarrow> bridge_error + job_row list" where
  "reclaim_expired cfg now js =
     (if list_ex (\<lambda>j. lease_expired now j \<and> j_attempt_count j < MAX_ATTEMPTS cfg
                     \<and> \<not> expiry_backoff_fits (j_attempt_count j)) js
      then Inl IntegerOutOfRange
      else Inr (update_where (lease_expired now) (reclaim cfg now) js))"

text \<open>The \<open>WHERE\<close> clause of the candidate query.\<close>

definition interval_elapsed :: "time \<Rightarrow> target_row \<Rightarrow> bool" where
  "interval_elapsed now t =
     (case t_last_applied_at t of None \<Rightarrow> True | Some a \<Rightarrow> a + t_min_delivery_interval_ms t \<le> now)"

definition leasable ::
  "fleet_config \<Rightarrow> time \<Rightarrow> fleet_db \<Rightarrow> string \<Rightarrow> string \<Rightarrow> job_row \<Rightarrow> target_row \<Rightarrow> bool" where
  "leasable cfg now db sid customer j t \<longleftrightarrow>
     j_state j \<in> {Pending, Failed} \<and> j_available_at j \<le> now \<and> j_attempt_count j < MAX_ATTEMPTS cfg
   \<and> serves sid customer t \<and> is_latest db j
   \<and> \<not> list_ex (\<lambda>a. j_target_id a = j_target_id j \<and> j_state a = Leased \<and> j_job_id a \<noteq> j_job_id j) (jobs db)
   \<and> interval_elapsed now t"

type_synonym candidate = "job_row \<times> capture_row \<times> target_row"

text \<open>The three-way join: a job whose capture or target row is missing yields no candidate.\<close>

definition candidates_of ::
  "fleet_config \<Rightarrow> time \<Rightarrow> fleet_db \<Rightarrow> string \<Rightarrow> string \<Rightarrow> candidate list" where
  "candidates_of cfg now db sid customer =
     List.map_filter (\<lambda>j.
       case (capture_of db (j_capture_id j), target_of db (j_target_id j)) of
         (Some c, Some t) \<Rightarrow> if leasable cfg now db sid customer j t then Some (j, c, t) else None
       | _ \<Rightarrow> None) (jobs db)"

definition rank_key :: "candidate \<Rightarrow> nat \<times> time \<times> string" where
  "rank_key = (\<lambda>(j, c, t). (if t_last_applied_at t = None then 0 else 1, j_created_at j, j_job_id j))"

definition same_account :: "candidate \<Rightarrow> candidate \<Rightarrow> bool" where
  "same_account p q \<longleftrightarrow> t_customer_id (snd (snd p)) = t_customer_id (snd (snd q))"

text \<open>\<open>row_number() OVER (PARTITION BY customer_id ORDER BY ...)\<close>.\<close>

definition account_position :: "candidate list \<Rightarrow> candidate \<Rightarrow> nat" where
  "account_position ps p = Suc (length (filter (\<lambda>q. same_account p q \<and> rank_key q < rank_key p) ps))"

definition order_key :: "candidate list \<Rightarrow> candidate \<Rightarrow> nat \<times> time \<times> string" where
  "order_key ps p = (account_position ps p, j_created_at (fst p), j_job_id (fst p))"

definition lease_limit :: "int \<Rightarrow> nat" where
  "lease_limit requested = nat (max 1 (min (int MAX_LEASE_JOBS) requested))"

definition lease_batch ::
  "fleet_config \<Rightarrow> time \<Rightarrow> (string \<Rightarrow> bool) \<Rightarrow> fleet_db \<Rightarrow> string \<Rightarrow> string \<Rightarrow> int \<Rightarrow> candidate list" where
  "lease_batch cfg now locked db sid customer requested =
     (let ps = candidates_of cfg now db sid customer
      in take (lease_limit requested) (filter (\<lambda>p. \<not> locked (j_job_id (fst p))) (sort_key (order_key ps) ps)))"

record bridge_lease =
  l_jobId :: string
  l_leaseToken :: string
  l_campaignRecordId :: string
  l_campaignName :: string
  l_managerCustomerId :: string
  l_customerId :: string
  l_campaignId :: string
  l_exactSuffix :: string
  l_version :: int
  l_capturedAt :: time

definition issue_text :: "suffix_issue \<Rightarrow> string" where
  "issue_text i = (case i of
      NotAString \<Rightarrow> ''Invalid final URL suffix''
    | ChallengeParameter \<Rightarrow> ''Invalid final URL suffix: Cloudflare challenge parameters cannot be delivered''
    | EmptyIdentifier k \<Rightarrow> ''Invalid final URL suffix: empty tracking identifier '' @ k @ ''; preserve the last valid suffix'')"

definition kill_job :: "time \<Rightarrow> suffix_issue \<Rightarrow> job_row \<Rightarrow> job_row" where
  "kill_job now issue j = (clear_lease now j)\<lparr>j_state := Dead, j_last_error := Some (issue_text issue)\<rparr>"

definition grant_lease ::
  "fleet_config \<Rightarrow> (string \<Rightarrow> string) \<Rightarrow> time \<Rightarrow> string \<Rightarrow> string \<Rightarrow> string \<Rightarrow> job_row \<Rightarrow> job_row" where
  "grant_lease cfg digest now token worker sid j = j\<lparr>
     j_state := Leased, j_attempt_count := j_attempt_count j + 1, j_leased_at := Some now,
     j_leased_until := Some (now + LEASE_MS cfg), j_lease_token_hash := Some (digest token),
     j_worker_id := Some worker, j_lease_shard_id := Some sid, j_updated_at := now\<rparr>"

definition lease_of :: "string \<Rightarrow> candidate \<Rightarrow> bridge_lease" where
  "lease_of token = (\<lambda>(j, c, t). \<lparr>
     l_jobId = j_job_id j, l_leaseToken = token, l_campaignRecordId = t_campaign_record_id t,
     l_campaignName = t_campaign_name t, l_managerCustomerId = t_manager_customer_id t,
     l_customerId = t_customer_id t, l_campaignId = t_google_campaign_id t,
     l_exactSuffix = c_exact_suffix c, l_version = c_version c, l_capturedAt = c_captured_at c\<rparr>)"

text \<open>The loop over the candidate rows: an undeliverable suffix kills its job, any other is leased under
  the next fresh token.\<close>

fun grant_all ::
  "fleet_config \<Rightarrow> (string \<Rightarrow> string) \<Rightarrow> time \<Rightarrow> (nat \<Rightarrow> string) \<Rightarrow> string \<Rightarrow> string \<Rightarrow> nat \<Rightarrow> candidate list
    \<Rightarrow> job_row list \<Rightarrow> bridge_lease list \<times> job_row list" where
  "grant_all cfg digest now tok worker sid i [] js = ([], js)"
| "grant_all cfg digest now tok worker sid i ((j, c, t) # ps) js =
     (case deliverySuffixIssue (Some (c_exact_suffix c)) of
        Some issue \<Rightarrow> grant_all cfg digest now tok worker sid i ps
                         (update_where (\<lambda>r. j_job_id r = j_job_id j) (kill_job now issue) js)
      | None \<Rightarrow>
         (case grant_all cfg digest now tok worker sid (Suc i) ps
                 (update_where (\<lambda>r. j_job_id r = j_job_id j) (grant_lease cfg digest now (tok i) worker sid) js) of
            (leases, js') \<Rightarrow> (lease_of (tok i) (j, c, t) # leases, js')))"

section \<open>Worker activity\<close>

definition touch_activity :: "string \<Rightarrow> string \<Rightarrow> time \<Rightarrow> string \<Rightarrow> activity_row list \<Rightarrow> activity_row list" where
  "touch_activity sid worker now customer as =
     (let here = (\<lambda>a. a_shard_id a = sid \<and> a_customer_id a = customer) in
      if list_ex here as then update_where here (\<lambda>a. a\<lparr>a_last_poll_at := Some now, a_worker_id := Some worker\<rparr>) as
      else as @ [\<lparr>a_shard_id = sid, a_customer_id = customer, a_manifest_seen_at = None,
                  a_last_poll_at = Some now, a_worker_id = Some worker\<rparr>])"

definition poll_shard :: "time \<Rightarrow> string \<Rightarrow> fleet_db \<Rightarrow> fleet_db" where
  "poll_shard now sid db = db\<lparr>shards := update_where (\<lambda>s. s_shard_id s = sid)
     (\<lambda>s. s\<lparr>s_last_poll_at := Some now, s_updated_at := now\<rparr>) (shards db)\<rparr>"

definition live_customers :: "fleet_db \<Rightarrow> string \<Rightarrow> string list" where
  "live_customers db sid = remdups (map t_customer_id (filter (\<lambda>t. t_enabled t) (live_targets db sid)))"

text \<open>A customer-scoped poll records that customer if it has a live campaign here; a hot-add poll records
  every customer with a live campaign; the table only accepts 10-digit customer ids.\<close>

definition record_activity ::
  "string \<Rightarrow> string \<Rightarrow> time \<Rightarrow> string \<Rightarrow> bool \<Rightarrow> fleet_db \<Rightarrow> bridge_error + fleet_db" where
  "record_activity sid worker now customer hotAdd db =
     (let cs = (if customer \<noteq> [] then filter (\<lambda>c. c = customer) (live_customers db sid)
                else if hotAdd then live_customers db sid else [])
      in if list_all digits10 cs
         then Inr (db\<lparr>activity := fold (touch_activity sid worker now) cs (activity db)\<rparr>)
         else Inl CheckViolation)"

section \<open>\<open>leaseBridgeJobs\<close>\<close>

definition refresh_jobs ::
  "fleet_config \<Rightarrow> (nat \<Rightarrow> string) \<Rightarrow> time \<Rightarrow> fleet_db \<Rightarrow> string \<Rightarrow> string \<Rightarrow> bridge_error + fleet_db" where
  "refresh_jobs cfg uuid now db sid customer =
     bindE (insert_missing uuid now 0 (missing_jobs db sid customer) (jobs db)) (\<lambda>js.
     bindE (reclaim_expired cfg now (update_where (stale_open db) (supersede now) js)) (\<lambda>js'.
       Inr (db\<lparr>jobs := js'\<rparr>)))"

definition leaseBridgeJobs ::
  "fleet_config \<Rightarrow> (string \<Rightarrow> string) \<Rightarrow> (nat \<Rightarrow> string) \<Rightarrow> (nat \<Rightarrow> string) \<Rightarrow> time \<Rightarrow> (string \<Rightarrow> bool)
    \<Rightarrow> string \<Rightarrow> string \<Rightarrow> int \<Rightarrow> string \<Rightarrow> bool \<Rightarrow> fleet_db \<Rightarrow> bridge_error + bridge_lease list \<times> fleet_db" where
  "leaseBridgeJobs cfg digest uuid tok now locked sid worker requestedLimit requestedCustomerId hotAddOption db =
     (let customer = normalizeId requestedCustomerId; hotAdd = (hotAddOption \<and> customer = []) in
      bindE (throwIf (customer \<noteq> [] \<and> \<not> digits10 customer) InvalidCustomerId) (\<lambda>_.
      bindE (lockActiveShard db sid) (\<lambda>_.
      bindE (refresh_jobs cfg uuid now db sid customer) (\<lambda>db1.
        case grant_all cfg digest now tok worker sid 0
               (lease_batch cfg now locked db1 sid customer requestedLimit) (jobs db1) of
          (leases, js) \<Rightarrow>
            bindE (record_activity sid worker now customer hotAdd (poll_shard now sid (db1\<lparr>jobs := js\<rparr>)))
              (\<lambda>db2. Inr (leases, db2))))))"

section \<open>Acknowledging and renewing\<close>

datatype ack_result = AckApplied bool | AckStale | AckConflict | AckRetry job_state

record ack_input =
  ack_shardId :: string
  ack_workerId :: string
  ack_jobId :: string
  ack_leaseToken :: string
  ack_ok :: bool
  ack_appliedSuffix :: "string option"
  ack_error :: "string option"

text \<open>\<open>Math.min(3600, 10 * 2 ** Math.max(0, attempts - 1))\<close> seconds.\<close>

definition ack_backoff_seconds :: "int \<Rightarrow> int" where
  "ack_backoff_seconds attempts = min 3600 (10 * 2 ^ nat (max 0 (attempts - 1)))"

definition apply_job :: "time \<Rightarrow> string \<Rightarrow> job_row \<Rightarrow> job_row" where
  "apply_job now hash j = j\<lparr>j_state := Applied, j_applied_at := Some now, j_verified_suffix_hash := Some hash,
     j_last_error := None, j_leased_at := None, j_leased_until := None, j_updated_at := now\<rparr>"

definition nonempty_or :: "string \<Rightarrow> string option \<Rightarrow> string" where
  "nonempty_or d v = (case v of None \<Rightarrow> d | Some s \<Rightarrow> if s = [] then d else s)"

definition fail_job :: "fleet_config \<Rightarrow> time \<Rightarrow> string option \<Rightarrow> job_row \<Rightarrow> job_row" where
  "fail_job cfg now err j = j\<lparr>
     j_state := (if j_attempt_count j \<ge> MAX_ATTEMPTS cfg then Dead else Failed),
     j_available_at := now + ack_backoff_seconds (j_attempt_count j) * 1000,
     j_last_error := Some (take 2000 (nonempty_or ''Google Ads verification did not return the exact suffix'' err)),
     j_leased_at := None, j_leased_until := None, j_lease_token_hash := None, j_updated_at := now\<rparr>"

definition ack_shard :: "time \<Rightarrow> string \<Rightarrow> string option \<Rightarrow> fleet_db \<Rightarrow> fleet_db" where
  "ack_shard now sid err db = db\<lparr>shards := update_where (\<lambda>s. s_shard_id s = sid)
     (\<lambda>s. s\<lparr>s_last_ack_at := Some now, s_last_error := err, s_updated_at := now\<rparr>) (shards db)\<rparr>"

definition exact_match :: "(string \<Rightarrow> string) \<Rightarrow> ack_input \<Rightarrow> capture_row \<Rightarrow> bool" where
  "exact_match digest input c =
     (ack_ok input \<and> (case ack_appliedSuffix input of None \<Rightarrow> False | Some s \<Rightarrow> digest s = c_suffix_hash c))"

definition settle_job ::
  "fleet_config \<Rightarrow> (string \<Rightarrow> string) \<Rightarrow> time \<Rightarrow> ack_input \<Rightarrow> job_row \<Rightarrow> capture_row \<Rightarrow> fleet_db \<Rightarrow> ack_result \<times> fleet_db" where
  "settle_job cfg digest now input j c db =
     (if exact_match digest input c
      then (AckApplied False, ack_shard now (ack_shardId input) None (db\<lparr>
              jobs := update_where (\<lambda>r. j_job_id r = ack_jobId input) (apply_job now (c_suffix_hash c)) (jobs db),
              targets := update_where (\<lambda>t. t_target_id t = j_target_id j)
                (\<lambda>t. t\<lparr>t_last_applied_at := Some now, t_last_applied_suffix_hash := Some (c_suffix_hash c),
                       t_updated_at := now\<rparr>) (targets db)\<rparr>))
      else (AckRetry (if j_attempt_count j \<ge> MAX_ATTEMPTS cfg then Dead else Failed),
            ack_shard now (ack_shardId input) (Some (nonempty_or ''Verification mismatch'' (ack_error input)))
              (db\<lparr>jobs := update_where (\<lambda>r. j_job_id r = ack_jobId input) (fail_job cfg now (ack_error input)) (jobs db)\<rparr>)))"

definition acknowledgeBridgeJob ::
  "fleet_config \<Rightarrow> (string \<Rightarrow> string) \<Rightarrow> time \<Rightarrow> ack_input \<Rightarrow> fleet_db \<Rightarrow> bridge_error + ack_result \<times> fleet_db" where
  "acknowledgeBridgeJob cfg digest now input db =
     bindE (if ack_ok input
            then (case assertDeliverableSuffix (ack_appliedSuffix input) of
                    Inl i \<Rightarrow> Inl (UndeliverableSuffix i) | Inr _ \<Rightarrow> Inr ())
            else Inr ()) (\<lambda>_.
     case job_of db (ack_jobId input) of
       None \<Rightarrow> Inr (AckStale, db)
     | Some j \<Rightarrow>
        (case (capture_of db (j_capture_id j), target_of db (j_target_id j)) of
           (Some c, Some t) \<Rightarrow>
             (if t_shard_id t \<noteq> ack_shardId input then Inr (AckStale, db)
              else if j_worker_id j \<noteq> Some (ack_workerId input)
                    \<or> j_lease_token_hash j \<noteq> Some (digest (ack_leaseToken input)) then Inr (AckStale, db)
              else if j_state j = Applied then
                (if j_verified_suffix_hash j = Some (c_suffix_hash c)
                 then Inr (AckApplied True, ack_shard now (ack_shardId input) None db)
                 else Inr (AckConflict, db))
              else if j_state j \<noteq> Leased then Inr (AckStale, db)
              else Inr (settle_job cfg digest now input j c db))
         | _ \<Rightarrow> Inr (AckStale, db)))"

definition renewable ::
  "(string \<Rightarrow> string) \<Rightarrow> fleet_db \<Rightarrow> string \<Rightarrow> string \<Rightarrow> string \<times> string \<Rightarrow> job_row \<Rightarrow> bool" where
  "renewable digest db sid worker l j =
     (j_job_id j = fst l \<and> j_state j = Leased \<and> j_worker_id j = Some worker
      \<and> j_lease_token_hash j = Some (digest (snd l))
      \<and> (case target_of db (j_target_id j) of None \<Rightarrow> False | Some t \<Rightarrow> t_shard_id t = sid))"

definition renew_one ::
  "fleet_config \<Rightarrow> (string \<Rightarrow> string) \<Rightarrow> time \<Rightarrow> string \<Rightarrow> string \<Rightarrow> string \<times> string
    \<Rightarrow> (string list \<times> string list) \<times> fleet_db \<Rightarrow> (string list \<times> string list) \<times> fleet_db" where
  "renew_one cfg digest now sid worker l st =
     (case st of ((renewed, stale), db) \<Rightarrow>
       if list_ex (renewable digest db sid worker l) (jobs db)
       then ((renewed @ [fst l], stale), db\<lparr>jobs := update_where (renewable digest db sid worker l)
               (\<lambda>j. j\<lparr>j_leased_until := Some (now + LEASE_MS cfg), j_updated_at := now\<rparr>) (jobs db)\<rparr>)
       else ((renewed, stale @ [fst l]), db))"

definition renewBridgeLeases ::
  "fleet_config \<Rightarrow> (string \<Rightarrow> string) \<Rightarrow> time \<Rightarrow> string \<Rightarrow> string \<Rightarrow> (string \<times> string) list \<Rightarrow> fleet_db
    \<Rightarrow> (string list \<times> string list) \<times> fleet_db" where
  "renewBridgeLeases cfg digest now sid worker leases db =
     (case fold (renew_one cfg digest now sid worker) (take MAX_LEASE_JOBS leases) (([], []), db) of
        (r, db1) \<Rightarrow> (r, poll_shard now sid db1))"

end
