(* ===== verification/Bridge_Queue.thy ===== *)
theory Bridge_Queue
  imports Bridge_Delivery
begin

text \<open>
  The invariants of the delivery queue and their preservation by every handler: unique job ids, one job
  per captured suffix, referential integrity, bounded attempts, complete lease data, and at most one
  outstanding lease per campaign.
\<close>

section \<open>Invariants\<close>

definition row_ok :: "fleet_config \<Rightarrow> job_row \<Rightarrow> bool" where
  "row_ok cfg j \<longleftrightarrow> 0 \<le> j_attempt_count j \<and> j_attempt_count j \<le> MAX_ATTEMPTS cfg
     \<and> (j_state j = Leased \<longrightarrow> 1 \<le> j_attempt_count j \<and> j_leased_until j \<noteq> None
          \<and> j_lease_token_hash j \<noteq> None \<and> j_worker_id j \<noteq> None \<and> j_lease_shard_id j \<noteq> None)"

definition one_lease :: "job_row list \<Rightarrow> bool" where
  "one_lease js \<longleftrightarrow> (\<forall>j\<in>set js. \<forall>k\<in>set js. j_state j = Leased \<longrightarrow> j_state k = Leased
     \<longrightarrow> j_target_id j = j_target_id k \<longrightarrow> j_job_id j = j_job_id k)"

definition one_job :: "job_row list \<Rightarrow> bool" where
  "one_job js \<longleftrightarrow> (\<forall>j\<in>set js. \<forall>k\<in>set js. j_target_id j = j_target_id k \<longrightarrow> j_capture_id j = j_capture_id k
     \<longrightarrow> j_job_id j = j_job_id k)"

definition jobs_ok :: "fleet_config \<Rightarrow> job_row list \<Rightarrow> bool" where
  "jobs_ok cfg js \<longleftrightarrow> distinct (map j_job_id js) \<and> one_job js \<and> one_lease js \<and> (\<forall>j\<in>set js. row_ok cfg j)"

text \<open>Referential integrity: a job points to an enrolled target and to a capture of that target.\<close>

definition refs_ok :: "fleet_db \<Rightarrow> bool" where
  "refs_ok db \<longleftrightarrow> (\<forall>j\<in>set (jobs db). j_target_id j \<in> t_target_id ` set (targets db)
     \<and> (\<exists>c\<in>set (captures db). c_capture_id c = j_capture_id j \<and> c_target_id c = j_target_id j))"

definition captures_ok :: "fleet_db \<Rightarrow> bool" where
  "captures_ok db \<longleftrightarrow> distinct (map c_capture_id (captures db))
     \<and> distinct (map (\<lambda>c. (c_target_id c, c_version c)) (captures db))
     \<and> (\<forall>c\<in>set (captures db). c_capture_id c < next_capture_id db
          \<and> c_target_id c \<in> t_target_id ` set (targets db))"

definition queue_inv :: "fleet_config \<Rightarrow> fleet_db \<Rightarrow> bool" where
  "queue_inv cfg db \<longleftrightarrow> jobs_ok cfg (jobs db) \<and> refs_ok db \<and> captures_ok db
     \<and> distinct (map t_target_id (targets db))"

section \<open>Revisions of a job\<close>

text \<open>The contract of an update of job rows that cannot create a lease: it keeps the identity columns and
  the row constraints, and leaves a job leased only if it was. Every such update keeps the queue
  invariants, whatever rows its WHERE clause selects.\<close>

locale job_revision =
  fixes cfg :: fleet_config and f :: "job_row \<Rightarrow> job_row"
  assumes same_job: "j_job_id (f j) = j_job_id j"
    and same_target: "j_target_id (f j) = j_target_id j"
    and same_capture: "j_capture_id (f j) = j_capture_id j"
    and no_new_lease: "j_state (f j) = Leased \<Longrightarrow> j_state j = Leased"
    and row: "row_ok cfg j \<Longrightarrow> row_ok cfg (f j)"
begin

lemma map_ids: "map j_job_id (update_where p f js) = map j_job_id js"
  by (rule map_update_where) (rule same_job)

lemma in_update:
  assumes "j' \<in> set (update_where p f js)"
  obtains j where "j \<in> set js" "j_job_id j' = j_job_id j" "j_target_id j' = j_target_id j"
    "j_capture_id j' = j_capture_id j" "j_state j' = Leased \<Longrightarrow> j_state j = Leased"
    "row_ok cfg j \<Longrightarrow> row_ok cfg j'"
  using assms by (rule in_update_whereE) (metis same_job same_target same_capture no_new_lease row)+

lemma one_job_update: "one_job js \<Longrightarrow> one_job (update_where p f js)"
  unfolding one_job_def by (metis in_update)

lemma one_lease_update: "one_lease js \<Longrightarrow> one_lease (update_where p f js)"
  unfolding one_lease_def by (metis in_update)

lemma rows_update: "\<forall>j\<in>set js. row_ok cfg j \<Longrightarrow> \<forall>j\<in>set (update_where p f js). row_ok cfg j"
  by (metis in_update)

lemma jobs_ok_update: "jobs_ok cfg js \<Longrightarrow> jobs_ok cfg (update_where p f js)"
  unfolding jobs_ok_def map_ids using one_job_update one_lease_update rows_update by blast

lemma refs_update: "refs_ok db \<Longrightarrow> refs_ok (db\<lparr>jobs := update_where p f (jobs db)\<rparr>)"
  unfolding refs_ok_def by simp (metis in_update)

lemma queue_update: "queue_inv cfg db \<Longrightarrow> queue_inv cfg (db\<lparr>jobs := update_where p f (jobs db)\<rparr>)"
  using jobs_ok_update refs_update by (simp add: queue_inv_def captures_ok_def)

lemma unleased_update:
  "\<forall>j\<in>set js. j_target_id j = tid \<longrightarrow> j_state j \<noteq> Leased \<Longrightarrow>
   \<forall>j\<in>set (update_where p f js). j_target_id j = tid \<longrightarrow> j_state j \<noteq> Leased"
  by (auto simp: set_update_where same_target dest: no_new_lease split: if_splits)

end

lemmas job_edit_defs = supersede_def clear_lease_def revive_dead_def requeue_closed_def reclaim_def
  kill_job_def apply_job_def fail_job_def row_ok_def

interpretation superseding: job_revision cfg "supersede now" for cfg now
  by unfold_locales (auto simp: job_edit_defs)

interpretation reviving: job_revision cfg "revive_dead now" for cfg now
  by unfold_locales (auto simp: job_edit_defs split: if_splits)

interpretation reclaiming: job_revision cfg "reclaim cfg now" for cfg now
  by unfold_locales (auto simp: job_edit_defs split: if_splits)

interpretation killing: job_revision cfg "kill_job now issue" for cfg now issue
  by unfold_locales (auto simp: job_edit_defs)

interpretation applying: job_revision cfg "apply_job now hash" for cfg now hash
  by unfold_locales (auto simp: job_edit_defs)

interpretation failing: job_revision cfg "fail_job cfg now err" for cfg now err
  by unfold_locales (auto simp: job_edit_defs split: if_splits)

interpretation keeping: job_revision cfg "\<lambda>j. j" for cfg
  by unfold_locales auto

interpretation renewing: job_revision cfg "\<lambda>j. j\<lparr>j_leased_until := Some until, j_updated_at := now\<rparr>" for cfg until now
  by unfold_locales (auto simp: row_ok_def)

text \<open>Requeueing resets the attempts, which is within bounds for every usable configuration.\<close>

lemma requeueing_revision: "sane_config cfg \<Longrightarrow> job_revision cfg (requeue_closed now)"
  by unfold_locales (auto simp: job_edit_defs sane_config_def split: if_splits)

section \<open>Adding jobs\<close>

lemma one_job_snoc:
  "one_job (js @ [n]) \<longleftrightarrow> one_job js \<and>
     (\<forall>j\<in>set js. j_target_id j = j_target_id n \<longrightarrow> j_capture_id j = j_capture_id n \<longrightarrow> j_job_id j = j_job_id n)"
  unfolding one_job_def
  by (auto simp: ball_conj_distrib eq_commute [of "j_target_id n"] eq_commute [of "j_capture_id n"]
      eq_commute [of "j_job_id n"])

lemma one_lease_snoc: "j_state n \<noteq> Leased \<Longrightarrow> one_lease (js @ [n]) \<longleftrightarrow> one_lease js"
  unfolding one_lease_def by (simp add: ball_Un)

lemma jobs_ok_append:
  assumes "jobs_ok cfg js" "sane_config cfg" "jid \<notin> j_job_id ` set js" "\<not> list_ex (job_for tid cid) js"
  shows "jobs_ok cfg (js @ [new_job jid tid cid now])"
proof -
  let ?n = "new_job jid tid cid now"
  have n: "j_job_id ?n = jid" "j_target_id ?n = tid" "j_capture_id ?n = cid" "j_state ?n = Pending" "j_attempt_count ?n = 0"
    by (simp_all add: new_job_def)
  have "one_job (js @ [?n])"
    unfolding one_job_snoc n using assms(1,4) unfolding jobs_ok_def job_for_def list_ex_iff by blast
  moreover have "one_lease (js @ [?n])"
    using assms(1) by (simp add: jobs_ok_def one_lease_snoc n)
  moreover have "row_ok cfg ?n" using assms(2) by (simp add: row_ok_def n sane_config_def)
  ultimately show ?thesis using assms(1,3) by (simp add: jobs_ok_def n)
qed

lemma insert_job_Inr:
  assumes "insert_job jid tid cid now revise js = Inr js'"
  shows "js' = update_where (job_for tid cid) revise js \<and> list_ex (job_for tid cid) js
    \<or> js' = js @ [new_job jid tid cid now] \<and> jid \<notin> j_job_id ` set js \<and> \<not> list_ex (job_for tid cid) js"
  using assms by (auto simp: insert_job_def split: if_splits)

lemma jobs_ok_insert:
  assumes "insert_job jid tid cid now revise js = Inr js'" "jobs_ok cfg js" "sane_config cfg"
    "job_revision cfg revise"
  shows "jobs_ok cfg js'"
  using insert_job_Inr [OF assms(1)] jobs_ok_append [OF assms(2,3)] job_revision.jobs_ok_update [OF assms(4,2)]
  by blast

lemma refs_insert:
  assumes i: "insert_job jid tid cid now revise (jobs db) = Inr js" and "refs_ok db" "job_revision cfg revise"
    "tid \<in> t_target_id ` set (targets db)" "c \<in> set (captures db)" "c_capture_id c = cid" "c_target_id c = tid"
  shows "refs_ok (db\<lparr>jobs := js\<rparr>)"
proof (rule disjE [OF insert_job_Inr [OF i]])
  assume "js = update_where (job_for tid cid) revise (jobs db) \<and> list_ex (job_for tid cid) (jobs db)"
  then show ?thesis using job_revision.refs_update [OF assms(3,2)] by simp
next
  assume "js = jobs db @ [new_job jid tid cid now] \<and> jid \<notin> j_job_id ` set (jobs db) \<and> \<not> list_ex (job_for tid cid) (jobs db)"
  with assms(2,4-7) show ?thesis by (auto simp: refs_ok_def new_job_def)
qed

section \<open>Handlers that do not lease\<close>

lemma queue_inv_mono:
  assumes "queue_inv cfg db" "jobs db' = jobs db" "captures db' = captures db" "next_capture_id db' = next_capture_id db"
    "t_target_id ` set (targets db) \<subseteq> t_target_id ` set (targets db')" "distinct (map t_target_id (targets db'))"
  shows "queue_inv cfg db'"
  using assms unfolding queue_inv_def refs_ok_def captures_ok_def by (auto simp: subset_iff)

lemma queue_inv_upsert [fleet_inv]:
  assumes "enrollment_inv db" "queue_inv cfg db" "upsertBridgeTarget cfg' digest now input db = Inr ((tid, sid), db')"
  shows "queue_inv cfg db'" "tid \<in> t_target_id ` set (targets db')"
proof -
  from assms(3) obtain db2 where u: "targets db2 = targets db" "captures db2 = captures db" "jobs db2 = jobs db"
    "next_capture_id db2 = next_capture_id db" "save_target cfg' input tid sid now db2 = Inr db'"
    by (rule upsert_facts)
  have inv: "enrollment_inv db'" by (rule enrollment_inv_upsert [OF assms(1,3)])
  have f: "jobs db' = jobs db" "captures db' = captures db" "next_capture_id db' = next_capture_id db"
    "t_target_id ` set (targets db) \<subseteq> t_target_id ` set (targets db')" "tid \<in> t_target_id ` set (targets db')"
  proof -
    have "db' = db2\<lparr>targets := targets db'\<rparr>" using u(5) by (rule save_target_Inr) auto
    then have g: "jobs db' = jobs db2" "captures db' = captures db2" "next_capture_id db' = next_capture_id db2"
      by (metis fleet_db.ext_inject fleet_db.surjective fleet_db.update_convs(1))+
    then show "jobs db' = jobs db" "captures db' = captures db" "next_capture_id db' = next_capture_id db"
      by (simp_all add: u)
    have "t_target_id ` set (targets db') = insert tid (t_target_id ` set (targets db))"
      using u(5)
    proof (cases rule: save_target_Inr)
      case (update t0)
      have "map t_target_id (targets db') = map t_target_id (targets db)"
        by (simp add: update(2) map_update_where u)
      then have "t_target_id ` set (targets db') = t_target_id ` set (targets db)" by (metis set_map)
      with update(1) show ?thesis by (auto simp: u dest!: lookup_by_SomeD)
    next
      case insert
      then show ?thesis by (auto simp: u)
    qed
    then show "t_target_id ` set (targets db) \<subseteq> t_target_id ` set (targets db')" "tid \<in> t_target_id ` set (targets db')"
      by auto
  qed
  then show "queue_inv cfg db'"
    using inv by (intro queue_inv_mono [OF assms(2)]) (auto simp: enrollment_inv_def keys_ok_def)
  show "tid \<in> t_target_id ` set (targets db')" by (rule f)
qed

lemma store_capture_spec:
  assumes "store_capture digest tid input now db = (cid, db')" and "captures_ok db"
    and "tid \<in> t_target_id ` set (targets db)"
  shows "captures_ok db'" "targets db' = targets db" "jobs db' = jobs db"
    "shards db' = shards db" "shard_managers db' = shard_managers db"
    "\<exists>c\<in>set (captures db'). c_capture_id c = cid \<and> c_target_id c = tid \<and> c_version c = capture_version input now
        \<and> c_exact_suffix c = ci_exactSuffix input \<and> c_suffix_hash c = digest (ci_exactSuffix input)"
    "map (\<lambda>c. (c_capture_id c, c_target_id c)) (captures db) = take (length (captures db)) (map (\<lambda>c. (c_capture_id c, c_target_id c)) (captures db'))"
proof -
  let ?v = "capture_version input now"
  let ?same = "\<lambda>c. c_target_id c = tid \<and> c_version c = ?v"
  let ?f = "\<lambda>c. c\<lparr>c_exact_suffix := ci_exactSuffix input, c_suffix_hash := digest (ci_exactSuffix input),
               c_egress_identity := (case ci_egress input of Some e \<Rightarrow> Some e | None \<Rightarrow> c_egress_identity c)\<rparr>"
  have "captures_ok db' \<and> targets db' = targets db \<and> jobs db' = jobs db \<and> shards db' = shards db \<and> shard_managers db' = shard_managers db \<and>
    (\<exists>c\<in>set (captures db'). c_capture_id c = cid \<and> c_target_id c = tid \<and> c_version c = ?v
        \<and> c_exact_suffix c = ci_exactSuffix input \<and> c_suffix_hash c = digest (ci_exactSuffix input)) \<and>
    map (\<lambda>c. (c_capture_id c, c_target_id c)) (captures db) = take (length (captures db)) (map (\<lambda>c. (c_capture_id c, c_target_id c)) (captures db'))"
  proof (cases "find ?same (captures db)")
    case (Some c)
    then have c: "c \<in> set (captures db)" "?same c" by (auto simp: find_Some_iff)
    from assms(1) Some have e: "cid = c_capture_id c" "captures db' = update_where ?same ?f (captures db)"
      "targets db' = targets db" "jobs db' = jobs db" "shards db' = shards db" "shard_managers db' = shard_managers db" "next_capture_id db' = next_capture_id db + 1"
      by (auto simp: store_capture_def Let_def)
    have k: "map c_capture_id (captures db') = map c_capture_id (captures db)"
      "map (\<lambda>c. (c_target_id c, c_version c)) (captures db') = map (\<lambda>c. (c_target_id c, c_version c)) (captures db)"
      "map (\<lambda>c. (c_capture_id c, c_target_id c)) (captures db') = map (\<lambda>c. (c_capture_id c, c_target_id c)) (captures db)"
      unfolding e by (rule map_update_where; simp)+
    have "captures_ok db'"
      using assms(2) unfolding captures_ok_def k e(3,7) by (auto simp: e(2) set_update_where dest: bspec)
    moreover have "?f c \<in> set (captures db')" using c by (auto simp: e(2) set_update_where image_iff intro!: bexI [of _ c])
    ultimately show ?thesis using c e k(3) by (auto simp: take_all_iff intro!: bexI [of _ "?f c"])
  next
    case None
    then have nv: "\<And>c. c \<in> set (captures db) \<Longrightarrow> \<not> ?same c" by (auto simp: find_None_iff)
    define n where "n = \<lparr>c_capture_id = next_capture_id db, c_target_id = tid, c_version = ?v,
             c_exact_suffix = ci_exactSuffix input, c_suffix_hash = digest (ci_exactSuffix input),
             c_source_run_id = ci_sourceRunId input, c_egress_identity = ci_egress input, c_captured_at = now\<rparr>"
    have n: "c_capture_id n = next_capture_id db" "c_target_id n = tid" "c_version n = ?v"
      "c_exact_suffix n = ci_exactSuffix input" "c_suffix_hash n = digest (ci_exactSuffix input)"
      by (simp_all add: n_def)
    from assms(1) None have e: "cid = next_capture_id db" "db' = db\<lparr>next_capture_id := next_capture_id db + 1, captures := captures db @ [n]\<rparr>"
      by (auto simp: store_capture_def Let_def n_def)
    have lt: "c_capture_id c < next_capture_id db \<and> c_target_id c \<in> t_target_id ` set (targets db)" if "c \<in> set (captures db)" for c
      using assms(2) that by (simp add: captures_ok_def)
    have "next_capture_id db \<notin> c_capture_id ` set (captures db)" using lt by (metis imageE less_irrefl)
    moreover have "(tid, ?v) \<notin> (\<lambda>c. (c_target_id c, c_version c)) ` set (captures db)" using nv by (metis (mono_tags, lifting) Pair_inject imageE)
    moreover have "\<forall>c\<in>set (captures db). c_capture_id c < next_capture_id db + 1 \<and> c_target_id c \<in> t_target_id ` set (targets db)"
      using lt by force
    ultimately have "captures_ok db'" using assms(2,3) by (simp add: captures_ok_def e n)
    then show ?thesis by (simp add: e n)
  qed
  then show "captures_ok db'" "targets db' = targets db" "jobs db' = jobs db"
    "shards db' = shards db" "shard_managers db' = shard_managers db"
    "\<exists>c\<in>set (captures db'). c_capture_id c = cid \<and> c_target_id c = tid \<and> c_version c = capture_version input now
        \<and> c_exact_suffix c = ci_exactSuffix input \<and> c_suffix_hash c = digest (ci_exactSuffix input)"
    "map (\<lambda>c. (c_capture_id c, c_target_id c)) (captures db) = take (length (captures db)) (map (\<lambda>c. (c_capture_id c, c_target_id c)) (captures db'))"
    by auto
qed

lemma enqueue_capture_Inr:
  assumes "enqueue_capture digest now jid tid input db = Inr (cid, db')"
  obtains db1 js where "store_capture digest tid input now db = (cid, db1)"
    "insert_job jid tid cid now (revive_dead now) (update_where (open_other tid cid) (supersede now) (jobs db1)) = Inr js"
    "db' = db1\<lparr>jobs := js\<rparr>"
  using assms by (auto simp: enqueue_capture_def bindE_Inr_conv split: prod.splits)

lemma queue_inv_enqueue [fleet_inv]:
  assumes "queue_inv cfg db" "sane_config cfg" "tid \<in> t_target_id ` set (targets db)"
    "enqueue_capture digest now jid tid input db = Inr (cid, db')"
  shows "queue_inv cfg db'"
proof -
  from assms(4) obtain db1 js where s: "store_capture digest tid input now db = (cid, db1)"
    and i: "insert_job jid tid cid now (revive_dead now) (update_where (open_other tid cid) (supersede now) (jobs db1)) = Inr js"
    and db': "db' = db1\<lparr>jobs := js\<rparr>"
    by (rule enqueue_capture_Inr)
  have co: "captures_ok db" using assms(1) by (simp add: queue_inv_def)
  note f = store_capture_spec [OF s co assms(3)]
  have ids: "\<exists>c'\<in>set (captures db1). c_capture_id c' = c_capture_id c \<and> c_target_id c' = c_target_id c"
    if "c \<in> set (captures db)" for c
  proof -
    have "(c_capture_id c, c_target_id c) \<in> set (map (\<lambda>c. (c_capture_id c, c_target_id c)) (captures db1))"
      using that f(7) by (metis (mono_tags, lifting) image_eqI in_set_takeD set_map)
    then show ?thesis by (auto simp: image_iff)
  qed
  have r1: "refs_ok db1"
    using assms(1) ids unfolding refs_ok_def queue_inv_def f(2,3) by metis
  let ?db2 = "db1\<lparr>jobs := update_where (open_other tid cid) (supersede now) (jobs db1)\<rparr>"
  have r2: "refs_ok ?db2" by (rule superseding.refs_update [OF r1])
  have j1: "jobs_ok cfg (jobs db1)" using assms(1) f(3) by (simp add: queue_inv_def)
  have j2: "jobs_ok cfg (jobs ?db2)" using superseding.jobs_ok_update [OF j1] by simp
  have "jobs_ok cfg js" by (rule jobs_ok_insert [OF i _ assms(2) reviving.job_revision_axioms]) (use j2 in simp)
  moreover obtain c where "c \<in> set (captures db1)" "c_capture_id c = cid" "c_target_id c = tid" using f(6) by blast
  then have "refs_ok (?db2\<lparr>jobs := js\<rparr>)"
    using assms(3) f(2) i by (intro refs_insert [OF _ r2 reviving.job_revision_axioms]) auto
  ultimately show ?thesis
    using assms(1) f(1,2) by (simp add: queue_inv_def db' refs_ok_def captures_ok_def)
qed

lemma queue_inv_queueLatest [fleet_inv]:
  assumes "queue_inv cfg db" "sane_config cfg" "queueLatestBridgeCapture now jid rec db = Inr (r, db')"
  shows "queue_inv cfg db'"
proof (cases "r")
  case None
  with assms(1,3) show ?thesis by (auto simp: queueLatestBridgeCapture_def bindE_Inr_conv split: option.splits)
next
  case (Some cid)
  with assms(3) obtain t c js where t: "find (\<lambda>t. t_campaign_record_id t = rec \<and> t_enabled t) (targets db) = Some t" and c: "latest_capture db (t_target_id t) = Some c" "cid = c_capture_id c"
    and i: "insert_job jid (t_target_id t) cid now (requeue_closed now)
       (update_where (open_other (t_target_id t) cid) (supersede now) (jobs db)) = Inr js"
    and db': "db' = db\<lparr>jobs := js\<rparr>"
    by (auto simp: queueLatestBridgeCapture_def bindE_Inr_conv split: option.splits)
  have t: "t \<in> set (targets db)" using t by (auto simp: find_Some_iff)
  let ?db2 = "db\<lparr>jobs := update_where (open_other (t_target_id t) cid) (supersede now) (jobs db)\<rparr>"
  have q2: "queue_inv cfg ?db2" by (rule superseding.queue_update [OF assms(1)])
  have "jobs_ok cfg js"
    by (rule jobs_ok_insert [OF i _ assms(2) requeueing_revision [OF assms(2)]]) (use q2 in \<open>simp add: queue_inv_def\<close>)
  moreover have "refs_ok (?db2\<lparr>jobs := js\<rparr>)"
    by (rule refs_insert [OF _ _ requeueing_revision [OF assms(2)], where tid = "t_target_id t" and cid = cid and c = c and jid = jid and now = now])
       (use i q2 t c latest_capture_SomeD(1,2) [OF c(1)] in \<open>auto simp: queue_inv_def\<close>)
  ultimately show ?thesis using assms(1) by (simp add: queue_inv_def db' refs_ok_def captures_ok_def)
qed

lemma queue_inv_setEnabled [fleet_inv]:
  assumes "queue_inv cfg db" "setBridgeTargetEnabled now rec en db = Inr db'"
  shows "queue_inv cfg db'"
  using assms(2)
proof (cases rule: setBridgeTargetEnabled_Inr)
  case (1 db1 t)
  let ?p = "\<lambda>j. j_target_id j = t_target_id t \<and> j_state j \<in> {Pending, Failed, Leased}"
  let ?db2 = "db\<lparr>jobs := if en then jobs db else update_where ?p (supersede now) (jobs db)\<rparr>"
  have "queue_inv cfg ?db2"
    using assms(1) superseding.queue_update [OF assms(1), of ?p now] by (cases en) auto
  moreover have ids: "map t_target_id (targets db') = map t_target_id (targets db)"
    by (simp add: 1(3) map_update_where)
  then have "t_target_id ` set (targets db') = t_target_id ` set (targets db)" by (metis set_map)
  moreover have "distinct (map t_target_id (targets db'))" using assms(1) by (simp add: ids queue_inv_def)
  moreover note q = calculation
  show ?thesis
    by (rule queue_inv_mono [OF q(1)]) (use q(2,3) in \<open>simp_all add: 1(4,6,8)\<close>)
qed

lemma queue_inv_deleteTarget [fleet_inv]:
  assumes "queue_inv cfg db" "deleteBridgeTarget tin rin db = Inr (r, db')"
  shows "queue_inv cfg db'"
  using assms(2)
proof (cases rule: deleteBridgeTarget_cases)
  case none
  with assms(1) show ?thesis by simp
next
  case (some t)
  have sub: "set (jobs db') \<subseteq> set (jobs db)" by (auto simp: some(5))
  have "one_job (jobs db')" "one_lease (jobs db')" "\<forall>j\<in>set (jobs db'). row_ok cfg j"
    using assms(1) sub unfolding queue_inv_def jobs_ok_def one_job_def one_lease_def by (meson subsetD)+
  moreover have "distinct (map j_job_id (jobs db'))"
    using assms(1) by (simp add: some(5) queue_inv_def jobs_ok_def distinct_map_filter)
  moreover have "refs_ok db'"
    using assms(1) unfolding queue_inv_def refs_ok_def some(3,4,5) by fastforce
  moreover have "captures_ok db'"
    using assms(1) unfolding queue_inv_def captures_ok_def some(3,4,8) by (auto simp: distinct_map_filter)
  moreover have "distinct (map t_target_id (targets db'))"
    using assms(1) by (simp add: some(3) queue_inv_def distinct_map_filter)
  ultimately show ?thesis by (simp add: queue_inv_def jobs_ok_def)
qed

section \<open>Leasing\<close>

lemma insert_missing_inv:
  assumes "queue_inv cfg (db\<lparr>jobs := js\<rparr>)" "sane_config cfg" "insert_missing uuid now i ms js = Inr js'"
    and "\<forall>(tid, cid)\<in>set ms. tid \<in> t_target_id ` set (targets db)
          \<and> (\<exists>c\<in>set (captures db). c_capture_id c = cid \<and> c_target_id c = tid)"
  shows "queue_inv cfg (db\<lparr>jobs := js'\<rparr>)"
  using assms
proof (induction uuid now i ms js rule: insert_missing.induct)
  case (1 uuid now i js)
  then show ?case by simp
next
  case (2 uuid now i tid cid ms js)
  then obtain js1 where i: "insert_job (uuid i) tid cid now (\<lambda>j. j) js = Inr js1" "insert_missing uuid now (Suc i) ms js1 = Inr js'"
    by (auto simp: bindE_Inr_conv)
  obtain c where c: "tid \<in> t_target_id ` set (targets db)" "c \<in> set (captures db)" "c_capture_id c = cid" "c_target_id c = tid"
    using 2(5) by auto
  have "jobs_ok cfg js1"
    by (rule jobs_ok_insert [OF i(1) _ 2(3) keeping.job_revision_axioms]) (use 2(2) in \<open>simp add: queue_inv_def\<close>)
  moreover have "refs_ok ((db\<lparr>jobs := js\<rparr>)\<lparr>jobs := js1\<rparr>)"
    by (rule refs_insert [OF _ _ keeping.job_revision_axioms, of "uuid i" tid cid now _ _ c])
       (use 2(2) i(1) c in \<open>simp_all add: queue_inv_def\<close>)
  ultimately have "queue_inv cfg (db\<lparr>jobs := js1\<rparr>)" using 2(2) by (simp add: queue_inv_def captures_ok_def)
  then show ?case by (rule 2(1) [OF _ _ i(2)]) (use 2(3,5) in auto)
qed

lemma missing_jobs_refs:
  assumes "(tid, cid) \<in> set (missing_jobs db sid customer)"
  shows "tid \<in> t_target_id ` set (targets db) \<and> (\<exists>c\<in>set (captures db). c_capture_id c = cid \<and> c_target_id c = tid)"
proof -
  from assms obtain t where t: "t \<in> set (targets db)" and e: "(if serves sid customer t then
          (case latest_capture db (t_target_id t) of
             None \<Rightarrow> None
           | Some c \<Rightarrow> if list_ex (job_for (t_target_id t) (c_capture_id c)) (jobs db) then None
                       else Some (t_target_id t, c_capture_id c)) else None) = Some (tid, cid)"
    unfolding missing_jobs_def in_map_filter by blast
  then obtain c where "latest_capture db (t_target_id t) = Some c" "tid = t_target_id t" "cid = c_capture_id c"
    by (cases "latest_capture db (t_target_id t)") (auto split: if_split_asm)
  with t show ?thesis by (auto dest: latest_capture_SomeD(1,2))
qed

lemma refresh_jobs_Inr:
  assumes "refresh_jobs cfg uuid now db sid customer = Inr db'"
  obtains js where "insert_missing uuid now 0 (missing_jobs db sid customer) (jobs db) = Inr js"
    "db' = db\<lparr>jobs := update_where (lease_expired now) (reclaim cfg now) (update_where (stale_open db) (supersede now) js)\<rparr>"
  using assms by (auto simp: refresh_jobs_def bindE_Inr_conv reclaim_expired_def split: if_splits)

lemma queue_inv_refresh:
  assumes "queue_inv cfg db" "sane_config cfg" "refresh_jobs cfg uuid now db sid customer = Inr db'"
  shows "queue_inv cfg db'"
  using assms(3)
proof (rule refresh_jobs_Inr)
  fix js assume i: "insert_missing uuid now 0 (missing_jobs db sid customer) (jobs db) = Inr js"
    and db': "db' = db\<lparr>jobs := update_where (lease_expired now) (reclaim cfg now) (update_where (stale_open db) (supersede now) js)\<rparr>"
  have 0: "queue_inv cfg (db\<lparr>jobs := js\<rparr>)"
    by (rule insert_missing_inv [OF _ assms(2) i]) (use assms(1) missing_jobs_refs in \<open>auto\<close>)
  from superseding.queue_update [OF 0] have 1: "queue_inv cfg (db\<lparr>jobs := update_where (stale_open db) (supersede now) js\<rparr>)"
    by simp
  from reclaiming.queue_update [OF 1] show ?thesis by (simp add: db')
qed

text \<open>What the loop over the candidate rows relies on: the rows it was given are the current rows, none of
  them is leased or exhausted, their campaigns are pairwise different and have no outstanding lease.\<close>

definition grantable :: "fleet_config \<Rightarrow> candidate list \<Rightarrow> job_row list \<Rightarrow> bool" where
  "grantable cfg ps js \<longleftrightarrow> distinct (map (j_target_id \<circ> fst) ps) \<and>
     (\<forall>p\<in>set ps. fst p \<in> set js \<and> j_attempt_count (fst p) < MAX_ATTEMPTS cfg
        \<and> (\<forall>a\<in>set js. j_target_id a = j_target_id (fst p) \<longrightarrow> j_state a \<noteq> Leased))"

lemma grantable_step:
  assumes "grantable cfg (p # ps) js" and ids: "distinct (map j_job_id js)"
    and f: "\<And>r. j_job_id (f r) = j_job_id r" "\<And>r. j_target_id (f r) = j_target_id r"
  shows "grantable cfg ps (update_where (\<lambda>r. j_job_id r = j_job_id (fst p)) f js)"
  unfolding grantable_def
proof (intro conjI ballI impI)
  show "distinct (map (j_target_id \<circ> fst) ps)" using assms(1) by (simp add: grantable_def)
next
  fix q assume q: "q \<in> set ps"
  then have t: "j_target_id (fst q) \<noteq> j_target_id (fst p)" and m: "fst q \<in> set js" "fst p \<in> set js"
    using assms(1) by (force simp: grantable_def image_iff)+
  then have "j_job_id (fst q) \<noteq> j_job_id (fst p)" using distinct_key_eq [OF ids] by metis
  then show "fst q \<in> set (update_where (\<lambda>r. j_job_id r = j_job_id (fst p)) f js)"
    using m by (intro update_where_keeps) auto
  show "j_attempt_count (fst q) < MAX_ATTEMPTS cfg" using assms(1) q by (simp add: grantable_def)
  fix a assume a: "a \<in> set (update_where (\<lambda>r. j_job_id r = j_job_id (fst p)) f js)" "j_target_id a = j_target_id (fst q)"
  from a(1) show "j_state a \<noteq> Leased"
  proof (rule in_update_whereE)
    fix r assume r: "r \<in> set js" "j_job_id r = j_job_id (fst p)" "a = f r"
    then have "r = fst p" using distinct_key_eq [OF ids _ m(2)] by blast
    with r a(2) t f show ?thesis by simp
  next
    assume "a \<in> set js"
    with a(2) assms(1) q show ?thesis by (simp add: grantable_def)
  qed
qed

lemma grant_lease_simps [simp]:
  "j_job_id (grant_lease cfg digest now token worker sid j) = j_job_id j"
  "j_target_id (grant_lease cfg digest now token worker sid j) = j_target_id j"
  "j_capture_id (grant_lease cfg digest now token worker sid j) = j_capture_id j"
  "j_state (grant_lease cfg digest now token worker sid j) = Leased"
  by (simp_all add: grant_lease_def)

lemma jobs_ok_grant:
  assumes ok: "jobs_ok cfg js" and g: "grantable cfg (p # ps) js"
  shows "jobs_ok cfg (update_where (\<lambda>r. j_job_id r = j_job_id (fst p)) (grant_lease cfg digest now token worker sid) js)"
    (is "jobs_ok cfg ?js")
proof -
  let ?g = "grant_lease cfg digest now token worker sid"
  have ids: "distinct (map j_job_id js)" using ok by (simp add: jobs_ok_def)
  have m: "fst p \<in> set js" "j_attempt_count (fst p) < MAX_ATTEMPTS cfg"
    "\<And>a. a \<in> set js \<Longrightarrow> j_target_id a = j_target_id (fst p) \<Longrightarrow> j_state a \<noteq> Leased"
    using g by (simp_all add: grantable_def)
  have mem: "(\<exists>r\<in>set js. a = ?g r \<and> r = fst p) \<or> (a \<in> set js \<and> j_job_id a \<noteq> j_job_id (fst p))" if "a \<in> set ?js" for a
    using that by (rule in_update_whereE) (use distinct_key_eq [OF ids _ m(1)] in blast)+
  have "one_job ?js"
  proof -
    have "\<exists>r\<in>set js. j_job_id a = j_job_id r \<and> j_target_id a = j_target_id r \<and> j_capture_id a = j_capture_id r" if "a \<in> set ?js" for a
      using mem [OF that] by (metis grant_lease_simps(1-3))
    then show ?thesis using ok unfolding jobs_ok_def one_job_def by metis
  qed
  moreover have "one_lease ?js"
    unfolding one_lease_def
  proof (intro ballI impI)
    fix a b assume ab: "a \<in> set ?js" "b \<in> set ?js" "j_state a = Leased" "j_state b = Leased" "j_target_id a = j_target_id b"
    have ol: "one_lease js" using ok by (simp add: jobs_ok_def)
    show "j_job_id a = j_job_id b"
      using mem [OF ab(1)] mem [OF ab(2)] ab(3-5) m(3) ol unfolding one_lease_def
      by (metis grant_lease_simps(1,2))
  qed
  moreover have "row_ok cfg a" if "a \<in> set ?js" for a
  proof (cases "a \<in> set js")
    case True
    then show ?thesis using ok by (simp add: jobs_ok_def)
  next
    case False
    then have "a = ?g (fst p)" using mem [OF that] by blast
    moreover have "row_ok cfg (fst p)" using ok m(1) by (simp add: jobs_ok_def)
    ultimately show ?thesis using m(2) by (simp add: row_ok_def grant_lease_def)
  qed
  moreover have "map j_job_id ?js = map j_job_id js" by (rule map_update_where) simp
  ultimately show ?thesis using ids by (simp add: jobs_ok_def)
qed

lemma grant_all_ok:
  assumes "jobs_ok cfg js" "grantable cfg ps js"
    and "grant_all cfg digest now tok worker sid i ps js = (ls, js')"
  shows "jobs_ok cfg js'"
  using assms
proof (induction cfg digest now tok worker sid i ps js arbitrary: ls rule: grant_all.induct)
  case (1 cfg digest now tok worker sid i js)
  then show ?case by simp
next
  case (2 cfg digest now tok worker sid i j c t ps js)
  have ids: "distinct (map j_job_id js)" using 2(3) by (simp add: jobs_ok_def)
  show ?case
  proof (cases "deliverySuffixIssue (Some (c_exact_suffix c))")
    case None
    let ?js = "update_where (\<lambda>r. j_job_id r = j_job_id j) (grant_lease cfg digest now (tok i) worker sid) js"
    from None 2(5) obtain ls1 where r: "grant_all cfg digest now tok worker sid (Suc i) ps ?js = (ls1, js')"
      by (auto split: prod.splits)
    have "jobs_ok cfg ?js" using jobs_ok_grant [OF 2(3,4)] by simp
    moreover have "grantable cfg ps ?js" using grantable_step [OF 2(4) ids] by simp
    ultimately show ?thesis using 2(1) [OF None _ _ r] by blast
  next
    case (Some issue)
    let ?js = "update_where (\<lambda>r. j_job_id r = j_job_id j) (kill_job now issue) js"
    have "jobs_ok cfg ?js" by (rule killing.jobs_ok_update [OF 2(3)])
    moreover have "grantable cfg ps ?js"
      using grantable_step [OF 2(4) ids killing.same_job killing.same_target] by simp
    ultimately show ?thesis using 2(2) [OF Some] 2(5) Some by simp
  qed
qed

lemma candidates_ofD:
  assumes "(j, c, t) \<in> set (candidates_of cfg now db sid customer)"
  shows "j \<in> set (jobs db)" "capture_of db (j_capture_id j) = Some c" "target_of db (j_target_id j) = Some t"
    "leasable cfg now db sid customer j t"
  using assms by (auto simp: candidates_of_def in_map_filter split: option.split_asm if_split_asm)

lemma distinct_map_filter_key:
  assumes "distinct (map k xs)" "\<And>x y. f x = Some y \<Longrightarrow> g y = k x"
  shows "distinct (map g (List.map_filter f xs))"
proof -
  have "set (map g (List.map_filter f xs)) \<subseteq> set (map k xs)" for xs
    using assms(2) by (auto simp: in_map_filter image_iff) metis
  then show ?thesis
    using assms(1) by (induction xs) (auto simp: map_filter_simps assms(2) split: option.splits)
qed

lemma candidates_distinct:
  "distinct (map j_job_id (jobs db)) \<Longrightarrow> distinct (map (j_job_id \<circ> fst) (candidates_of cfg now db sid customer))"
  unfolding candidates_of_def
  by (rule distinct_map_filter_key) (auto split: option.split_asm if_split_asm)

lemma lease_batch_subset: "set (lease_batch cfg now locked db sid customer n) \<subseteq> set (candidates_of cfg now db sid customer)"
  by (auto simp: lease_batch_def Let_def dest: in_set_takeD)

lemma lease_batch_distinct:
  assumes "distinct (map j_job_id (jobs db))"
  shows "distinct (map (j_job_id \<circ> fst) (lease_batch cfg now locked db sid customer n))"
proof -
  let ?ps = "candidates_of cfg now db sid customer"
  have "distinct (map (j_job_id \<circ> fst) (sort_key (order_key ?ps) ?ps))"
    using candidates_distinct [OF assms, of cfg now sid customer] by (simp add: distinct_map)
  then show ?thesis
    unfolding lease_batch_def Let_def by (simp add: distinct_map_filter take_map [symmetric])
qed

lemma lease_batch_length: "length (lease_batch cfg now locked db sid customer n) \<le> lease_limit n"
  by (simp add: lease_batch_def Let_def)

lemma lease_limit_bounds: "1 \<le> lease_limit n" "lease_limit n \<le> MAX_LEASE_JOBS" "n \<le> 1 \<or> int (lease_limit n) \<le> n"
  by (auto simp: lease_limit_def MAX_LEASE_JOBS_def)

lemma distinct_map_refine:
  "distinct (map k xs) \<Longrightarrow> (\<And>x y. x \<in> set xs \<Longrightarrow> y \<in> set xs \<Longrightarrow> g x = g y \<Longrightarrow> k x = k y) \<Longrightarrow> distinct (map g xs)"
  unfolding distinct_map inj_on_def by metis

lemma lease_batch_grantable:
  assumes "queue_inv cfg db"
  shows "grantable cfg (lease_batch cfg now locked db sid customer n) (jobs db)"
proof -
  let ?b = "lease_batch cfg now locked db sid customer n"
  have ok: "jobs_ok cfg (jobs db)" using assms by (simp add: queue_inv_def)
  have c: "fst p \<in> set (jobs db)" "leasable cfg now db sid customer (fst p) (snd (snd p))" if "p \<in> set ?b" for p
  proof -
    obtain j cp t where p: "p = (j, cp, t)" by (cases p)
    have "(j, cp, t) \<in> set (candidates_of cfg now db sid customer)" using that lease_batch_subset p by blast
    from candidates_ofD(1,4) [OF this] show "fst p \<in> set (jobs db)" "leasable cfg now db sid customer (fst p) (snd (snd p))"
      by (simp_all add: p)
  qed
  have same: "j_job_id (fst p) = j_job_id (fst q)"
    if pq: "p \<in> set ?b" "q \<in> set ?b" "j_target_id (fst p) = j_target_id (fst q)" for p q
  proof -
    have "is_latest db (fst p)" "is_latest db (fst q)" using c pq by (simp_all add: leasable_def)
    then have "j_capture_id (fst p) = j_capture_id (fst q)" using pq(3) by (auto simp: is_latest_def)
    then show ?thesis using ok c(1) pq unfolding jobs_ok_def one_job_def by blast
  qed
  have "distinct (map j_job_id (jobs db))" using ok by (simp add: jobs_ok_def)
  then have "distinct (map (j_target_id \<circ> fst) ?b)"
    by (rule distinct_map_refine [OF lease_batch_distinct]) (unfold o_apply, rule same)
  moreover have "j_state a \<noteq> Leased" if "p \<in> set ?b" "a \<in> set (jobs db)" "j_target_id a = j_target_id (fst p)" for p a
  proof
    assume l: "j_state a = Leased"
    have lp: "leasable cfg now db sid customer (fst p) (snd (snd p))" by (rule c(2) [OF that(1)])
    then have "j_job_id a = j_job_id (fst p)" using l that by (auto simp: leasable_def list_ex_iff)
    then have "a = fst p" using ok c(1) that by (metis distinct_key_eq jobs_ok_def)
    with lp l show False by (auto simp: leasable_def)
  qed
  moreover have "j_attempt_count (fst p) < MAX_ATTEMPTS cfg" if "p \<in> set ?b" for p
    using c(2) [OF that] by (simp add: leasable_def)
  ultimately show ?thesis using c(1) by (simp add: grantable_def)
qed

text \<open>The lines of the loop, seen from its result: every lease comes from a candidate with a deliverable
  suffix and its row is in the table; rows outside the batch are untouched.\<close>

lemma grant_all_keeps:
  "grant_all cfg digest now tok worker sid i ps js = (ls, js') \<Longrightarrow> r \<in> set js \<Longrightarrow>
   j_job_id r \<notin> (j_job_id \<circ> fst) ` set ps \<Longrightarrow> r \<in> set js'"
proof (induction cfg digest now tok worker sid i ps js arbitrary: ls rule: grant_all.induct)
  case (2 cfg digest now tok worker sid i j c t ps js)
  have k: "r \<in> set (update_where (\<lambda>r. j_job_id r = j_job_id j) f js)" for f
    using 2(4,5) by (intro update_where_keeps) auto
  have n: "j_job_id r \<notin> (j_job_id \<circ> fst) ` set ps" using 2(5) by simp
  show ?case
  proof (cases "deliverySuffixIssue (Some (c_exact_suffix c))")
    case None
    then show ?thesis using 2(1) [OF None _ k n] 2(3) by (simp split: prod.split_asm)
  next
    case (Some issue)
    then show ?thesis using 2(2) [OF Some _ k n] 2(3) by simp
  qed
qed simp

lemma grant_all_ids:
  "grant_all cfg digest now tok worker sid i ps js = (ls, js') \<Longrightarrow>
   map (\<lambda>j. (j_job_id j, j_target_id j, j_capture_id j)) js' = map (\<lambda>j. (j_job_id j, j_target_id j, j_capture_id j)) js"
proof (induction cfg digest now tok worker sid i ps js arbitrary: ls rule: grant_all.induct)
  case (2 cfg digest now tok worker sid i j c t ps js)
  show ?case
  proof (cases "deliverySuffixIssue (Some (c_exact_suffix c))")
    case None
    then obtain ls1 where r: "grant_all cfg digest now tok worker sid (Suc i) ps
        (update_where (\<lambda>r. j_job_id r = j_job_id j) (grant_lease cfg digest now (tok i) worker sid) js) = (ls1, js')"
      using 2(3) by (auto split: prod.split_asm)
    show ?thesis using 2(1) [OF None r] by (simp add: map_update_where)
  next
    case (Some issue)
    have r: "grant_all cfg digest now tok worker sid i ps
        (update_where (\<lambda>r. j_job_id r = j_job_id j) (kill_job now issue) js) = (ls, js')"
      using 2(3) Some by simp
    show ?thesis using 2(2) [OF Some r] by (simp add: map_update_where killing.same_job killing.same_target killing.same_capture)
  qed
qed simp

lemma grant_all_leases:
  assumes "grant_all cfg digest now tok worker sid i ps js = (ls, js')" "grantable cfg ps js"
    "distinct (map j_job_id js)" "l \<in> set ls"
  shows "\<exists>j c t k. (j, c, t) \<in> set ps \<and> l = lease_of (tok k) (j, c, t) \<and> deliverable (c_exact_suffix c)
    \<and> grant_lease cfg digest now (tok k) worker sid j \<in> set js'"
  using assms
proof (induction cfg digest now tok worker sid i ps js arbitrary: ls rule: grant_all.induct)
  case (1 cfg digest now tok worker sid i js)
  then show ?case by simp
next
  case (2 cfg digest now tok worker sid i j c t ps js)
  show ?case
  proof (cases "deliverySuffixIssue (Some (c_exact_suffix c))")
    case None
    let ?js = "update_where (\<lambda>r. j_job_id r = j_job_id j) (grant_lease cfg digest now (tok i) worker sid) js"
    from None 2(3) obtain ls1 where r: "grant_all cfg digest now tok worker sid (Suc i) ps ?js = (ls1, js')"
      and ls: "ls = lease_of (tok i) (j, c, t) # ls1" by (auto split: prod.splits)
    have g: "grantable cfg ps ?js" using grantable_step [OF 2(4,5)] by simp
    have d: "distinct (map j_job_id ?js)" using 2(5) by (simp add: map_update_where)
    have "j \<in> set js" using 2(4) by (simp add: grantable_def)
    then have m: "grant_lease cfg digest now (tok i) worker sid j \<in> set ?js"
      by (rule update_where_hit) simp
    have "j_job_id j \<notin> (j_job_id \<circ> fst) ` set ps"
    proof
      assume "j_job_id j \<in> (j_job_id \<circ> fst) ` set ps"
      then obtain q where q: "q \<in> set ps" "j_job_id (fst q) = j_job_id j" by auto
      then have "fst q = j" using 2(4,5) \<open>j \<in> set js\<close> by (auto simp: grantable_def dest: distinct_key_eq)
      with q 2(4) show False by (auto simp: grantable_def image_iff)
    qed
    then have "grant_lease cfg digest now (tok i) worker sid j \<in> set js'"
      by (intro grant_all_keeps [OF r m]) simp
    then show ?thesis
      using 2(1) [OF None r g d] 2(6) None by (auto simp: ls deliverable_def)
  next
    case (Some issue)
    let ?js = "update_where (\<lambda>r. j_job_id r = j_job_id j) (kill_job now issue) js"
    have g: "grantable cfg ps ?js"
      using grantable_step [OF 2(4,5) killing.same_job killing.same_target] by simp
    have d: "distinct (map j_job_id ?js)" using 2(5) by (simp add: map_update_where killing.same_job)
    show ?thesis using 2(2) [OF Some _ g d 2(6)] 2(3) Some by auto
  qed
qed

lemma grant_all_length: "grant_all cfg digest now tok worker sid i ps js = (ls, js') \<Longrightarrow> length ls \<le> length ps"
  by (induction cfg digest now tok worker sid i ps js arbitrary: ls rule: grant_all.induct)
     (auto split: option.split_asm prod.split_asm intro: le_SucI)

end
