(* ===== verification/Bridge_Manifest.thy ===== *)
theory Bridge_Manifest
  imports Bridge_Queue
begin

text \<open>
  The read side of \<open>web/lib/script-bridge-store.ts\<close> and the start of a worker execution: readiness of
  a campaign, the shard manifest that opens an execution window, recovery of that window, the fleet
  summary, the campaign listing with its search, and the shard listing. The percentile column of the
  summary is left out (it is interpolated in floating point); where the listing's SQL does not break a
  tie, the model breaks it by capture id, and rows with equal \<open>updated_at\<close> keep table order.
\<close>

section \<open>\<open>normalizedCaptureEgress\<close>\<close>

text \<open>The JSON object handed in, by field; \<open>None\<close> is an absent or falsy value. \<open>isIP\<close> and
  \<open>Date.parse\<close> are Node's and passed in.\<close>

record egress_object =
  eg_text :: "string \<Rightarrow> string option"
  eg_asn :: "int option"
  eg_verified :: bool

record capture_egress =
  ce_ip :: string
  ce_country :: "string option"
  ce_state :: "string option"
  ce_city :: "string option"
  ce_timezone :: "string option"
  ce_asn :: "int option"
  ce_organization :: "string option"
  ce_isp :: "string option"
  ce_intelligenceProvider :: "string option"
  ce_proxyProvider :: "string option"
  ce_proxyMode :: "string option"
  ce_confidence :: string
  ce_verified :: bool
  ce_observedAt :: time

definition egress_text :: "egress_object \<Rightarrow> string \<Rightarrow> nat \<Rightarrow> string option" where
  "egress_text v field mx =
     (case eg_text v field of
        None \<Rightarrow> None
      | Some s \<Rightarrow> (let c = js_trim s in if c = [] then None else Some (take mx c)))"

definition two_capitals :: "string \<Rightarrow> bool" where
  "two_capitals s \<longleftrightarrow> length s = 2 \<and> list_all is_upper s"

definition egress_confidence :: "string option \<Rightarrow> string" where
  "egress_confidence v =
     (case v of
        None \<Rightarrow> ''observed_probe''
      | Some c \<Rightarrow> if c \<in> {''stable_session'', ''observed_probe'', ''direct''} then c else ''observed_probe'')"

definition normalizedCaptureEgress ::
  "(string \<Rightarrow> bool) \<Rightarrow> (string \<Rightarrow> time option) \<Rightarrow> time \<Rightarrow> egress_object option \<Rightarrow> capture_egress option" where
  "normalizedCaptureEgress isIP dateParse now input =
     (case input of
        None \<Rightarrow> None
      | Some v \<Rightarrow>
         (let ip = js_trim (case eg_text v ''ip'' of None \<Rightarrow> [] | Some s \<Rightarrow> s) in
          if \<not> isIP ip then None
          else Some \<lparr>
            ce_ip = ip,
            ce_country = (case egress_text v ''country'' 2 of
                None \<Rightarrow> None
              | Some c \<Rightarrow> if two_capitals (to_upper c) then Some (to_upper c) else None),
            ce_state = egress_text v ''state'' 120,
            ce_city = egress_text v ''city'' 160,
            ce_timezone = egress_text v ''timezone'' 80,
            ce_asn = (case eg_asn v of
                None \<Rightarrow> None
              | Some n \<Rightarrow> if \<bar>n\<bar> \<le> 2 ^ 53 - 1 \<and> 0 < n \<and> n \<le> 4294967295 then Some n else None),
            ce_organization = egress_text v ''organization'' 240,
            ce_isp = egress_text v ''isp'' 240,
            ce_intelligenceProvider = egress_text v ''intelligenceProvider'' 80,
            ce_proxyProvider = egress_text v ''proxyProvider'' 80,
            ce_proxyMode = egress_text v ''proxyMode'' 40,
            ce_confidence = egress_confidence (eg_text v ''confidence''),
            ce_verified = eg_verified v,
            ce_observedAt = (case dateParse (case eg_text v ''observedAt'' of None \<Rightarrow> [] | Some s \<Rightarrow> s) of
                Some t \<Rightarrow> t | None \<Rightarrow> now) \<rparr>))"

section \<open>\<open>bridgeTargetReadiness\<close>\<close>

datatype readiness_state = NotEnrolled | Established | Ready | WaitingForAccountPoll | WaitingForManifest

record readiness =
  rd_found :: bool
  rd_target :: "(string \<times> string \<times> string) option"
  rd_ready :: bool
  rd_accountReady :: bool
  rd_hasDelivered :: bool
  rd_state :: readiness_state
  rd_manifestSeenAt :: "time option"
  rd_accountLastPollAt :: "time option"
  rd_lastDeliveredAt :: "time option"
  rd_freshnessMs :: ms

definition activity_of :: "fleet_db \<Rightarrow> target_row \<Rightarrow> activity_row option" where
  "activity_of db t = find (\<lambda>a. a_shard_id a = t_shard_id t \<and> a_customer_id a = t_customer_id t) (activity db)"

definition recent :: "ms \<Rightarrow> time \<Rightarrow> time option \<Rightarrow> bool" where
  "recent window now at = (case at of None \<Rightarrow> False | Some p \<Rightarrow> now - window \<le> p)"

definition account_ready :: "fleet_config \<Rightarrow> time \<Rightarrow> fleet_db \<Rightarrow> target_row \<Rightarrow> bool" where
  "account_ready cfg now db t =
     (case activity_of db t of None \<Rightarrow> False | Some a \<Rightarrow> recent (ACCOUNT_READY_MS cfg) now (a_last_poll_at a))"

definition manifest_seen :: "fleet_db \<Rightarrow> target_row \<Rightarrow> time option" where
  "manifest_seen db t = (case activity_of db t of None \<Rightarrow> None | Some a \<Rightarrow> a_manifest_seen_at a)"

definition account_readiness :: "fleet_config \<Rightarrow> time \<Rightarrow> fleet_db \<Rightarrow> target_row \<Rightarrow> readiness_state" where
  "account_readiness cfg now db t =
     (if t_last_applied_at t \<noteq> None then Established
      else if account_ready cfg now db t then Ready
      else if manifest_seen db t \<noteq> None then WaitingForAccountPoll else WaitingForManifest)"

definition bridgeTargetReadiness ::
  "fleet_config \<Rightarrow> time \<Rightarrow> string \<Rightarrow> fleet_db \<Rightarrow> bridge_error + readiness" where
  "bridgeTargetReadiness cfg now rec db =
     (let r = js_trim rec in
      if r = [] \<or> length r > 120 then Inl InvalidRecordId
      else case filter (\<lambda>t. t_campaign_record_id t = r \<and> t_enabled t \<and> t_archived_at t = None) (targets db) of
        [t] \<Rightarrow> Inr \<lparr> rd_found = True, rd_target = Some (t_target_id t, t_shard_id t, t_customer_id t),
                 rd_ready = (t_last_applied_at t \<noteq> None \<or> account_ready cfg now db t),
                 rd_accountReady = account_ready cfg now db t,
                 rd_hasDelivered = (t_last_applied_at t \<noteq> None),
                 rd_state = account_readiness cfg now db t,
                 rd_manifestSeenAt = manifest_seen db t,
                 rd_accountLastPollAt = (case activity_of db t of None \<Rightarrow> None | Some a \<Rightarrow> a_last_poll_at a),
                 rd_lastDeliveredAt = t_last_applied_at t,
                 rd_freshnessMs = ACCOUNT_READY_MS cfg \<rparr>
      | _ \<Rightarrow> Inr \<lparr> rd_found = False, rd_target = None, rd_ready = False, rd_accountReady = False,
                 rd_hasDelivered = False, rd_state = NotEnrolled, rd_manifestSeenAt = None,
                 rd_accountLastPollAt = None, rd_lastDeliveredAt = None, rd_freshnessMs = ACCOUNT_READY_MS cfg \<rparr>)"

section \<open>\<open>bridgeShardManifest\<close>\<close>

record manifest =
  mf_shardId :: string
  mf_managerCustomerId :: string
  mf_accountIds :: "string list"
  mf_campaignCount :: nat
  mf_capacity :: nat
  mf_executionWindow :: "execution_window option"

definition live_on :: "fleet_db \<Rightarrow> string \<Rightarrow> target_row list" where
  "live_on db sid = filter (\<lambda>t. t_shard_id t = sid \<and> t_enabled t \<and> t_archived_at t = None) (targets db)"

definition manifest_accounts :: "fleet_db \<Rightarrow> string \<Rightarrow> string list" where
  "manifest_accounts db sid = sort (remdups (map t_customer_id (live_on db sid)))"

definition manifest_managers :: "fleet_db \<Rightarrow> string \<Rightarrow> string list" where
  "manifest_managers db sid =
     remdups (sort (remdups (filter (\<lambda>m. m \<noteq> []) (map t_manager_customer_id (live_on db sid))))
              @ (case manager_of db sid of None \<Rightarrow> [] | Some m \<Rightarrow> [m]))"

definition see_manifest :: "string \<Rightarrow> time \<Rightarrow> string \<Rightarrow> activity_row list \<Rightarrow> activity_row list" where
  "see_manifest sid now customer as =
     (let here = (\<lambda>a. a_shard_id a = sid \<and> a_customer_id a = customer) in
      if list_ex here as then update_where here (\<lambda>a. a\<lparr>a_manifest_seen_at := Some now\<rparr>) as
      else as @ [\<lparr>a_shard_id = sid, a_customer_id = customer, a_manifest_seen_at = Some now,
                  a_last_poll_at = None, a_worker_id = None\<rparr>])"

text \<open>Unless the call is a preview: mark every account of the manifest as seen and drop the activity
  of accounts that left the shard.\<close>

definition refresh_activity :: "string \<Rightarrow> time \<Rightarrow> string list \<Rightarrow> activity_row list \<Rightarrow> activity_row list" where
  "refresh_activity sid now accounts as =
     filter (\<lambda>a. a_shard_id a = sid \<longrightarrow> a_customer_id a \<in> set accounts)
       (fold (see_manifest sid now) accounts as)"

definition schedule_of :: "shard_row \<Rightarrow> schedule_row" where
  "schedule_of s = \<lparr> last_execution_started_at = s_last_execution_started_at s,
     schedule_anchor_at = s_schedule_anchor_at s, schedule_sample_count = s_schedule_sample_count s \<rparr>"

definition open_window :: "execution_window \<Rightarrow> time \<Rightarrow> shard_row \<Rightarrow> shard_row" where
  "open_window w now s = s\<lparr>
     s_previous_execution_started_at := s_last_execution_started_at s,
     s_last_execution_started_at := Some (w_startedAt w), s_last_execution_completed_at := None,
     s_last_invocation_id := Some (w_invocationId w), s_last_execution_status := Some ''running'',
     s_schedule_anchor_at := Some (w_scheduleAnchorAt w), s_schedule_sample_count := w_scheduleSampleCount w,
     s_expected_next_start_at := Some (w_nextExpectedStartAt w), s_phase_one_stop_at := Some (w_phaseOneStopAt w),
     s_hard_stop_at := Some (w_hardStopAt w), s_handoff_margin_ms := w_handoffMarginMs w, s_updated_at := now\<rparr>"

text \<open>\<open>invocationId\<close> is the one sent by the worker, or empty, in which case the fresh \<open>uuid\<close> is used.\<close>

definition manifest_window :: "fleet_config \<Rightarrow> time \<Rightarrow> string \<Rightarrow> string \<Rightarrow> shard_row \<Rightarrow> execution_window" where
  "manifest_window cfg now uuid invocationId s =
     adaptiveExecutionWindow cfg (schedule_of s) now (take 200 (if invocationId = [] then uuid else invocationId))"

definition manifest_writes ::
  "time \<Rightarrow> string \<Rightarrow> bool \<Rightarrow> bool \<Rightarrow> execution_window \<Rightarrow> fleet_db \<Rightarrow> fleet_db" where
  "manifest_writes now sid preview adaptive w db = db\<lparr>
     activity := (if preview then activity db
                  else refresh_activity sid now (manifest_accounts db sid) (activity db)),
     shards := (if preview \<or> \<not> adaptive then shards db
                else update_where (\<lambda>r. s_shard_id r = sid) (open_window w now) (shards db))\<rparr>"

definition bridgeShardManifest ::
  "fleet_config \<Rightarrow> time \<Rightarrow> string \<Rightarrow> string \<Rightarrow> string \<Rightarrow> bool \<Rightarrow> bool \<Rightarrow> fleet_db
    \<Rightarrow> bridge_error + manifest \<times> fleet_db" where
  "bridgeShardManifest cfg now uuid shardId invocationId preview adaptive db =
     (let sid = js_trim shardId in
      if sid = [] then Inl InvalidShardId
      else case shard_of db sid of
        None \<Rightarrow> Inl ShardNotFound
      | Some s \<Rightarrow>
         if \<not> s_enabled s then Inl ShardNotFound
         else if length (manifest_managers db sid) > 1 then Inl (ShardMixedManagers sid)
         else if \<not> preview \<and> \<not> list_all digits10 (manifest_accounts db sid) then Inl CheckViolation
         else (let w = manifest_window cfg now uuid invocationId s in
               Inr (\<lparr> mf_shardId = sid,
                      mf_managerCustomerId = (case manifest_managers db sid of [] \<Rightarrow> [] | m # _ \<Rightarrow> m),
                      mf_accountIds = manifest_accounts db sid, mf_campaignCount = length (live_on db sid),
                      mf_capacity = SHARD_CAPACITY,
                      mf_executionWindow = (if preview \<or> \<not> adaptive then None else Some w) \<rparr>,
                    manifest_writes now sid preview adaptive w db)))"

section \<open>\<open>bridgeActiveExecutionWindow\<close>\<close>

record recovered_window =
  rw_invocationId :: string
  rw_startedAt :: "time option"
  rw_phaseOneStopAt :: time
  rw_hardStopAt :: time
  rw_nextExpectedStartAt :: "time option"
  rw_handoffMarginMs :: ms
  rw_scheduleLearned :: bool
  rw_scheduleSampleCount :: int
  rw_scheduleAnchorAt :: "time option"
  rw_shouldYield :: bool

definition bridgeActiveExecutionWindow ::
  "fleet_config \<Rightarrow> time \<Rightarrow> string \<Rightarrow> fleet_db \<Rightarrow> bridge_error + recovered_window" where
  "bridgeActiveExecutionWindow cfg now shardId db =
     (let sid = js_trim shardId in
      if sid = [] then Inl InvalidShardId
      else case shard_of db sid of
        None \<Rightarrow> Inl ShardNotFound
      | Some s \<Rightarrow>
         if \<not> s_enabled s then Inl ShardNotFound
         else (case (s_last_invocation_id s, s_phase_one_stop_at s, s_hard_stop_at s) of
             (Some invid, Some p, Some h) \<Rightarrow>
               if invid = [] then Inl NoExecutionWindow
               else Inr \<lparr> rw_invocationId = invid, rw_startedAt = s_last_execution_started_at s,
                  rw_phaseOneStopAt = p, rw_hardStopAt = h, rw_nextExpectedStartAt = s_expected_next_start_at s,
                  rw_handoffMarginMs = (if s_handoff_margin_ms s = 0 then HANDOFF_MARGIN_MS cfg else s_handoff_margin_ms s),
                  rw_scheduleLearned = (s_schedule_sample_count s \<ge> 2),
                  rw_scheduleSampleCount = s_schedule_sample_count s,
                  rw_scheduleAnchorAt = s_schedule_anchor_at s, rw_shouldYield = (h \<le> now) \<rparr>
           | _ \<Rightarrow> Inl NoExecutionWindow))"

section \<open>\<open>bridgeStoreSummary\<close>\<close>

text \<open>\<open>current_jobs\<close>: the job of the newest capture of every enabled target.\<close>

definition current_jobs :: "fleet_db \<Rightarrow> (job_row \<times> target_row) list" where
  "current_jobs db = List.map_filter (\<lambda>j.
     case target_of db (j_target_id j) of
       None \<Rightarrow> None
     | Some t \<Rightarrow> if t_enabled t \<and> is_latest db j then Some (j, t) else None) (jobs db)"

definition in_state :: "job_state set \<Rightarrow> job_row \<times> target_row \<Rightarrow> bool" where
  "in_state ss p \<longleftrightarrow> j_state (fst p) \<in> ss"

definition in_flight :: "job_row \<times> target_row \<Rightarrow> bool" where
  "in_flight = in_state {Pending, Failed, Leased}"

definition min_time :: "time list \<Rightarrow> time option" where
  "min_time ts = (case ts of [] \<Rightarrow> None | t # r \<Rightarrow> Some (fold min r t))"

definition assigned_accounts :: "fleet_db \<Rightarrow> (string \<times> string) list" where
  "assigned_accounts db = remdups (map (\<lambda>t. (t_shard_id t, t_customer_id t))
     (filter (\<lambda>t. t_enabled t \<and> t_archived_at t = None) (targets db)))"

definition account_polled :: "fleet_config \<Rightarrow> time \<Rightarrow> fleet_db \<Rightarrow> string \<times> string \<Rightarrow> bool" where
  "account_polled cfg now db p =
     (case find (\<lambda>a. (a_shard_id a, a_customer_id a) = p) (activity db) of
        None \<Rightarrow> False | Some a \<Rightarrow> recent (ACCOUNT_READY_MS cfg) now (a_last_poll_at a))"

definition shard_online :: "fleet_config \<Rightarrow> time \<Rightarrow> fleet_db \<Rightarrow> string \<Rightarrow> bool" where
  "shard_online cfg now db sid =
     (case shard_of db sid of
        None \<Rightarrow> False | Some s \<Rightarrow> s_enabled s \<and> recent (SHARD_STALE_MS cfg) now (s_last_poll_at s))"

record fleet_summary =
  fs_campaigns :: nat
  fs_pending :: nat
  fs_leased :: nat
  fs_applied :: nat
  fs_dead :: nat
  fs_updates_in_flight :: nat
  fs_delayed :: nat
  fs_oldest_queue_age_ms :: ms
  fs_throughput_last_15m :: nat
  fs_active_shards :: nat
  fs_offline_shards :: nat
  fs_ready_accounts :: nat
  fs_waiting_accounts :: nat
  fs_largest_account_batch :: nat
  fs_unassigned :: nat
  fs_oldest_pending_at :: "time option"

definition bridgeStoreSummary :: "fleet_config \<Rightarrow> time \<Rightarrow> fleet_db \<Rightarrow> fleet_summary" where
  "bridgeStoreSummary cfg now db =
     (let cur = current_jobs db; flight = filter in_flight cur;
          enabled = filter t_enabled (targets db);
          assigned = remdups (map t_shard_id enabled) in
      \<lparr> fs_campaigns = length enabled,
        fs_pending = length (filter (in_state {Pending, Failed}) cur),
        fs_leased = length (filter (in_state {Leased}) cur),
        fs_applied = length (filter (in_state {Applied}) cur),
        fs_dead = length (filter (in_state {Dead}) cur),
        fs_updates_in_flight = length flight,
        fs_delayed = length (filter (\<lambda>p. j_created_at (fst p) \<le> now - HANDOFF_ALLOWANCE_MS cfg) flight),
        fs_oldest_queue_age_ms = (case min_time (map (j_created_at \<circ> fst) flight) of None \<Rightarrow> 0 | Some c \<Rightarrow> now - c),
        fs_throughput_last_15m = length (filter (\<lambda>j. j_state j = Applied
            \<and> recent (15 * 60000) now (j_applied_at j)
            \<and> (case target_of db (j_target_id j) of None \<Rightarrow> False | Some t \<Rightarrow> t_enabled t)) (jobs db)),
        fs_active_shards = length (filter (shard_online cfg now db) assigned),
        fs_offline_shards = length (filter (\<lambda>sid. \<not> shard_online cfg now db sid) assigned),
        fs_ready_accounts = length (filter (account_polled cfg now db) (assigned_accounts db)),
        fs_waiting_accounts = length (filter (\<lambda>p. \<not> account_polled cfg now db p) (assigned_accounts db)),
        fs_largest_account_batch = fold max (map (\<lambda>p. length (filter
            (\<lambda>q. t_customer_id (snd q) = t_customer_id (snd p)) flight)) flight) 0,
        fs_unassigned = length (filter (\<lambda>t. case shard_of db (t_shard_id t) of
            None \<Rightarrow> True | Some s \<Rightarrow> \<not> s_enabled s) enabled),
        fs_oldest_pending_at = min_time (map (j_created_at \<circ> fst) (filter (in_state {Pending, Failed}) cur)) \<rparr>)"

section \<open>\<open>listBridgeTargets\<close>\<close>

text \<open>\<open>query.replace(/[\%_]/g, "\$&")\<close> between two percent signs, and SQL's \<open>ILIKE ... ESCAPE '\'\<close>.\<close>

definition BACKSLASH :: char where "BACKSLASH = CHR 0x5C"

definition escape_like :: "string \<Rightarrow> string" where
  "escape_like q = concat (map (\<lambda>c. if c \<in> {BACKSLASH, CHR ''%'', CHR ''_''} then [BACKSLASH, c] else [c]) q)"

definition search_pattern :: "string \<Rightarrow> string" where
  "search_pattern q = ''%'' @ escape_like q @ ''%''"

definition same_letter :: "char \<Rightarrow> char \<Rightarrow> bool" where
  "same_letter c d \<longleftrightarrow> lower_char c = lower_char d"

fun ilike :: "string \<Rightarrow> string \<Rightarrow> bool" where
  "ilike [] s = (s = [])"
| "ilike (p # ps) s =
     (if p = CHR ''%'' then ilike ps s \<or> (case s of [] \<Rightarrow> False | _ # r \<Rightarrow> ilike (p # ps) r)
      else if p = CHR ''_'' then (case s of [] \<Rightarrow> False | _ # r \<Rightarrow> ilike ps r)
      else if p = BACKSLASH then
        (case ps of [] \<Rightarrow> False
         | q # qs \<Rightarrow> (case s of [] \<Rightarrow> False | c # r \<Rightarrow> same_letter q c \<and> ilike qs r))
      else (case s of [] \<Rightarrow> False | c # r \<Rightarrow> same_letter p c \<and> ilike ps r))"

datatype update_state = Current | Delayed | Processing | Retrying | Queued | Waiting

definition newest_update_state :: "fleet_config \<Rightarrow> time \<Rightarrow> job_row option \<Rightarrow> update_state" where
  "newest_update_state cfg now job =
     (case job of
        None \<Rightarrow> Waiting
      | Some j \<Rightarrow>
         if j_state j = Applied then Current
         else if j_state j \<in> {Pending, Failed, Leased} \<and> j_created_at j \<le> now - HANDOFF_ALLOWANCE_MS cfg then Delayed
         else if j_state j = Leased then Processing
         else if j_state j = Failed then Retrying
         else if j_state j = Pending then Queued
         else Waiting)"

datatype delivery_health = Healthy | Attention | Awaiting

record target_item =
  it_target :: target_row
  it_readiness :: readiness_state
  it_exact_suffix :: "string option"
  it_last_applied_suffix :: "string option"
  it_job :: "job_row option"
  it_health :: delivery_health
  it_update_state :: update_state
  it_queue_age_ms :: ms

definition newest_job :: "fleet_db \<Rightarrow> target_row \<Rightarrow> job_row option" where
  "newest_job db t =
     (case latest_capture db (t_target_id t) of
        None \<Rightarrow> None
      | Some c \<Rightarrow> find (job_for (t_target_id t) (c_capture_id c)) (jobs db))"

definition last_applied_suffix :: "fleet_db \<Rightarrow> target_row \<Rightarrow> string option" where
  "last_applied_suffix db t =
     (case t_last_applied_suffix_hash t of
        None \<Rightarrow> None
      | Some h \<Rightarrow> map_option c_exact_suffix (newest_capture
          (filter (\<lambda>c. c_target_id c = t_target_id t \<and> c_suffix_hash c = h) (captures db))))"

definition list_item :: "fleet_config \<Rightarrow> time \<Rightarrow> fleet_db \<Rightarrow> target_row \<Rightarrow> target_item" where
  "list_item cfg now db t =
     (let job = newest_job db t in
      \<lparr> it_target = t, it_readiness = account_readiness cfg now db t,
        it_exact_suffix = map_option c_exact_suffix (latest_capture db (t_target_id t)),
        it_last_applied_suffix = last_applied_suffix db t, it_job = job,
        it_health = (if t_last_applied_at t \<noteq> None then Healthy
                     else if map_option j_state job = Some Dead then Attention else Awaiting),
        it_update_state = newest_update_state cfg now job,
        it_queue_age_ms = (case job of None \<Rightarrow> 0
          | Some j \<Rightarrow> if j_state j \<in> {Pending, Failed, Leased} then now - j_created_at j else 0) \<rparr>)"

definition listed :: "string \<Rightarrow> target_row \<Rightarrow> bool" where
  "listed q t \<longleftrightarrow> t_enabled t \<and> t_archived_at t = None
     \<and> (q = [] \<or> (\<exists>f\<in>{t_campaign_name t, t_campaign_record_id t, t_customer_id t, t_google_campaign_id t}.
                    ilike (search_pattern q) f))"

definition list_rows :: "string \<Rightarrow> fleet_db \<Rightarrow> target_row list" where
  "list_rows q db = sort_key (\<lambda>t. - t_updated_at t) (filter (listed q) (targets db))"

text \<open>\<open>pageSize\<close> and \<open>page\<close> are the floored arguments, 0 when absent. The total is a window count on
  the rows of the page, so it is 0 for a page past the end.\<close>

definition page_size :: "int \<Rightarrow> nat" where
  "page_size n = nat (max 1 (min 100 (if n = 0 then 25 else n)))"

definition page_number :: "int \<Rightarrow> nat" where
  "page_number n = nat (max 1 (if n = 0 then 1 else n))"

definition listBridgeTargets ::
  "fleet_config \<Rightarrow> time \<Rightarrow> string \<Rightarrow> int \<Rightarrow> int \<Rightarrow> fleet_db \<Rightarrow> nat \<times> target_item list" where
  "listBridgeTargets cfg now query page pageSize db =
     (let rows = list_rows (js_trim query) db; n = page_size pageSize;
          items = take n (drop ((page_number page - 1) * n) rows)
      in (if items = [] then 0 else length rows, map (list_item cfg now db) items))"

section \<open>\<open>bridgeShardStatus\<close>\<close>

record shard_status =
  ss_shard_id :: string
  ss_shard :: "shard_row option"
  ss_enabled :: bool
  ss_registered :: bool
  ss_assigned_campaign_count :: nat
  ss_campaign_count :: nat
  ss_manager_customer_id :: "string option"
  ss_capacity :: nat

definition shard_status_of :: "fleet_db \<Rightarrow> string \<Rightarrow> shard_status" where
  "shard_status_of db sid =
     \<lparr> ss_shard_id = sid, ss_shard = shard_of db sid,
       ss_enabled = (case shard_of db sid of None \<Rightarrow> False | Some s \<Rightarrow> s_enabled s),
       ss_registered = (shard_of db sid \<noteq> None),
       ss_assigned_campaign_count = length (live_targets db sid),
       ss_campaign_count = length (live_on db sid),
       ss_manager_customer_id = (case manager_of db sid of
           Some m \<Rightarrow> Some m | None \<Rightarrow> min_text (managers_in (live_on db sid))),
       ss_capacity = SHARD_CAPACITY \<rparr>"

definition bridgeShardStatus :: "fleet_db \<Rightarrow> shard_status list" where
  "bridgeShardStatus db =
     map (shard_status_of db) (filter (\<lambda>sid. \<not> shard_deleted db sid)
       (sort (remdups (map s_shard_id (shards db)
                @ map t_shard_id (filter (\<lambda>t. t_enabled t \<and> t_archived_at t = None) (targets db))))))"

section \<open>Search is literal\<close>

lemma ex_le_Suc: "(\<exists>k\<le>Suc n. P k) \<longleftrightarrow> P 0 \<or> (\<exists>k\<le>n. P (Suc k))"
proof (rule iffI)
  assume "\<exists>k\<le>Suc n. P k"
  then obtain k where k: "k \<le> Suc n" "P k" by blast
  then show "P 0 \<or> (\<exists>k\<le>n. P (Suc k))" by (cases k) auto
next
  assume "P 0 \<or> (\<exists>k\<le>n. P (Suc k))"
  then show "\<exists>k\<le>Suc n. P k" using Suc_le_mono by blast
qed

lemma ilike_percent: "ilike (CHR ''%'' # ps) s \<longleftrightarrow> (\<exists>k\<le>length s. ilike ps (drop k s))"
proof (induction s)
  case Nil
  then show ?case by simp
next
  case (Cons c s)
  have "ilike (CHR ''%'' # ps) (c # s) \<longleftrightarrow> ilike ps (c # s) \<or> ilike (CHR ''%'' # ps) s" by simp
  also have "\<dots> \<longleftrightarrow> (\<exists>k\<le>length (c # s). ilike ps (drop k (c # s)))"
    unfolding Cons.IH by (simp add: ex_le_Suc)
  finally show ?case .
qed

lemma starts_with_Nil [simp]: "starts_with [] s"
  by (simp add: starts_with_def)

lemma starts_with_Cons [simp]: "starts_with (a # p) s \<longleftrightarrow> (case s of [] \<Rightarrow> False | b # r \<Rightarrow> a = b \<and> starts_with p r)"
  by (auto simp: starts_with_def split: list.splits)

lemma ilike_escaped:
  "ilike (escape_like q @ ''%'') s \<longleftrightarrow> starts_with (to_lower q) (to_lower s)"
proof (induction q arbitrary: s)
  case Nil
  have "ilike ''%'' s" by (subst ilike_percent) (auto intro: exI [of _ "length s"])
  then show ?case by (simp add: escape_like_def to_lower_def)
next
  case (Cons c q)
  show ?case
    using Cons by (cases s) (auto simp: escape_like_def to_lower_def same_letter_def BACKSLASH_def)
qed

lemma contains_iff: "contains p s \<longleftrightarrow> (\<exists>k\<le>length s. starts_with p (drop k s))"
proof (induction s)
  case Nil
  then show ?case by (cases p) auto
next
  case (Cons c s)
  then show ?case unfolding contains.simps by (simp add: ex_le_Suc)
qed

text \<open>Whatever the operator types into the search box is searched literally: percent signs,
  underscores and backslashes of the query have no wildcard meaning, and the match is a
  case-insensitive substring match.\<close>

theorem search_is_literal: "ilike (search_pattern q) s \<longleftrightarrow> contains (to_lower q) (to_lower s)"
proof -
  have "ilike (search_pattern q) s \<longleftrightarrow> (\<exists>k\<le>length s. ilike (escape_like q @ ''%'') (drop k s))"
    unfolding search_pattern_def append_Cons append_Nil by (rule ilike_percent)
  then show ?thesis by (simp only: ilike_escaped contains_iff to_lower_def drop_map length_map)
qed


section \<open>Execution windows\<close>

lemma manifest_Inr:
  assumes "bridgeShardManifest cfg now uuid shardId invocationId preview adaptive db = Inr (m, db')"
  obtains s where "js_trim shardId \<noteq> []" "shard_of db (js_trim shardId) = Some s" "s_enabled s"
    "length (manifest_managers db (js_trim shardId)) \<le> 1"
    "db' = manifest_writes now (js_trim shardId) preview adaptive (manifest_window cfg now uuid invocationId s) db"
    "mf_executionWindow m = (if preview \<or> \<not> adaptive then None else Some (manifest_window cfg now uuid invocationId s))"
    "mf_campaignCount m = length (live_on db (js_trim shardId))"
    "mf_accountIds m = manifest_accounts db (js_trim shardId)"
  using assms unfolding bridgeShardManifest_def Let_def
  by (auto split: if_split_asm option.split_asm simp del: if_split)

interpretation shard_table: keyed_table s_shard_id "\<lambda>(w, now). open_window w now"
  by unfold_locales (auto simp: open_window_def)

text \<open>A worker that starts in adaptive mode and later asks for its window again recovers exactly the
  window it was given, until another execution of the shard starts: same invocation, same stops, and the
  advice to yield once the hard stop has passed.\<close>

theorem window_recovery:
  assumes "bridgeShardManifest cfg now uuid shardId invocationId False True db = Inr (m, db')"
    and "sane_config cfg" "uuid \<noteq> []"
  shows "\<exists>w r. mf_executionWindow m = Some w \<and> bridgeActiveExecutionWindow cfg later shardId db' = Inr r
    \<and> rw_invocationId r = w_invocationId w \<and> rw_startedAt r = Some now
    \<and> rw_phaseOneStopAt r = w_phaseOneStopAt w \<and> rw_hardStopAt r = w_hardStopAt w
    \<and> rw_nextExpectedStartAt r = Some (w_nextExpectedStartAt w) \<and> rw_handoffMarginMs r = w_handoffMarginMs w
    \<and> rw_scheduleSampleCount r = w_scheduleSampleCount w \<and> rw_scheduleLearned r = w_scheduleLearned w
    \<and> rw_shouldYield r = (w_hardStopAt w \<le> later)"
  using assms(1)
proof (rule manifest_Inr)
  fix s
  let ?sid = "js_trim shardId"
  let ?w = "manifest_window cfg now uuid invocationId s"
  assume s: "?sid \<noteq> []" "shard_of db ?sid = Some s" "s_enabled s"
    and db': "db' = manifest_writes now ?sid False True ?w db"
    and w: "mf_executionWindow m = (if False \<or> \<not> True then None else Some ?w)"
  have l: "shard_of db' ?sid = Some (open_window ?w now s)"
    using shard_table.lookup_update [of ?sid "(?w, now)" "shards db"] s(2) by (simp add: db' manifest_writes_def)
  have f: "w_invocationId ?w \<noteq> []" "w_startedAt ?w = now" "w_handoffMarginMs ?w = HANDOFF_MARGIN_MS cfg"
    "w_scheduleLearned ?w = (w_scheduleSampleCount ?w \<ge> 2)"
    using assms(3) by (simp_all add: manifest_window_def adaptiveExecutionWindow_def Let_def split: prod.splits)
  have "0 < HANDOFF_MARGIN_MS cfg" using assms(2) by (simp add: sane_config_def)
  then show ?thesis
    using s l w by (simp add: bridgeActiveExecutionWindow_def open_window_def f Let_def)
qed

theorem window_recovery_witness:
  "\<exists>m db' r. bridgeShardManifest default_cfg 5000 ''u'' ''mcc-1'' ''inv'' False True
     (empty_db\<lparr>shards := [new_shard ''mcc-1'' ''h'' 0]\<rparr>) = Inr (m, db')
     \<and> bridgeActiveExecutionWindow default_cfg 6000 ''mcc-1'' db' = Inr r \<and> rw_startedAt r = Some 5000"
proof -
  let ?db = "empty_db\<lparr>shards := [new_shard ''mcc-1'' ''h'' 0]\<rparr>"
  have "is_Inr (bridgeShardManifest default_cfg 5000 ''u'' ''mcc-1'' ''inv'' False True ?db)" by code_simp
  then obtain m db' where b: "bridgeShardManifest default_cfg 5000 ''u'' ''mcc-1'' ''inv'' False True ?db = Inr (m, db')"
    using is_InrD2 by blast
  have c: "sane_config default_cfg" by (simp add: default_cfg_def)
  from window_recovery [OF b c, of 6000] b show ?thesis by auto
qed

section \<open>Summary and listing\<close>

lemma length_filter_partition: "length (filter p xs) + length (filter (\<lambda>x. \<not> p x) xs) = length xs"
  by (induction xs) auto

lemma length_filter_disjoint:
  "(\<And>x. x \<in> set xs \<Longrightarrow> \<not> (p x \<and> q x)) \<Longrightarrow> length (filter p xs) + length (filter q xs) = length (filter (\<lambda>x. p x \<or> q x) xs)"
  by (induction xs) auto

lemma in_current_jobs:
  "(j, t) \<in> set (current_jobs db) \<longleftrightarrow> j \<in> set (jobs db) \<and> target_of db (j_target_id j) = Some t \<and> t_enabled t \<and> is_latest db j"
  by (auto simp: current_jobs_def in_map_filter split: option.splits if_splits)

lemma current_jobs_distinct:
  assumes "queue_inv cfg db"
  shows "distinct (map (t_target_id \<circ> snd) (current_jobs db))"
proof -
  have "distinct (map (j_job_id \<circ> fst) (current_jobs db))"
    unfolding current_jobs_def
    by (rule distinct_map_filter_key [where k = j_job_id])
       (use assms in \<open>auto simp: queue_inv_def jobs_ok_def split: option.split_asm if_split_asm\<close>)
  then show ?thesis
  proof (rule distinct_map_refine, unfold o_apply)
    fix p q assume pq: "p \<in> set (current_jobs db)" "q \<in> set (current_jobs db)" "t_target_id (snd p) = t_target_id (snd q)"
    obtain j t k u where e: "p = (j, t)" "q = (k, u)" by (cases p, cases q)
    have t: "target_of db (j_target_id j) = Some t" "target_of db (j_target_id k) = Some u"
      and m: "j \<in> set (jobs db)" "k \<in> set (jobs db)" "is_latest db j" "is_latest db k"
      using pq(1,2) by (simp_all add: e in_current_jobs)
    have "j_target_id j = j_target_id k"
      using lookup_by_SomeD [OF t(1)] lookup_by_SomeD [OF t(2)] pq(3) by (simp add: e)
    note m = m this
    then have "j_capture_id j = j_capture_id k" unfolding is_latest_def by auto
    then show "j_job_id (fst p) = j_job_id (fst q)"
      using assms m unfolding e queue_inv_def jobs_ok_def one_job_def fst_conv by blast
  qed
qed

lemma current_jobs_le:
  assumes "queue_inv cfg db"
  shows "length (current_jobs db) \<le> length (filter t_enabled (targets db))"
proof -
  have "set (map (t_target_id \<circ> snd) (current_jobs db)) \<subseteq> set (map t_target_id (filter t_enabled (targets db)))"
    using lookup_by_SomeD [of t_target_id] by (fastforce simp: in_current_jobs)
  from distinct_subset_length [OF current_jobs_distinct [OF assms] this] show ?thesis by simp
qed

text \<open>The dashboard counters are consistent: the updates in flight are the pending and the leased ones,
  every assigned shard is active or offline, every assigned account is ready or waiting, and there are
  never more counted jobs than enabled campaigns.\<close>

theorem summary_consistent:
  assumes "queue_inv cfg db" and "s = bridgeStoreSummary cfg' now db"
  shows "fs_updates_in_flight s = fs_pending s + fs_leased s
    \<and> fs_delayed s \<le> fs_updates_in_flight s
    \<and> fs_pending s + fs_leased s + fs_applied s + fs_dead s \<le> fs_campaigns s
    \<and> fs_active_shards s + fs_offline_shards s = card (t_shard_id ` {t \<in> set (targets db). t_enabled t})
    \<and> fs_ready_accounts s + fs_waiting_accounts s = length (assigned_accounts db)"
proof -
  let ?c = "current_jobs db"
  have d: "length (filter (in_state A) ?c) + length (filter (in_state B) ?c) = length (filter (in_state (A \<union> B)) ?c)"
    if "A \<inter> B = {}" for A B
  proof -
    have "in_state (A \<union> B) = (\<lambda>p. in_state A p \<or> in_state B p)" by (auto simp: in_state_def)
    then show ?thesis using length_filter_disjoint [of ?c "in_state A" "in_state B"] that
      by (simp add: in_state_def disjoint_iff)
  qed
  have flight: "length (filter (in_state {Pending, Failed}) ?c) + length (filter (in_state {Leased}) ?c) = length (filter in_flight ?c)"
    using d [of "{Pending, Failed}" "{Leased}"] by (simp add: in_flight_def insert_commute)
  have "length (filter in_flight ?c) + length (filter (in_state {Applied}) ?c) + length (filter (in_state {Dead}) ?c)
      \<le> length ?c"
    using d [of "{Pending, Failed, Leased}" "{Applied}"] d [of "{Pending, Failed, Leased, Applied}" "{Dead}"]
    by (simp add: in_flight_def insert_commute)
  then have total: "length (filter (in_state {Pending, Failed}) ?c) + length (filter (in_state {Leased}) ?c)
      + length (filter (in_state {Applied}) ?c) + length (filter (in_state {Dead}) ?c) \<le> length (filter t_enabled (targets db))"
    using flight current_jobs_le [OF assms(1)] by simp
  have sh: "length (remdups (map t_shard_id (filter t_enabled (targets db)))) = card (t_shard_id ` {t \<in> set (targets db). t_enabled t})"
    by (simp add: length_remdups_card_conv)
  show ?thesis
    using flight total sh length_filter_partition [of "shard_online cfg' now db" "remdups (map t_shard_id (filter t_enabled (targets db)))"]
      length_filter_partition [of "account_polled cfg' now db" "assigned_accounts db"]
    by (simp add: assms(2) bridgeStoreSummary_def Let_def length_filter_conj)
qed

theorem summary_consistent_witness:
  "fs_updates_in_flight (bridgeStoreSummary default_cfg 5 empty_db) = fs_pending (bridgeStoreSummary default_cfg 5 empty_db)
     + fs_leased (bridgeStoreSummary default_cfg 5 empty_db)"
proof -
  have "queue_inv default_cfg empty_db"
    by (simp add: empty_db_def queue_inv_def jobs_ok_def one_job_def one_lease_def refs_ok_def captures_ok_def)
  from summary_consistent [OF this refl, of default_cfg 5] show ?thesis by simp
qed

lemma page_size_bounds: "1 \<le> page_size n" "page_size n \<le> 100"
  by (auto simp: page_size_def)

lemma concat_pages:
  assumes "0 < n"
  shows "concat (map (\<lambda>k. take n (drop (k * n) xs)) [0..<m]) = take (m * n) xs"
proof (induction m)
  case 0
  then show ?case by simp
next
  case (Suc m)
  then show ?case by (simp add: take_add [symmetric] add.commute [of n])
qed

text \<open>Paging loses nothing and repeats nothing: the first \<open>m\<close> pages one after the other are the first
  \<open>m * pageSize\<close> rows of the listing, each page has at most 100 rows, and enough pages show every
  enabled campaign that matches the search.\<close>

theorem pages_cover_listing:
  "concat (map (\<lambda>k. snd (listBridgeTargets cfg now q (int (Suc k)) psize db)) [0..<m])
     = map (list_item cfg now db) (take (m * page_size psize) (list_rows (js_trim q) db))
   \<and> length (snd (listBridgeTargets cfg now q p psize db)) \<le> 100
   \<and> set (list_rows q db) = {t \<in> set (targets db). listed q t}"
proof (intro conjI)
  let ?n = "page_size psize" and ?xs = "list_rows (js_trim q) db"
  have "snd (listBridgeTargets cfg now q (int (Suc k)) psize db) = map (list_item cfg now db) (take ?n (drop (k * ?n) ?xs))" for k
    by (simp add: listBridgeTargets_def Let_def page_number_def nat_add_distrib)
  then have "concat (map (\<lambda>k. snd (listBridgeTargets cfg now q (int (Suc k)) psize db)) [0..<m])
      = map (list_item cfg now db) (concat (map (\<lambda>k. take ?n (drop (k * ?n) ?xs)) [0..<m]))"
    by (simp add: map_concat comp_def)
  then show "concat (map (\<lambda>k. snd (listBridgeTargets cfg now q (int (Suc k)) psize db)) [0..<m])
     = map (list_item cfg now db) (take (m * ?n) ?xs)"
    using page_size_bounds(1) [of psize] by (simp add: concat_pages)
  show "length (snd (listBridgeTargets cfg now q p psize db)) \<le> 100"
    using page_size_bounds(2) [of psize] by (simp add: listBridgeTargets_def Let_def)
  show "set (list_rows q db) = {t \<in> set (targets db). listed q t}"
    by (auto simp: list_rows_def)
qed

end
