(* ===== verification/Bridge_Protocol.thy ===== *)
theory Bridge_Protocol
  imports Bridge_Manifest
begin

text \<open>
  The bridge as a whole: one step per handler of \<open>web/lib/script-bridge-store.ts\<close>, in any order and with
  any arguments, and the properties that hold in every state the handlers can reach from an empty
  database: one owner per shard, one outstanding lease per campaign, fenced acknowledgements.
\<close>

section \<open>Leasing and settling keep the queue\<close>

lemma queue_inv_jobs:
  assumes "queue_inv cfg db" "jobs_ok cfg js"
    "set (map (\<lambda>j. (j_target_id j, j_capture_id j)) js) \<subseteq> set (map (\<lambda>j. (j_target_id j, j_capture_id j)) (jobs db))"
  shows "queue_inv cfg (db\<lparr>jobs := js\<rparr>)"
proof -
  have "\<exists>k\<in>set (jobs db). j_target_id j = j_target_id k \<and> j_capture_id j = j_capture_id k" if "j \<in> set js" for j
  proof -
    have "(j_target_id j, j_capture_id j) \<in> set (map (\<lambda>j. (j_target_id j, j_capture_id j)) js)" using that by auto
    from subsetD [OF assms(3) this] show ?thesis by auto
  qed
  then have "refs_ok (db\<lparr>jobs := js\<rparr>)"
  proof -
    have r: "refs_ok db" using assms(1) by (simp add: queue_inv_def)
    show ?thesis unfolding refs_ok_def
    proof
      fix j assume "j \<in> set (jobs (db\<lparr>jobs := js\<rparr>))"
      then obtain k where "k \<in> set (jobs db)" "j_target_id j = j_target_id k" "j_capture_id j = j_capture_id k"
        using \<open>\<And>j. j \<in> set js \<Longrightarrow> _\<close> by auto
      then show "j_target_id j \<in> t_target_id ` set (targets (db\<lparr>jobs := js\<rparr>))
        \<and> (\<exists>c\<in>set (captures (db\<lparr>jobs := js\<rparr>)). c_capture_id c = j_capture_id j \<and> c_target_id c = j_target_id j)"
        using r by (simp add: refs_ok_def)
    qed
  qed
  with assms show ?thesis by (simp add: queue_inv_def captures_ok_def)
qed

text \<open>Handlers that write only shards, bindings, activity or the logs.\<close>

lemma queue_inv_frame:
  assumes "queue_inv cfg db" "targets db' = targets db" "jobs db' = jobs db" "captures db' = captures db"
    "next_capture_id db' = next_capture_id db"
  shows "queue_inv cfg db'"
  using assms(1) unfolding queue_inv_def refs_ok_def captures_ok_def assms(2-5) .

lemma enrollment_inv_frame:
  assumes "enrollment_inv db" "targets db' = targets db" "shard_managers db' = shard_managers db"
    "map (\<lambda>s. (s_shard_id s, s_deleted_at s)) (shards db') = map (\<lambda>s. (s_shard_id s, s_deleted_at s)) (shards db)"
  shows "enrollment_inv db'"
proof -
  have ids: "map s_shard_id (shards db') = map s_shard_id (shards db)"
    using arg_cong [OF assms(4), of "map fst"] by (simp add: comp_def)
  have m: "map_option s_deleted_at (lookup_by s_shard_id k xs) = map_of (map (\<lambda>s. (s_shard_id s, s_deleted_at s)) xs) k" for k xs
    by (induction xs) auto
  have "map_option s_deleted_at (shard_of db' k) = map_option s_deleted_at (shard_of db k)" for k
    unfolding m assms(4) ..
  moreover have "shard_deleted d k = (case map_option s_deleted_at (shard_of d k) of Some (Some _) \<Rightarrow> True | _ \<Rightarrow> False)" for d k
    by (auto simp: shard_deleted_def split: option.splits)
  ultimately have "shard_deleted db' k = shard_deleted db k" for k by metis
  then show ?thesis using assms(1-3) by (simp add: enrollment_inv_def keys_ok_def owned_def ids)
qed

lemma lease_Inr:
  assumes "leaseBridgeJobs cfg digest uuid tok now locked sid worker n customer hot db = Inr (ls, db')"
  obtains db1 js where "lockActiveShard db sid = Inr ()"
    "normalizeId customer = [] \<or> digits10 (normalizeId customer)"
    "refresh_jobs cfg uuid now db sid (normalizeId customer) = Inr db1"
    "grant_all cfg digest now tok worker sid 0 (lease_batch cfg now locked db1 sid (normalizeId customer) n) (jobs db1) = (ls, js)"
    "record_activity sid worker now (normalizeId customer) (hot \<and> normalizeId customer = [])
       (poll_shard now sid (db1\<lparr>jobs := js\<rparr>)) = Inr db'"
proof -
  let ?c = "normalizeId customer"
  from assms obtain db1 where 1: "\<not> (?c \<noteq> [] \<and> \<not> digits10 ?c)" "lockActiveShard db sid = Inr ()"
      "refresh_jobs cfg uuid now db sid ?c = Inr db1"
    and r: "(case grant_all cfg digest now tok worker sid 0 (lease_batch cfg now locked db1 sid ?c n) (jobs db1) of
          (leases, js) \<Rightarrow> bindE (record_activity sid worker now ?c (hot \<and> ?c = []) (poll_shard now sid (db1\<lparr>jobs := js\<rparr>)))
              (\<lambda>db2. Inr (leases, db2))) = Inr (ls, db')"
    unfolding leaseBridgeJobs_def Let_def bindE_Inr_conv throwIf_Inr_conv by auto
  obtain ls1 js where g: "grant_all cfg digest now tok worker sid 0 (lease_batch cfg now locked db1 sid ?c n) (jobs db1) = (ls1, js)"
    by (cases "grant_all cfg digest now tok worker sid 0 (lease_batch cfg now locked db1 sid ?c n) (jobs db1)")
  from r have "record_activity sid worker now ?c (hot \<and> ?c = []) (poll_shard now sid (db1\<lparr>jobs := js\<rparr>)) = Inr db'" "ls1 = ls"
    unfolding g prod.case bindE_Inr_conv by auto
  with 1 g that show thesis by blast
qed

lemma record_activity_Inr:
  "record_activity sid worker now customer hot db = Inr db' \<Longrightarrow> \<exists>as. db' = db\<lparr>activity := as\<rparr>"
  by (auto simp: record_activity_def Let_def split: if_split_asm intro: exI [of _ "activity db"] exI [of _ "activity db'"])

lemma refresh_jobs_frame:
  "refresh_jobs cfg uuid now db sid customer = Inr db' \<Longrightarrow> \<exists>js. db' = db\<lparr>jobs := js\<rparr>"
  by (auto simp: refresh_jobs_def bindE_Inr_conv)

text \<open>The tables after a successful lease call.\<close>

lemma lease_frame:
  assumes "leaseBridgeJobs cfg digest uuid tok now locked sid worker n customer hot db = Inr (ls, db')"
  shows "targets db' = targets db" "captures db' = captures db" "shard_managers db' = shard_managers db"
    "next_capture_id db' = next_capture_id db" "audit_log db' = audit_log db"
    "map (\<lambda>s. (s_shard_id s, s_deleted_at s)) (shards db') = map (\<lambda>s. (s_shard_id s, s_deleted_at s)) (shards db)"
  using assms
  by (rule lease_Inr;
      auto simp: poll_shard_def map_update_where dest!: record_activity_Inr refresh_jobs_frame)+

lemma queue_inv_lease [fleet_inv]:
  assumes "queue_inv cfg db" "sane_config cfg"
    "leaseBridgeJobs cfg digest uuid tok now locked sid worker n customer hot db = Inr (ls, db')"
  shows "queue_inv cfg db'"
  using assms(3)
proof (rule lease_Inr)
  fix db1 js
  assume r: "refresh_jobs cfg uuid now db sid (normalizeId customer) = Inr db1"
    and g: "grant_all cfg digest now tok worker sid 0 (lease_batch cfg now locked db1 sid (normalizeId customer) n) (jobs db1) = (ls, js)"
    and a: "record_activity sid worker now (normalizeId customer) (hot \<and> normalizeId customer = [])
       (poll_shard now sid (db1\<lparr>jobs := js\<rparr>)) = Inr db'"
  have q1: "queue_inv cfg db1" by (rule queue_inv_refresh [OF assms(1,2) r])
  then have ok1: "jobs_ok cfg (jobs db1)" by (simp add: queue_inv_def)
  have ok: "jobs_ok cfg js" by (rule grant_all_ok [OF ok1 lease_batch_grantable [OF q1] g])
  have "map (\<lambda>j. (j_target_id j, j_capture_id j)) js = map (\<lambda>j. (j_target_id j, j_capture_id j)) (jobs db1)"
    using arg_cong [OF grant_all_ids [OF g], of "map snd"] by (simp add: comp_def)
  then have "queue_inv cfg (db1\<lparr>jobs := js\<rparr>)" by (intro queue_inv_jobs [OF q1 ok]) simp
  then show ?thesis
    by (rule queue_inv_frame) (use record_activity_Inr [OF a] in \<open>auto simp: poll_shard_def\<close>)
qed

lemma ack_cases:
  assumes "acknowledgeBridgeJob cfg digest now input db = Inr (r, db')"
  obtains (same) "db' = db" "r = AckStale \<or> r = AckConflict"
  | (again) j c t where "job_of db (ack_jobId input) = Some j" "capture_of db (j_capture_id j) = Some c"
      "target_of db (j_target_id j) = Some t" "t_shard_id t = ack_shardId input"
      "j_worker_id j = Some (ack_workerId input)" "j_lease_token_hash j = Some (digest (ack_leaseToken input))"
      "j_state j = Applied" "j_verified_suffix_hash j = Some (c_suffix_hash c)"
      "r = AckApplied True" "db' = ack_shard now (ack_shardId input) None db"
  | (settle) j c t where "job_of db (ack_jobId input) = Some j" "capture_of db (j_capture_id j) = Some c"
      "target_of db (j_target_id j) = Some t" "t_shard_id t = ack_shardId input"
      "j_worker_id j = Some (ack_workerId input)" "j_lease_token_hash j = Some (digest (ack_leaseToken input))"
      "j_state j = Leased" "(r, db') = settle_job cfg digest now input j c db"
proof -
  have "bindE (if ack_ok input then (case assertDeliverableSuffix (ack_appliedSuffix input) of
                    Inl i \<Rightarrow> Inl (UndeliverableSuffix i) | Inr _ \<Rightarrow> Inr ()) else Inr ()) f = Inr y \<Longrightarrow> f () = Inr y" for f :: "unit \<Rightarrow> bridge_error + ack_result \<times> fleet_db" and y
    by (auto simp: bindE_Inr_conv)
  note b = this [OF assms [unfolded acknowledgeBridgeJob_def]]
  show thesis
  proof (cases "job_of db (ack_jobId input)")
    case None
    with b same show thesis by simp
  next
    case (Some j)
    show thesis
    proof (cases "capture_of db (j_capture_id j)")
      case None
      with b Some same show thesis by simp
    next
      case c: (Some c)
      show thesis
      proof (cases "target_of db (j_target_id j)")
        case None
        with b Some c same show thesis by simp
      next
        case t: (Some t)
        from b Some c t same again [OF Some c t] settle [OF Some c t] show thesis
          by (simp split: if_split_asm)
      qed
    qed
  qed
qed

lemma settle_frame:
  assumes "(r, db') = settle_job cfg digest now input j c db"
  shows "\<exists>f. job_revision cfg f \<and> jobs db' = update_where (\<lambda>r. j_job_id r = ack_jobId input) f (jobs db)"
    "map t_target_id (targets db') = map t_target_id (targets db)"
    "captures db' = captures db" "next_capture_id db' = next_capture_id db" "shard_managers db' = shard_managers db"
    "map (\<lambda>s. (s_shard_id s, s_deleted_at s)) (shards db') = map (\<lambda>s. (s_shard_id s, s_deleted_at s)) (shards db)"
    "\<exists>p f. targets db' = update_where p f (targets db) \<and> (\<forall>t. t_campaign_record_id (f t) = t_campaign_record_id t
        \<and> t_target_id (f t) = t_target_id t \<and> t_archived_at (f t) = t_archived_at t
        \<and> t_shard_id (f t) = t_shard_id t \<and> t_manager_customer_id (f t) = t_manager_customer_id t)"
proof -
  show "\<exists>p f. targets db' = update_where p f (targets db) \<and> (\<forall>t. t_campaign_record_id (f t) = t_campaign_record_id t
        \<and> t_target_id (f t) = t_target_id t \<and> t_archived_at (f t) = t_archived_at t
        \<and> t_shard_id (f t) = t_shard_id t \<and> t_manager_customer_id (f t) = t_manager_customer_id t)"
  proof (cases "exact_match digest input c")
    case True
    with assms show ?thesis
      by (intro exI [of _ "\<lambda>t. t_target_id t = j_target_id j"] exI [of _ "\<lambda>t. t\<lparr>t_last_applied_at := Some now, t_last_applied_suffix_hash := Some (c_suffix_hash c),
                       t_updated_at := now\<rparr>"]) (simp add: settle_job_def ack_shard_def)
  next
    case False
    with assms show ?thesis
      by (intro exI [of _ "\<lambda>t. False"] exI [of _ "\<lambda>t. t"]) (simp add: settle_job_def ack_shard_def update_where_none)
  qed
  show "\<exists>f. job_revision cfg f \<and> jobs db' = update_where (\<lambda>r. j_job_id r = ack_jobId input) f (jobs db)"
    using assms applying.job_revision_axioms failing.job_revision_axioms
    by (cases "exact_match digest input c")
       (auto simp: settle_job_def ack_shard_def intro: exI [of _ "apply_job now (c_suffix_hash c)"]
          exI [of _ "fail_job cfg now (ack_error input)"])
qed (use assms in \<open>auto simp: settle_job_def ack_shard_def map_update_where split: if_split_asm\<close>)

lemma queue_inv_ack [fleet_inv]:
  assumes "queue_inv cfg db" "acknowledgeBridgeJob cfg digest now input db = Inr (r, db')"
  shows "queue_inv cfg db'"
  using assms(2)
proof (cases rule: ack_cases)
  case same
  with assms(1) show ?thesis by simp
next
  case (again j c t)
  then show ?thesis by (intro queue_inv_frame [OF assms(1)]) (simp_all add: ack_shard_def)
next
  case (settle j c t)
  note f = settle_frame [OF settle(8)]
  obtain g where g: "job_revision cfg g" "jobs db' = update_where (\<lambda>r. j_job_id r = ack_jobId input) g (jobs db)"
    using f(1) by blast
  let ?db1 = "db\<lparr>jobs := jobs db'\<rparr>"
  have q: "queue_inv cfg ?db1" using job_revision.queue_update [OF g(1) assms(1)] by (simp add: g(2))
  have ids: "t_target_id ` set (targets db') = t_target_id ` set (targets db)" using f(2) by (metis set_map)
  have "distinct (map t_target_id (targets db'))" using assms(1) f(2) by (simp add: queue_inv_def)
  then show ?thesis by (intro queue_inv_mono [OF q]) (simp_all add: f(3,4) ids)
qed

lemma renew_one_frame:
  assumes "queue_inv cfg db" "renew_one cfg digest now sid worker l ((rs, ss), db) = (res, db')"
  shows "queue_inv cfg db'" "\<exists>js. db' = db\<lparr>jobs := js\<rparr>"
  using assms renewing.queue_update [OF assms(1), of "renewable digest db sid worker l" now "now + LEASE_MS cfg"]
  by (auto simp: renew_one_def split: if_split_asm intro: exI [of _ "jobs db"])

lemma renew_fold:
  assumes "queue_inv cfg db" "fold (renew_one cfg digest now sid worker) ls (res, db) = (res', db')"
  shows "queue_inv cfg db' \<and> (\<exists>js. db' = db\<lparr>jobs := js\<rparr>)"
  using assms
proof (induction ls arbitrary: res db)
  case Nil
  then show ?case by (auto intro: exI [of _ "jobs db"])
next
  case (Cons l ls)
  obtain rs ss where r: "res = (rs, ss)" by (cases res)
  obtain res1 db1 where s: "renew_one cfg digest now sid worker l (res, db) = (res1, db1)"
    by (cases "renew_one cfg digest now sid worker l (res, db)")
  from s renew_one_frame [OF Cons.prems(1)] obtain js where "queue_inv cfg db1" "db1 = db\<lparr>jobs := js\<rparr>" unfolding r by blast
  with Cons.IH [of db1 res1] Cons.prems(2) s show ?case by auto
qed

lemma renew_frame:
  assumes "queue_inv cfg db" "renewBridgeLeases cfg digest now sid worker ls db = (r, db')"
  shows "queue_inv cfg db'" "targets db' = targets db" "shard_managers db' = shard_managers db"
    "map (\<lambda>s. (s_shard_id s, s_deleted_at s)) (shards db') = map (\<lambda>s. (s_shard_id s, s_deleted_at s)) (shards db)"
proof -
  obtain res db1 where f: "fold (renew_one cfg digest now sid worker) (take MAX_LEASE_JOBS ls) (([], []), db) = (res, db1)"
    by (cases "fold (renew_one cfg digest now sid worker) (take MAX_LEASE_JOBS ls) (([], []), db)")
  with assms(2) have db': "db' = poll_shard now sid db1" by (simp add: renewBridgeLeases_def)
  from renew_fold [OF assms(1) f] obtain js where q: "queue_inv cfg db1" and db1: "db1 = db\<lparr>jobs := js\<rparr>" by blast
  show "queue_inv cfg db'" by (rule queue_inv_frame [OF q]) (simp_all add: db' poll_shard_def)
  show "targets db' = targets db" "shard_managers db' = shard_managers db"
    "map (\<lambda>s. (s_shard_id s, s_deleted_at s)) (shards db') = map (\<lambda>s. (s_shard_id s, s_deleted_at s)) (shards db)"
    by (simp_all add: db' db1 poll_shard_def map_update_where)
qed

section \<open>The bridge as a step relation\<close>

text \<open>One rule per handler. A handler that throws leaves the database unchanged, except
  \<open>enqueueBridgeCapture\<close>, whose enrollment transaction may have committed.\<close>

inductive bridge_step :: "fleet_config \<Rightarrow> (string \<Rightarrow> string) \<Rightarrow> fleet_db \<Rightarrow> fleet_db \<Rightarrow> bool"
  for cfg :: fleet_config and digest :: "string \<Rightarrow> string" where
  upsert: "upsertBridgeTarget cfg digest now input db = Inr ((tid, sid), db') \<Longrightarrow> bridge_step cfg digest db db'"
| register: "registerBridgeShard digest now shardId tok mgr db = Inr ((sid, m), db') \<Longrightarrow> bridge_step cfg digest db db'"
| deleteShard: "deleteBridgeShard digest now tok shardId conf db = Inr (res, db') \<Longrightarrow> bridge_step cfg digest db db'"
| setEnabled: "setBridgeTargetEnabled now rec en db = Inr db' \<Longrightarrow> bridge_step cfg digest db db'"
| deleteTarget: "deleteBridgeTarget tin rin db = Inr (deleted, db') \<Longrightarrow> bridge_step cfg digest db db'"
| enqueue: "enqueueBridgeCapture cfg digest now jid cap db = (out, db') \<Longrightarrow> bridge_step cfg digest db db'"
| queueLatest: "queueLatestBridgeCapture now jid rec db = Inr (q, db') \<Longrightarrow> bridge_step cfg digest db db'"
| manifest: "bridgeShardManifest cfg now uid shardId invid preview adaptive db = Inr (mf, db') \<Longrightarrow> bridge_step cfg digest db db'"
| complete: "completeBridgeInvocation now shardId invid status db = (hit, db') \<Longrightarrow> bridge_step cfg digest db db'"
| lease: "leaseBridgeJobs cfg digest uuid tk now locked shardId worker n customer hot db = Inr (ls, db')
    \<Longrightarrow> bridge_step cfg digest db db'"
| ack: "acknowledgeBridgeJob cfg digest now ackIn db = Inr (ackOut, db') \<Longrightarrow> bridge_step cfg digest db db'"
| renew: "renewBridgeLeases cfg digest now shardId worker pairs db = (renewed, db') \<Longrightarrow> bridge_step cfg digest db db'"

inductive_cases bridge_stepE: "bridge_step cfg digest db db'"

definition fresh_db :: "fleet_db \<Rightarrow> bool" where
  "fresh_db db \<longleftrightarrow> targets db = [] \<and> captures db = [] \<and> jobs db = [] \<and> shards db = [] \<and> shard_managers db = []"

definition bridge_inv :: "fleet_config \<Rightarrow> fleet_db \<Rightarrow> bool" where
  "bridge_inv cfg db \<longleftrightarrow> enrollment_inv db \<and> queue_inv cfg db"

lemma bridge_inv_fresh: "fresh_db db \<Longrightarrow> bridge_inv cfg db"
  by (simp add: fresh_db_def bridge_inv_def enrollment_inv_def keys_ok_def owned_def queue_inv_def jobs_ok_def
      one_job_def one_lease_def refs_ok_def captures_ok_def)

lemma bridge_inv_upsert:
  "bridge_inv cfg db \<Longrightarrow> upsertBridgeTarget cfg' digest now input db = Inr ((tid, sid), db') \<Longrightarrow> bridge_inv cfg db'"
  by (auto simp: bridge_inv_def intro: enrollment_inv_upsert queue_inv_upsert)

text \<open>Steps that keep targets, deletion marks and bindings.\<close>

lemma bridge_inv_frame:
  assumes "bridge_inv cfg db" "queue_inv cfg db'" "targets db' = targets db" "shard_managers db' = shard_managers db"
    "map (\<lambda>s. (s_shard_id s, s_deleted_at s)) (shards db') = map (\<lambda>s. (s_shard_id s, s_deleted_at s)) (shards db)"
  shows "bridge_inv cfg db'"
  using assms(1,2) enrollment_inv_frame [OF _ assms(3-5)] by (simp add: bridge_inv_def)

lemma bridge_inv_register:
  assumes "bridge_inv cfg db" "registerBridgeShard digest now shardId tok mgr db = Inr ((sid, m), db')"
  shows "bridge_inv cfg db'"
proof -
  note f = shard_deleted_register [OF assms(2)]
  have "queue_inv cfg db'"
    by (rule queue_inv_frame [of _ db]) (use assms(1) f in \<open>simp_all add: bridge_inv_def\<close>)
  then show ?thesis using assms enrollment_inv_register by (auto simp: bridge_inv_def)
qed

lemma bridge_inv_deleteShard:
  assumes "bridge_inv cfg db" "deleteBridgeShard digest now tok shardId conf db = Inr (r, db')"
  shows "bridge_inv cfg db'"
proof -
  have "queue_inv cfg db'"
    using assms(2)
  proof (cases rule: deleteBridgeShard_cases)
    case already
    with assms(1) show ?thesis by (simp add: bridge_inv_def)
  next
    case (now s)
    show ?thesis by (rule queue_inv_frame [of _ db]) (use assms(1) now in \<open>simp_all add: bridge_inv_def\<close>)
  qed
  then show ?thesis using assms enrollment_inv_deleteShard by (auto simp: bridge_inv_def)
qed

lemma bridge_inv_enqueue:
  assumes "bridge_inv cfg db" "sane_config cfg" "enqueueBridgeCapture cfg digest now jid cap db = (out, db')"
  shows "bridge_inv cfg db'"
proof -
  from assms(3) consider "db' = db"
    | tid sid where "upsertBridgeTarget cfg digest now (ci_target cap) db = Inr ((tid, sid), db')"
    | tid sid db1 cid where "upsertBridgeTarget cfg digest now (ci_target cap) db = Inr ((tid, sid), db1)"
        "enqueue_capture digest now jid tid cap db1 = Inr (cid, db')"
    unfolding enqueueBridgeCapture_def by (auto split: sum.split_asm)
  then show ?thesis
  proof cases
    case 1
    with assms(1) show ?thesis by simp
  next
    case (2 tid sid)
    with assms(1) show ?thesis by (rule bridge_inv_upsert)
  next
    case (3 tid sid db1 cid)
    from bridge_inv_upsert [OF assms(1) 3(1)] have i: "enrollment_inv db1" "queue_inv cfg db1" by (simp_all add: bridge_inv_def)
    have t: "tid \<in> t_target_id ` set (targets db1)"
      using assms(1) 3(1) unfolding bridge_inv_def by (blast intro: queue_inv_upsert(2))
    have q: "queue_inv cfg db'" by (rule queue_inv_enqueue [OF i(2) assms(2) t 3(2)])
    from 3(2) obtain db2 js where s: "store_capture digest tid cap now db1 = (cid, db2)" "db' = db2\<lparr>jobs := js\<rparr>"
      by (rule enqueue_capture_Inr)
    have "captures_ok db1" using i(2) by (simp add: queue_inv_def)
    note f = store_capture_spec [OF s(1) this t]
    from i(1) have "enrollment_inv db'" by (rule enrollment_inv_frame) (simp_all add: s(2) f)
    with q show ?thesis by (simp add: bridge_inv_def)
  qed
qed

lemma queueLatest_frame:
  assumes "queueLatestBridgeCapture now jid rec db = Inr (q, db')"
  shows "\<exists>js. db' = db\<lparr>jobs := js\<rparr>"
  using assms by (auto simp: queueLatestBridgeCapture_def bindE_Inr_conv split: option.split_asm intro: exI [of _ "jobs db"])

lemma manifest_frame:
  assumes "bridgeShardManifest cfg now uid shardId invid preview adaptive db = Inr (mf, db')"
  shows "targets db' = targets db" "shard_managers db' = shard_managers db" "jobs db' = jobs db" "captures db' = captures db"
    "next_capture_id db' = next_capture_id db"
    "map (\<lambda>s. (s_shard_id s, s_deleted_at s)) (shards db') = map (\<lambda>s. (s_shard_id s, s_deleted_at s)) (shards db)"
  using assms by (rule manifest_Inr; simp add: manifest_writes_def map_update_where open_window_def)+

lemma bridge_inv_ack:
  assumes "bridge_inv cfg db" "acknowledgeBridgeJob cfg digest now input db = Inr (r, db')"
  shows "bridge_inv cfg db'"
proof -
  have i: "enrollment_inv db" "queue_inv cfg db" using assms(1) by (simp_all add: bridge_inv_def)
  have "enrollment_inv db'"
    using assms(2)
  proof (cases rule: ack_cases)
    case same
    with i show ?thesis by simp
  next
    case (again j c t)
    show ?thesis by (rule enrollment_inv_frame [OF i(1)]) (simp_all add: again ack_shard_def map_update_where)
  next
    case (settle j c t)
    note f = settle_frame [OF settle(8)]
    from f(7) obtain p g where g: "targets db' = update_where p g (targets db)"
      "\<And>t. t_campaign_record_id (g t) = t_campaign_record_id t \<and> t_target_id (g t) = t_target_id t \<and> t_archived_at (g t) = t_archived_at t
        \<and> t_shard_id (g t) = t_shard_id t \<and> t_manager_customer_id (g t) = t_manager_customer_id t" by blast
    have e: "enrollment_inv (db'\<lparr>targets := targets db\<rparr>)"
      by (rule enrollment_inv_frame [OF i(1)]) (simp_all add: f)
    have "keys_ok db'" using e g(2) by (simp add: enrollment_inv_def keys_ok_def g(1) map_update_where)
    moreover have "owned db'"
      using e unfolding enrollment_inv_def owned_def
      by (auto simp: g set_update_where shard_deleted_def split: if_split_asm)
    ultimately show ?thesis by (simp add: enrollment_inv_def)
  qed
  with queue_inv_ack [OF i(2) assms(2)] show ?thesis by (simp add: bridge_inv_def)
qed

lemma bridge_inv_step:
  assumes "bridge_inv cfg db" "bridge_step cfg digest db db'" "sane_config cfg"
  shows "bridge_inv cfg db'"
  using assms(2)
proof cases
  case upsert
  then show ?thesis by (rule bridge_inv_upsert [OF assms(1)])
next
  case register
  then show ?thesis by (rule bridge_inv_register [OF assms(1)])
next
  case deleteShard
  then show ?thesis by (rule bridge_inv_deleteShard [OF assms(1)])
next
  case setEnabled
  then show ?thesis using assms(1) by (auto simp: bridge_inv_def intro: enrollment_inv_setEnabled queue_inv_setEnabled)
next
  case deleteTarget
  then show ?thesis using assms(1) by (auto simp: bridge_inv_def intro: enrollment_inv_remove queue_inv_deleteTarget)
next
  case enqueue
  then show ?thesis by (rule bridge_inv_enqueue [OF assms(1,3)])
next
  case (queueLatest now jid rec q)
  from queueLatest_frame [OF this] obtain js where "db' = db\<lparr>jobs := js\<rparr>" by blast
  then show ?thesis
    using assms(1) queue_inv_queueLatest [OF _ assms(3) queueLatest]
    by (intro bridge_inv_frame [OF assms(1)]) (simp_all add: bridge_inv_def)
next
  case manifest
  note f = manifest_frame [OF this]
  show ?thesis using assms(1) queue_inv_frame [of cfg db db'] f
    by (intro bridge_inv_frame [OF assms(1)]) (simp_all add: bridge_inv_def)
next
  case complete
  then show ?thesis using assms(1) queue_inv_frame [of cfg db db']
    by (intro bridge_inv_frame [OF assms(1)])
       (auto simp: bridge_inv_def completeBridgeInvocation_def Let_def map_update_where)
next
  case lease
  note f = lease_frame [OF this]
  show ?thesis using assms(1) queue_inv_lease [OF _ assms(3) lease] f
    by (intro bridge_inv_frame [OF assms(1)]) (simp_all add: bridge_inv_def)
next
  case ack
  then show ?thesis by (rule bridge_inv_ack [OF assms(1)])
next
  case renew
  from assms(1) have "queue_inv cfg db" by (simp add: bridge_inv_def)
  note f = renew_frame [OF this renew]
  show ?thesis by (rule bridge_inv_frame [OF assms(1) f])
qed

interpretation bridge: step_invariant fresh_db "bridge_step (fleet_config_of env) digest" "bridge_inv (fleet_config_of env)"
  for env digest
  by unfold_locales (auto intro: bridge_inv_fresh bridge_inv_step)

end
