(* ===== verification/Bridge_Guarantees.thy ===== *)
theory Bridge_Guarantees
  imports Bridge_Protocol
begin

text \<open>
  What the bridge promises to its clients: the worker that leases and acknowledges, the capture runner
  that enqueues, and the operator that pauses a campaign. The first lemmas describe one lease call by
  its result; the properties follow from them and from the invariants of \<open>Bridge_Protocol\<close>.
\<close>

section \<open>The result of a lease call\<close>

lemma grant_all_complete:
  assumes "grant_all cfg digest now tok worker sid i ps js = (ls, js')" "grantable cfg ps js"
    "distinct (map j_job_id js)" "(j, c, t) \<in> set ps" "deliverable (c_exact_suffix c)"
  shows "\<exists>k. lease_of (tok k) (j, c, t) \<in> set ls \<and> grant_lease cfg digest now (tok k) worker sid j \<in> set js'"
  using assms
proof (induction cfg digest now tok worker sid i ps js arbitrary: ls rule: grant_all.induct)
  case (1 cfg digest now tok worker sid i js)
  then show ?case by simp
next
  case (2 cfg digest now tok worker sid i j1 c1 t1 ps js)
  show ?case
  proof (cases "deliverySuffixIssue (Some (c_exact_suffix c1))")
    case None
    let ?js = "update_where (\<lambda>r. j_job_id r = j_job_id j1) (grant_lease cfg digest now (tok i) worker sid) js"
    from None 2(3) obtain ls1 where r: "grant_all cfg digest now tok worker sid (Suc i) ps ?js = (ls1, js')"
      and ls: "ls = lease_of (tok i) (j1, c1, t1) # ls1" by (auto split: prod.splits)
    have g: "grantable cfg ps ?js" using grantable_step [OF 2(4,5)] by simp
    have d: "distinct (map j_job_id ?js)" using 2(5) by (simp add: map_update_where)
    show ?thesis
    proof (cases "(j, c, t) = (j1, c1, t1)")
      case True
      have "\<exists>j' c' t' k. (j', c', t') \<in> set ((j1, c1, t1) # ps) \<and> lease_of (tok i) (j1, c1, t1) = lease_of (tok k) (j', c', t')
          \<and> deliverable (c_exact_suffix c') \<and> grant_lease cfg digest now (tok k) worker sid j' \<in> set js'"
        by (rule grant_all_leases [OF 2(3,4,5)]) (simp add: ls)
      then obtain j' c' t' k where m: "(j', c', t') \<in> set ((j1, c1, t1) # ps)"
        "lease_of (tok i) (j1, c1, t1) = lease_of (tok k) (j', c', t')" "grant_lease cfg digest now (tok k) worker sid j' \<in> set js'"
        by blast
      from m(2) have e: "j_job_id j1 = j_job_id j'" "tok i = tok k" by (simp_all add: lease_of_def)
      have "j1 \<in> set js" "j' \<in> set js" using 2(4) m(1) by (auto simp: grantable_def)
      then have "j1 = j'" using distinct_key_eq [OF 2(5)] e(1) by blast
      with m e True show ?thesis by (auto simp: ls intro!: exI [of _ i])
    next
      case False
      then have "(j, c, t) \<in> set ps" using 2(6) by auto
      from 2(1) [OF None r g d this 2(7)] show ?thesis by (auto simp: ls)
    qed
  next
    case (Some issue)
    let ?js = "update_where (\<lambda>r. j_job_id r = j_job_id j1) (kill_job now issue) js"
    have g: "grantable cfg ps ?js"
      using grantable_step [OF 2(4,5) killing.same_job killing.same_target] by simp
    have d: "distinct (map j_job_id ?js)" using 2(5) by (simp add: map_update_where killing.same_job)
    have "(j, c, t) \<in> set ps" using 2(6,7) Some by (auto simp: deliverable_def)
    from 2(2) [OF Some _ g d this 2(7)] 2(3) Some show ?thesis by simp
  qed
qed

text \<open>The state in which a lease call grants: refreshed jobs, same campaigns and captures.\<close>

lemma refreshed:
  assumes "refresh_jobs cfg uuid now db sid customer = Inr db1"
  shows "targets db1 = targets db" "captures db1 = captures db" "shards db1 = shards db"
  using refresh_jobs_frame [OF assms] by auto

lemma lease_jobs:
  assumes "queue_inv cfg db" "sane_config cfg"
    "leaseBridgeJobs cfg digest uuid tok now locked sid worker n customer hot db = Inr (ls, db')"
  obtains db1 where "refresh_jobs cfg uuid now db sid (normalizeId customer) = Inr db1" "queue_inv cfg db1"
    "grant_all cfg digest now tok worker sid 0 (lease_batch cfg now locked db1 sid (normalizeId customer) n) (jobs db1) = (ls, jobs db')"
    "lockActiveShard db sid = Inr ()"
proof (rule lease_Inr [OF assms(3)])
  fix db1 js
  assume r: "lockActiveShard db sid = Inr ()" "refresh_jobs cfg uuid now db sid (normalizeId customer) = Inr db1"
    and g: "grant_all cfg digest now tok worker sid 0 (lease_batch cfg now locked db1 sid (normalizeId customer) n) (jobs db1) = (ls, js)"
    and a: "record_activity sid worker now (normalizeId customer) (hot \<and> normalizeId customer = [])
       (poll_shard now sid (db1\<lparr>jobs := js\<rparr>)) = Inr db'"
  have "jobs db' = js" using record_activity_Inr [OF a] by (auto simp: poll_shard_def)
  with r g queue_inv_refresh [OF assms(1,2) r(2)] that show thesis by blast
qed

lemma candidate_capture:
  assumes "(j, c, t) \<in> set (candidates_of cfg now db sid customer)" "queue_inv cfg db"
  shows "latest_capture db (t_target_id t) = Some c" "t \<in> set (targets db)" "t_target_id t = j_target_id j"
proof -
  note d = candidates_ofD [OF assms(1)]
  have t: "t \<in> set (targets db)" "t_target_id t = j_target_id j" using lookup_by_SomeD [OF d(3)] by simp_all
  show "t \<in> set (targets db)" "t_target_id t = j_target_id j" by (rule t)+
  have "is_latest db j" using d(4) by (simp add: leasable_def)
  then obtain c' where c': "latest_capture db (t_target_id t) = Some c'" "c_capture_id c' = j_capture_id j"
    by (auto simp: is_latest_def t)
  have cs: "distinct (map c_capture_id (captures db))" using assms(2) by (simp add: queue_inv_def captures_ok_def)
  have "capture_of db (c_capture_id c') = Some c'" by (rule lookup_by_mem [OF cs latest_capture_SomeD(1) [OF c'(1)]])
  with d(2) c' show "latest_capture db (t_target_id t) = Some c" by simp
qed

section \<open>A run of the bridge\<close>

definition demo_capture :: capture_input where
  "demo_capture = \<lparr> ci_target = sample_input ''r1'' ''12345678'', ci_exactSuffix = ''gclid=abc'',
     ci_version = Some 1, ci_sourceRunId = None, ci_egress = None \<rparr>"

definition demo_shard :: string where "demo_shard = ''mcc-1234567890-001''"

definition right :: "'e + 'a \<times> fleet_db \<Rightarrow> fleet_db" where
  "right r = (case r of Inr (_, db) \<Rightarrow> db | Inl _ \<Rightarrow> empty_db)"

definition demo_registered :: fleet_db where
  "demo_registered = right (registerBridgeShard (\<lambda>s. s) 500 demo_shard ''0123456789012345678901234567'' [] empty_db)"

definition demo_queued :: fleet_db where
  "demo_queued = snd (enqueueBridgeCapture default_cfg (\<lambda>s. s) 1000 ''job-1'' demo_capture demo_registered)"

definition demo_lease_call :: "bridge_error + bridge_lease list \<times> fleet_db" where
  "demo_lease_call = leaseBridgeJobs default_cfg (\<lambda>s. s) (\<lambda>i. ''new'') (\<lambda>i. ''tok'') 2000 (\<lambda>_. False)
     demo_shard ''worker'' 5 [] False demo_queued"

definition demo_leased :: fleet_db where "demo_leased = right demo_lease_call"

definition demo_ack :: ack_input where
  "demo_ack = \<lparr> ack_shardId = demo_shard, ack_workerId = ''worker'', ack_jobId = ''job-1'', ack_leaseToken = ''tok'',
     ack_ok = True, ack_appliedSuffix = Some ''gclid=abc'', ack_error = None \<rparr>"

lemma right_Inr: "is_Inr r \<Longrightarrow> \<exists>x. r = Inr (x, right r)"
  by (cases r) (auto simp: is_Inr_def right_def)

lemma demo_register_ok: "\<exists>sid m. registerBridgeShard (\<lambda>s. s) 500 demo_shard ''0123456789012345678901234567'' [] empty_db = Inr ((sid, m), demo_registered)"
proof -
  have "is_Inr (registerBridgeShard (\<lambda>s. s) 500 demo_shard ''0123456789012345678901234567'' [] empty_db)" by code_simp
  from right_Inr [OF this] show ?thesis unfolding demo_registered_def [symmetric] by auto
qed

lemma demo_lease_ok: "\<exists>ls. demo_lease_call = Inr (ls, demo_leased)"
proof -
  have "is_Inr demo_lease_call" by code_simp
  from right_Inr [OF this] show ?thesis unfolding demo_leased_def .
qed

lemma demo_reachable:
  "reachable_from fresh_db (bridge_step default_cfg (\<lambda>s. s)) demo_queued"
  "reachable_from fresh_db (bridge_step default_cfg (\<lambda>s. s)) demo_leased"
proof -
  have 0: "reachable_from fresh_db (bridge_step default_cfg (\<lambda>s. s)) empty_db"
    by (rule reachable_from.init) (simp add: fresh_db_def empty_db_def)
  obtain sid m where "registerBridgeShard (\<lambda>s. s) 500 demo_shard ''0123456789012345678901234567'' [] empty_db = Inr ((sid, m), demo_registered)"
    using demo_register_ok by blast
  from reachable_from.step [OF 0 bridge_step.register [OF this]]
  have 1: "reachable_from fresh_db (bridge_step default_cfg (\<lambda>s. s)) demo_registered" .
  show 2: "reachable_from fresh_db (bridge_step default_cfg (\<lambda>s. s)) demo_queued"
    by (rule reachable_from.step [OF 1 bridge_step.enqueue]) (simp add: demo_queued_def prod_eq_iff)
  obtain ls where "demo_lease_call = Inr (ls, demo_leased)" using demo_lease_ok by blast
  from reachable_from.step [OF 2 bridge_step.lease [OF this [unfolded demo_lease_call_def]]]
  show "reachable_from fresh_db (bridge_step default_cfg (\<lambda>s. s)) demo_leased" .
qed

lemma demo_sane: "sane_config default_cfg"
  by (simp add: default_cfg_def)

lemma demo_inv: "bridge_inv default_cfg demo_queued" "bridge_inv default_cfg demo_leased"
  using bridge.reachable_inv [of default_env "\<lambda>s. s"] demo_reachable unfolding default_cfg_def by blast+

lemma demo_queue: "queue_inv default_cfg demo_queued" "queue_inv default_cfg demo_leased"
  using demo_inv by (simp_all add: bridge_inv_def)

section \<open>Properties\<close>

text \<open>C1: in every state that the handlers reach from a fresh database, whatever the interleaving of
  enrollments, captures, pauses, leases, acknowledgements and renewals, a campaign has at most one
  outstanding lease, no job exceeds the attempt limit, and every shard holds campaigns of one manager only.\<close>

theorem one_outstanding_lease:
  assumes "reachable_from fresh_db (bridge_step (fleet_config_of env) digest) db"
  shows "length (filter (\<lambda>j. j_state j = Leased \<and> j_target_id j = tid) (jobs db)) \<le> 1
    \<and> (\<forall>j\<in>set (jobs db). j_attempt_count j \<le> MAX_ATTEMPTS (fleet_config_of env))
    \<and> (\<forall>t\<in>set (live_targets db sid). \<forall>u\<in>set (live_targets db sid). t_manager_customer_id t = t_manager_customer_id u)"
proof -
  let ?cfg = "fleet_config_of env"
  have i: "bridge_inv ?cfg db" using bridge.reachable_inv [OF assms] .
  then have ok: "jobs_ok ?cfg (jobs db)" and own: "owned db" by (simp_all add: bridge_inv_def queue_inv_def enrollment_inv_def)
  let ?l = "filter (\<lambda>j. j_state j = Leased \<and> j_target_id j = tid) (jobs db)"
  have "length (map j_job_id ?l) \<le> 1"
  proof (rule distinct_same_length)
    show "distinct (map j_job_id ?l)" using ok by (simp add: jobs_ok_def distinct_map_filter)
    show "x = y" if xy: "x \<in> set (map j_job_id ?l)" "y \<in> set (map j_job_id ?l)" for x y
    proof -
      obtain j k where h: "j \<in> set (jobs db)" "k \<in> set (jobs db)" "x = j_job_id j" "y = j_job_id k"
        "j_state j = Leased" "j_state k = Leased" "j_target_id j = tid" "j_target_id k = tid"
        using xy by auto
      have "one_lease (jobs db)" using ok by (simp add: jobs_ok_def)
      then show ?thesis using h unfolding one_lease_def by metis
    qed
  qed
  moreover have "\<forall>j\<in>set (jobs db). j_attempt_count j \<le> MAX_ATTEMPTS ?cfg"
    using ok by (simp add: jobs_ok_def row_ok_def)
  moreover have "t_manager_customer_id t = t_manager_customer_id u"
    if "t \<in> set (live_targets db sid)" "u \<in> set (live_targets db sid)" for t u
  proof -
    have "manager_of db sid = Some (t_manager_customer_id t)" "manager_of db sid = Some (t_manager_customer_id u)"
      using own that by (auto simp: owned_def live_targets_def)
    then show ?thesis by simp
  qed
  ultimately show ?thesis unfolding length_map by blast
qed

theorem one_outstanding_lease_witness:
  "length (filter (\<lambda>j. j_state j = Leased \<and> j_target_id j = ''1234567890:1112223333:12345678'') (jobs demo_leased)) \<le> 1
   \<and> length (filter (\<lambda>j. j_state j = Leased) (jobs demo_leased)) = 1"
proof
  show "length (filter (\<lambda>j. j_state j = Leased \<and> j_target_id j = ''1234567890:1112223333:12345678'') (jobs demo_leased)) \<le> 1"
    using one_outstanding_lease [OF demo_reachable(2) [unfolded default_cfg_def], of "''1234567890:1112223333:12345678''" demo_shard] by blast
  show "length (filter (\<lambda>j. j_state j = Leased) (jobs demo_leased)) = 1" by code_simp
qed

text \<open>C2: every lease a worker receives is safe to apply: at most 200 of them and never more than asked for;
  each is for an enabled campaign of the worker's shard (and of the account asked for) whose delivery
  interval has elapsed, carries the newest capture of that campaign, which passes the suffix gate, and is
  recorded under the digest of the token that was returned, for this worker and until the lease expires.\<close>

theorem lease_is_safe:
  assumes "queue_inv cfg db" "sane_config cfg"
    and "leaseBridgeJobs cfg digest uuid tok now locked sid worker n customer hot db = Inr (ls, db')"
    and "l \<in> set ls"
  shows "length ls \<le> MAX_LEASE_JOBS \<and> (1 \<le> n \<longrightarrow> int (length ls) \<le> n) \<and> lockActiveShard db sid = Inr ()
    \<and> (\<exists>t\<in>set (targets db). \<exists>c. t_enabled t \<and> t_shard_id t = sid \<and> t_campaign_record_id t = l_campaignRecordId l
        \<and> (normalizeId customer \<noteq> [] \<longrightarrow> t_customer_id t = normalizeId customer) \<and> interval_elapsed now t
        \<and> latest_capture db (t_target_id t) = Some c \<and> l_exactSuffix l = c_exact_suffix c \<and> deliverable (l_exactSuffix l)
        \<and> (\<exists>j\<in>set (jobs db'). j_job_id j = l_jobId l \<and> j_target_id j = t_target_id t \<and> j_capture_id j = c_capture_id c
            \<and> j_state j = Leased \<and> j_lease_token_hash j = Some (digest (l_leaseToken l))
            \<and> j_worker_id j = Some worker \<and> j_leased_until j = Some (now + LEASE_MS cfg)))"
proof -
  obtain db1 where r: "refresh_jobs cfg uuid now db sid (normalizeId customer) = Inr db1" and q: "queue_inv cfg db1"
    and g: "grant_all cfg digest now tok worker sid 0 (lease_batch cfg now locked db1 sid (normalizeId customer) n) (jobs db1) = (ls, jobs db')"
    and a: "lockActiveShard db sid = Inr ()"
    by (rule lease_jobs [OF assms(1-3)])
  let ?b = "lease_batch cfg now locked db1 sid (normalizeId customer) n"
  have ids: "distinct (map j_job_id (jobs db1))" using q by (simp add: queue_inv_def jobs_ok_def)
  have "length ls \<le> lease_limit n"
    using grant_all_length [OF g] lease_batch_length [of cfg now locked db1 sid "normalizeId customer" n] by simp
  then have len: "length ls \<le> MAX_LEASE_JOBS \<and> (1 \<le> n \<longrightarrow> int (length ls) \<le> n)"
    using lease_limit_bounds [of n] by (auto simp: lease_limit_def)
  obtain j c t k where b: "(j, c, t) \<in> set ?b" and l: "l = lease_of (tok k) (j, c, t)" "deliverable (c_exact_suffix c)"
    and row: "grant_lease cfg digest now (tok k) worker sid j \<in> set (jobs db')"
    using grant_all_leases [OF g lease_batch_grantable [OF q] ids assms(4)] by blast
  have c: "(j, c, t) \<in> set (candidates_of cfg now db1 sid (normalizeId customer))" using b lease_batch_subset by blast
  note cc = candidate_capture [OF c q] and d = candidates_ofD [OF c]
  have t: "t \<in> set (targets db)" "latest_capture db (t_target_id t) = Some c"
    using cc refreshed [OF r] latest_capture_cong [of db1 db] by simp_all
  have "c_capture_id c = j_capture_id j" using lookup_by_SomeD [OF d(2)] by simp
  moreover have "serves sid (normalizeId customer) t" "interval_elapsed now t" using d(4) by (simp_all add: leasable_def)
  ultimately show ?thesis
    using len a t l row cc(3) by (auto simp: serves_def lease_of_def grant_lease_def intro!: bexI [of _ t] bexI [OF _ row])
qed

theorem lease_is_safe_witness:
  "\<exists>ls db' l. leaseBridgeJobs default_cfg (\<lambda>s. s) (\<lambda>i. ''new'') (\<lambda>i. ''tok'') 2000 (\<lambda>_. False)
     demo_shard ''worker'' 5 [] False demo_queued = Inr (ls, db') \<and> l \<in> set ls \<and> deliverable (l_exactSuffix l)
     \<and> length ls \<le> 5"
proof -
  obtain ls where r: "demo_lease_call = Inr (ls, demo_leased)" using demo_lease_ok by blast
  have "(case demo_lease_call of Inr (l # _, _) \<Rightarrow> True | _ \<Rightarrow> False)" by code_simp
  then obtain l where l: "l \<in> set ls" unfolding r by (cases ls) auto
  note safe = lease_is_safe [OF demo_queue(1) demo_sane r [unfolded demo_lease_call_def] l]
  have "int (length ls) \<le> 5" using safe by simp
  moreover have "deliverable (l_exactSuffix l)" using safe by blast
  ultimately have "length ls \<le> 5" "deliverable (l_exactSuffix l)" by simp_all
  with r l show ?thesis unfolding demo_lease_call_def by blast
qed


lemma demo_ack_ok: "\<exists>db'. acknowledgeBridgeJob default_cfg (\<lambda>s. s) 3000 demo_ack demo_leased = Inr (AckApplied False, db') \<and> db' \<noteq> demo_leased"
proof -
  have c: "(case acknowledgeBridgeJob default_cfg (\<lambda>s. s) 3000 demo_ack demo_leased of
      Inr (AckApplied b, db') \<Rightarrow> \<not> b \<and> list_ex (\<lambda>j. j_state j = Applied) (jobs db') | _ \<Rightarrow> False)" by code_simp
  have n: "\<not> list_ex (\<lambda>j. j_state j = Applied) (jobs demo_leased)" by code_simp
  show ?thesis
  proof (cases "acknowledgeBridgeJob default_cfg (\<lambda>s. s) 3000 demo_ack demo_leased")
    case (Inl e)
    with c show ?thesis by simp
  next
    case (Inr p)
    obtain r db' where p: "p = (r, db')" by (cases p)
    with c Inr obtain b where "r = AckApplied b" "\<not> b" "list_ex (\<lambda>j. j_state j = Applied) (jobs db')" by (cases r) auto
    with Inr p n show ?thesis by auto
  qed
qed


lemma settle_applied:
  assumes "(AckApplied b, db') = settle_job cfg digest now input j c db" "job_of db (ack_jobId input) = Some j"
  shows "\<not> b" "exact_match digest input c"
    "jobs db' = update_where (\<lambda>r. j_job_id r = ack_jobId input) (apply_job now (c_suffix_hash c)) (jobs db)"
    "targets db' = update_where (\<lambda>t. t_target_id t = j_target_id j)
                (\<lambda>t. t\<lparr>t_last_applied_at := Some now, t_last_applied_suffix_hash := Some (c_suffix_hash c),
                       t_updated_at := now\<rparr>) (targets db)"
    "captures db' = captures db"
  using assms by (auto simp: settle_job_def ack_shard_def split: if_split_asm)

text \<open>C6: a delivery counts as applied only if the worker read back a suffix whose digest is the digest of the
  captured suffix; the job is then Applied and the campaign records that suffix and the time. Sending the
  same acknowledgement again, at any later time, is answered with the same success and changes neither jobs
  nor campaigns.\<close>

theorem ack_applies_once:
  assumes "acknowledgeBridgeJob cfg digest now input db = Inr (AckApplied False, db')"
  shows "\<exists>j c suffix t'. job_of db (ack_jobId input) = Some j \<and> capture_of db (j_capture_id j) = Some c
      \<and> ack_appliedSuffix input = Some suffix \<and> deliverable suffix \<and> digest suffix = c_suffix_hash c
      \<and> job_of db' (ack_jobId input) = Some (apply_job now (digest suffix) j)
      \<and> target_of db' (j_target_id j) = Some t' \<and> t_last_applied_at t' = Some now
      \<and> t_last_applied_suffix_hash t' = Some (digest suffix)
    \<and> (\<forall>later. \<exists>db''. acknowledgeBridgeJob cfg digest later input db' = Inr (AckApplied True, db'')
         \<and> jobs db'' = jobs db' \<and> targets db'' = targets db')"
  using assms
proof (cases rule: ack_cases)
  case same
  then show ?thesis by simp
next
  case (again j c t)
  then show ?thesis by simp
next
  case (settle j c t)
  note f = settle_applied [OF settle(8,1)]
  from f(2) obtain suffix where s: "ack_ok input" "ack_appliedSuffix input = Some suffix" "digest suffix = c_suffix_hash c"
    by (auto simp: exact_match_def split: option.split_asm)
  have gate: "assertDeliverableSuffix (Some suffix) = Inr suffix"
    using assms s(1,2) by (auto simp: acknowledgeBridgeJob_def bindE_Inr_conv assertDeliverableSuffix_Inr_iff split: sum.split_asm)
  then have d: "deliverable suffix" by (simp add: assertDeliverableSuffix_Inr_iff)
  have jid: "j_job_id j = ack_jobId input" using lookup_by_SomeD [OF settle(1)] by simp
  have job: "job_of db' (ack_jobId input) = Some (apply_job now (digest suffix) j)"
    unfolding f(3) by (subst lookup_by_update_where) (simp_all add: apply_job_def settle(1) jid s(3))
  have tid: "t_target_id t = j_target_id j" using lookup_by_SomeD [OF settle(3)] by simp
  let ?t = "t\<lparr>t_last_applied_at := Some now, t_last_applied_suffix_hash := Some (c_suffix_hash c), t_updated_at := now\<rparr>"
  have tgt: "target_of db' (j_target_id j) = Some ?t"
    unfolding f(4) by (subst lookup_by_update_where) (simp_all add: settle(3) tid)
  have "acknowledgeBridgeJob cfg digest later input db' = Inr (AckApplied True, ack_shard later (ack_shardId input) None db')" for later
    unfolding acknowledgeBridgeJob_def s(2) gate job
    by (simp add: apply_job_def f(5) tgt settle)
       (use settle(2,4,5,6) tgt s(3) in \<open>simp add: f(5)\<close>)
  then have "\<forall>later. \<exists>db''. acknowledgeBridgeJob cfg digest later input db' = Inr (AckApplied True, db'')
         \<and> jobs db'' = jobs db' \<and> targets db'' = targets db'" by (simp add: ack_shard_def)
  with settle(1,2) s d job tgt show ?thesis by auto
qed

theorem ack_applies_once_witness:
  "\<exists>db' db''. acknowledgeBridgeJob default_cfg (\<lambda>s. s) 3000 demo_ack demo_leased = Inr (AckApplied False, db')
     \<and> acknowledgeBridgeJob default_cfg (\<lambda>s. s) 9000 demo_ack db' = Inr (AckApplied True, db'') \<and> targets db'' = targets db'"
proof -
  obtain db' where a: "acknowledgeBridgeJob default_cfg (\<lambda>s. s) 3000 demo_ack demo_leased = Inr (AckApplied False, db')"
    using demo_ack_ok by blast
  from ack_applies_once [OF a] a show ?thesis by blast
qed

text \<open>C7: pausing a campaign fences it off: right after the pause none of its jobs is open or leased, the token
  of a lease that was outstanding is worthless (its acknowledgement is not applied and not counted as a failure), and no
  lease call on any shard returns the campaign.\<close>

theorem pause_fences_campaign:
  assumes "setBridgeTargetEnabled now rec False db = Inr db'" and "bridge_inv cfg db" and "sane_config cfg"
    and "t \<in> set (targets db)" "t_campaign_record_id t = rec"
  shows "(\<forall>j\<in>set (jobs db'). j_target_id j = t_target_id t \<longrightarrow> j_state j \<in> {Applied, Dead, Superseded})
    \<and> (\<forall>input later r db''. (\<exists>j. job_of db' (ack_jobId input) = Some j \<and> j_target_id j = t_target_id t)
         \<longrightarrow> acknowledgeBridgeJob cfg digest later input db' = Inr (r, db'') \<longrightarrow> r \<in> {AckStale, AckConflict, AckApplied True})
    \<and> (\<forall>digest uuid tok later locked sid worker n customer hot ls db'' l.
         leaseBridgeJobs cfg digest uuid tok later locked sid worker n customer hot db' = Inr (ls, db'')
           \<longrightarrow> l \<in> set ls \<longrightarrow> l_campaignRecordId l \<noteq> rec)"
  using assms(1)
proof (cases rule: setBridgeTargetEnabled_Inr)
  case (1 db1 u)
  have u: "u \<in> set (targets db)" "live_record rec u" using 1(2) by (auto simp: find_Some_iff)
  have recs: "distinct (map t_campaign_record_id (targets db))"
    using assms(2) by (simp add: bridge_inv_def enrollment_inv_def keys_ok_def)
  have ut: "u = t" using distinct_key_eq [OF recs u(1) assms(4)] u(2) assms(5) by (simp add: live_record_def)
  have q: "queue_inv cfg db'" using assms(1,2) queue_inv_setEnabled by (auto simp: bridge_inv_def)
  have 2: "j_state j \<in> {Applied, Dead, Superseded}" if "j \<in> set (jobs db')" "j_target_id j = t_target_id t" for j
  proof -
    from that(1) 1(4) have "j \<in> set (update_where (\<lambda>j. j_target_id j = t_target_id t \<and> j_state j \<in> {Pending, Failed, Leased})
        (supersede now) (jobs db))" by (simp add: ut)
    then show ?thesis
    proof (rule in_update_whereE)
      fix r assume "j = supersede now r"
      then show ?thesis by (simp add: supersede_def)
    next
      assume "\<not> (j_target_id j = t_target_id t \<and> j_state j \<in> {Pending, Failed, Leased})"
      with that(2) show ?thesis by (cases "j_state j") auto
    qed
  qed
  have 3: "r \<in> {AckStale, AckConflict, AckApplied True}"
    if "job_of db' (ack_jobId input) = Some j" "j_target_id j = t_target_id t"
      "acknowledgeBridgeJob cfg digest later input db' = Inr (r, db'')" for input later r db'' j
    using that(3)
  proof (cases rule: ack_cases)
    case (settle j' c' t')
    have "j' = j" using settle(1) that(1) by simp
    moreover have "j_state j \<in> {Applied, Dead, Superseded}" using 2 lookup_by_SomeD [OF that(1)] that(2) by blast
    ultimately show ?thesis using settle(7) by simp
  qed auto
  have 4: "l_campaignRecordId l \<noteq> rec"
    if lease: "leaseBridgeJobs cfg digest uuid tok later locked sid worker n customer hot db' = Inr (ls, db'')" "l \<in> set ls"
    for digest uuid tok later locked sid worker n customer hot ls db'' l
  proof -
    obtain db1 where r: "refresh_jobs cfg uuid later db' sid (normalizeId customer) = Inr db1" and q1: "queue_inv cfg db1"
      and g: "grant_all cfg digest later tok worker sid 0 (lease_batch cfg later locked db1 sid (normalizeId customer) n) (jobs db1) = (ls, jobs db'')"
      by (rule lease_jobs [OF q assms(3) lease(1)])
    have ids: "distinct (map j_job_id (jobs db1))" using q1 by (simp add: queue_inv_def jobs_ok_def)
    obtain j c v k where b: "(j, c, v) \<in> set (lease_batch cfg later locked db1 sid (normalizeId customer) n)" "l = lease_of (tok k) (j, c, v)"
      using grant_all_leases [OF g lease_batch_grantable [OF q1] ids lease(2)] by blast
    have c: "(j, c, v) \<in> set (candidates_of cfg later db1 sid (normalizeId customer))" using b(1) lease_batch_subset by blast
    have v: "v \<in> set (targets db')" using candidate_capture(2) [OF c q1] refreshed [OF r] by simp
    have "serves sid (normalizeId customer) v" using candidates_ofD(4) [OF c] by (simp add: leasable_def)
    then have en: "t_enabled v" by (simp add: serves_def)
    from v have "t_campaign_record_id v \<noteq> rec"
      unfolding 1(3)
    proof (rule in_update_whereE)
      fix r assume "v = r\<lparr>t_enabled := False, t_updated_at := now\<rparr>"
      with en show ?thesis by simp
    next
      assume v2: "v \<in> set (targets db)" "\<not> live_record rec v"
      show ?thesis
      proof
        assume "t_campaign_record_id v = rec"
        with distinct_key_eq [OF recs v2(1) u(1)] u(2) have "v = u" by (simp add: live_record_def)
        with u v2 show False by simp
      qed
    qed
    then show ?thesis by (simp add: b(2) lease_of_def)
  qed
  show ?thesis using 2 3 4 by blast
qed

theorem pause_fences_campaign_witness:
  "\<exists>db'. setBridgeTargetEnabled 2500 ''r1'' False demo_leased = Inr db'
    \<and> (\<forall>j\<in>set (jobs db'). j_target_id j = targetId (\<lambda>s. s) (sample_input ''r1'' ''12345678'') \<longrightarrow> j_state j \<in> {Applied, Dead, Superseded})"
proof -
  have "is_Inr (setBridgeTargetEnabled 2500 ''r1'' False demo_leased)" by code_simp
  then obtain db' where p: "setBridgeTargetEnabled 2500 ''r1'' False demo_leased = Inr db'" using is_InrD by blast
  have "(case targets demo_leased of [t] \<Rightarrow> t_campaign_record_id t = ''r1''
      \<and> t_target_id t = targetId (\<lambda>s. s) (sample_input ''r1'' ''12345678'') | _ \<Rightarrow> False)" by code_simp
  then obtain t where t: "t \<in> set (targets demo_leased)" "t_campaign_record_id t = ''r1''"
    "t_target_id t = targetId (\<lambda>s. s) (sample_input ''r1'' ''12345678'')" by (auto split: list.split_asm)
  show ?thesis
    using p pause_fences_campaign [OF p demo_inv(2) demo_sane t(1,2), THEN conjunct1] unfolding t(3) by blast
qed

end
