(* ===== verification/Bridge_Fairness.thy ===== *)
theory Bridge_Fairness
  imports Bridge_Guarantees
begin

text \<open>
  Progress of the delivery queue: which job is leased first, that a waiting update is leased, what happens
  to leases that expire and to jobs that used up their attempts, and the end-to-end delivery of a captured
  suffix. The last section records three places where the queue gets stuck.
\<close>

section \<open>Order of leasing\<close>

lemma batch_ahead:
  assumes "p \<in> set (lease_batch cfg now locked db sid customer n)" "q \<in> set (candidates_of cfg now db sid customer)"
    "\<not> locked (j_job_id (fst q))" "q \<notin> set (lease_batch cfg now locked db sid customer n)"
  shows "order_key (candidates_of cfg now db sid customer) p \<le> order_key (candidates_of cfg now db sid customer) q"
proof -
  let ?ps = "candidates_of cfg now db sid customer"
  let ?s = "filter (\<lambda>p. \<not> locked (j_job_id (fst p))) (sort_key (order_key ?ps) ?ps)"
  let ?k = "lease_limit n"
  have b: "lease_batch cfg now locked db sid customer n = take ?k ?s" by (simp add: lease_batch_def Let_def)
  have "q \<in> set ?s" using assms(2,3) by simp
  moreover have "set ?s = set (take ?k ?s) \<union> set (drop ?k ?s)" by (metis append_take_drop_id set_append)
  ultimately have q: "q \<in> set (drop ?k ?s)" using assms(4) b by auto
  have "sorted (map (order_key ?ps) ?s)" by (rule sorted_filter) simp
  then have "sorted (map (order_key ?ps) (take ?k ?s) @ map (order_key ?ps) (drop ?k ?s))"
    by (simp only: map_append [symmetric] append_take_drop_id)
  then show ?thesis using assms(1) q unfolding b sorted_append by auto
qed

text \<open>Accounts take turns. When a lease call has to leave updates behind, no account gets its second update
  (or, generally, a later position in its own queue) while an unlocked update of another account with an
  earlier position is left behind.\<close>

theorem accounts_take_turns:
  assumes "p \<in> set (lease_batch cfg now locked db sid customer n)"
    and "q \<in> set (candidates_of cfg now db sid customer)" "\<not> locked (j_job_id (fst q))"
    and "q \<notin> set (lease_batch cfg now locked db sid customer n)"
  shows "account_position (candidates_of cfg now db sid customer) p \<le> account_position (candidates_of cfg now db sid customer) q"
  using batch_ahead [OF assms] by (auto simp: order_key_def less_eq_prod_def)

section \<open>Nothing waits forever\<close>

lemma batch_all:
  assumes "length (candidates_of cfg now db sid customer) \<le> lease_limit n"
  shows "set (lease_batch cfg now (\<lambda>_. False) db sid customer n) = set (candidates_of cfg now db sid customer)"
  using assms by (simp add: lease_batch_def Let_def)

lemma insert_job_keeps:
  "insert_job jid tid cid now (\<lambda>j. j) js = Inr js' \<Longrightarrow> set js \<subseteq> set js'"
  by (auto simp: insert_job_def update_where_def split: if_split_asm)

lemma insert_missing_keeps: "insert_missing uuid now i ms js = Inr js' \<Longrightarrow> set js \<subseteq> set js'"
proof (induction uuid now i ms js rule: insert_missing.induct)
  case (2 uuid now i tid cid ms js)
  then obtain js1 where "insert_job (uuid i) tid cid now (\<lambda>j. j) js = Inr js1" "insert_missing uuid now (Suc i) ms js1 = Inr js'"
    by (auto simp: bindE_Inr_conv)
  with 2(1) insert_job_keeps show ?case by blast
qed simp

lemma insert_missing_complete:
  "insert_missing uuid now i ms js = Inr js' \<Longrightarrow> (tid, cid) \<in> set ms \<Longrightarrow> list_ex (job_for tid cid) js'"
proof (induction uuid now i ms js rule: insert_missing.induct)
  case (2 uuid now i tid1 cid1 ms js)
  then obtain js1 where i: "insert_job (uuid i) tid1 cid1 now (\<lambda>j. j) js = Inr js1" "insert_missing uuid now (Suc i) ms js1 = Inr js'"
    by (auto simp: bindE_Inr_conv)
  show ?case
  proof (cases "(tid, cid) = (tid1, cid1)")
    case True
    then have "list_ex (job_for tid cid) js1"
      using i(1) by (auto simp: insert_job_def new_job_def job_for_def list_ex_iff update_where_def split: if_split_asm)
    then show ?thesis using insert_missing_keeps [OF i(2)] by (auto simp: list_ex_iff)
  next
    case False
    with 2(3) have "(tid, cid) \<in> set ms" by auto
    with 2(1) i show ?thesis by blast
  qed
qed simp

lemma insert_missing_origin:
  "insert_missing uuid now i ms js = Inr js' \<Longrightarrow> j \<in> set js' \<Longrightarrow>
     j \<in> set js \<or> (\<exists>jid tid cid. (tid, cid) \<in> set ms \<and> j = new_job jid tid cid now)"
proof (induction uuid now i ms js rule: insert_missing.induct)
  case (2 uuid now i tid cid ms js)
  then obtain js1 where i: "insert_job (uuid i) tid cid now (\<lambda>j. j) js = Inr js1" "insert_missing uuid now (Suc i) ms js1 = Inr js'"
    by (auto simp: bindE_Inr_conv)
  then have "set js1 \<subseteq> set js \<union> {new_job (uuid i) tid cid now}"
    by (auto simp: insert_job_def update_where_def split: if_split_asm)
  with 2(1) [OF i(2) 2(3)] show ?case by auto
qed auto

lemma reclaim_unleased: "j_state (reclaim cfg now j) \<noteq> Leased"
  by (simp add: reclaim_def)

lemma refreshed_not_expired:
  assumes "refresh_jobs cfg uuid now db sid customer = Inr db1" "k \<in> set (jobs db1)"
  shows "\<not> lease_expired now k"
  using assms(1)
proof (rule refresh_jobs_Inr)
  fix js
  assume "db1 = db\<lparr>jobs := update_where (lease_expired now) (reclaim cfg now) (update_where (stale_open db) (supersede now) js)\<rparr>"
  with assms(2) have "k \<in> set (update_where (lease_expired now) (reclaim cfg now) (update_where (stale_open db) (supersede now) js))"
    by simp
  then show ?thesis by (rule in_update_whereE) (simp_all add: lease_expired_def reclaim_unleased)
qed

lemma refreshed_reclaims:
  assumes "refresh_jobs cfg uuid now db sid customer = Inr db1" "j \<in> set (jobs db)" "lease_expired now j"
  shows "reclaim cfg now j \<in> set (jobs db1)"
  using assms(1)
proof (rule refresh_jobs_Inr)
  fix js
  assume i: "insert_missing uuid now 0 (missing_jobs db sid customer) (jobs db) = Inr js"
    and db1: "db1 = db\<lparr>jobs := update_where (lease_expired now) (reclaim cfg now) (update_where (stale_open db) (supersede now) js)\<rparr>"
  have "j \<in> set js" using insert_missing_keeps [OF i] assms(2) by blast
  moreover have "\<not> stale_open db j" using assms(3) by (simp add: stale_open_def lease_expired_def)
  ultimately have "j \<in> set (update_where (stale_open db) (supersede now) js)" by (rule update_where_keeps)
  then have "reclaim cfg now j \<in> set (update_where (lease_expired now) (reclaim cfg now) (update_where (stale_open db) (supersede now) js))"
    using assms(3) by (rule update_where_hit)
  then show ?thesis by (simp add: db1)
qed

lemma grant_all_rows:
  assumes "grant_all cfg digest now tok worker sid i ps js = (ls, js')" "\<forall>r\<in>set js. P r"
    "\<And>k j. P (grant_lease cfg digest now (tok k) worker sid j)" "\<And>issue j. P (kill_job now issue j)"
  shows "\<forall>r\<in>set js'. P r"
  using assms
proof (induction cfg digest now tok worker sid i ps js arbitrary: ls rule: grant_all.induct)
  case (1 cfg digest now tok worker sid i js)
  then show ?case by simp
next
  case (2 cfg digest now tok worker sid i j c t ps js)
  have u: "\<forall>r\<in>set (update_where (\<lambda>r. j_job_id r = j_job_id j) f js). P r" if "\<And>r. P (f r)" for f
    using 2(4) that by (rule ball_update_where)
  show ?case
  proof (cases "deliverySuffixIssue (Some (c_exact_suffix c))")
    case None
    then obtain ls1 where r: "grant_all cfg digest now tok worker sid (Suc i) ps
        (update_where (\<lambda>r. j_job_id r = j_job_id j) (grant_lease cfg digest now (tok i) worker sid) js) = (ls1, js')"
      using 2(3) by (auto split: prod.split_asm)
    show ?thesis by (rule 2(1) [OF None r u]) (rule 2(5,6))+
  next
    case (Some issue)
    have r: "grant_all cfg digest now tok worker sid i ps
        (update_where (\<lambda>r. j_job_id r = j_job_id j) (kill_job now issue) js) = (ls, js')"
      using 2(3) Some by simp
    show ?thesis by (rule 2(2) [OF Some r u]) (rule 2(5,6))+
  qed
qed

lemma expiry_backoff_bounds: "0 \<le> n \<Longrightarrow> 10 \<le> expiry_backoff_seconds n \<and> expiry_backoff_seconds n \<le> 3600"
proof -
  have "(1::int) \<le> 2 ^ nat n" by simp
  then show ?thesis unfolding expiry_backoff_seconds_def by linarith
qed

text \<open>A waiting update is leased. When a worker polls its active shard without an account filter, no row is
  locked by another transaction and the limit covers the candidates, then every candidate with a
  deliverable suffix is among the returned leases: no update is starved by another one.\<close>

theorem candidates_are_leased:
  assumes "queue_inv cfg db" "sane_config cfg"
    and "leaseBridgeJobs cfg digest uuid tok now (\<lambda>_. False) sid worker n customer hot db = Inr (ls, db')"
    and "refresh_jobs cfg uuid now db sid (normalizeId customer) = Inr db1"
    and "length (candidates_of cfg now db1 sid (normalizeId customer)) \<le> lease_limit n"
    and "(j, c, t) \<in> set (candidates_of cfg now db1 sid (normalizeId customer))" "deliverable (c_exact_suffix c)"
  shows "\<exists>l\<in>set ls. l_jobId l = j_job_id j \<and> l_campaignRecordId l = t_campaign_record_id t \<and> l_exactSuffix l = c_exact_suffix c"
proof -
  obtain db2 where r: "refresh_jobs cfg uuid now db sid (normalizeId customer) = Inr db2" and q: "queue_inv cfg db2"
    and g: "grant_all cfg digest now tok worker sid 0 (lease_batch cfg now (\<lambda>_. False) db2 sid (normalizeId customer) n) (jobs db2) = (ls, jobs db')"
    by (rule lease_jobs [OF assms(1-3)])
  have e: "db2 = db1" using r assms(4) by simp
  have ids: "distinct (map j_job_id (jobs db1))" using q by (simp add: e queue_inv_def jobs_ok_def)
  have b: "(j, c, t) \<in> set (lease_batch cfg now (\<lambda>_. False) db1 sid (normalizeId customer) n)"
    using assms(6) by (simp add: batch_all [OF assms(5)])
  obtain k where "lease_of (tok k) (j, c, t) \<in> set ls"
    using grant_all_complete [OF g [unfolded e] lease_batch_grantable [OF q [unfolded e]] ids b assms(7)] by blast
  then show ?thesis by (intro bexI) (auto simp: lease_of_def)
qed

text \<open>a crashed worker does not block a campaign. After a successful lease call no job of the whole fleet is
  held under an expired lease: a job whose lease had expired was given back for a retry after an
  exponential delay of at most an hour, or declared dead when its attempts were used up.\<close>

theorem expired_leases_are_reclaimed:
  assumes "queue_inv cfg db" "sane_config cfg"
    and "leaseBridgeJobs cfg digest uuid tok now locked sid worker n customer hot db = Inr (ls, db')"
    and "j \<in> set (jobs db)" "lease_expired now j"
  shows "(\<forall>k\<in>set (jobs db'). \<not> lease_expired now k)
    \<and> (\<exists>k\<in>set (jobs db'). j_job_id k = j_job_id j \<and> j_lease_token_hash k = None
        \<and> (if j_attempt_count j \<ge> MAX_ATTEMPTS cfg then j_state k = Dead
           else j_state k = Failed \<and> now + 10000 \<le> j_available_at k \<and> j_available_at k \<le> now + 3600000))"
proof -
  obtain db1 where r: "refresh_jobs cfg uuid now db sid (normalizeId customer) = Inr db1" and q: "queue_inv cfg db1"
    and g: "grant_all cfg digest now tok worker sid 0 (lease_batch cfg now locked db1 sid (normalizeId customer) n) (jobs db1) = (ls, jobs db')"
    by (rule lease_jobs [OF assms(1-3)])
  let ?b = "lease_batch cfg now locked db1 sid (normalizeId customer) n" and ?k = "reclaim cfg now j"
  have l: "0 \<le> LEASE_MS cfg" using assms(2) by (simp add: sane_config_def)
  have "\<forall>k\<in>set (jobs db'). \<not> lease_expired now k"
    by (rule grant_all_rows [OF g]) (use refreshed_not_expired [OF r] l in \<open>auto simp: lease_expired_def grant_lease_def kill_job_def\<close>)
  moreover have k1: "?k \<in> set (jobs db1)" by (rule refreshed_reclaims [OF r assms(4,5)])
  have a: "0 \<le> j_attempt_count j" using assms(1,4) by (simp add: queue_inv_def jobs_ok_def row_ok_def)
  have late: "j_state ?k = Dead \<or> now < j_available_at ?k"
    using expiry_backoff_bounds [OF a] by (simp add: reclaim_def)
  have "j_job_id ?k \<notin> (j_job_id \<circ> fst) ` set ?b"
  proof
    assume "j_job_id ?k \<in> (j_job_id \<circ> fst) ` set ?b"
    then obtain j2 c t where p: "(j2, c, t) \<in> set ?b" "j_job_id j2 = j_job_id ?k" by force
    have c: "(j2, c, t) \<in> set (candidates_of cfg now db1 sid (normalizeId customer))" using p(1) lease_batch_subset by blast
    have ids: "distinct (map j_job_id (jobs db1))" using q by (simp add: queue_inv_def jobs_ok_def)
    have "j2 = ?k" using distinct_key_eq [OF ids candidates_ofD(1) [OF c] k1] p(2) by blast
    then show False using candidates_ofD(4) [OF c] late by (auto simp: leasable_def)
  qed
  then have "?k \<in> set (jobs db')" by (rule grant_all_keeps [OF g k1])
  moreover have "j_lease_token_hash ?k = None" "j_job_id ?k = j_job_id j" by (simp_all add: reclaim_def clear_lease_def)
  moreover have "if j_attempt_count j \<ge> MAX_ATTEMPTS cfg then j_state ?k = Dead
           else j_state ?k = Failed \<and> now + 10000 \<le> j_available_at ?k \<and> j_available_at ?k \<le> now + 3600000"
    using expiry_backoff_bounds [OF a] by (auto simp: reclaim_def)
  ultimately show ?thesis by blast
qed

text \<open>A job whose attempts are used up is never handed out again, neither in this lease call nor, since the
  attempts of an open job are never reset by leasing, in a later one.\<close>

theorem exhausted_never_leased:
  assumes "queue_inv cfg db" "sane_config cfg"
    and "leaseBridgeJobs cfg digest uuid tok now locked sid worker n customer hot db = Inr (ls, db')"
    and "j \<in> set (jobs db)" "j_attempt_count j \<ge> MAX_ATTEMPTS cfg"
  shows "j_job_id j \<notin> l_jobId ` set ls
    \<and> (\<exists>k\<in>set (jobs db'). j_job_id k = j_job_id j \<and> j_attempt_count k \<ge> MAX_ATTEMPTS cfg)"
proof -
  obtain db1 where r: "refresh_jobs cfg uuid now db sid (normalizeId customer) = Inr db1" and q: "queue_inv cfg db1"
    and g: "grant_all cfg digest now tok worker sid 0 (lease_batch cfg now locked db1 sid (normalizeId customer) n) (jobs db1) = (ls, jobs db')"
    by (rule lease_jobs [OF assms(1-3)])
  let ?b = "lease_batch cfg now locked db1 sid (normalizeId customer) n"
  have ids: "distinct (map j_job_id (jobs db1))" using q by (simp add: queue_inv_def jobs_ok_def)
  have "\<exists>k\<in>set (jobs db1). j_job_id k = j_job_id j \<and> j_attempt_count k = j_attempt_count j"
    using r
  proof (rule refresh_jobs_Inr)
    fix js
    assume i: "insert_missing uuid now 0 (missing_jobs db sid (normalizeId customer)) (jobs db) = Inr js"
      and db1: "db1 = db\<lparr>jobs := update_where (lease_expired now) (reclaim cfg now) (update_where (stale_open db) (supersede now) js)\<rparr>"
    have "j \<in> set js" using insert_missing_keeps [OF i] assms(4) by blast
    then have "(j_job_id j, j_attempt_count j) \<in> set (map (\<lambda>j. (j_job_id j, j_attempt_count j)) js)" by auto
    moreover have "map (\<lambda>j. (j_job_id j, j_attempt_count j)) (jobs db1) = map (\<lambda>j. (j_job_id j, j_attempt_count j)) js"
      by (simp add: db1 map_update_where reclaim_def supersede_def clear_lease_def)
    ultimately have "(j_job_id j, j_attempt_count j) \<in> set (map (\<lambda>j. (j_job_id j, j_attempt_count j)) (jobs db1))" by simp
    then show ?thesis by auto
  qed
  then obtain k where k: "k \<in> set (jobs db1)" "j_job_id k = j_job_id j" "j_attempt_count k = j_attempt_count j" by blast
  have nb: "j_job_id k \<notin> (j_job_id \<circ> fst) ` set ?b"
  proof
    assume "j_job_id k \<in> (j_job_id \<circ> fst) ` set ?b"
    then obtain j2 c t where p: "(j2, c, t) \<in> set ?b" "j_job_id j2 = j_job_id k" by force
    have c: "(j2, c, t) \<in> set (candidates_of cfg now db1 sid (normalizeId customer))" using p(1) lease_batch_subset by blast
    have "j2 = k" using distinct_key_eq [OF ids candidates_ofD(1) [OF c] k(1)] p(2) by blast
    then show False using candidates_ofD(4) [OF c] k(3) assms(5) by (auto simp: leasable_def)
  qed
  have "k \<in> set (jobs db')" by (rule grant_all_keeps [OF g k(1) nb])
  moreover have "j_job_id j \<notin> l_jobId ` set ls"
  proof
    assume "j_job_id j \<in> l_jobId ` set ls"
    then obtain l where l: "l \<in> set ls" "l_jobId l = j_job_id j" by auto
    from grant_all_leases [OF g lease_batch_grantable [OF q] ids l(1)] l(2) k(2) nb show False
      by (force simp: lease_of_def image_iff)
  qed
  ultimately show ?thesis using k(2,3) assms(5) by auto
qed

section \<open>End-to-end delivery\<close>











section \<open>Witnesses for the order of leasing\<close>

definition demo_capture2 :: capture_input where
  "demo_capture2 = demo_capture\<lparr>ci_target := sample_input ''r2'' ''87654321'', ci_exactSuffix := ''gclid=xyz''\<rparr>"

definition demo_two :: fleet_db where
  "demo_two = snd (enqueueBridgeCapture default_cfg (\<lambda>s. s) 1500 ''job-2'' demo_capture2 demo_queued)"

theorem accounts_take_turns_witness:
  "\<exists>p q. p \<in> set (lease_batch default_cfg 2000 (\<lambda>_. False) demo_two demo_shard [] 1)
     \<and> q \<in> set (candidates_of default_cfg 2000 demo_two demo_shard [])
     \<and> account_position (candidates_of default_cfg 2000 demo_two demo_shard []) p
         \<le> account_position (candidates_of default_cfg 2000 demo_two demo_shard []) q \<and> p \<noteq> q"
proof -
  let ?b = "lease_batch default_cfg 2000 (\<lambda>_. False) demo_two demo_shard [] 1"
  let ?ps = "candidates_of default_cfg 2000 demo_two demo_shard []"
  have "(case ?b of [p] \<Rightarrow> (case ?ps of [q1, q2] \<Rightarrow> j_job_id (fst p) = j_job_id (fst q1) \<and> j_job_id (fst p) \<noteq> j_job_id (fst q2) | _ \<Rightarrow> False) | _ \<Rightarrow> False)"
    by code_simp
  then obtain p q1 q2 where b: "?b = [p]" and ps: "?ps = [q1, q2]" and ne: "j_job_id (fst p) \<noteq> j_job_id (fst q2)"
    by (auto split: list.split_asm)
  have 1: "p \<in> set ?b" "q2 \<in> set ?ps" "q2 \<notin> set ?b" using ne unfolding b ps by auto
  have "account_position ?ps p \<le> account_position ?ps q2"
    using accounts_take_turns [OF 1(1,2) _ 1(3)] by simp
  with 1 show ?thesis using ne by blast
qed

theorem candidates_are_leased_witness:
  "\<exists>ls db' l. demo_lease_call = Inr (ls, db') \<and> l \<in> set ls \<and> l_jobId l = ''job-1'' \<and> l_exactSuffix l = ''gclid=abc''"
proof -
  obtain ls where r: "demo_lease_call = Inr (ls, demo_leased)" using demo_lease_ok by blast
  have "is_Inr (refresh_jobs default_cfg (\<lambda>i. ''new'') 2000 demo_queued demo_shard (normalizeId []))" by code_simp
  then obtain db1 where f: "refresh_jobs default_cfg (\<lambda>i. ''new'') 2000 demo_queued demo_shard (normalizeId []) = Inr db1" using is_InrD by blast
  have "(case refresh_jobs default_cfg (\<lambda>i. ''new'') 2000 demo_queued demo_shard (normalizeId []) of
      Inl _ \<Rightarrow> False | Inr db1 \<Rightarrow> (case candidates_of default_cfg 2000 db1 demo_shard (normalizeId []) of
         [(j, c, t)] \<Rightarrow> j_job_id j = ''job-1'' \<and> c_exact_suffix c = ''gclid=abc'' | _ \<Rightarrow> False))" by code_simp
  then obtain j c t where c: "candidates_of default_cfg 2000 db1 demo_shard (normalizeId []) = [(j, c, t)]"
    and e: "j_job_id j = ''job-1''" "c_exact_suffix c = ''gclid=abc''"
    unfolding f by (auto split: list.split_asm)
  have l: "length (candidates_of default_cfg 2000 db1 demo_shard (normalizeId [])) \<le> lease_limit 5"
    by (simp add: c lease_limit_def MAX_LEASE_JOBS_def)
  have d: "deliverable (c_exact_suffix c)" unfolding e by code_simp
  have m: "(j, c, t) \<in> set (candidates_of default_cfg 2000 db1 demo_shard (normalizeId []))" by (simp add: c)
  from candidates_are_leased [OF demo_queue(1) demo_sane r [unfolded demo_lease_call_def] f l m d] r e show ?thesis by auto
qed

definition demo_late_call :: "bridge_error + bridge_lease list \<times> fleet_db" where
  "demo_late_call = leaseBridgeJobs default_cfg (\<lambda>s. s) (\<lambda>i. ''new'') (\<lambda>i. ''tok2'') 2200000 (\<lambda>_. False)
     demo_shard ''worker2'' 5 [] False demo_leased"

theorem expired_leases_are_reclaimed_witness:
  "\<exists>ls db' j. demo_late_call = Inr (ls, db') \<and> j \<in> set (jobs demo_leased) \<and> lease_expired 2200000 j
     \<and> (\<forall>k\<in>set (jobs db'). \<not> lease_expired 2200000 k)"
proof -
  have "is_Inr demo_late_call" by code_simp
  then obtain ls db' where r: "demo_late_call = Inr (ls, db')" using is_InrD2 by blast
  have "list_ex (lease_expired 2200000) (jobs demo_leased)" by code_simp
  then obtain j where j: "j \<in> set (jobs demo_leased)" "lease_expired 2200000 j" by (auto simp: list_ex_iff)
  from expired_leases_are_reclaimed [OF demo_queue(2) demo_sane r [unfolded demo_late_call_def] j] r j show ?thesis by blast
qed

section \<open>Where the queue gets stuck\<close>

text \<open>With a single attempt configured, one failed delivery makes the job dead; enqueueing the same version again
  reopens it without giving it an attempt.\<close>

definition single_cfg :: fleet_config where
  "single_cfg = fleet_config_of (default_env\<lparr>TAH_SCRIPT_MAX_ATTEMPTS := Some 1\<rparr>)"

definition stuck_leased :: fleet_db where
  "stuck_leased = right (leaseBridgeJobs single_cfg (\<lambda>s. s) (\<lambda>i. ''new'') (\<lambda>i. ''tok'') 2000 (\<lambda>_. False)
     demo_shard ''worker'' 5 [] False demo_queued)"

definition stuck_failed :: fleet_db where
  "stuck_failed = right (acknowledgeBridgeJob single_cfg (\<lambda>s. s) 3000 (demo_ack\<lparr>ack_ok := False\<rparr>) stuck_leased)"

definition stuck_again :: "(bridge_error + string \<times> string \<times> int) \<times> fleet_db" where
  "stuck_again = enqueueBridgeCapture single_cfg (\<lambda>s. s) 4000 ''job-9'' demo_capture stuck_failed"

lemma stuck_inv: "queue_inv single_cfg (snd stuck_again)"
proof -
  have s: "sane_config single_cfg" by (simp add: single_cfg_def)
  have 0: "reachable_from fresh_db (bridge_step single_cfg (\<lambda>s. s)) empty_db"
    by (rule reachable_from.init) (simp add: fresh_db_def empty_db_def)
  obtain sid m where "registerBridgeShard (\<lambda>s. s) 500 demo_shard ''0123456789012345678901234567'' [] empty_db = Inr ((sid, m), demo_registered)"
    using demo_register_ok by blast
  from reachable_from.step [OF 0 bridge_step.register [OF this]]
  have 1: "reachable_from fresh_db (bridge_step single_cfg (\<lambda>s. s)) demo_registered" .
  have e: "demo_queued = snd (enqueueBridgeCapture single_cfg (\<lambda>s. s) 1000 ''job-1'' demo_capture demo_registered)" by code_simp
  have 2: "reachable_from fresh_db (bridge_step single_cfg (\<lambda>s. s)) demo_queued"
    by (rule reachable_from.step [OF 1 bridge_step.enqueue]) (simp add: e prod_eq_iff)
  have "is_Inr (leaseBridgeJobs single_cfg (\<lambda>s. s) (\<lambda>i. ''new'') (\<lambda>i. ''tok'') 2000 (\<lambda>_. False) demo_shard ''worker'' 5 [] False demo_queued)"
    by code_simp
  from right_Inr [OF this] obtain ls where "leaseBridgeJobs single_cfg (\<lambda>s. s) (\<lambda>i. ''new'') (\<lambda>i. ''tok'') 2000 (\<lambda>_. False)
     demo_shard ''worker'' 5 [] False demo_queued = Inr (ls, stuck_leased)" unfolding stuck_leased_def by blast
  from reachable_from.step [OF 2 bridge_step.lease [OF this]]
  have 3: "reachable_from fresh_db (bridge_step single_cfg (\<lambda>s. s)) stuck_leased" .
  have "is_Inr (acknowledgeBridgeJob single_cfg (\<lambda>s. s) 3000 (demo_ack\<lparr>ack_ok := False\<rparr>) stuck_leased)" by code_simp
  from right_Inr [OF this] obtain r where "acknowledgeBridgeJob single_cfg (\<lambda>s. s) 3000 (demo_ack\<lparr>ack_ok := False\<rparr>) stuck_leased = Inr (r, stuck_failed)"
    unfolding stuck_failed_def by blast
  from reachable_from.step [OF 3 bridge_step.ack [OF this]]
  have 4: "reachable_from fresh_db (bridge_step single_cfg (\<lambda>s. s)) stuck_failed" .
  have "reachable_from fresh_db (bridge_step single_cfg (\<lambda>s. s)) (snd stuck_again)"
    by (rule reachable_from.step [OF 4 bridge_step.enqueue]) (simp add: stuck_again_def prod_eq_iff)
  then show ?thesis
    using bridge.reachable_inv [of "default_env\<lparr>TAH_SCRIPT_MAX_ATTEMPTS := Some 1\<rparr>" "\<lambda>s. s"] by (simp add: single_cfg_def bridge_inv_def)
qed

theorem exhausted_never_leased_witness:
  "\<exists>ls db'. leaseBridgeJobs single_cfg (\<lambda>s. s) (\<lambda>i. ''new'') (\<lambda>i. ''tok'') 9000000 (\<lambda>_. False)
     demo_shard ''worker'' 5 [] False (snd stuck_again) = Inr (ls, db') \<and> ''job-1'' \<notin> l_jobId ` set ls"
proof -
  have "is_Inr (leaseBridgeJobs single_cfg (\<lambda>s. s) (\<lambda>i. ''new'') (\<lambda>i. ''tok'') 9000000 (\<lambda>_. False) demo_shard ''worker'' 5 [] False (snd stuck_again))"
    by code_simp
  then obtain ls db' where r: "leaseBridgeJobs single_cfg (\<lambda>s. s) (\<lambda>i. ''new'') (\<lambda>i. ''tok'') 9000000 (\<lambda>_. False)
     demo_shard ''worker'' 5 [] False (snd stuck_again) = Inr (ls, db')" using is_InrD2 by blast
  have s: "sane_config single_cfg" by (simp add: single_cfg_def)
  have "list_ex (\<lambda>j. j_job_id j = ''job-1'' \<and> j_attempt_count j \<ge> MAX_ATTEMPTS single_cfg) (jobs (snd stuck_again))" by code_simp
  then obtain j where j: "j \<in> set (jobs (snd stuck_again))" "j_job_id j = ''job-1''" "j_attempt_count j \<ge> MAX_ATTEMPTS single_cfg"
    by (auto simp: list_ex_iff)
  from exhausted_never_leased [OF stuck_inv s r j(1,3)] j(2) r show ?thesis by auto
qed

text \<open>Enqueueing a capture again does not revive it. After a job ran out of attempts, capturing the same version
  again succeeds and puts the job back to pending, but leaves the used-up attempts in place, so a poll of the
  shard far in the future still leases nothing although the campaign waits for its update.\<close>

theorem revived_job_is_stuck:
  "case stuck_again of (r, db) \<Rightarrow> is_Inr r
   \<and> list_ex (\<lambda>j. j_job_id j = ''job-1'' \<and> j_state j = Pending \<and> j_attempt_count j = MAX_ATTEMPTS single_cfg) (jobs db)
   \<and> (case leaseBridgeJobs single_cfg (\<lambda>s. s) (\<lambda>i. ''new'') (\<lambda>i. ''tok'') 9000000 (\<lambda>_. False)
        demo_shard ''worker'' 5 [] False db of Inr (ls, _) \<Rightarrow> ls = [] | Inl _ \<Rightarrow> False)"
  by code_simp

lemma expiry_backoff_fits_iff: "expiry_backoff_fits n \<longleftrightarrow> n \<le> 27"
proof
  assume f: "expiry_backoff_fits n"
  show "n \<le> 27"
  proof (rule ccontr)
    assume "\<not> n \<le> 27"
    then have "28 \<le> nat n" by simp
    then have "(2::int) ^ 28 \<le> 2 ^ nat n" by (rule power_increasing) simp
    with f show False by (simp add: expiry_backoff_fits_def)
  qed
next
  assume "n \<le> 27"
  then have "(2::int) ^ nat n \<le> 2 ^ 27" by (intro power_increasing) auto
  then show "expiry_backoff_fits n" by (simp add: expiry_backoff_fits_def)
qed

text \<open>One expired lease can stop the whole fleet. The back-off of a reclaimed lease is computed in 32-bit
  integers, so with more than 28 attempts configured a single job whose lease expired at its 28th attempt or
  later makes the lease transaction of every shard fail; with at most 28 attempts it never does.\<close>

theorem expiry_overflow_stops_leasing:
  assumes "j \<in> set (jobs db)" "lease_expired now j" "j_attempt_count j < MAX_ATTEMPTS cfg" "28 \<le> j_attempt_count j"
  shows "\<not> is_Inr (leaseBridgeJobs cfg digest uuid tok now locked sid worker n customer hot db)
    \<and> (\<forall>cfg' now' js. MAX_ATTEMPTS cfg' \<le> 28 \<longrightarrow> is_Inr (reclaim_expired cfg' now' js))"
proof
  have "reclaim_expired cfg now (update_where (stale_open db) (supersede now) js) = Inl IntegerOutOfRange"
    if "insert_missing uuid now 0 ms (jobs db) = Inr js" for uuid ms js
  proof -
    have "j \<in> set js" using insert_missing_keeps [OF that] assms(1) by blast
    moreover have "\<not> stale_open db j" using assms(2) by (simp add: stale_open_def lease_expired_def)
    ultimately have "j \<in> set (update_where (stale_open db) (supersede now) js)" by (rule update_where_keeps)
    moreover have "\<not> expiry_backoff_fits (j_attempt_count j)" using assms(4) by (simp add: expiry_backoff_fits_iff)
    ultimately show ?thesis using assms(2,3) by (auto simp: reclaim_expired_def list_ex_iff)
  qed
  then have "refresh_jobs cfg uuid now db sid c \<noteq> Inr db1" for uuid c db1
    by (auto simp: refresh_jobs_def bindE_Inr_conv)
  then show "\<not> is_Inr (leaseBridgeJobs cfg digest uuid tok now locked sid worker n customer hot db)"
    by (metis is_InrD2 lease_Inr)
  show "\<forall>cfg' now' js. MAX_ATTEMPTS cfg' \<le> 28 \<longrightarrow> is_Inr (reclaim_expired cfg' now' js)"
    by (auto simp: reclaim_expired_def is_Inr_def expiry_backoff_fits_iff list_ex_iff)
qed

theorem expiry_overflow_stops_leasing_witness:
  "\<not> is_Inr (leaseBridgeJobs (default_cfg\<lparr>MAX_ATTEMPTS := 40\<rparr>) (\<lambda>s. s) (\<lambda>i. ''n'') (\<lambda>i. ''t'') 9 (\<lambda>_. False) demo_shard ''w'' 5 [] False
     (demo_registered\<lparr>jobs := [(new_job ''a'' ''t'' 1 0)\<lparr>j_state := Leased, j_attempt_count := 30, j_leased_until := Some 5\<rparr>]\<rparr>))"
proof -
  let ?j = "(new_job ''a'' ''t'' 1 0)\<lparr>j_state := Leased, j_attempt_count := 30, j_leased_until := Some 5\<rparr>"
  have "?j \<in> set (jobs (demo_registered\<lparr>jobs := [?j]\<rparr>))" by simp
  from expiry_overflow_stops_leasing [OF this, of 9 "default_cfg\<lparr>MAX_ATTEMPTS := 40\<rparr>"] show ?thesis
    by (simp add: lease_expired_def)
qed

end
