(* ===== verification/Rate_Limit.thy ===== *)
theory Rate_Limit
  imports Fleet_Prelude Complex_Main
begin

text \<open>
  Request quotas of the dashboard API: \<open>web/lib/rate-limit.ts\<close>. A fixed window per client and namespace,
  kept in a local map of buckets, or in Redis when that is configured; the answer of Redis (a service) is
  the parameter \<open>redis_reply\<close>. A JavaScript \<open>Map\<close> iterates in insertion order, so the map is an
  association list. Environment numbers that are fractional are exact rationals.
\<close>

section \<open>Configuration and results\<close>

record rate_config =
  rc_namespace :: string
  rc_limit :: int
  rc_windowMs :: ms
  rc_identity :: "string option"
  rc_envLimit :: "rat option"
  rc_envWindow :: "rat option"

datatype rate_backend = Memory | Redis | Closed

record rate_result =
  rr_ok :: bool
  rr_limit :: int
  rr_remaining :: int
  rr_resetMs :: ms
  rr_retryAfterSeconds :: int
  rr_backend :: rate_backend

record bucket =
  b_count :: int
  b_resetAt :: time

type_synonym buckets = "(string \<times> bucket) list"

definition max_local_buckets :: "int option \<Rightarrow> nat" where
  "max_local_buckets env = nat (env_floor 1000 50000 env)"

text \<open>\<open>configuredLimit\<close> and \<open>configuredWindow\<close>: a positive environment value replaces the built-in one.\<close>

definition configured :: "int \<Rightarrow> int \<Rightarrow> rat option \<Rightarrow> int" where
  "configured lo dflt env = max lo (case env of None \<Rightarrow> dflt | Some v \<Rightarrow> if 0 < v then \<lfloor>v\<rfloor> else dflt)"

definition normalize_config :: "rate_config \<Rightarrow> rate_config" where
  "normalize_config c = c\<lparr>rc_limit := configured 1 (rc_limit c) (rc_envLimit c),
     rc_windowMs := configured 1000 (rc_windowMs c) (rc_envWindow c)\<rparr>"

section \<open>Who is asking\<close>

definition nonblank :: "string option \<Rightarrow> string option" where
  "nonblank v = (case v of None \<Rightarrow> None | Some s \<Rightarrow> if js_trim s = [] then None else Some (js_trim s))"

definition forwarded_client :: "string option \<Rightarrow> string option" where
  "forwarded_client v = map_option (\<lambda>s. hd (split_char CHR '','' s)) v"

definition clientIdentity :: "(string \<Rightarrow> string) \<Rightarrow> (string \<Rightarrow> string option) \<Rightarrow> string" where
  "clientIdentity digest header =
     take 32 (digest (case find (\<lambda>v. v \<noteq> None) (map nonblank
         [header ''cf-connecting-ip'', header ''x-real-ip'', forwarded_client (header ''x-forwarded-for'')]) of
       Some (Some s) \<Rightarrow> s | _ \<Rightarrow> ''unknown''))"

definition keyFor :: "(string \<Rightarrow> string) \<Rightarrow> (string \<Rightarrow> string option) \<Rightarrow> rate_config \<Rightarrow> string" where
  "keyFor digest header c =
     ''tah:rl:'' @ rc_namespace c @ '':'' @ take 32 (digest
       (case nonblank (rc_identity c) of Some i \<Rightarrow> i | None \<Rightarrow> clientIdentity digest header))"

section \<open>The local window\<close>

definition live_buckets :: "time \<Rightarrow> buckets \<Rightarrow> buckets" where
  "live_buckets now bs = filter (\<lambda>(k, b). now < b_resetAt b) bs"

definition prune :: "nat \<Rightarrow> time \<Rightarrow> buckets \<Rightarrow> buckets" where
  "prune mx now bs =
     (let live = live_buckets now bs in
      if length live \<le> mx then live
      else (let victims = map fst (take (length live - mx) (sort_key (b_resetAt \<circ> snd) live))
            in filter (\<lambda>(k, b). k \<notin> set victims) live))"

text \<open>\<open>Map.set\<close>: an existing key keeps its place, a new one is appended.\<close>

fun put :: "string \<Rightarrow> bucket \<Rightarrow> buckets \<Rightarrow> buckets" where
  "put k b [] = [(k, b)]"
| "put k b ((k', b') # bs) = (if k' = k then (k, b) # bs else (k', b') # put k b bs)"

definition window_result :: "int \<Rightarrow> int \<Rightarrow> ms \<Rightarrow> rate_backend \<Rightarrow> rate_result" where
  "window_result limit count resetMs backend =
     \<lparr> rr_ok = (count \<le> limit), rr_limit = limit, rr_remaining = max 0 (limit - count), rr_resetMs = resetMs,
       rr_retryAfterSeconds = max 1 ((resetMs + 999) div 1000), rr_backend = backend \<rparr>"

definition open_bucket :: "time \<Rightarrow> ms \<Rightarrow> bucket option \<Rightarrow> bucket" where
  "open_bucket now windowMs v =
     (case v of
        Some b \<Rightarrow> (if b_resetAt b \<le> now then \<lparr>b_count = 0, b_resetAt = now + windowMs\<rparr> else b)
      | None \<Rightarrow> \<lparr>b_count = 0, b_resetAt = now + windowMs\<rparr>)"

definition localLimit :: "nat \<Rightarrow> time \<Rightarrow> string \<Rightarrow> rate_config \<Rightarrow> buckets \<Rightarrow> rate_result \<times> buckets" where
  "localLimit mx now key c bs =
     (let bs1 = prune mx now bs;
          b = open_bucket now (rc_windowMs c) (map_of bs1 key);
          b' = b\<lparr>b_count := b_count b + 1\<rparr>
      in (window_result (rc_limit c) (b_count b') (max 0 (b_resetAt b' - now)) Memory, put key b' bs1))"

section \<open>\<open>checkRateLimit\<close>\<close>

text \<open>What the Redis request came to: not configured, failed (timeout, HTTP error or a non-numeric answer), or
  the counter and its time to live.\<close>

datatype redis_reply = NotConfigured | RedisFailed | Reply int int

definition redisLimit :: "redis_reply \<Rightarrow> rate_config \<Rightarrow> unit + rate_result option" where
  "redisLimit reply c =
     (case reply of
        NotConfigured \<Rightarrow> Inr None
      | RedisFailed \<Rightarrow> Inl ()
      | Reply count ttl \<Rightarrow> Inr (Some (window_result (rc_limit c) count (max 0 ttl) Redis)))"

definition closed_result :: "rate_config \<Rightarrow> rate_result" where
  "closed_result c = \<lparr> rr_ok = False, rr_limit = rc_limit c, rr_remaining = 0, rr_resetMs = rc_windowMs c,
     rr_retryAfterSeconds = (rc_windowMs c + 999) div 1000, rr_backend = Closed \<rparr>"

definition checkRateLimit ::
  "(string \<Rightarrow> string) \<Rightarrow> nat \<Rightarrow> bool \<Rightarrow> redis_reply \<Rightarrow> time \<Rightarrow> (string \<Rightarrow> string option) \<Rightarrow> rate_config \<Rightarrow> buckets
    \<Rightarrow> rate_result \<times> buckets" where
  "checkRateLimit digest mx failClosed reply now header config bs =
     (let c = normalize_config config; key = keyFor digest header c in
      case redisLimit reply c of
        Inr (Some r) \<Rightarrow> (r, bs)
      | Inr None \<Rightarrow> localLimit mx now key c bs
      | Inl _ \<Rightarrow> if failClosed then (closed_result c, bs) else localLimit mx now key c bs)"

definition buildRateLimitHeaders :: "time \<Rightarrow> rate_result \<Rightarrow> (string \<times> int) list" where
  "buildRateLimitHeaders now r =
     [(''X-RateLimit-Limit'', rr_limit r), (''X-RateLimit-Remaining'', rr_remaining r),
      (''X-RateLimit-Reset'', (now + rr_resetMs r + 999) div 1000)]
     @ (if rr_ok r then [] else [(''Retry-After'', rr_retryAfterSeconds r)])"

section \<open>Buckets\<close>

lemma map_of_filter_Some:
  "distinct (map fst xs) \<Longrightarrow> map_of (filter p xs) k = (case map_of xs k of None \<Rightarrow> None | Some v \<Rightarrow> if p (k, v) then Some v else None)"
proof (induction xs)
  case Nil
  then show ?case by simp
next
  case (Cons x xs)
  obtain a b where x: "x = (a, b)" by (cases x)
  show ?case
  proof (cases "a = k")
    case True
    then have "map_of xs k = None" using Cons.prems by (simp add: x map_of_eq_None_iff)
    moreover have "map_of (filter p xs) k = None"
      using Cons.prems True by (auto simp: x map_of_eq_None_iff)
    ultimately show ?thesis by (simp add: x True)
  next
    case False
    then show ?thesis using Cons by (simp add: x)
  qed
qed

lemma map_of_put: "map_of (put k b bs) = (map_of bs)(k \<mapsto> b)"
  by (induction k b bs rule: put.induct) auto

lemma keys_put: "fst ` set (put k b bs) = insert k (fst ` set bs)"
  by (induction k b bs rule: put.induct) auto

lemma distinct_put: "distinct (map fst bs) \<Longrightarrow> distinct (map fst (put k b bs))"
  by (induction k b bs rule: put.induct) (auto simp: keys_put)

text \<open>As long as the map stays within its bound, pruning only removes expired buckets.\<close>

lemma length_live: "length (live_buckets now bs) \<le> length bs"
  by (simp add: live_buckets_def)

lemma prune_small: "length bs \<le> mx \<Longrightarrow> prune mx now bs = live_buckets now bs"
  using le_trans [OF length_live, of bs mx now] by (simp add: prune_def Let_def)

lemma map_of_live:
  assumes "distinct (map fst bs)"
  shows "map_of (live_buckets now bs) k = (case map_of bs k of None \<Rightarrow> None | Some b \<Rightarrow> if now < b_resetAt b then Some b else None)"
  unfolding live_buckets_def map_of_filter_Some [OF assms] by (simp split: option.split)

definition used :: "time \<Rightarrow> string \<Rightarrow> buckets \<Rightarrow> int" where
  "used now k bs = (case map_of bs k of None \<Rightarrow> 0 | Some b \<Rightarrow> if now < b_resetAt b then b_count b else 0)"

definition window_end :: "time \<Rightarrow> ms \<Rightarrow> string \<Rightarrow> buckets \<Rightarrow> time" where
  "window_end now w k bs = (case map_of bs k of None \<Rightarrow> now + w | Some b \<Rightarrow> if now < b_resetAt b then b_resetAt b else now + w)"

text \<open>One request: its own bucket counts it, other buckets keep their count.\<close>

lemma localLimit_eq:
  assumes "distinct (map fst bs)" "length bs \<le> mx"
  shows "localLimit mx now key c bs =
    (window_result (rc_limit c) (used now key bs + 1) (max 0 (window_end now (rc_windowMs c) key bs - now)) Memory,
     put key \<lparr>b_count = used now key bs + 1, b_resetAt = window_end now (rc_windowMs c) key bs\<rparr> (live_buckets now bs))"
proof -
  have "open_bucket now w (map_of (live_buckets now bs) key) =
      \<lparr>b_count = used now key bs, b_resetAt = window_end now w key bs\<rparr>" for w
    by (auto simp: open_bucket_def map_of_live [OF assms(1)] used_def window_end_def split: option.split)
  then show ?thesis by (simp add: localLimit_def Let_def prune_small [OF assms(2)])
qed

lemma localLimit_step:
  assumes "distinct (map fst bs)" "length bs \<le> mx" "localLimit mx now key c bs = (r, bs')"
  shows "distinct (map fst bs')" "fst ` set bs' \<subseteq> insert key (fst ` set bs)"
    "rr_ok r = (used now key bs + 1 \<le> rc_limit c)"
    "map_of bs' key = Some \<lparr>b_count = used now key bs + 1, b_resetAt = window_end now (rc_windowMs c) key bs\<rparr>"
    "k \<noteq> key \<Longrightarrow> map_of bs' k = map_of (live_buckets now bs) k"
proof -
  have r: "r = window_result (rc_limit c) (used now key bs + 1) (max 0 (window_end now (rc_windowMs c) key bs - now)) Memory"
    and bs': "bs' = put key \<lparr>b_count = used now key bs + 1, b_resetAt = window_end now (rc_windowMs c) key bs\<rparr> (live_buckets now bs)"
    using assms(3) unfolding localLimit_eq [OF assms(1,2)] by auto
  have "distinct (map fst (live_buckets now bs))" using assms(1) by (simp add: live_buckets_def distinct_map_filter)
  then show "distinct (map fst bs')" unfolding bs' by (rule distinct_put)
  show "fst ` set bs' \<subseteq> insert key (fst ` set bs)" unfolding bs' keys_put by (auto simp: live_buckets_def)
  show "rr_ok r = (used now key bs + 1 \<le> rc_limit c)" by (simp add: r window_result_def)
  show "map_of bs' key = Some \<lparr>b_count = used now key bs + 1, b_resetAt = window_end now (rc_windowMs c) key bs\<rparr>"
    by (simp add: bs' map_of_put)
  show "k \<noteq> key \<Longrightarrow> map_of bs' k = map_of (live_buckets now bs) k" by (simp add: bs' map_of_put)
qed

section \<open>The quota\<close>

fun serve :: "nat \<Rightarrow> (time \<times> string \<times> rate_config) list \<Rightarrow> buckets \<Rightarrow> (string \<times> rate_result) list" where
  "serve mx [] bs = []"
| "serve mx ((now, key, c) # es) bs =
     (case localLimit mx now key c bs of (r, bs') \<Rightarrow> (key, r) # serve mx es bs')"

definition granted :: "string \<Rightarrow> (string \<times> rate_result) list \<Rightarrow> nat" where
  "granted k rs = length (filter (\<lambda>(k', r). k' = k \<and> rr_ok r) rs)"

definition spent :: "time \<Rightarrow> string \<Rightarrow> buckets \<Rightarrow> int" where
  "spent a k bs = (case map_of bs k of None \<Rightarrow> 0 | Some b \<Rightarrow> if b_resetAt b \<le> a then 0 else b_count b)"

definition one_window :: "time \<Rightarrow> time \<Rightarrow> string \<Rightarrow> buckets \<Rightarrow> bool" where
  "one_window a h k bs = (case map_of bs k of None \<Rightarrow> True | Some b \<Rightarrow> b_resetAt b \<le> a \<or> h \<le> b_resetAt b)"

lemma used_spent: "one_window a h k bs \<Longrightarrow> a \<le> t \<Longrightarrow> t < h \<Longrightarrow> used t k bs = spent a k bs"
  by (auto simp: used_def spent_def one_window_def split: option.splits)

lemma serve_quota:
  assumes "distinct (map fst bs)" "finite K" "fst ` set bs \<subseteq> K" "card K \<le> mx"
    and "\<And>t k' c. (t, k', c) \<in> set es \<Longrightarrow> k' \<in> K \<and> a \<le> t \<and> t < a + W \<and> 1 \<le> rc_windowMs c"
    and "\<And>t c. (t, k, c) \<in> set es \<Longrightarrow> rc_limit c = L \<and> rc_windowMs c = W"
    and "one_window a (a + W) k bs" "0 \<le> spent a k bs"
  shows "int (granted k (serve mx es bs)) = min (int (length (filter (\<lambda>(t, k', c). k' = k) es))) (max 0 (L - spent a k bs))"
  using assms
proof (induction es arbitrary: bs)
  case Nil
  then show ?case by (simp add: granted_def)
next
  case (Cons e es)
  obtain t q c where e: "e = (t, q, c)" by (cases e)
  obtain r bs' where s: "localLimit mx t q c bs = (r, bs')" by (cases "localLimit mx t q c bs")
  have ev: "q \<in> K" "a \<le> t" "t < a + W" "1 \<le> rc_windowMs c" using Cons.prems(5) [of t q c] by (simp_all add: e)
  have "length bs = card (fst ` set bs)" using Cons.prems(1) by (metis distinct_card length_map set_map)
  also have "\<dots> \<le> mx" using Cons.prems(2-4) by (meson card_mono le_trans)
  finally have len: "length bs \<le> mx" .
  note st = localLimit_step [OF Cons.prems(1) len s]
  have K: "fst ` set bs' \<subseteq> K" using st(2) Cons.prems(3) ev(1) by blast
  have used: "used t k bs = spent a k bs" by (rule used_spent [OF Cons.prems(7) ev(2,3)])
  have ih: "int (granted k (serve mx es bs')) = min (int (length (filter (\<lambda>(t, k', c). k' = k) es))) (max 0 (L - spent a k bs'))"
    if "one_window a (a + W) k bs'" "0 \<le> spent a k bs'"
  proof (rule Cons.IH [OF st(1) Cons.prems(2) K Cons.prems(4) _ _ that])
    show "k' \<in> K \<and> a \<le> t \<and> t < a + W \<and> 1 \<le> rc_windowMs c" if "(t, k', c) \<in> set es" for t k' c
      by (rule Cons.prems(5)) (use that in simp)
    show "rc_limit c = L \<and> rc_windowMs c = W" if "(t, k, c) \<in> set es" for t c
      using Cons.prems(6) [of t c] that by simp
  qed
  show ?case
  proof (cases "q = k")
    case True
    have c: "rc_limit c = L" "rc_windowMs c = W" using Cons.prems(6) [of t c] by (simp_all add: e True)
    have m: "map_of bs' k = Some \<lparr>b_count = spent a k bs + 1, b_resetAt = window_end t W k bs\<rparr>"
      using st(4) by (simp add: True used c)
    have we: "a + W \<le> window_end t W k bs"
      using Cons.prems(7) ev(2,3) by (auto simp: one_window_def window_end_def split: option.split)
    then have w: "one_window a (a + W) k bs'" "spent a k bs' = spent a k bs + 1"
      using ev(2,3) by (simp_all add: one_window_def spent_def m)
    have "rr_ok r = (spent a k bs + 1 \<le> L)" using st(3) by (simp add: True used c)
    then have "int (granted k (serve mx (e # es) bs)) = (if spent a k bs + 1 \<le> L then 1 else 0) + int (granted k (serve mx es bs'))"
      by (simp add: e s [unfolded True] granted_def True)
    moreover have "int (length (filter (\<lambda>(t, k', c). k' = k) (e # es))) = 1 + int (length (filter (\<lambda>(t, k', c). k' = k) es))"
      by (simp add: e True)
    moreover have "int (granted k (serve mx es bs')) = min (int (length (filter (\<lambda>(t, k', c). k' = k) es))) (max 0 (L - (spent a k bs + 1)))"
      using ih w Cons.prems(8) by simp
    ultimately show ?thesis by (cases "spent a k bs + 1 \<le> L") (auto simp: min_def max_def)
  next
    case False
    have m: "map_of bs' k = (case map_of bs k of None \<Rightarrow> None | Some b \<Rightarrow> if t < b_resetAt b then Some b else None)"
      using st(5) False by (simp add: map_of_live [OF Cons.prems(1)])
    have w: "one_window a (a + W) k bs'" "spent a k bs' = spent a k bs"
      using Cons.prems(7) ev(2,3) by (cases "map_of bs k"; auto simp: one_window_def spent_def m)+
    have "granted k (serve mx (e # es) bs) = granted k (serve mx es bs')"
      using False by (simp add: e s granted_def)
    then show ?thesis using ih w Cons.prems(8) False by (simp add: e)
  qed
qed

text \<open>C33: within one window a client is granted exactly its quota. For any mix of requests of any clients that all
  arrive within one window length of \<open>a\<close>, a client with no requests counted so far gets precisely the first
  \<open>limit\<close> of its requests granted and no more, provided the bucket map does not overflow its bound.\<close>

theorem window_quota:
  assumes "distinct (map fst bs)" "card (fst ` set bs \<union> (fst \<circ> snd) ` set es) \<le> mx"
    and "\<forall>(t, k', c)\<in>set es. a \<le> t \<and> t < a + W \<and> 1 \<le> rc_windowMs c"
    and "\<forall>(t, k', c)\<in>set es. k' = k \<longrightarrow> rc_limit c = L \<and> rc_windowMs c = W"
    and "k \<notin> fst ` set (live_buckets a bs)" "0 \<le> L"
  shows "int (granted k (serve mx es bs)) = min (int (length (filter (\<lambda>(t, k', c). k' = k) es))) L"
proof -
  have m: "case map_of bs k of None \<Rightarrow> True | Some b \<Rightarrow> b_resetAt b \<le> a"
    using assms(5) map_of_live [OF assms(1), of a k]
    by (auto simp: map_of_eq_None_iff [symmetric] split: option.splits if_splits)
  have "int (granted k (serve mx es bs)) = min (int (length (filter (\<lambda>(t, k', c). k' = k) es))) (max 0 (L - spent a k bs))"
  proof (rule serve_quota [OF assms(1) _ _ assms(2)])
    fix t k' c assume e: "(t, k', c) \<in> set es"
    have "a \<le> t \<and> t < a + W \<and> 1 \<le> rc_windowMs c" using bspec [OF assms(3) e] by simp
    moreover have "k' \<in> (fst \<circ> snd) ` set es" using e by force
    ultimately show "k' \<in> fst ` set bs \<union> (fst \<circ> snd) ` set es \<and> a \<le> t \<and> t < a + W \<and> 1 \<le> rc_windowMs c" by blast
  next
    fix t c assume e: "(t, k, c) \<in> set es"
    show "rc_limit c = L \<and> rc_windowMs c = W" using bspec [OF assms(4) e] by simp
  qed (use m in \<open>auto simp: one_window_def spent_def split: option.splits\<close>)
  moreover have "spent a k bs = 0" using m by (auto simp: spent_def split: option.splits)
  ultimately show ?thesis using assms(6) by simp
qed

definition sample_rate :: rate_config where
  "sample_rate = \<lparr> rc_namespace = ''ads'', rc_limit = 2, rc_windowMs = 60000, rc_identity = None,
     rc_envLimit = None, rc_envWindow = None \<rparr>"

theorem window_quota_witness:
  "int (granted ''k'' (serve 1000 [(0, ''k'', sample_rate), (5, ''q'', sample_rate), (9, ''k'', sample_rate),
     (59000, ''k'', sample_rate)] [])) = 2"
proof -
  let ?es = "[(0, ''k'', sample_rate), (5, ''q'', sample_rate), (9, ''k'', sample_rate), (59000, ''k'', sample_rate)]"
  have "int (granted ''k'' (serve 1000 ?es [])) = min (int (length (filter (\<lambda>(t::time, k', c). k' = ''k'') ?es))) 2"
    by (rule window_quota [of "[]" ?es 1000 0 60000]) (simp_all add: sample_rate_def live_buckets_def card_insert_if)
  then show ?thesis by simp
qed

lemma ceil_seconds:
  fixes x :: int
  shows "x \<le> 1000 * ((x + 999) div 1000)" "1 \<le> x \<Longrightarrow> 1 \<le> (x + 999) div 1000"
proof -
  have "x + 999 = 1000 * ((x + 999) div 1000) + (x + 999) mod 1000" "(x + 999) mod 1000 < 1000" by simp_all
  then show "x \<le> 1000 * ((x + 999) div 1000)" "1 \<le> x \<Longrightarrow> 1 \<le> (x + 999) div 1000" by linarith+
qed

text \<open>Every answer of \<open>checkRateLimit\<close> is consistent: a positive limit, a remaining count between zero and the
  limit that is positive only for granted requests, a window of at least a second, a \<open>Retry-After\<close> of at least one
  second on exactly the refusals, and a refusal whenever Redis is unreachable and the service fails closed.\<close>

theorem rate_answer_consistent:
  assumes "checkRateLimit digest mx failClosed reply now header config bs = (r, bs')"
    and "\<forall>n ttl. reply = Reply n ttl \<longrightarrow> 1 \<le> n" "\<forall>(k, b)\<in>set bs. 0 \<le> b_count b"
  shows "1 \<le> rr_limit r \<and> 0 \<le> rr_remaining r \<and> rr_remaining r < rr_limit r
    \<and> (0 < rr_remaining r \<longrightarrow> rr_ok r) \<and> 0 \<le> rr_resetMs r \<and> 1 \<le> rr_retryAfterSeconds r
    \<and> rr_resetMs r \<le> 1000 * rr_retryAfterSeconds r
    \<and> (''Retry-After'' \<in> fst ` set (buildRateLimitHeaders now r) \<longleftrightarrow> \<not> rr_ok r)
    \<and> (reply = RedisFailed \<and> failClosed \<longrightarrow> \<not> rr_ok r \<and> bs' = bs)"
proof -
  let ?c = "normalize_config config"
  have c: "1 \<le> rc_limit ?c" "1000 \<le> rc_windowMs ?c" by (simp_all add: normalize_config_def configured_def)
  have w: "1 \<le> rr_limit x \<and> 0 \<le> rr_remaining x \<and> rr_remaining x < rr_limit x \<and> (0 < rr_remaining x \<longrightarrow> rr_ok x)
      \<and> 0 \<le> rr_resetMs x \<and> 1 \<le> rr_retryAfterSeconds x \<and> rr_resetMs x \<le> 1000 * rr_retryAfterSeconds x"
    if "1 \<le> n" "0 \<le> ms" "x = window_result (rc_limit ?c) n ms be" for n ms be x
  proof -
    have "ms \<le> 1000 * max 1 ((ms + 999) div 1000)" using ceil_seconds(1) [of ms] by linarith
    then show ?thesis using that c by (simp add: window_result_def less_max_iff_disj)
  qed
  have cl: "1 \<le> rr_limit x \<and> 0 \<le> rr_remaining x \<and> rr_remaining x < rr_limit x \<and> (0 < rr_remaining x \<longrightarrow> rr_ok x)
      \<and> 0 \<le> rr_resetMs x \<and> 1 \<le> rr_retryAfterSeconds x \<and> rr_resetMs x \<le> 1000 * rr_retryAfterSeconds x \<and> \<not> rr_ok x"
    if "x = closed_result ?c" for x
  proof -
    have "1 \<le> (rc_windowMs ?c + 999) div 1000" by (rule ceil_seconds(2)) (use c(2) in linarith)
    then show ?thesis using that c ceil_seconds(1) [of "rc_windowMs ?c"] by (simp add: closed_result_def)
  qed
  have l: "\<exists>n ms. 1 \<le> n \<and> 0 \<le> ms \<and> fst (localLimit mx now key ?c bs) = window_result (rc_limit ?c) n ms Memory" for key
  proof -
    have "0 \<le> b_count b" if "map_of (prune mx now bs) key = Some b" for b
    proof -
      have "(key, b) \<in> set bs"
        using map_of_SomeD [OF that] by (auto simp: prune_def live_buckets_def Let_def split: if_split_asm)
      with assms(3) show ?thesis by auto
    qed
    then have "0 \<le> b_count (open_bucket now w (map_of (prune mx now bs) key))" for w
      by (auto simp: open_bucket_def split: option.split)
    then show ?thesis
      by (intro exI [of _ "b_count (open_bucket now (rc_windowMs ?c) (map_of (prune mx now bs) key)) + 1"]
            exI [of _ "max 0 (b_resetAt (open_bucket now (rc_windowMs ?c) (map_of (prune mx now bs) key)) - now)"])
         (simp add: localLimit_def Let_def)
  qed
  have h: "''Retry-After'' \<in> fst ` set (buildRateLimitHeaders now r) \<longleftrightarrow> \<not> rr_ok r"
    by (auto simp: buildRateLimitHeaders_def)
  have "(\<exists>n ms be. 1 \<le> n \<and> 0 \<le> ms \<and> r = window_result (rc_limit ?c) n ms be) \<or> r = closed_result ?c"
  proof (cases reply)
    case (Reply n ttl)
    then have "r = window_result (rc_limit ?c) n (max 0 ttl) Redis" "1 \<le> n"
      using assms(1,2) by (simp_all add: checkRateLimit_def Let_def redisLimit_def)
    then show ?thesis by (metis max.cobounded1)
  next
    case NotConfigured
    then have "localLimit mx now (keyFor digest header ?c) ?c bs = (r, bs')"
      using assms(1) by (simp add: checkRateLimit_def Let_def redisLimit_def)
    with l show ?thesis by (metis fst_conv)
  next
    case RedisFailed
    then have "r = closed_result ?c \<or> localLimit mx now (keyFor digest header ?c) ?c bs = (r, bs')"
      using assms(1) by (simp add: checkRateLimit_def Let_def redisLimit_def split: if_split_asm)
    with l show ?thesis by (metis fst_conv)
  qed
  moreover have "reply = RedisFailed \<and> failClosed \<longrightarrow> r = closed_result ?c \<and> bs' = bs"
    using assms(1) by (auto simp: checkRateLimit_def Let_def redisLimit_def)
  ultimately show ?thesis using w cl h by metis
qed

theorem rate_answer_consistent_witness:
  "\<exists>r bs'. checkRateLimit (\<lambda>s. s) 1000 True RedisFailed 5 (\<lambda>_. None) sample_rate [] = (r, bs') \<and> \<not> rr_ok r \<and> 1 \<le> rr_limit r"
proof -
  obtain r bs' where a: "checkRateLimit (\<lambda>s. s) 1000 True RedisFailed 5 (\<lambda>_. None) sample_rate [] = (r, bs')"
    by (cases "checkRateLimit (\<lambda>s. s) 1000 True RedisFailed 5 (\<lambda>_. None) sample_rate []")
  from rate_answer_consistent [OF a] a show ?thesis by simp
qed

end
