(* ===== verification/Js_Value.thy ===== *)
theory Js_Value
  imports Complex_Main Fleet_Prelude
begin

text \<open>
  JavaScript values as the configuration and request code meets them. A number is finite, infinite, NaN or
  undefined, and \<open>Number(text)\<close> turns the text of an environment variable into one. Finite numbers are exact
  rationals: the rounding of doubles is not reproduced, except that a literal beyond the largest double is
  infinite. White space is the ASCII part of what JavaScript trims. Parsed JSON is a tree; objects list their
  members under distinct keys. The printed form of a number that is not a small integer is the parameter
  \<open>prt\<close>.
\<close>

datatype js_number = Num rat | PosInf | NegInf | NaN | Undefined

definition is_safe_integer :: "rat \<Rightarrow> bool" where
  "is_safe_integer r \<longleftrightarrow> r = of_int \<lfloor>r\<rfloor> \<and> \<bar>r\<bar> \<le> 9007199254740991"

text \<open>From this value on, rounding to the nearest double gives an infinity.\<close>

definition double_limit :: rat where
  "double_limit = 2 ^ 1024 - 2 ^ 970"

definition js_finite :: "rat \<Rightarrow> js_number" where
  "js_finite r = (if \<bar>r\<bar> < double_limit then Num r else if 0 < r then PosInf else NegInf)"

section \<open>\<open>Number(text)\<close>\<close>

definition radix_digit :: "nat \<Rightarrow> char \<Rightarrow> nat option" where
  "radix_digit b c =
     (let n = (of_char c :: nat);
          v = (if is_digit c then n - 48 else if is_lower c then n - 87 else if is_upper c then n - 55 else b)
      in if v < b then Some v else None)"

fun radix_value :: "nat \<Rightarrow> string \<Rightarrow> nat \<Rightarrow> nat option" where
  "radix_value b [] acc = Some acc"
| "radix_value b (c # s) acc =
     (case radix_digit b c of None \<Rightarrow> None | Some v \<Rightarrow> radix_value b s (b * acc + v))"

definition radix_literal :: "nat \<Rightarrow> string \<Rightarrow> js_number" where
  "radix_literal b s =
     (if s = [] then NaN
      else case radix_value b s 0 of None \<Rightarrow> NaN | Some n \<Rightarrow> js_finite (of_nat n))"

text \<open>The optional exponent of a decimal literal.\<close>

definition exponent_part :: "string \<Rightarrow> int option" where
  "exponent_part s =
     (case s of
        [] \<Rightarrow> Some 0
      | c # r \<Rightarrow>
         (let (neg, ds) = (case r of d # r' \<Rightarrow> if d = CHR ''-'' then (True, r') else if d = CHR ''+'' then (False, r')
                                     else (False, r)
                           | [] \<Rightarrow> (False, []))
          in if c \<noteq> CHR ''e'' \<and> c \<noteq> CHR ''E'' \<or> ds = [] \<or> \<not> list_all is_digit ds then None
             else Some (if neg then - int (digits_value ds 0) else int (digits_value ds 0))))"

definition scale10 :: "int \<Rightarrow> rat" where
  "scale10 e = (if 0 \<le> e then 10 ^ nat e else 1 / 10 ^ nat (- e))"

definition unsigned_decimal :: "string \<Rightarrow> rat option" where
  "unsigned_decimal s =
     (let i = takeWhile is_digit s; r = dropWhile is_digit s;
          (f, r') = (case r of c # t \<Rightarrow> if c = CHR ''.'' then (takeWhile is_digit t, dropWhile is_digit t) else ([], r)
                     | [] \<Rightarrow> ([], []))
      in if i = [] \<and> f = [] then None
         else map_option (\<lambda>e. of_nat (digits_value (i @ f) 0) * scale10 (e - int (length f))) (exponent_part r'))"

definition signed_literal :: "string \<Rightarrow> js_number" where
  "signed_literal s =
     (let (neg, u) = (case s of c # t \<Rightarrow> if c = CHR ''-'' then (True, t) else if c = CHR ''+'' then (False, t) else (False, s)
                      | [] \<Rightarrow> (False, []))
      in if u = ''Infinity'' then (if neg then NegInf else PosInf)
         else case unsigned_decimal u of
           None \<Rightarrow> NaN
         | Some v \<Rightarrow> js_finite (if neg then - v else v))"

definition js_Number :: "string \<Rightarrow> js_number" where
  "js_Number text =
     (let s = js_trim text; p = to_lower (take 2 s) in
      if s = [] then Num 0
      else if p = ''0x'' then radix_literal 16 (drop 2 s)
      else if p = ''0o'' then radix_literal 8 (drop 2 s)
      else if p = ''0b'' then radix_literal 2 (drop 2 s)
      else signed_literal s)"

section \<open>Decimal numerals are read back\<close>

lemma takeWhile_all_id: "list_all p s \<Longrightarrow> takeWhile p s = s"
  by (induction s) auto

lemma dropWhile_all_Nil: "list_all p s \<Longrightarrow> dropWhile p s = []"
  by (induction s) auto

lemma digit_not_space: "is_digit c \<Longrightarrow> \<not> js_space c"
  by (auto simp: is_digit_def js_space_def)

lemma js_trim_digits: "list_all is_digit s \<Longrightarrow> js_trim s = s"
proof -
  assume d: "list_all is_digit s"
  have "dropWhile js_space t = t" if "list_all is_digit t" for t
    using that by (cases t) (auto simp: digit_not_space)
  then show ?thesis using d by (simp add: js_trim_def list_all_rev)
qed

lemma unsigned_decimal_digits:
  assumes "list_all is_digit s" "s \<noteq> []"
  shows "unsigned_decimal s = Some (of_nat (digits_value s 0))"
  using assms by (simp add: unsigned_decimal_def takeWhile_all_id dropWhile_all_Nil exponent_part_def scale10_def)

lemma digit_not_letter: "is_digit c \<Longrightarrow> lower_char c \<notin> {CHR ''x'', CHR ''o'', CHR ''b''}"
  by (auto simp: lower_char_def is_upper_def is_digit_def)

lemma digit_not_sign: "is_digit c \<Longrightarrow> c \<noteq> CHR ''-'' \<and> c \<noteq> CHR ''+''"
  by (auto simp: is_digit_def)

lemma js_Number_digits:
  assumes "list_all is_digit s" "s \<noteq> []"
  shows "js_Number s = js_finite (of_nat (digits_value s 0))"
proof -
  obtain c t where s: "s = c # t" using assms(2) by (cases s) auto
  have p: "to_lower (take 2 s) \<notin> {''0x'', ''0o'', ''0b''}"
  proof (cases t)
    case (Cons d u)
    then show ?thesis using assms(1) digit_not_letter [of d] by (auto simp: s to_lower_def)
  qed (simp add: s to_lower_def)
  have "is_digit c" using assms(1) s by simp
  then have i: "c \<noteq> CHR ''I''" by (auto simp: is_digit_def)
  have g: "signed_literal s = js_finite (of_nat (digits_value s 0))"
    using assms digit_not_sign [of c] i unsigned_decimal_digits [OF assms] by (simp add: signed_literal_def s)
  show ?thesis
    using p assms(2) g by (simp add: js_Number_def js_trim_digits [OF assms(1)] Let_def)
qed

lemma js_Number_nat_digits:
  assumes "n < 2 ^ 53"
  shows "js_Number (nat_digits n) = Num (of_nat n)"
proof -
  have "(of_nat n :: rat) < 2 ^ 53" using assms by (metis of_nat_less_iff of_nat_numeral of_nat_power)
  moreover have "(2::rat) ^ 53 < double_limit" by (simp add: double_limit_def)
  ultimately have "\<bar>of_nat n :: rat\<bar> < double_limit" by simp
  then show ?thesis
    by (simp add: js_Number_digits list_all_iff nat_digits_digit digits_value_nat_digits js_finite_def)
qed

section \<open>Parsed JSON\<close>

datatype json = JNull | JBool bool | JNum rat | JStr string | JArr "json list" | JObj "(string \<times> json) list"

type_synonym json_object = "(string \<times> json) list"

text \<open>Reading a member: \<open>None\<close> is \<open>undefined\<close>.\<close>

definition jget :: "json_object \<Rightarrow> string \<Rightarrow> json option" where
  "jget obj k = map_of obj k"

definition truthy :: "json option \<Rightarrow> bool" where
  "truthy v = (case v of None \<Rightarrow> False | Some JNull \<Rightarrow> False | Some (JBool b) \<Rightarrow> b | Some (JNum r) \<Rightarrow> r \<noteq> 0
     | Some (JStr s) \<Rightarrow> s \<noteq> [] | Some (JArr _) \<Rightarrow> True | Some (JObj _) \<Rightarrow> True)"

text \<open>\<open>a || b\<close> and \<open>a ?? b\<close>\<close>

definition js_or :: "json option \<Rightarrow> json option \<Rightarrow> json option" where
  "js_or a b = (if truthy a then a else b)"

definition js_coalesce :: "json option \<Rightarrow> json option \<Rightarrow> json option" where
  "js_coalesce a b = (case a of None \<Rightarrow> b | Some JNull \<Rightarrow> b | Some v \<Rightarrow> Some v)"

definition number_text :: "(rat \<Rightarrow> string) \<Rightarrow> rat \<Rightarrow> string" where
  "number_text prt r =
     (if r = of_int \<lfloor>r\<rfloor> \<and> \<bar>r\<bar> < 10 ^ 21
      then (if r < 0 then ''-'' @ nat_digits (nat (- \<lfloor>r\<rfloor>)) else nat_digits (nat \<lfloor>r\<rfloor>))
      else prt r)"

fun join_text :: "string \<Rightarrow> string list \<Rightarrow> string" where
  "join_text sep [] = []"
| "join_text sep [s] = s"
| "join_text sep (s # t # ts) = s @ sep @ join_text sep (t # ts)"

fun json_text :: "(rat \<Rightarrow> string) \<Rightarrow> json \<Rightarrow> string" where
  "json_text prt JNull = ''null''"
| "json_text prt (JBool b) = (if b then ''true'' else ''false'')"
| "json_text prt (JNum r) = number_text prt r"
| "json_text prt (JStr s) = s"
| "json_text prt (JArr vs) = join_text '','' (map (\<lambda>v. if v = JNull then [] else json_text prt v) vs)"
| "json_text prt (JObj _) = ''[object Object]''"

text \<open>\<open>String(v)\<close> and \<open>Number(v)\<close>\<close>

definition js_String :: "(rat \<Rightarrow> string) \<Rightarrow> json option \<Rightarrow> string" where
  "js_String prt v = (case v of None \<Rightarrow> ''undefined'' | Some j \<Rightarrow> json_text prt j)"

definition js_to_number :: "(rat \<Rightarrow> string) \<Rightarrow> json option \<Rightarrow> js_number" where
  "js_to_number prt v =
     (case v of
        None \<Rightarrow> NaN
      | Some JNull \<Rightarrow> Num 0
      | Some (JBool b) \<Rightarrow> Num (if b then 1 else 0)
      | Some (JNum r) \<Rightarrow> Num r
      | Some (JObj _) \<Rightarrow> NaN
      | Some j \<Rightarrow> js_Number (json_text prt j))"

definition array_or_empty :: "json option \<Rightarrow> json list" where
  "array_or_empty v = (case v of Some (JArr vs) \<Rightarrow> vs | _ \<Rightarrow> [])"

text \<open>Reading the members of an array element that is used as an object.\<close>

definition object_of :: "json \<Rightarrow> json_object" where
  "object_of j = (case j of JObj ms \<Rightarrow> ms | _ \<Rightarrow> [])"

section \<open>Credentials in request headers\<close>

text \<open>\<open>header.match(/^Bearer\s+(.+)$/i)?.[1]?.trim()\<close>; a header value has no line breaks, and a missing match and an
  empty token are both falsy.\<close>

definition bearer_value :: "string \<Rightarrow> string" where
  "bearer_value h =
     (let r = drop 6 h in
      if to_lower (take 6 h) = ''bearer'' \<and> r \<noteq> [] \<and> js_space (hd r) then js_trim r else [])"

lemma js_or_simps [simp]:
  "js_or None b = b" "s \<noteq> [] \<Longrightarrow> js_or (Some (JStr s)) b = Some (JStr s)" "js_or (Some (JStr [])) b = b"
  by (simp_all add: js_or_def truthy_def)

lemma js_String_simps [simp]:
  "js_String prt (Some (JStr s)) = s" "js_String prt None = ''undefined''"
  by (simp_all add: js_String_def)

lemma jget_simps [simp]:
  "jget [] k = None" "jget ((k', v) # ms) k = (if k = k' then Some v else jget ms k)"
  by (simp_all add: jget_def)

end
