(* ===== verification/Bridge_Route.thy ===== *)
theory Bridge_Route
  imports Bridge_Fairness Rate_Limit Js_Value
begin

text \<open>
  The HTTP endpoint through which the workers reach the delivery bridge,
  \<open>web/app/api/script-bridge/jobs/route.ts\<close>: rate limiting, the protocol and contract check, authentication
  of the shard, and the dispatch of the actions lease, manifest, window, complete, renew and acknowledge on the
  handlers of the bridge store. A request is its parsed query or JSON body; a reply is its status and the members
  of the body that vary. The bridge state before the relational store is a parameter: \<open>re_legacy\<close> says whether
  a token is accepted by it. Server times in replies and response headers are left out.
\<close>

record route_env =
  re_cfg :: fleet_config
  re_digest :: "string \<Rightarrow> string"
  re_now :: time
  re_configured :: bool
  re_buckets :: nat
  re_failClosed :: bool
  re_redis :: redis_reply
  re_rateEnv :: "rat option"
  re_header :: "string \<Rightarrow> string option"
  re_legacy :: "string \<Rightarrow> string \<Rightarrow> bool"
  re_jobId :: "nat \<Rightarrow> string"
  re_token :: "nat \<Rightarrow> string"
  re_uuid :: string
  re_locked :: "string \<Rightarrow> bool"
  re_print :: "rat \<Rightarrow> string"

datatype route_error = Text string | Raised bridge_error

datatype route_body =
    ErrorBody route_error
  | ManifestBody string manifest
  | JobsBody string "bridge_lease list"
  | WindowBody recovered_window
  | CompletedBody bool
  | RenewedBody bool nat "string list" ms
  | AckedBody bool "ack_result list"

type_synonym response = "int \<times> route_body"

section \<open>Reading a request\<close>

definition ACTIVE_PROTOCOL :: string where
  "ACTIVE_PROTOCOL = ''fleet-two-phase-resilient-relay-v11''"

definition ADAPTIVE_PROTOCOLS :: "string list" where
  "ADAPTIVE_PROTOCOLS = [ACTIVE_PROTOCOL, ''fleet-callback-resilient-relay-v10'', ''fleet-two-phase-adaptive-relay-v9'']"

definition LEGACY_PROTOCOLS :: "string list" where
  "LEGACY_PROTOCOLS = [''fleet-callback-resilient-relay-v10'', ''fleet-two-phase-adaptive-relay-v9'',
     ''fleet-two-phase-durable-relay-v8'', ''fleet-two-phase-hot-add-relay-v7'', ''fleet-hot-add-relay-v6'',
     ''fleet-hourly-relay-v5'']"

definition ACTIVE_CONTRACT :: string where
  "ACTIVE_CONTRACT = ''relational-lease-v2''"

definition text_or :: "route_env \<Rightarrow> json option \<Rightarrow> string \<Rightarrow> string" where
  "text_or env v d = js_String (re_print env) (js_or v (Some (JStr d)))"

definition protocolAllowed :: "route_env \<Rightarrow> json option \<Rightarrow> bool" where
  "protocolAllowed env v \<longleftrightarrow> text_or env v [] = ACTIVE_PROTOCOL \<or> text_or env v [] \<in> set LEGACY_PROTOCOLS"

definition contractAllowed :: "route_env \<Rightarrow> json option \<Rightarrow> bool" where
  "contractAllowed env v \<longleftrightarrow> text_or env v [] = ACTIVE_CONTRACT"

definition current_worker :: "route_env \<Rightarrow> json_object \<Rightarrow> bool" where
  "current_worker env input \<longleftrightarrow> protocolAllowed env (jget input ''protocol'') \<and> contractAllowed env (jget input ''contract'')"

definition shard_param :: "route_env \<Rightarrow> json_object \<Rightarrow> string" where
  "shard_param env input = js_trim (text_or env (js_or (jget input ''shardId'') (jget input ''shard'')) ''default'')"

definition worker_param :: "route_env \<Rightarrow> json_object \<Rightarrow> string" where
  "worker_param env input =
     take 200 (js_trim (text_or env (js_or (jget input ''workerId'') (jget input ''worker'')) ''google-ads-script''))"

definition flag_param :: "route_env \<Rightarrow> json option \<Rightarrow> bool" where
  "flag_param env v \<longleftrightarrow> v = Some (JBool True) \<or> v = Some (JNum 1) \<or> text_or env v [] = ''1''"

definition bearer :: "route_env \<Rightarrow> string" where
  "bearer env =
     (case re_header env ''authorization'' of
        Some h \<Rightarrow> if bearer_value h \<noteq> [] then bearer_value h
                  else (case re_header env ''x-api-key'' of Some k \<Rightarrow> js_trim k | None \<Rightarrow> [])
      | None \<Rightarrow> (case re_header env ''x-api-key'' of Some k \<Rightarrow> js_trim k | None \<Rightarrow> []))"

text \<open>A token of the relational store, or one of the legacy state, which is then registered.\<close>

definition authenticate :: "route_env \<Rightarrow> string \<Rightarrow> fleet_db \<Rightarrow> bool \<times> fleet_db" where
  "authenticate env sid db =
     (let token = bearer env in
      if sid = [] \<or> token = [] then (False, db)
      else if authenticateBridgeShard (re_digest env) sid token db then (True, db)
      else if re_legacy env token sid
        then (case registerBridgeShard (re_digest env) (re_now env) sid token [] db of
                Inl _ \<Rightarrow> (False, db) | Inr (_, db') \<Rightarrow> (True, db'))
      else (False, db))"

section \<open>The actions\<close>

text \<open>Every action checks the worker's protocol and then its credentials.\<close>

type_synonym action = "route_env \<Rightarrow> json_object \<Rightarrow> fleet_db \<Rightarrow> (route_error + response) \<times> fleet_db"

definition outdated :: response where
  "outdated = (409, ErrorBody (Text ''Outdated Fleet worker. Regenerate and install the selected shard's v11 two-phase resilient script.''))"

definition guarded :: "action \<Rightarrow> action" where
  "guarded act env input db =
     (if \<not> current_worker env input then (Inr outdated, db)
      else (case authenticate env (shard_param env input) db of
          (False, db') \<Rightarrow> (Inr (401, ErrorBody (Text ''Invalid shard credentials'')), db')
        | (True, db') \<Rightarrow> act env input db'))"

text \<open>A handler that throws leaves its transaction undone.\<close>

definition answer :: "fleet_db \<Rightarrow> ('a \<Rightarrow> response) \<Rightarrow> bridge_error + 'a \<times> fleet_db \<Rightarrow> (route_error + response) \<times> fleet_db" where
  "answer db f r = (case r of Inl e \<Rightarrow> (Inl (Raised e), db) | Inr (x, db') \<Rightarrow> (Inr (f x), db'))"

definition drop_prefix :: "string \<Rightarrow> string \<Rightarrow> string" where
  "drop_prefix p s = (if starts_with p s then drop (length p) s else s)"

definition manifest_action :: action where
  "manifest_action env input db =
     (let protocol = text_or env (jget input ''protocol'') [];
          invocationId = take 200 (js_trim (text_or env (jget input ''invocationId'')
            (drop_prefix ''manifest-'' (worker_param env input))))
      in answer db (\<lambda>m. (200, ManifestBody protocol m))
           (bridgeShardManifest (re_cfg env) (re_now env) (re_uuid env) (shard_param env input) invocationId
              (flag_param env (jget input ''preview'')) (protocol \<in> set ADAPTIVE_PROTOCOLS) db))"

text \<open>\<open>Math.max(1, Math.min(200, Math.floor(n)))\<close> of a limit that is not a number is NaN, which PostgreSQL
  refuses as a row limit.\<close>

definition row_limit :: "js_number \<Rightarrow> int option" where
  "row_limit n = (case n of Num r \<Rightarrow> Some \<lfloor>r\<rfloor> | PosInf \<Rightarrow> Some (int MAX_LEASE_JOBS) | NegInf \<Rightarrow> Some 1 | _ \<Rightarrow> None)"

definition jobs_action :: action where
  "jobs_action env input db =
     (let customer = js_trim (text_or env (js_or (jget input ''customer'') (jget input ''customerId'')) []);
          requested = js_to_number (re_print env)
            (js_or (js_or (jget input ''maxJobs'') (jget input ''limit'')) (Some (JNum 25)));
          run = (\<lambda>n. leaseBridgeJobs (re_cfg env) (re_digest env) (re_jobId env) (re_token env) (re_now env) (re_locked env)
            (shard_param env input) (worker_param env input) n customer (flag_param env (jget input ''hotAdd'')) db)
      in case row_limit requested of
           Some n \<Rightarrow> answer db (\<lambda>ls. (200, JobsBody (text_or env (jget input ''protocol'') []) ls)) (run n)
         | None \<Rightarrow> (case run 1 of
               Inl e \<Rightarrow> (Inl (Raised e), db)
             | Inr _ \<Rightarrow> (Inl (Text ''invalid input syntax for type bigint''), db)))"

definition lease_action :: action where
  "lease_action = guarded (\<lambda>env input.
     if flag_param env (jget input ''manifest'') then manifest_action env input else jobs_action env input)"

definition window_action :: action where
  "window_action = guarded (\<lambda>env input db.
     answer db (\<lambda>r. (200, WindowBody r))
       (bindE (bridgeActiveExecutionWindow (re_cfg env) (re_now env) (shard_param env input) db) (\<lambda>r. Inr (r, db))))"

definition complete_action :: action where
  "complete_action = guarded (\<lambda>env input db.
     (case completeBridgeInvocation (re_now env) (shard_param env input)
             (take 200 (js_trim (text_or env (jget input ''invocationId'') [])))
             (to_lower (text_or env (jget input ''status'') ''completed'')) db of
        (done, db') \<Rightarrow> (Inr (200, CompletedBody done), db')))"

definition null_access :: route_error where
  "null_access = Text ''Cannot read properties of null''"

definition lease_ref :: "route_env \<Rightarrow> json \<Rightarrow> route_error + string \<times> string" where
  "lease_ref env raw =
     (if raw = JNull then Inl null_access
      else (let l = object_of raw in
        Inr (text_or env (jget l ''jobId'') [], text_or env (js_or (jget l ''leaseToken'') (jget l ''lease'')) [])))"

definition renew_action :: action where
  "renew_action = guarded (\<lambda>env input db.
     (let raw = array_or_empty (jget input ''leases'') in
      if length raw > 200 then (Inr (400, ErrorBody (Text ''At most 200 leases can be renewed'')), db)
      else (case mapE (lease_ref env) raw of
          Inl e \<Rightarrow> (Inl e, db)
        | Inr refs \<Rightarrow>
           (case renewBridgeLeases (re_cfg env) (re_digest env) (re_now env) (shard_param env input)
                   (worker_param env input) refs db of
              ((renewed, stale), db') \<Rightarrow>
                (Inr (200, RenewedBody (stale = []) (length renewed) stale (LEASE_MS (re_cfg env))), db')))))"

definition optional_text :: "json option \<Rightarrow> string option" where
  "optional_text v = (case v of Some (JStr s) \<Rightarrow> Some s | _ \<Rightarrow> None)"

definition ack_of :: "route_env \<Rightarrow> json_object \<Rightarrow> json_object \<Rightarrow> ack_input" where
  "ack_of env input r = \<lparr>
     ack_shardId = shard_param env input,
     ack_workerId = worker_param env input,
     ack_jobId = text_or env (jget r ''jobId'') [],
     ack_leaseToken = text_or env (js_or (jget r ''leaseToken'') (jget r ''lease'')) [],
     ack_ok = (jget r ''ok'' = Some (JBool True) \<or> jget r ''status'' = Some (JStr ''applied'')
               \<or> jget r ''status'' = Some (JStr ''verified'')),
     ack_appliedSuffix = (case optional_text (jget r ''appliedSuffix'') of Some s \<Rightarrow> Some s | None \<Rightarrow> optional_text (jget r ''suffix'')),
     ack_error = optional_text (jget r ''error'') \<rparr>"

text \<open>The results are settled one after the other, each in its own transaction: a result that throws ends the
  request, and the ones before it stay settled.\<close>

fun settle_all ::
  "route_env \<Rightarrow> json_object \<Rightarrow> json list \<Rightarrow> fleet_db \<Rightarrow> (route_error + ack_result list) \<times> fleet_db" where
  "settle_all env input [] db = (Inr [], db)"
| "settle_all env input (raw # rs) db =
     (if raw = JNull then (Inl null_access, db)
      else (case acknowledgeBridgeJob (re_cfg env) (re_digest env) (re_now env) (ack_of env input (object_of raw)) db of
          Inl e \<Rightarrow> (Inl (Raised e), db)
        | Inr (a, db1) \<Rightarrow>
           (case settle_all env input rs db1 of
              (Inl e, db2) \<Rightarrow> (Inl e, db2)
            | (Inr as, db2) \<Rightarrow> (Inr (a # as), db2))))"

definition ack_is_ok :: "ack_result \<Rightarrow> bool" where
  "ack_is_ok a = (case a of AckApplied _ \<Rightarrow> True | _ \<Rightarrow> False)"

definition ack_action :: action where
  "ack_action = guarded (\<lambda>env input db.
     (let raw = (case jget input ''results'' of Some (JArr rs) \<Rightarrow> rs | _ \<Rightarrow> [JObj input]) in
      if length raw > 200 then (Inr (400, ErrorBody (Text ''At most 200 acknowledgements are accepted'')), db)
      else (case settle_all env input raw db of
          (Inl e, db') \<Rightarrow> (Inl e, db')
        | (Inr as, db') \<Rightarrow> (Inr (200, AckedBody (list_all ack_is_ok as) as), db'))))"

definition dispatch :: action where
  "dispatch env input db =
     (let act = to_lower (text_or env (jget input ''action'') ''lease'') in
      if act = ''lease'' \<or> act = ''poll'' then lease_action env input db
      else if act = ''window'' then window_action env input db
      else if act = ''complete'' then complete_action env input db
      else if act = ''renew'' then renew_action env input db
      else if act \<noteq> ''ack'' \<and> act \<noteq> ''acknowledge'' then (Inr (400, ErrorBody (Text ''Unsupported action'')), db)
      else ack_action env input db)"

section \<open>The endpoint\<close>

definition script_jobs_rate :: "route_env \<Rightarrow> rate_config" where
  "script_jobs_rate env = \<lparr> rc_namespace = ''script-jobs'', rc_limit = 6000, rc_windowMs = 60000, rc_identity = None,
     rc_envLimit = re_rateEnv env, rc_envWindow = None \<rparr>"

definition limited ::
  "route_env \<Rightarrow> buckets \<Rightarrow> (fleet_db \<Rightarrow> response \<times> fleet_db) \<Rightarrow> fleet_db \<Rightarrow> response \<times> fleet_db \<times> buckets" where
  "limited env bs work db =
     (if \<not> re_configured env then ((503, ErrorBody (Text ''Fleet database is not configured'')), db, bs)
      else (case checkRateLimit (re_digest env) (re_buckets env) (re_failClosed env) (re_redis env) (re_now env)
              (re_header env) (script_jobs_rate env) bs of
          (limit, bs') \<Rightarrow>
            if \<not> rr_ok limit then ((429, ErrorBody (Text ''Rate limit exceeded'')), db, bs')
            else (case work db of (r, db') \<Rightarrow> (r, db', bs'))))"

text \<open>The \<open>catch\<close> of the two methods.\<close>

definition caught :: "(route_error \<Rightarrow> int) \<Rightarrow> (route_error + response) \<times> fleet_db \<Rightarrow> response \<times> fleet_db" where
  "caught status out = (case out of (Inl e, db) \<Rightarrow> ((status e, ErrorBody e), db) | (Inr r, db) \<Rightarrow> (r, db))"

definition GET :: "route_env \<Rightarrow> (string \<times> string) list \<Rightarrow> fleet_db \<Rightarrow> buckets \<Rightarrow> response \<times> fleet_db \<times> buckets" where
  "GET env query db bs = limited env bs (\<lambda>db.
     caught (\<lambda>_. 500) (lease_action env (map (\<lambda>(k, v). (k, JStr v)) (rev query)) db)) db"

text \<open>The body of a POST request.\<close>

datatype request_body = BodyTooLarge | Malformed string | NoText | Parsed json

definition json_body :: "request_body \<Rightarrow> route_error + json_object" where
  "json_body b = (case b of
      BodyTooLarge \<Rightarrow> Inl (Text ''Request body is too large'')
    | Malformed e \<Rightarrow> Inl (Text e)
    | NoText \<Rightarrow> Inr []
    | Parsed j \<Rightarrow> if j = JNull then Inl null_access else Inr (object_of j))"

text \<open>\<open>/invalid|expired|too large/i.test(message)\<close>; of the errors the handlers raise here, only the message of
  the suffix gate matches.\<close>

definition bad_request :: "route_error \<Rightarrow> bool" where
  "bad_request e = (case e of
      Text s \<Rightarrow> contains ''invalid'' (to_lower s) \<or> contains ''expired'' (to_lower s) \<or> contains ''too large'' (to_lower s)
    | Raised b \<Rightarrow> (case b of UndeliverableSuffix _ \<Rightarrow> True | _ \<Rightarrow> False))"

definition POST :: "route_env \<Rightarrow> request_body \<Rightarrow> fleet_db \<Rightarrow> buckets \<Rightarrow> response \<times> fleet_db \<times> buckets" where
  "POST env body db bs = limited env bs (\<lambda>db.
     caught (\<lambda>e. if bad_request e then 400 else 500)
       (case json_body body of Inl e \<Rightarrow> (Inl e, db) | Inr input \<Rightarrow> dispatch env input db)) db"

section \<open>Strangers change nothing\<close>

definition stranger :: "route_env \<Rightarrow> fleet_db \<Rightarrow> bool" where
  "stranger env db \<longleftrightarrow>
     (\<forall>sid. \<not> authenticateBridgeShard (re_digest env) sid (bearer env) db \<and> \<not> re_legacy env (bearer env) sid)"

definition refuses :: "fleet_db \<Rightarrow> (route_error + response) \<times> fleet_db \<Rightarrow> bool" where
  "refuses db out \<longleftrightarrow> snd out = db \<and> (case fst out of Inl _ \<Rightarrow> True | Inr r \<Rightarrow> 400 \<le> fst r)"

lemma authenticate_stranger: "stranger env db \<Longrightarrow> authenticate env sid db = (False, db)"
  by (simp add: authenticate_def stranger_def Let_def)

lemma guarded_stranger: "stranger env db \<Longrightarrow> refuses db (guarded act env input db)"
  by (simp add: guarded_def authenticate_stranger refuses_def outdated_def)

lemma dispatch_stranger: "stranger env db \<Longrightarrow> refuses db (dispatch env input db)"
  by (simp add: dispatch_def Let_def lease_action_def window_action_def complete_action_def renew_action_def
      ack_action_def guarded_stranger) (simp add: refuses_def)

lemma caught_refuses:
  assumes "refuses db out" and "\<And>e. 400 \<le> status e"
  shows "snd (caught status out) = db \<and> 400 \<le> fst (fst (caught status out))"
  using assms by (cases out; cases "fst out") (auto simp: refuses_def caught_def)

lemma limited_error:
  assumes "limited env bs work db = (r, db', bs')" and "snd (work db) = db \<and> 400 \<le> fst (fst (work db))"
  shows "db' = db \<and> 400 \<le> fst r"
  using assms by (auto simp: limited_def split: if_splits prod.splits)

text \<open>C15: without credentials nothing happens: a request whose token is accepted for no shard, neither by the store nor by
  the legacy state, is answered with an error status and leaves the database unchanged, whatever its method and
  body.\<close>

theorem strangers_change_nothing:
  assumes "stranger env db"
  shows "(POST env body db bs = (r, db', bs') \<longrightarrow> db' = db \<and> 400 \<le> fst r)
    \<and> (GET env query db bs = (r, db', bs') \<longrightarrow> db' = db \<and> 400 \<le> fst r)"
proof -
  have p: "refuses db (case json_body body of Inl e \<Rightarrow> (Inl e, db) | Inr input \<Rightarrow> dispatch env input db)"
    using dispatch_stranger [OF assms] by (cases "json_body body") (simp_all add: refuses_def)
  have g: "refuses db (lease_action env input db)" for input
    unfolding lease_action_def by (rule guarded_stranger [OF assms])
  have "db' = db \<and> 400 \<le> fst r" if "POST env body db bs = (r, db', bs')"
    using that unfolding POST_def
    by (rule limited_error) (rule caught_refuses [OF p], simp)
  moreover have "db' = db \<and> 400 \<le> fst r" if "GET env query db bs = (r, db', bs')"
    using that unfolding GET_def
    by (rule limited_error) (rule caught_refuses [OF g], simp)
  ultimately show ?thesis by blast
qed

definition demo_route_env :: "string \<Rightarrow> route_env" where
  "demo_route_env token = \<lparr> re_cfg = default_cfg, re_digest = (\<lambda>s. s), re_now = 3000, re_configured = True,
     re_buckets = 1000, re_failClosed = False, re_redis = NotConfigured, re_rateEnv = None,
     re_header = [''authorization'' \<mapsto> ''Bearer '' @ token], re_legacy = (\<lambda>t sid. t = ''legacy-token-0123456789012345''),
     re_jobId = (\<lambda>i. ''new''), re_token = (\<lambda>i. ''tok''), re_uuid = ''uuid'', re_locked = (\<lambda>_. False),
     re_print = (\<lambda>r. []) \<rparr>"

definition demo_query :: "(string \<times> string) list" where
  "demo_query = [(''worker'', ''worker''), (''protocol'', ACTIVE_PROTOCOL), (''contract'', ACTIVE_CONTRACT),
     (''shardId'', demo_shard), (''maxJobs'', ''5'')]"

lemma demo_bearer:
  "bearer (demo_route_env ''wrong'') = ''wrong''"
  "bearer (demo_route_env ''legacy-token-0123456789012345'') = ''legacy-token-0123456789012345''"
  by code_simp+

theorem strangers_change_nothing_witness:
  "fst (snd (GET (demo_route_env ''wrong'') demo_query demo_queued [])) = demo_queued
   \<and> 400 \<le> fst (fst (GET (demo_route_env ''wrong'') demo_query demo_queued []))"
proof -
  have d: "list_all (\<lambda>s. s_token_hash s \<noteq> ''wrong'') (shards demo_queued)" by code_simp
  have "\<not> authenticateBridgeShard (\<lambda>s. s) sid ''wrong'' demo_queued" for sid
    using d by (auto simp: authenticateBridgeShard_def list_all_iff split: option.splits dest!: lookup_by_SomeD)
  then have s: "stranger (demo_route_env ''wrong'') demo_queued"
    unfolding stranger_def demo_bearer by (simp add: demo_route_env_def)
  obtain r db' bs' where g: "GET (demo_route_env ''wrong'') demo_query demo_queued [] = (r, db', bs')"
    by (metis prod_cases3)
  from strangers_change_nothing [OF s, THEN conjunct2, rule_format, OF g] show ?thesis by (simp add: g)
qed

section \<open>The legacy fallback\<close>

text \<open>The legacy fallback undoes a token rotation. When a shard's worker token has been replaced in the store but the
  legacy bridge state still accepts the old one, one request with the old token puts it back into the store:
  the old token authenticates again and the new token no longer does.\<close>

theorem legacy_token_undoes_rotation:
  assumes "shard_of db sid = Some s" "s_token_hash s = re_digest env new" "s_deleted_at s = None"
    and "bearer env = old" "re_legacy env old sid" "24 \<le> length old" "re_digest env old \<noteq> re_digest env new"
    and "normalizeFleetShardId sid = Inr sid" "bindFleetShardManager db sid [] = Inr (m, db)"
  shows "\<exists>db'. authenticate env sid db = (True, db') \<and> authenticateBridgeShard (re_digest env) sid old db'
    \<and> \<not> authenticateBridgeShard (re_digest env) sid new db'"
proof -
  from assms(8) have sid: "sid \<noteq> []"
    by (auto simp: normalizeFleetShardId_Inr shard_name_def)
  let ?u = "\<lambda>s. s\<lparr>s_token_hash := re_digest env old, s_enabled := True, s_updated_at := re_now env\<rparr>"
  let ?db = "db\<lparr>shards := update_where (\<lambda>s. s_shard_id s = sid) ?u (shards db)\<rparr>"
  have r: "registerBridgeShard (re_digest env) (re_now env) sid old [] db = Inr ((sid, m), ?db)"
    using assms by (simp add: registerBridgeShard_def throwIf_def)
  have o: "old \<noteq> []" using assms(6) by auto
  have n: "\<not> authenticateBridgeShard (re_digest env) sid old db"
    using assms(1,2,7) by (simp add: authenticateBridgeShard_def)
  have a: "authenticate env sid db = (True, ?db)"
    using assms(4,5) sid o n r by (simp add: authenticate_def Let_def)
  have l: "lookup_by s_shard_id sid (update_where (\<lambda>s. s_shard_id s = sid) ?u rows) = map_option ?u (lookup_by s_shard_id sid rows)"
    for rows by (induction rows) (auto simp: update_where_def)
  show ?thesis
    using a assms(1,3,7) o by (intro exI [of _ ?db]) (simp add: authenticateBridgeShard_def l)
qed

theorem legacy_token_undoes_rotation_witness:
  "\<exists>db'. authenticate (demo_route_env ''legacy-token-0123456789012345'') demo_shard demo_registered = (True, db')
     \<and> \<not> authenticateBridgeShard (\<lambda>s. s) demo_shard ''0123456789012345678901234567'' db'"
proof -
  let ?e = "demo_route_env ''legacy-token-0123456789012345''"
  have h: "re_digest ?e = (\<lambda>s. s)" by (simp add: demo_route_env_def)
  have c: "case shard_of demo_registered demo_shard of Some s \<Rightarrow> s_token_hash s = ''0123456789012345678901234567''
      \<and> s_deleted_at s = None | None \<Rightarrow> False" by code_simp
  then obtain s where s: "shard_of demo_registered demo_shard = Some s"
      "s_token_hash s = re_digest ?e ''0123456789012345678901234567''" "s_deleted_at s = None"
    by (auto simp: h split: option.splits)
  have i: "normalizeFleetShardId demo_shard = Inr demo_shard"
    "bindFleetShardManager demo_registered demo_shard [] = Inr ([], demo_registered)" by code_simp+
  have b: "bearer ?e = ''legacy-token-0123456789012345''" by (rule demo_bearer(2))
  have l: "re_legacy ?e ''legacy-token-0123456789012345'' demo_shard" by (simp add: demo_route_env_def)
  from legacy_token_undoes_rotation [OF s b l _ _ i] show ?thesis by (auto simp: h)
qed

end
