(* ===== verification/Fleet_Worker.thy ===== *)
theory Fleet_Worker
  imports Js_Value "HOL-Library.While_Combinator"
begin

text \<open>
  The worker script that runs inside Google Ads, generated by \<open>web/lib/relational-fleet-worker.ts\<close>: the hourly
  entry point, the first phase on each child account, the relay loop of the manager account, the delivery of
  a batch with read-back verification and the requests to the bridge. Google's services and the network are
  parameters, collected in the record \<open>services\<close>: each is a function on a world state. An action returns a
  result or the message of the error it threw, together with the world it leaves. Logging is left out. A reply
  of the bridge is given by the members the worker reads; instants are numbers. The trailing underscore of the
  script's function names is dropped.
\<close>

section \<open>Actions that may throw\<close>

type_synonym ('w, 'a) act = "'w \<Rightarrow> (string + 'a) \<times> 'w"

definition ret :: "'a \<Rightarrow> ('w, 'a) act" where
  "ret x w = (Inr x, w)"

definition raise :: "string \<Rightarrow> ('w, 'a) act" where
  "raise e w = (Inl e, w)"

definition bindA :: "('w, 'a) act \<Rightarrow> ('a \<Rightarrow> ('w, 'b) act) \<Rightarrow> ('w, 'b) act" where
  "bindA m f w = (case m w of (Inl e, w') \<Rightarrow> (Inl e, w') | (Inr x, w') \<Rightarrow> f x w')"

definition attempt :: "('w, 'a) act \<Rightarrow> (string \<Rightarrow> ('w, 'a) act) \<Rightarrow> ('w, 'a) act" where
  "attempt m h w = (case m w of (Inl e, w') \<Rightarrow> h e w' | (Inr x, w') \<Rightarrow> (Inr x, w'))"

section \<open>Messages\<close>

record relay_config =
  cf_token :: string
  cf_shardId :: string
  cf_managerCustomerId :: string

definition CONTRACT :: string where "CONTRACT = ''relational-lease-v2''"
definition WORKER_VERSION :: string where "WORKER_VERSION = ''fleet-two-phase-resilient-relay-v11''"
definition MAX_ACCOUNTS :: nat where "MAX_ACCOUNTS = 50"
definition MIN_REMAINING_SECONDS :: int where "MIN_REMAINING_SECONDS = 90"
definition DEADLINE_GUARD_MS :: ms where "DEADLINE_GUARD_MS = 10000"
definition ACCOUNT_POLL_MS :: ms where "ACCOUNT_POLL_MS = 50000"
definition IDLE_POLL_MS :: ms where "IDLE_POLL_MS = 10000"
definition POST_BATCH_SLEEP_MS :: ms where "POST_BATCH_SLEEP_MS = 50000"
definition ERROR_BACKOFF_MS :: ms where "ERROR_BACKOFF_MS = 10000"

record job =
  jb_jobId :: string
  jb_leaseToken :: string
  jb_customerId :: string
  jb_campaignId :: string
  jb_exactSuffix :: string

text \<open>The execution window as the bridge sends it; \<open>None\<close> is a missing member or an unparsable instant.\<close>

record raw_window =
  xw_invocationId :: "string option"
  xw_phaseOneStopAt :: "time option"
  xw_hardStopAt :: "time option"
  xw_nextExpectedStartAt :: "time option"
  xw_handoffMarginMs :: "ms option"
  xw_scheduleMode :: "string option"
  xw_shouldYield :: "bool option"

record relay_window =
  ew_invocationId :: string
  ew_phaseOneStopAtMs :: time
  ew_hardStopAtMs :: time
  ew_nextExpectedStartAt :: "time option"
  ew_handoffMarginMs :: ms
  ew_scheduleMode :: string
  ew_shouldYield :: bool

record reply =
  rp_ok :: "bool option"
  rp_error :: "string option"
  rp_accountIds :: "string list option"
  rp_managerCustomerId :: "string option"
  rp_campaignCount :: "nat option"
  rp_executionWindow :: "raw_window option"
  rp_invocationId :: "string option"
  rp_jobs :: "job list option"
  rp_allRenewed :: "bool option"
  rp_allApplied :: "bool option"

definition empty_reply :: reply where
  "empty_reply = \<lparr> rp_ok = None, rp_error = None, rp_accountIds = None, rp_managerCustomerId = None, rp_campaignCount = None,
     rp_executionWindow = None, rp_invocationId = None, rp_jobs = None, rp_allRenewed = None, rp_allApplied = None \<rparr>"

text \<open>A request carries the bearer token; the query of a GET or the payload of a POST. Of a response the worker
  reads the status, the text and, when the text is JSON, its members.\<close>

datatype http_payload = HttpGet "(string \<times> string) list" | HttpPost json_object

record http_response =
  hr_status :: int
  hr_text :: string
  hr_json :: "reply option"

record ads_operation =
  op_customerId :: string
  op_campaignId :: string
  op_finalUrlSuffix :: string

record 'w services =
  sv_fetch :: "string \<Rightarrow> http_payload \<Rightarrow> ('w, http_response) act"
  sv_search :: "string list \<Rightarrow> ('w, (string \<times> string) list) act"
  sv_mutateAll :: "ads_operation list \<Rightarrow> ('w, string list option list) act"
  sv_accounts :: "string list \<Rightarrow> nat \<Rightarrow> ('w, string list) act"
  sv_select :: "string \<Rightarrow> ('w, unit) act"
  sv_currentAccount :: "'w \<Rightarrow> string"
  sv_isPreview :: "'w \<Rightarrow> bool"
  sv_uuid :: "'w \<Rightarrow> string"
  sv_remaining :: "'w \<Rightarrow> int"
  sv_now :: "'w \<Rightarrow> time"
  sv_sleep :: "ms \<Rightarrow> 'w \<Rightarrow> 'w"

section \<open>Small helpers\<close>

definition digits :: "string \<Rightarrow> string" where
  "digits v = filter is_digit v"

definition safeWorkerId :: "string \<Rightarrow> string" where
  "safeWorkerId v = take 200 (map (\<lambda>c. if is_alnum c \<or> c \<in> set ''._:-'' then c else CHR ''-'') v)"

definition safeError :: "string \<Rightarrow> string" where
  "safeError e = (if e = [] then ''Unknown script error'' else e)"

definition option_or :: "'a \<Rightarrow> 'a option \<Rightarrow> 'a" where
  "option_or d v = (case v of None \<Rightarrow> d | Some x \<Rightarrow> x)"

definition int_text :: "int \<Rightarrow> string" where
  "int_text n = (if n < 0 then ''-'' @ nat_digits (nat (- n)) else nat_digits (nat n))"

section \<open>Requests to the bridge\<close>

definition bridgeRequest :: "'w services \<Rightarrow> relay_config \<Rightarrow> http_payload \<Rightarrow> ('w, reply) act" where
  "bridgeRequest sv cf payload =
     bindA (sv_fetch sv (cf_token cf) payload) (\<lambda>response.
       case (if hr_text response = [] then Some empty_reply else hr_json response) of
         None \<Rightarrow> raise (''Bridge returned non-JSON HTTP '' @ int_text (hr_status response) @ '': '' @ take 300 (hr_text response))
       | Some p \<Rightarrow>
          if hr_status response < 200 \<or> 300 \<le> hr_status response \<or> rp_ok p = Some False
          then raise (''Bridge HTTP '' @ int_text (hr_status response) @ '': ''
                 @ take 500 (case rp_error p of Some e \<Rightarrow> if e = [] then hr_text response else e | None \<Rightarrow> hr_text response))
          else ret p)"

definition bridgeGet :: "'w services \<Rightarrow> relay_config \<Rightarrow> (string \<times> string) list \<Rightarrow> ('w, reply) act" where
  "bridgeGet sv cf query =
     bridgeRequest sv cf (HttpGet (query @ [(''worker'', WORKER_VERSION), (''protocol'', WORKER_VERSION),
       (''contract'', CONTRACT), (''shard'', cf_shardId cf), (''shardId'', cf_shardId cf)]))"

definition bridgePost :: "'w services \<Rightarrow> relay_config \<Rightarrow> string \<Rightarrow> json_object \<Rightarrow> ('w, reply) act" where
  "bridgePost sv cf action members =
     bridgeRequest sv cf (HttpPost ([(''action'', JStr action), (''protocol'', JStr WORKER_VERSION),
       (''contract'', JStr CONTRACT), (''shardId'', JStr (cf_shardId cf))] @ members))"

record fleet_manifest =
  fm_accountIds :: "string list"
  fm_managerCustomerId :: string
  fm_campaignCount :: nat
  fm_executionWindow :: "raw_window option"

definition fetchManifest :: "'w services \<Rightarrow> relay_config \<Rightarrow> string \<Rightarrow> bool \<Rightarrow> ('w, fleet_manifest) act" where
  "fetchManifest sv cf invocationId preview =
     bindA (bridgeGet sv cf [(''workerId'', ''manifest-'' @ invocationId), (''invocationId'', invocationId), (''manifest'', ''1''),
         (''preview'', if preview then ''1'' else ''0'')]) (\<lambda>p.
       ret \<lparr> fm_accountIds = option_or [] (rp_accountIds p), fm_managerCustomerId = digits (option_or [] (rp_managerCustomerId p)),
             fm_campaignCount = option_or 0 (rp_campaignCount p), fm_executionWindow = rp_executionWindow p \<rparr>)"

definition leaseJobs :: "'w services \<Rightarrow> relay_config \<Rightarrow> string \<Rightarrow> string \<Rightarrow> bool \<Rightarrow> ('w, job list) act" where
  "leaseJobs sv cf workerId customerId hotAdd =
     bindA (bridgeGet sv cf ([(''workerId'', workerId), (''maxJobs'', ''200'')]
         @ (if customerId = [] then [] else [(''customer'', customerId)])
         @ (if hotAdd then [(''hotAdd'', ''1'')] else []))) (\<lambda>p. ret (option_or [] (rp_jobs p)))"

record job_result =
  rs_jobId :: string
  rs_leaseToken :: string
  rs_ok :: bool
  rs_appliedSuffix :: "string option"
  rs_error :: "string option"

definition verifiedResult :: "job \<Rightarrow> string \<Rightarrow> job_result" where
  "verifiedResult j observed = \<lparr> rs_jobId = jb_jobId j, rs_leaseToken = jb_leaseToken j, rs_ok = True,
     rs_appliedSuffix = Some observed, rs_error = None \<rparr>"

definition failedResult :: "job \<Rightarrow> string \<Rightarrow> job_result" where
  "failedResult j e = \<lparr> rs_jobId = jb_jobId j, rs_leaseToken = jb_leaseToken j, rs_ok = False,
     rs_appliedSuffix = None, rs_error = Some (take 1000 (safeError e)) \<rparr>"

definition result_json :: "job_result \<Rightarrow> json" where
  "result_json r = JObj ([(''jobId'', JStr (rs_jobId r)), (''leaseToken'', JStr (rs_leaseToken r)), (''ok'', JBool (rs_ok r)),
       (''status'', JStr (if rs_ok r then ''applied'' else ''failed''))]
     @ (case rs_appliedSuffix r of None \<Rightarrow> [] | Some s \<Rightarrow> [(''appliedSuffix'', JStr s)])
     @ (case rs_error r of None \<Rightarrow> [] | Some e \<Rightarrow> [(''error'', JStr e)]))"

definition acknowledge :: "'w services \<Rightarrow> relay_config \<Rightarrow> string \<Rightarrow> job_result list \<Rightarrow> ('w, unit) act" where
  "acknowledge sv cf workerId results =
     (if results = [] then ret ()
      else bindA (bridgePost sv cf ''ack'' [(''workerId'', JStr workerId), (''results'', JArr (map result_json results))]) (\<lambda>_. ret ()))"

definition renewLeases :: "'w services \<Rightarrow> relay_config \<Rightarrow> string \<Rightarrow> job list \<Rightarrow> ('w, unit) act" where
  "renewLeases sv cf workerId js =
     (if js = [] then ret ()
      else bindA (bridgePost sv cf ''renew'' [(''workerId'', JStr workerId),
             (''leases'', JArr (map (\<lambda>j. JObj [(''jobId'', JStr (jb_jobId j)), (''leaseToken'', JStr (jb_leaseToken j))]) js))]) (\<lambda>p.
             if rp_allRenewed p = Some False
             then raise ''One or more delivery leases became stale before Google Ads mutation''
             else ret ()))"

definition bestEffortRenewLeases :: "'w services \<Rightarrow> relay_config \<Rightarrow> string \<Rightarrow> job list \<Rightarrow> ('w, unit) act" where
  "bestEffortRenewLeases sv cf workerId js = attempt (renewLeases sv cf workerId js) (\<lambda>_. ret ())"

definition completeInvocation :: "'w services \<Rightarrow> relay_config \<Rightarrow> string \<Rightarrow> string \<Rightarrow> ('w, unit) act" where
  "completeInvocation sv cf invocationId status =
     attempt (bindA (bridgePost sv cf ''complete'' [(''invocationId'', JStr invocationId), (''status'', JStr status)]) (\<lambda>_. ret ()))
       (\<lambda>_. ret ())"

section \<open>Execution windows\<close>

definition nonempty_text :: "string option \<Rightarrow> string \<Rightarrow> string" where
  "nonempty_text v d = (case v of None \<Rightarrow> d | Some s \<Rightarrow> if s = [] then d else s)"

definition normalizeExecutionWindow :: "raw_window option \<Rightarrow> string option \<Rightarrow> relay_window option" where
  "normalizeExecutionWindow raw invocationId =
     (case raw of None \<Rightarrow> None
      | Some x \<Rightarrow>
         (case (xw_phaseOneStopAt x, xw_hardStopAt x) of
            (Some p, Some h) \<Rightarrow> Some \<lparr>
               ew_invocationId = safeWorkerId (nonempty_text (xw_invocationId x) (option_or ''undefined'' invocationId)),
               ew_phaseOneStopAtMs = p, ew_hardStopAtMs = h, ew_nextExpectedStartAt = xw_nextExpectedStartAt x,
               ew_handoffMarginMs = option_or 0 (xw_handoffMarginMs x),
               ew_scheduleMode = nonempty_text (xw_scheduleMode x) ''learning'',
               ew_shouldYield = (xw_shouldYield x = Some True) \<rparr>
          | _ \<Rightarrow> None))"

definition recoverExecutionWindow :: "'w services \<Rightarrow> relay_config \<Rightarrow> ('w, relay_window) act" where
  "recoverExecutionWindow sv cf =
     bindA (bridgePost sv cf ''window'' []) (\<lambda>p.
       case normalizeExecutionWindow (rp_executionWindow p) (rp_invocationId p) of
         Some x \<Rightarrow> if ew_shouldYield x then raise ''The bridge has no active execution window for this callback'' else ret x
       | None \<Rightarrow> raise ''The bridge has no active execution window for this callback'')"

definition hasExecutionTime :: "'w services \<Rightarrow> time \<Rightarrow> 'w \<Rightarrow> bool" where
  "hasExecutionTime sv stopAtMs w \<longleftrightarrow>
     MIN_REMAINING_SECONDS < sv_remaining sv w \<and> sv_now sv w + DEADLINE_GUARD_MS < stopAtMs"

definition sleepWithinDeadline :: "'w services \<Rightarrow> ms \<Rightarrow> time \<Rightarrow> 'w \<Rightarrow> 'w" where
  "sleepWithinDeadline sv milliseconds stopAtMs w =
     (let googleAvailable = max 0 ((sv_remaining sv w - MIN_REMAINING_SECONDS) * 1000);
          adaptiveAvailable = max 0 (stopAtMs - sv_now sv w - DEADLINE_GUARD_MS);
          available = min googleAvailable adaptiveAvailable
      in if 0 < available then sv_sleep sv (min milliseconds available) w else w)"

section \<open>Delivering a batch to one account\<close>

definition readSuffixes :: "'w services \<Rightarrow> string list \<Rightarrow> ('w, string \<rightharpoonup> string) act" where
  "readSuffixes sv campaignIds =
     (let ids = filter (\<lambda>i. i \<noteq> []) (map digits campaignIds) in
      if ids = [] then ret Map.empty
      else bindA (sv_search sv ids) (\<lambda>rows. ret (map_of (rev rows))))"

text \<open>The errors of a partial mutation, by job; a failure reported beyond the operations sent is an access to
  \<open>undefined\<close>.\<close>

fun mutation_errors :: "string list option list \<Rightarrow> job list \<Rightarrow> (string \<rightharpoonup> string) \<Rightarrow> string + (string \<rightharpoonup> string)" where
  "mutation_errors [] js es = Inr es"
| "mutation_errors (None # rs) js es = mutation_errors rs (tl js) es"
| "mutation_errors (Some ms # rs) [] es = Inl ''Cannot read properties of undefined''"
| "mutation_errors (Some ms # rs) (j # js) es = mutation_errors rs js (es(jb_jobId j \<mapsto> join_text ''; '' ms))"

definition operation_of :: "string \<Rightarrow> job \<Rightarrow> ads_operation" where
  "operation_of customerId j = \<lparr> op_customerId = customerId, op_campaignId = jb_campaignId j, op_finalUrlSuffix = jb_exactSuffix j \<rparr>"

definition mutate_changes ::
  "'w services \<Rightarrow> relay_config \<Rightarrow> job list \<Rightarrow> job list \<Rightarrow> string \<Rightarrow> string \<Rightarrow> ('w, string \<rightharpoonup> string) act" where
  "mutate_changes sv cf js changes customerId workerId =
     (if changes = [] then ret Map.empty
      else bindA (sv_mutateAll sv (map (operation_of customerId) changes)) (\<lambda>results.
        case mutation_errors results changes Map.empty of
          Inl e \<Rightarrow> raise e
        | Inr es \<Rightarrow> bindA (bestEffortRenewLeases sv cf workerId js) (\<lambda>_. ret es)))"

definition mismatch :: string where
  "mismatch = ''Read-back verification did not exactly match the captured suffix''"

definition judge :: "(string \<rightharpoonup> string) \<Rightarrow> (string \<rightharpoonup> string) \<Rightarrow> job \<Rightarrow> job_result" where
  "judge errors after j =
     (let e = option_or [] (errors (jb_jobId j)) in
      if e \<noteq> [] then failedResult j e
      else (case after (jb_campaignId j) of
          None \<Rightarrow> failedResult j mismatch
        | Some s \<Rightarrow> if s \<noteq> jb_exactSuffix j then failedResult j mismatch else verifiedResult j s))"

definition applyAndVerifyBatch ::
  "'w services \<Rightarrow> relay_config \<Rightarrow> job list \<Rightarrow> string \<Rightarrow> string \<Rightarrow> ('w, job_result list) act" where
  "applyAndVerifyBatch sv cf js customerId workerId =
     (if js = [] then ret []
      else bindA (renewLeases sv cf workerId js) (\<lambda>_.
           bindA (readSuffixes sv (map jb_campaignId js)) (\<lambda>before.
           bindA (mutate_changes sv cf js (filter (\<lambda>j. before (jb_campaignId j) \<noteq> Some (jb_exactSuffix j)) js) customerId workerId) (\<lambda>errors.
           bindA (readSuffixes sv (map jb_campaignId js)) (\<lambda>after.
             ret (map (judge errors after) js))))))"

section \<open>Batches\<close>

definition executeCurrentAccountBatch ::
  "'w services \<Rightarrow> relay_config \<Rightarrow> job list \<Rightarrow> string \<Rightarrow> string \<Rightarrow> ('w, nat \<times> nat) act" where
  "executeCurrentAccountBatch sv cf js customerId workerId =
     bindA (applyAndVerifyBatch sv cf (filter (\<lambda>j. digits (jb_customerId j) = customerId) js) customerId workerId) (\<lambda>results.
     bindA (acknowledge sv cf workerId results) (\<lambda>_.
       ret (length results, length (filter rs_ok results))))"

text \<open>\<open>Object.keys\<close>: array indices in ascending order come first, then the other keys in the order of insertion.\<close>

definition index_key :: "string \<Rightarrow> bool" where
  "index_key k \<longleftrightarrow> k \<noteq> [] \<and> list_all is_digit k \<and> digits_value k 0 < 4294967295 \<and> (k = ''0'' \<or> hd k \<noteq> CHR ''0'')"

definition object_keys :: "string list \<Rightarrow> string list" where
  "object_keys ks = (let ds = rev (remdups (rev ks)) in
     sort_key (\<lambda>k. digits_value k 0) (filter index_key ds) @ filter (\<lambda>k. \<not> index_key k) ds)"

definition group_of :: "job list \<Rightarrow> string \<Rightarrow> job list" where
  "group_of js customerId = filter (\<lambda>j. digits (jb_customerId j) = customerId) js"

text \<open>The loop over the accounts that Google returns: the processed accounts and the results so far.\<close>

fun serve_accounts ::
  "'w services \<Rightarrow> relay_config \<Rightarrow> job list \<Rightarrow> string \<Rightarrow> string list \<Rightarrow> string list \<times> job_result list
    \<Rightarrow> ('w, string list \<times> job_result list) act" where
  "serve_accounts sv cf js workerId [] acc = ret acc"
| "serve_accounts sv cf js workerId (a # as) (processed, results) =
     (let customerId = digits a; mine = group_of js customerId in
      if mine = [] then serve_accounts sv cf js workerId as (processed, results)
      else bindA (sv_select sv a) (\<lambda>_.
           bindA (applyAndVerifyBatch sv cf mine customerId workerId) (\<lambda>rs.
             serve_accounts sv cf js workerId as (customerId # processed, results @ rs))))"

definition unlinked_results :: "job list \<Rightarrow> string list \<Rightarrow> string list \<Rightarrow> job_result list" where
  "unlinked_results js accountIds processed =
     concat (map (\<lambda>c. if c \<in> set processed then []
       else map (\<lambda>j. failedResult j (''Child account '' @ c @ '' is not linked to this MCC'')) (group_of js c)) accountIds)"

definition executeFleetBatch :: "'w services \<Rightarrow> relay_config \<Rightarrow> job list \<Rightarrow> string \<Rightarrow> ('w, unit) act" where
  "executeFleetBatch sv cf js workerId =
     (let accountIds = object_keys (map (\<lambda>j. digits (jb_customerId j)) js) in
      if MAX_ACCOUNTS < length accountIds then raise ''Shard returned more accounts than this worker permits.''
      else bindA (sv_accounts sv accountIds MAX_ACCOUNTS) (\<lambda>found.
           bindA (serve_accounts sv cf js workerId found ([], [])) (\<lambda>(processed, results).
             acknowledge sv cf workerId (results @ unlinked_results js accountIds processed))))"

section \<open>The two phases\<close>

text \<open>One turn of the loop of a child account; the totals count cycles, results and verified results, and the
  last member lists the failures.\<close>

record child_totals =
  ct_cycles :: nat
  ct_total :: nat
  ct_verified :: nat
  ct_failures :: "string list"

definition account_cycle ::
  "'w services \<Rightarrow> relay_config \<Rightarrow> string \<Rightarrow> string \<Rightarrow> time \<Rightarrow> child_totals \<times> 'w \<Rightarrow> child_totals \<times> 'w" where
  "account_cycle sv cf customerId workerId stopAtMs st =
     (case st of (t, w) \<Rightarrow>
       (case bindA (leaseJobs sv cf workerId customerId False) (\<lambda>js. executeCurrentAccountBatch sv cf js customerId workerId) w of
          (Inr (n, v), w') \<Rightarrow>
            (t\<lparr>ct_cycles := ct_cycles t + 1, ct_total := ct_total t + n, ct_verified := ct_verified t + v\<rparr>,
             sleepWithinDeadline sv ACCOUNT_POLL_MS stopAtMs w')
        | (Inl e, w') \<Rightarrow>
            (t\<lparr>ct_failures := ct_failures t @ [safeError e]\<rparr>, sleepWithinDeadline sv ERROR_BACKOFF_MS stopAtMs w')))"

record bootstrap_result =
  br_customerId :: string
  br_cycles :: nat
  br_total :: nat
  br_verified :: nat
  br_error :: string
  br_executionWindow :: relay_window

definition last_n :: "nat \<Rightarrow> 'a list \<Rightarrow> 'a list" where
  "last_n n xs = drop (length xs - n) xs"

text \<open>\<open>None\<close> means that the loop does not end.\<close>

definition bootstrapAccount ::
  "'w services \<Rightarrow> relay_config \<Rightarrow> relay_window option \<Rightarrow> 'w \<Rightarrow> ((string + bootstrap_result) \<times> 'w) option" where
  "bootstrapAccount sv cf windowJson w =
     (case windowJson of
        None \<Rightarrow> Some (Inl ''Adaptive execution window is missing'', w)
      | Some win \<Rightarrow>
         (let customerId = digits (sv_currentAccount sv w);
              workerId = safeWorkerId (''child-'' @ customerId @ ''-'' @ ew_invocationId win);
              stop = ew_phaseOneStopAtMs win
          in map_option (\<lambda>(t, w'). (Inr \<lparr> br_customerId = customerId, br_cycles = ct_cycles t, br_total = ct_total t,
                 br_verified = ct_verified t, br_error = join_text '' | '' (last_n 5 (ct_failures t)),
                 br_executionWindow = win \<rparr>, w'))
               (while_option (\<lambda>st. hasExecutionTime sv stop (snd st)) (account_cycle sv cf customerId workerId stop)
                  (\<lparr>ct_cycles = 0, ct_total = 0, ct_verified = 0, ct_failures = []\<rparr>, w))))"

text \<open>One turn of the relay loop: lease, deliver, sleep.\<close>

definition relay_cycle ::
  "'w services \<Rightarrow> relay_config \<Rightarrow> string \<Rightarrow> time \<Rightarrow> nat \<times> 'w \<Rightarrow> nat \<times> 'w" where
  "relay_cycle sv cf workerId stopAtMs st =
     (case st of (n, w) \<Rightarrow>
       (case bindA (leaseJobs sv cf workerId [] True)
               (\<lambda>js. if js = [] then ret False else bindA (executeFleetBatch sv cf js workerId) (\<lambda>_. ret True)) w of
          (Inr True, w') \<Rightarrow> (n + 1, sleepWithinDeadline sv POST_BATCH_SLEEP_MS stopAtMs w')
        | (Inr False, w') \<Rightarrow> (n, sleepWithinDeadline sv IDLE_POLL_MS stopAtMs w')
        | (Inl e, w') \<Rightarrow> (n, sleepWithinDeadline sv ERROR_BACKOFF_MS stopAtMs w')))"

definition runContinuousRelay :: "'w services \<Rightarrow> relay_config \<Rightarrow> relay_window \<Rightarrow> 'w \<Rightarrow> (nat \<times> 'w) option" where
  "runContinuousRelay sv cf win w =
     (let workerId = safeWorkerId (''manager-'' @ ew_invocationId win); stop = ew_hardStopAtMs win in
      map_option (\<lambda>(n, w'). (n, snd (completeInvocation sv cf (ew_invocationId win) ''completed'' w')))
        (while_option (\<lambda>st. hasExecutionTime sv stop (snd st)) (relay_cycle sv cf workerId stop) (0, w)))"

text \<open>The callback that Google invokes with the results of the children; a child returned a readable result, an
  unreadable one, or failed. \<open>Some (None, w)\<close> is the return without a window.\<close>

datatype child_outcome = ChildReturned bootstrap_result | ChildUnreadable | ChildFailed

definition first_window :: "child_outcome list \<Rightarrow> relay_window option" where
  "first_window outcomes =
     (case List.map_filter (\<lambda>c. case c of ChildReturned r \<Rightarrow> Some (br_executionWindow r) | _ \<Rightarrow> None) outcomes of
        [] \<Rightarrow> None | x # _ \<Rightarrow> Some x)"

definition continueFleetRelay ::
  "'w services \<Rightarrow> relay_config \<Rightarrow> child_outcome list \<Rightarrow> 'w \<Rightarrow> (nat option \<times> 'w) option" where
  "continueFleetRelay sv cf outcomes w =
     (case first_window outcomes of
        Some x \<Rightarrow> map_option (\<lambda>(n, w'). (Some n, w')) (runContinuousRelay sv cf x w)
      | None \<Rightarrow>
         (case recoverExecutionWindow sv cf w of
            (Inl e, w') \<Rightarrow> Some (None, w')
          | (Inr x, w') \<Rightarrow> map_option (\<lambda>(n, w''). (Some n, w'')) (runContinuousRelay sv cf x w')))"

section \<open>The entry point\<close>

datatype main_outcome = PreviewOnly | Yielded | NoAccounts | StartParallel "string list" relay_window

definition main :: "'w services \<Rightarrow> relay_config \<Rightarrow> ('w, main_outcome) act" where
  "main sv cf w =
     (let installed = digits (sv_currentAccount sv w) in
      if cf_managerCustomerId cf \<noteq> [] \<and> installed \<noteq> cf_managerCustomerId cf
      then raise (''This worker is for MCC '' @ cf_managerCustomerId cf @ '', but is installed in MCC '' @ installed
             @ ''. No campaign was changed.'') w
      else (let invocationId = sv_uuid sv w in
        bindA (fetchManifest sv cf invocationId (sv_isPreview sv w)) (\<lambda>manifest.
          if sv_isPreview sv w then ret PreviewOnly
          else if fm_managerCustomerId manifest \<noteq> [] \<and> installed \<noteq> fm_managerCustomerId manifest
          then raise (''This shard belongs to MCC '' @ fm_managerCustomerId manifest @ '', but this script is running in MCC ''
                 @ installed @ ''.'')
          else (case normalizeExecutionWindow (fm_executionWindow manifest) (Some invocationId) of
              None \<Rightarrow> bindA (completeInvocation sv cf invocationId ''yielded'') (\<lambda>_. ret Yielded)
            | Some win \<Rightarrow>
                if ew_shouldYield win then bindA (completeInvocation sv cf invocationId ''yielded'') (\<lambda>_. ret Yielded)
                else if fm_accountIds manifest = [] then bindA (completeInvocation sv cf invocationId ''empty'') (\<lambda>_. ret NoAccounts)
                else if MAX_ACCOUNTS < length (fm_accountIds manifest)
                then raise ''Shard manifest exceeds the supported 50-account manager-script limit.''
                else ret (StartParallel (fm_accountIds manifest) win))) w))"

section \<open>Running actions\<close>

lemma bindA_Inr:
  assumes "bindA m f w = (Inr y, w')"
  obtains x w1 where "m w = (Inr x, w1)" "f x w1 = (Inr y, w')"
  using assms by (auto simp: bindA_def split: prod.splits sum.splits)

lemma bindA_run: "m w = (Inr x, w1) \<Longrightarrow> bindA m f w = f x w1"
  by (simp add: bindA_def)

lemma bindA_fail: "m w = (Inl e, w1) \<Longrightarrow> bindA m f w = (Inl e, w1)"
  by (simp add: bindA_def)

lemma ret_run [simp]: "ret x w = (Inr x, w)"
  by (simp add: ret_def)

lemma raise_run [simp]: "raise e w = (Inl e, w)"
  by (simp add: raise_def)

section \<open>What a verified result means\<close>

lemma judge_result:
  "rs_jobId (judge es after j) = jb_jobId j" "rs_leaseToken (judge es after j) = jb_leaseToken j"
  "rs_ok (judge es after j) \<longleftrightarrow> option_or [] (es (jb_jobId j)) = [] \<and> after (jb_campaignId j) = Some (jb_exactSuffix j)"
  "rs_ok (judge es after j) \<Longrightarrow> rs_appliedSuffix (judge es after j) = Some (jb_exactSuffix j)"
  "\<not> rs_ok (judge es after j) \<Longrightarrow> rs_error (judge es after j) \<noteq> None"
  by (auto simp: judge_def Let_def verifiedResult_def failedResult_def split: option.splits if_splits)

text \<open>C13: a batch is delivered safely, whatever Google and the network answer. There is exactly one result per job, in
  the order of the jobs and with their tokens; a result counts as verified only if the search that ended the
  batch read exactly the captured suffix back from the campaign, and reports that suffix; and when the leases
  cannot be renewed first, nothing after the renewal happens at all.\<close>

theorem verified_means_read_back:
  assumes "js \<noteq> []" and "applyAndVerifyBatch sv cf js customerId workerId w = (out, w')"
  shows "case out of
      Inl e \<Rightarrow> (\<forall>w1 e'. renewLeases sv cf workerId js w = (Inl e', w1) \<longrightarrow> e = e' \<and> w' = w1)
    | Inr rs \<Rightarrow> map rs_jobId rs = map jb_jobId js \<and> map rs_leaseToken rs = map jb_leaseToken js
        \<and> (\<exists>w1. renewLeases sv cf workerId js w = (Inr (), w1))
        \<and> (\<exists>after w2. readSuffixes sv (map jb_campaignId js) w2 = (Inr after, w')
            \<and> list_all2 (\<lambda>j r. rs_ok r \<longrightarrow> after (jb_campaignId j) = Some (jb_exactSuffix j)
                                       \<and> rs_appliedSuffix r = Some (jb_exactSuffix j)) js rs)"
proof (cases out)
  case (Inl e)
  then show ?thesis using assms by (auto simp: applyAndVerifyBatch_def bindA_fail)
next
  case (Inr rs)
  with assms obtain errors after w1 w2 where r: "readSuffixes sv (map jb_campaignId js) w2 = (Inr after, w')"
      and n: "renewLeases sv cf workerId js w = (Inr (), w1)" and rs: "rs = map (judge errors after) js"
    by (auto simp: applyAndVerifyBatch_def simp del: map_eq_conv elim!: bindA_Inr)
  have "list_all2 (\<lambda>j r. rs_ok r \<longrightarrow> after (jb_campaignId j) = Some (jb_exactSuffix j)
      \<and> rs_appliedSuffix r = Some (jb_exactSuffix j)) js rs"
    by (simp add: rs list_all2_map2 list_all2_same judge_result)
  with r n show ?thesis by (auto simp: Inr rs judge_result)
qed

text \<open>A small instance: one campaign whose suffix is the world, a bridge that renews every lease.\<close>

definition demo_services :: "string services" where
  "demo_services = \<lparr>
     sv_fetch = (\<lambda>token payload. ret \<lparr>hr_status = 200, hr_text = ''{}'', hr_json = Some (empty_reply\<lparr>rp_allRenewed := Some True\<rparr>)\<rparr>),
     sv_search = (\<lambda>ids w. (Inr [(''7'', w)], w)),
     sv_mutateAll = (\<lambda>ops w. (Inr (map (\<lambda>_. None) ops), op_finalUrlSuffix (hd ops))),
     sv_accounts = (\<lambda>ids n. ret ids), sv_select = (\<lambda>a. ret ()),
     sv_currentAccount = (\<lambda>w. ''1''), sv_isPreview = (\<lambda>w. False), sv_uuid = (\<lambda>w. ''u''),
     sv_remaining = (\<lambda>w. 100), sv_now = (\<lambda>w. 0), sv_sleep = (\<lambda>d w. w) \<rparr>"

definition demo_job :: job where
  "demo_job = \<lparr>jb_jobId = ''j'', jb_leaseToken = ''t'', jb_customerId = ''1'', jb_campaignId = ''7'', jb_exactSuffix = ''gclid=2''\<rparr>"

definition demo_config :: relay_config where
  "demo_config = \<lparr>cf_token = ''token'', cf_shardId = ''s'', cf_managerCustomerId = []\<rparr>"

theorem verified_means_read_back_witness:
  "\<exists>rs. applyAndVerifyBatch demo_services demo_config [demo_job] ''1'' ''w'' ''gclid=1'' = (Inr rs, ''gclid=2'')
     \<and> map rs_jobId rs = [''j''] \<and> rs_ok (hd rs)"
proof -
  let ?out = "applyAndVerifyBatch demo_services demo_config [demo_job] ''1'' ''w'' ''gclid=1''"
  have c: "(case ?out of (Inr [r], w) \<Rightarrow> w = ''gclid=2'' \<and> rs_ok r | _ \<Rightarrow> False)" by code_simp
  then obtain r where o: "?out = (Inr [r], ''gclid=2'')" "rs_ok r" by (auto split: prod.splits sum.splits list.splits)
  have "[demo_job] \<noteq> []" by simp
  from verified_means_read_back [OF this o(1)] have "map rs_jobId [r] = map jb_jobId [demo_job]" by simp
  with o show ?thesis by (simp add: demo_job_def)
qed

section \<open>The relay loop ends\<close>

text \<open>What the loop needs of the services: no call turns the clock back, and sleeping takes at least the time asked
  for, also from the remaining execution time.\<close>

locale relay_clock =
  fixes sv :: "'w services"
  assumes fetch_clock: "sv_now sv w \<le> sv_now sv (snd (sv_fetch sv token payload w))"
    and search_clock: "sv_now sv w \<le> sv_now sv (snd (sv_search sv ids w))"
    and mutate_clock: "sv_now sv w \<le> sv_now sv (snd (sv_mutateAll sv ops w))"
    and accounts_clock: "sv_now sv w \<le> sv_now sv (snd (sv_accounts sv ids n w))"
    and select_clock: "sv_now sv w \<le> sv_now sv (snd (sv_select sv a w))"
    and sleep_clock: "0 < d \<Longrightarrow> sv_now sv w + d \<le> sv_now sv (sv_sleep sv d w)"
    and sleep_remaining: "0 < d \<Longrightarrow> sv_remaining sv (sv_sleep sv d w) \<le> sv_remaining sv w - d div 1000"
begin

definition forward :: "('w, 'a) act \<Rightarrow> bool" where
  "forward m \<longleftrightarrow> (\<forall>w. sv_now sv w \<le> sv_now sv (snd (m w)))"

lemma forward_ret: "forward (ret x)"
  by (simp add: forward_def)

lemma forward_raise: "forward (raise e)"
  by (simp add: forward_def)

lemma forward_bind: "forward m \<Longrightarrow> (\<And>x. forward (f x)) \<Longrightarrow> forward (bindA m f)"
  unfolding forward_def bindA_def
proof
  fix w
  assume m: "\<forall>w. sv_now sv w \<le> sv_now sv (snd (m w))" and f: "\<And>x. \<forall>w. sv_now sv w \<le> sv_now sv (snd (f x w))"
  show "sv_now sv w \<le> sv_now sv (snd (case m w of (Inl e, w') \<Rightarrow> (Inl e, w') | (Inr x, w') \<Rightarrow> f x w'))"
  proof (cases "m w")
    case (Pair r w1)
    with m have le: "sv_now sv w \<le> sv_now sv w1" by (metis snd_conv)
    show ?thesis
    proof (cases r)
      case (Inl e)
      with Pair le show ?thesis by simp
    next
      case (Inr x)
      have "sv_now sv w1 \<le> sv_now sv (snd (f x w1))" using f by blast
      with Pair Inr le show ?thesis by simp
    qed
  qed
qed

lemma forward_attempt: "forward m \<Longrightarrow> (\<And>e. forward (h e)) \<Longrightarrow> forward (attempt m h)"
  unfolding forward_def attempt_def
proof
  fix w
  assume m: "\<forall>w. sv_now sv w \<le> sv_now sv (snd (m w))" and h: "\<And>e. \<forall>w. sv_now sv w \<le> sv_now sv (snd (h e w))"
  show "sv_now sv w \<le> sv_now sv (snd (case m w of (Inl e, w') \<Rightarrow> h e w' | (Inr x, w') \<Rightarrow> (Inr x, w')))"
  proof (cases "m w")
    case (Pair r w1)
    with m have le: "sv_now sv w \<le> sv_now sv w1" by (metis snd_conv)
    show ?thesis
    proof (cases r)
      case (Inl e)
      have "sv_now sv w1 \<le> sv_now sv (snd (h e w1))" using h by blast
      with Pair Inl le show ?thesis by simp
    next
      case (Inr x)
      with Pair le show ?thesis by simp
    qed
  qed
qed

lemma forward_services:
  "forward (sv_fetch sv token payload)" "forward (sv_search sv ids)" "forward (sv_mutateAll sv ops)"
  "forward (sv_accounts sv ids n)" "forward (sv_select sv a)"
  using fetch_clock search_clock mutate_clock accounts_clock select_clock by (simp_all add: forward_def)

lemmas forward_intros = forward_ret forward_raise forward_bind forward_attempt forward_services

lemma forward_request: "forward (bridgeRequest sv cf payload)"
  unfolding bridgeRequest_def by (intro forward_intros) (auto intro!: forward_intros split: option.split)

lemma forward_post: "forward (bridgePost sv cf action members)"
  unfolding bridgePost_def by (rule forward_request)

lemma forward_lease: "forward (leaseJobs sv cf workerId customerId hotAdd)"
  unfolding leaseJobs_def bridgeGet_def by (intro forward_intros forward_request)

lemma forward_renew: "forward (renewLeases sv cf workerId js)"
  unfolding renewLeases_def by (auto intro!: forward_intros forward_post)

lemma forward_acknowledge: "forward (acknowledge sv cf workerId rs)"
  unfolding acknowledge_def by (auto intro!: forward_intros forward_post)

lemma forward_read: "forward (readSuffixes sv ids)"
  unfolding readSuffixes_def Let_def by (auto intro!: forward_intros)

lemma forward_mutate: "forward (mutate_changes sv cf js cs customerId workerId)"
  unfolding mutate_changes_def bestEffortRenewLeases_def
  by (auto intro!: forward_intros forward_renew split: sum.split)

lemma forward_batch: "forward (applyAndVerifyBatch sv cf js customerId workerId)"
  unfolding applyAndVerifyBatch_def
  by (auto intro!: forward_intros forward_renew forward_read forward_mutate)

lemma forward_serve: "forward (serve_accounts sv cf js workerId accounts acc)"
proof (induction accounts arbitrary: acc)
  case Nil
  then show ?case by (simp add: forward_def)
next
  case (Cons a as)
  then show ?case by (cases acc) (simp add: Let_def forward_bind forward_services forward_batch)
qed

lemma forward_fleet: "forward (executeFleetBatch sv cf js workerId)"
  unfolding executeFleetBatch_def Let_def
  by (auto intro!: forward_intros forward_serve forward_acknowledge split: prod.split)

lemma forward_account: "forward (executeCurrentAccountBatch sv cf js customerId workerId)"
  unfolding executeCurrentAccountBatch_def by (intro forward_intros forward_batch forward_acknowledge)

text \<open>A sleep that does not end the loop takes the full time.\<close>

lemma sleep_progress:
  assumes "0 < ms" "hasExecutionTime sv stop (sleepWithinDeadline sv ms stop w)"
  shows "sv_now sv w + ms \<le> sv_now sv (sleepWithinDeadline sv ms stop w)"
proof -
  obtain g a where ga: "g = max 0 ((sv_remaining sv w - MIN_REMAINING_SECONDS) * 1000)"
      "a = max 0 (stop - sv_now sv w - DEADLINE_GUARD_MS)" by blast
  have sl: "sleepWithinDeadline sv ms stop w = (if 0 < min g a then sv_sleep sv (min ms (min g a)) w else w)"
    unfolding sleepWithinDeadline_def Let_def ga ..
  show ?thesis
  proof (cases "0 < min g a")
    case True
    obtain d where d: "d = min ms (min g a)" by blast
    have dp: "0 < d" using True assms(1) by (simp add: d)
    have w: "sleepWithinDeadline sv ms stop w = sv_sleep sv d w" using True by (simp add: sl d)
    note c = sleep_clock [OF dp, of w] and r = sleep_remaining [OF dp, of w]
    have h: "MIN_REMAINING_SECONDS < sv_remaining sv (sv_sleep sv d w)" "sv_now sv (sv_sleep sv d w) + DEADLINE_GUARD_MS < stop"
      using assms(2) unfolding hasExecutionTime_def w by blast+
    from True have g: "g = (sv_remaining sv w - MIN_REMAINING_SECONDS) * 1000" and a: "a = stop - sv_now sv w - DEADLINE_GUARD_MS"
      unfolding ga by linarith+
    have "d \<noteq> a" using c h(2) unfolding a by linarith
    moreover have "d \<noteq> g"
    proof
      assume "d = g"
      then have "d div 1000 = sv_remaining sv w - MIN_REMAINING_SECONDS" by (simp add: g)
      with r h(1) show False by linarith
    qed
    ultimately have "d = ms" unfolding d by linarith
    with c w show ?thesis by simp
  next
    case False
    then have "g \<le> 0 \<or> a \<le> 0" by linarith
    then have "\<not> hasExecutionTime sv stop w"
      unfolding hasExecutionTime_def ga by auto
    moreover have "sleepWithinDeadline sv ms stop w = w" unfolding sl using False by (rule if_not_P)
    ultimately show ?thesis using assms(2) by simp
  qed
qed

text \<open>A loop that ends each turn with such a sleep ends.\<close>

lemma loop_ends:
  fixes body :: "'c \<times> 'w \<Rightarrow> 'c \<times> 'w"
  assumes step: "\<And>st. \<exists>d w'. snd (body st) = sleepWithinDeadline sv d stop w' \<and> sv_now sv (snd st) \<le> sv_now sv w' \<and> 0 < d"
  shows "\<exists>t. while_option (\<lambda>st. hasExecutionTime sv stop (snd st)) body st = Some t"
proof (rule measure_while_option_Some
    [where P = "\<lambda>_. True" and f = "\<lambda>st. if hasExecutionTime sv stop (snd st) then nat (stop - sv_now sv (snd st)) else 0"])
  fix st :: "'c \<times> 'w"
  assume b: "hasExecutionTime sv stop (snd st)"
  then have pos: "0 < stop - sv_now sv (snd st)" by (simp add: hasExecutionTime_def DEADLINE_GUARD_MS_def)
  from step [of st] obtain d w' where d: "snd (body st) = sleepWithinDeadline sv d stop w'" "sv_now sv (snd st) \<le> sv_now sv w'" "0 < d"
    by blast
  have "sv_now sv (snd st) + d \<le> sv_now sv (snd (body st))" if "hasExecutionTime sv stop (snd (body st))"
    using sleep_progress [OF d(3)] that d(1,2) by fastforce
  with b pos d(3) show "True \<and> (if hasExecutionTime sv stop (snd (body st)) then nat (stop - sv_now sv (snd (body st))) else 0)
      < (if hasExecutionTime sv stop (snd st) then nat (stop - sv_now sv (snd st)) else 0)"
    by auto
qed simp

lemma relay_cycle_cases:
  obtains w' where "sv_now sv w \<le> sv_now sv w'"
    "relay_cycle sv cf workerId stop (n, w) = (n + 1, sleepWithinDeadline sv POST_BATCH_SLEEP_MS stop w')
     \<or> relay_cycle sv cf workerId stop (n, w) = (n, sleepWithinDeadline sv IDLE_POLL_MS stop w')"
proof -
  let ?m = "bindA (leaseJobs sv cf workerId [] True)
    (\<lambda>js. if js = [] then ret False else bindA (executeFleetBatch sv cf js workerId) (\<lambda>_. ret True))"
  have "forward ?m" by (auto intro!: forward_intros forward_lease forward_fleet)
  then have le: "sv_now sv w \<le> sv_now sv (snd (?m w))" unfolding forward_def ..
  obtain r w' where m: "?m w = (r, w')" by (cases "?m w")
  show thesis
  proof (rule that [of w'])
    show "sv_now sv w \<le> sv_now sv w'" using le by (simp add: m)
    show "relay_cycle sv cf workerId stop (n, w) = (n + 1, sleepWithinDeadline sv POST_BATCH_SLEEP_MS stop w')
     \<or> relay_cycle sv cf workerId stop (n, w) = (n, sleepWithinDeadline sv IDLE_POLL_MS stop w')"
      unfolding relay_cycle_def prod.case m by (cases r) (auto simp: ERROR_BACKOFF_MS_def IDLE_POLL_MS_def split: bool.split)
  qed
qed

lemma relay_loop_ends:
  "\<exists>t. while_option (\<lambda>st. hasExecutionTime sv stop (snd st)) (relay_cycle sv cf workerId stop) st = Some t"
proof (rule loop_ends)
  fix st :: "nat \<times> 'w"
  obtain n w where st: "st = (n, w)" by (cases st)
  obtain w' where "sv_now sv w \<le> sv_now sv w'"
    "relay_cycle sv cf workerId stop (n, w) = (n + 1, sleepWithinDeadline sv POST_BATCH_SLEEP_MS stop w')
     \<or> relay_cycle sv cf workerId stop (n, w) = (n, sleepWithinDeadline sv IDLE_POLL_MS stop w')"
    by (rule relay_cycle_cases)
  then show "\<exists>d w'. snd (relay_cycle sv cf workerId stop st) = sleepWithinDeadline sv d stop w'
      \<and> sv_now sv (snd st) \<le> sv_now sv w' \<and> 0 < d"
    unfolding st by (metis POST_BATCH_SLEEP_MS_def IDLE_POLL_MS_def snd_conv zero_less_numeral)
qed

text \<open>The number of batches is bounded by the length of the window.\<close>

lemma relay_batches_bound:
  assumes "while_option (\<lambda>st. hasExecutionTime sv stop (snd st)) (relay_cycle sv cf workerId stop) (0, w0) = Some (n, w)"
  shows "int n * 50000 \<le> max 0 (stop - sv_now sv w0) + 50000 \<and> sv_now sv w0 \<le> sv_now sv w"
proof -
  let ?P = "\<lambda>st. (hasExecutionTime sv stop (snd st) \<longrightarrow> int (fst st) * 50000 \<le> sv_now sv (snd st) - sv_now sv w0)
     \<and> int (fst st) * 50000 \<le> max 0 (stop - sv_now sv w0) + 50000 \<and> sv_now sv w0 \<le> sv_now sv (snd st)"
  have "?P (n, w)"
  proof (rule while_option_rule [OF _ assms])
    fix st :: "nat \<times> 'w"
    assume P: "?P st" and b: "hasExecutionTime sv stop (snd st)"
    obtain k v where st: "st = (k, v)" by (cases st)
    from b have late: "sv_now sv v < stop" by (simp add: st hasExecutionTime_def DEADLINE_GUARD_MS_def)
    from P b have k: "int k * 50000 \<le> sv_now sv v - sv_now sv w0" "sv_now sv w0 \<le> sv_now sv v" by (simp_all add: st)
    have fwd: "sv_now sv u \<le> sv_now sv (sleepWithinDeadline sv d stop u)" if "0 < d" for d u
      using sleep_clock [of "min d _" u] that
      by (auto simp: sleepWithinDeadline_def Let_def dest: order_trans [rotated]) (smt (verit) sleep_clock)
    obtain w' where w': "sv_now sv v \<le> sv_now sv w'"
      and c: "relay_cycle sv cf workerId stop (k, v) = (k + 1, sleepWithinDeadline sv POST_BATCH_SLEEP_MS stop w')
       \<or> relay_cycle sv cf workerId stop (k, v) = (k, sleepWithinDeadline sv IDLE_POLL_MS stop w')"
      by (rule relay_cycle_cases)
    from c show "?P (relay_cycle sv cf workerId stop st)"
    proof
      assume e: "relay_cycle sv cf workerId stop (k, v) = (k + 1, sleepWithinDeadline sv POST_BATCH_SLEEP_MS stop w')"
      note pr = sleep_progress [of POST_BATCH_SLEEP_MS stop w'] and f = fwd [of POST_BATCH_SLEEP_MS w']
      show ?thesis
        unfolding st e fst_conv snd_conv using pr f k late w' by (auto simp: POST_BATCH_SLEEP_MS_def)
    next
      assume e: "relay_cycle sv cf workerId stop (k, v) = (k, sleepWithinDeadline sv IDLE_POLL_MS stop w')"
      note f = fwd [of IDLE_POLL_MS w']
      show ?thesis
        unfolding st e fst_conv snd_conv using f k late w' by (auto simp: IDLE_POLL_MS_def)
    qed
  qed simp
  then show ?thesis by simp
qed

lemma runContinuousRelay_ends:
  "\<exists>n w'. runContinuousRelay sv cf win w = Some (n, w')
     \<and> int n * 50000 \<le> max 0 (ew_hardStopAtMs win - sv_now sv w) + 50000"
proof -
  let ?stop = "ew_hardStopAtMs win" and ?id = "safeWorkerId (''manager-'' @ ew_invocationId win)"
  obtain n v where l: "while_option (\<lambda>st. hasExecutionTime sv ?stop (snd st)) (relay_cycle sv cf ?id ?stop) (0, w) = Some (n, v)"
    using relay_loop_ends [of ?stop cf ?id "(0, w)"] by auto
  have "runContinuousRelay sv cf win w = Some (n, snd (completeInvocation sv cf (ew_invocationId win) ''completed'' v))"
    unfolding runContinuousRelay_def Let_def l option.map prod.case ..
  with relay_batches_bound [OF l] show ?thesis by blast
qed

lemma bootstrapAccount_ends: "\<exists>r w'. bootstrapAccount sv cf win w = Some (r, w')"
proof (cases win)
  case None
  then show ?thesis by (simp add: bootstrapAccount_def)
next
  case (Some x)
  let ?stop = "ew_phaseOneStopAtMs x"
  have "\<exists>t. while_option (\<lambda>st. hasExecutionTime sv ?stop (snd st)) (account_cycle sv cf customerId workerId ?stop) st = Some t"
    for customerId workerId st
  proof (rule loop_ends)
    fix st :: "child_totals \<times> 'w"
    obtain t w where st: "st = (t, w)" by (cases st)
    let ?m = "bindA (leaseJobs sv cf workerId customerId False) (\<lambda>js. executeCurrentAccountBatch sv cf js customerId workerId)"
    have "forward ?m" by (intro forward_intros forward_lease forward_account)
    then have le: "sv_now sv w \<le> sv_now sv (snd (?m w))" unfolding forward_def ..
    obtain r w' where m: "?m w = (r, w')" by (cases "?m w")
    show "\<exists>d w'. snd (account_cycle sv cf customerId workerId ?stop st) = sleepWithinDeadline sv d ?stop w'
        \<and> sv_now sv (snd st) \<le> sv_now sv w' \<and> 0 < d"
    proof (cases r)
      case (Inl e)
      have "snd (account_cycle sv cf customerId workerId ?stop st) = sleepWithinDeadline sv ERROR_BACKOFF_MS ?stop w'"
        by (simp add: st account_cycle_def m Inl)
      then show ?thesis using le unfolding st m snd_conv by (intro exI conjI) (assumption | simp add: ERROR_BACKOFF_MS_def)+
    next
      case (Inr p)
      have "snd (account_cycle sv cf customerId workerId ?stop st) = sleepWithinDeadline sv ACCOUNT_POLL_MS ?stop w'"
        by (simp add: st account_cycle_def m Inr split: prod.split)
      then show ?thesis using le unfolding st m snd_conv by (intro exI conjI) (assumption | simp add: ACCOUNT_POLL_MS_def)+
    qed
  qed
  then show ?thesis by (simp add: bootstrapAccount_def Some Let_def) (metis (no_types, lifting) old.prod.exhaust)
qed

end

end
