(* ===== verification/Relay_System.thy ===== *)
theory Relay_System
  imports Bridge_Route Fleet_Worker
begin

text \<open>
  The worker and the bridge put together: the worker script of \<open>Fleet_Worker\<close> runs against the endpoint of
  \<open>Bridge_Route\<close> and so against the tables of the bridge. Google Ads itself stays a parameter, as do the delays of
  the calls and the requests that are lost on the way.
\<close>

record 'a ads_service =
  ads_search :: "string list \<Rightarrow> 'a \<Rightarrow> (string + (string \<times> string) list) \<times> 'a"
  ads_mutateAll :: "ads_operation list \<Rightarrow> 'a \<Rightarrow> (string + string list option list) \<times> 'a"
  ads_accounts :: "string list \<Rightarrow> nat \<Rightarrow> 'a \<Rightarrow> (string + string list) \<times> 'a"

record 'a relay_setup =
  ru_env :: route_env
  ru_ads :: "'a ads_service"
  ru_jobId :: "nat \<Rightarrow> nat \<Rightarrow> string"
  ru_token :: "nat \<Rightarrow> nat \<Rightarrow> string"
  ru_lost :: "nat \<Rightarrow> bool"
  ru_delay :: "nat \<Rightarrow> nat"
  ru_account :: string
  ru_preview :: bool

record 'a relay_world =
  rv_db :: fleet_db
  rv_buckets :: buckets
  rv_ads :: 'a
  rv_now :: time
  rv_deadline :: time
  rv_calls :: nat

section \<open>From the endpoint's replies to the worker's\<close>

definition mode_text :: "schedule_mode \<Rightarrow> string" where
  "mode_text m = (case m of Learning \<Rightarrow> ''learning'' | Scheduled \<Rightarrow> ''scheduled'' | ScheduleShift \<Rightarrow> ''schedule-shift''
     | OffCycle \<Rightarrow> ''off-cycle'')"

definition raw_of_window :: "execution_window \<Rightarrow> raw_window" where
  "raw_of_window x = \<lparr> xw_invocationId = Some (w_invocationId x), xw_phaseOneStopAt = Some (w_phaseOneStopAt x),
     xw_hardStopAt = Some (w_hardStopAt x), xw_nextExpectedStartAt = Some (w_nextExpectedStartAt x),
     xw_handoffMarginMs = Some (w_handoffMarginMs x), xw_scheduleMode = Some (mode_text (w_scheduleMode x)),
     xw_shouldYield = Some (w_shouldYield x) \<rparr>"

definition raw_of_recovered :: "recovered_window \<Rightarrow> raw_window" where
  "raw_of_recovered x = \<lparr> xw_invocationId = Some (rw_invocationId x), xw_phaseOneStopAt = Some (rw_phaseOneStopAt x),
     xw_hardStopAt = Some (rw_hardStopAt x), xw_nextExpectedStartAt = rw_nextExpectedStartAt x,
     xw_handoffMarginMs = Some (rw_handoffMarginMs x), xw_scheduleMode = Some ''recovered'',
     xw_shouldYield = Some (rw_shouldYield x) \<rparr>"

definition job_of_lease :: "bridge_lease \<Rightarrow> job" where
  "job_of_lease l = \<lparr> jb_jobId = l_jobId l, jb_leaseToken = l_leaseToken l, jb_customerId = l_customerId l,
     jb_campaignId = l_campaignId l, jb_exactSuffix = l_exactSuffix l \<rparr>"

definition error_text :: "route_error \<Rightarrow> string" where
  "error_text e = (case e of Text s \<Rightarrow> s | Raised _ \<Rightarrow> ''Worker request failed'')"

definition reply_of :: "route_body \<Rightarrow> reply" where
  "reply_of b = (case b of
      ErrorBody e \<Rightarrow> empty_reply\<lparr>rp_error := Some (error_text e)\<rparr>
    | ManifestBody p m \<Rightarrow> empty_reply\<lparr>rp_ok := Some True, rp_accountIds := Some (mf_accountIds m),
        rp_managerCustomerId := Some (mf_managerCustomerId m), rp_campaignCount := Some (mf_campaignCount m),
        rp_executionWindow := map_option raw_of_window (mf_executionWindow m)\<rparr>
    | JobsBody p ls \<Rightarrow> empty_reply\<lparr>rp_ok := Some True, rp_jobs := Some (map job_of_lease ls)\<rparr>
    | WindowBody r \<Rightarrow> empty_reply\<lparr>rp_ok := Some True, rp_invocationId := Some (rw_invocationId r),
        rp_executionWindow := Some (raw_of_recovered r)\<rparr>
    | CompletedBody d \<Rightarrow> empty_reply\<lparr>rp_ok := Some True\<rparr>
    | RenewedBody allRenewed n stale lease \<Rightarrow> empty_reply\<lparr>rp_ok := Some True, rp_allRenewed := Some allRenewed\<rparr>
    | AckedBody allApplied rs \<Rightarrow> empty_reply\<lparr>rp_ok := Some True, rp_allApplied := Some allApplied\<rparr>)"

definition response_of :: "response \<Rightarrow> http_response" where
  "response_of r = \<lparr> hr_status = fst r, hr_text = ''{}'', hr_json = Some (reply_of (snd r)) \<rparr>"

section \<open>The services of a worker\<close>

definition tick :: "'a relay_setup \<Rightarrow> 'a relay_world \<Rightarrow> 'a relay_world" where
  "tick u w = w\<lparr>rv_calls := rv_calls w + 1, rv_now := rv_now w + int (ru_delay u (rv_calls w))\<rparr>"

definition request_env :: "'a relay_setup \<Rightarrow> string \<Rightarrow> nat \<Rightarrow> time \<Rightarrow> route_env" where
  "request_env u token n now = (ru_env u)\<lparr>re_now := now, re_header := [''authorization'' \<mapsto> ''Bearer '' @ token],
     re_jobId := ru_jobId u n, re_token := ru_token u n, re_uuid := ru_jobId u n 0\<rparr>"

definition serve_request :: "route_env \<Rightarrow> http_payload \<Rightarrow> fleet_db \<Rightarrow> buckets \<Rightarrow> response \<times> fleet_db \<times> buckets" where
  "serve_request env payload db bs =
     (case payload of HttpGet q \<Rightarrow> GET env q db bs | HttpPost ms \<Rightarrow> POST env (Parsed (JObj ms)) db bs)"

definition fetch_bridge :: "'a relay_setup \<Rightarrow> string \<Rightarrow> http_payload \<Rightarrow> ('a relay_world, http_response) act" where
  "fetch_bridge u token payload w =
     (let n = rv_calls w; w1 = tick u w in
      if ru_lost u n then (Inl ''Address unavailable'', w1)
      else (case serve_request (request_env u token n (rv_now w1)) payload (rv_db w1) (rv_buckets w1) of
          (r, db', bs') \<Rightarrow> (Inr (response_of r), w1\<lparr>rv_db := db', rv_buckets := bs'\<rparr>)))"

definition call_ads ::
  "'a relay_setup \<Rightarrow> ('a \<Rightarrow> (string + 'b) \<times> 'a) \<Rightarrow> ('a relay_world, 'b) act" where
  "call_ads u f w = (case f (rv_ads w) of (r, a) \<Rightarrow> (r, (tick u w)\<lparr>rv_ads := a\<rparr>))"

definition relay_services :: "'a relay_setup \<Rightarrow> 'a relay_world services" where
  "relay_services u = \<lparr>
     sv_fetch = fetch_bridge u,
     sv_search = (\<lambda>ids. call_ads u (ads_search (ru_ads u) ids)),
     sv_mutateAll = (\<lambda>ops. call_ads u (ads_mutateAll (ru_ads u) ops)),
     sv_accounts = (\<lambda>ids n. call_ads u (ads_accounts (ru_ads u) ids n)),
     sv_select = (\<lambda>a. ret ()),
     sv_currentAccount = (\<lambda>w. ru_account u),
     sv_isPreview = (\<lambda>w. ru_preview u),
     sv_uuid = (\<lambda>w. ru_jobId u (rv_calls w) 0),
     sv_remaining = (\<lambda>w. (rv_deadline w - rv_now w) div 1000),
     sv_now = rv_now,
     sv_sleep = (\<lambda>d w. w\<lparr>rv_now := rv_now w + d\<rparr>) \<rparr>"

section \<open>The clock of the composed system\<close>

lemma tick_fields [simp]:
  "rv_now (tick u w) = rv_now w + int (ru_delay u (rv_calls w))" "rv_db (tick u w) = rv_db w"
  "rv_buckets (tick u w) = rv_buckets w" "rv_ads (tick u w) = rv_ads w" "rv_calls (tick u w) = rv_calls w + 1"
  by (simp_all add: tick_def)

lemma div_split: "(x - d) div 1000 \<le> x div 1000 - d div (1000::int)"
proof -
  have "x div 1000 = (x - d) div 1000 + d div 1000 + ((x - d) mod 1000 + d mod 1000) div 1000"
    using div_add1_eq [of "x - d" d 1000] by simp
  moreover have "0 \<le> ((x - d) mod 1000 + d mod 1000) div 1000" by simp
  ultimately show ?thesis by linarith
qed

lemma fetch_bridge_now: "rv_now w \<le> rv_now (snd (fetch_bridge u token payload w))"
  by (auto simp: fetch_bridge_def Let_def split: prod.split)

lemma call_ads_now: "rv_now w \<le> rv_now (snd (call_ads u f w))"
  by (auto simp: call_ads_def split: prod.split)

interpretation relay: relay_clock "relay_services u" for u :: "'a relay_setup"
proof
  fix d :: ms and w :: "'a relay_world"
  show "sv_remaining (relay_services u) (sv_sleep (relay_services u) d w) \<le> sv_remaining (relay_services u) w - d div 1000"
    using div_split [of "rv_deadline w - rv_now w" d] by (simp add: relay_services_def algebra_simps)
qed (simp_all add: relay_services_def fetch_bridge_now call_ads_now)

text \<open>C14: the hourly worker always gives up its slot. Whatever Google Ads answers, however slow the calls are and
  whichever requests are lost, the relay loop of the manager account ends, after at most one batch per 50
  seconds of its window and one more, and so does the first phase of every child account.\<close>

theorem worker_always_ends:
  "(\<exists>n w'. runContinuousRelay (relay_services u) cf win w = Some (n, w')
      \<and> int n * 50000 \<le> max 0 (ew_hardStopAtMs win - rv_now w) + 50000)
   \<and> (\<exists>r w'. bootstrapAccount (relay_services u) cf child w = Some (r, w'))"
  using relay.runContinuousRelay_ends [of u cf win w] relay.bootstrapAccount_ends [of u cf child w]
  by (simp add: relay_services_def)

end
