(* ===== verification/Cross_Process_Lock.thy ===== *)
theory Cross_Process_Lock
  imports Fleet_Prelude
begin

text \<open>
  Critical sections across processes: \<open>web/lib/cross-process-lock.ts\<close>. The first part is the composition of
  the database lock with its file-lock fallback around a piece of work that may throw after it has changed
  state. The second part is the file lock itself as a step relation over any number of processes, one step
  per file-system call, so that every interleaving is covered. PostgreSQL's advisory lock is a parameter.
\<close>

section \<open>Choosing the lock\<close>

text \<open>What the database part of a call meets: no \<open>DATABASE_URL\<close>, an error while connecting or locking, or the lock.\<close>

datatype 'e db_lock = NoDatabase | DatabaseError 'e | DatabaseLocked

text \<open>Work is a state transformer that may throw; what it changed before throwing stays changed.\<close>

type_synonym ('s, 'e, 'a) work = "'s \<Rightarrow> ('e + 'a) \<times> 's"

definition withDatabaseLock :: "'e db_lock \<Rightarrow> ('s, 'e, 'a) work \<Rightarrow> 's \<Rightarrow> ('e + 'a option) \<times> 's" where
  "withDatabaseLock db work s =
     (case db of
        NoDatabase \<Rightarrow> (Inr None, s)
      | DatabaseError e \<Rightarrow> (Inl e, s)
      | DatabaseLocked \<Rightarrow> (case work s of (Inl e, s') \<Rightarrow> (Inl e, s') | (Inr v, s') \<Rightarrow> (Inr (Some v), s')))"

text \<open>\<open>None\<close>: the lock was acquired; \<open>Some e\<close>: it timed out, or creating the file failed.\<close>

definition withFileLock :: "'e option \<Rightarrow> ('s, 'e, 'a) work \<Rightarrow> 's \<Rightarrow> ('e + 'a) \<times> 's" where
  "withFileLock refused work s = (case refused of Some e \<Rightarrow> (Inl e, s) | None \<Rightarrow> work s)"

definition withCrossProcessLock ::
  "bool \<Rightarrow> 'e db_lock \<Rightarrow> 'e option \<Rightarrow> ('s, 'e, 'a) work \<Rightarrow> 's \<Rightarrow> ('e + 'a) \<times> 's" where
  "withCrossProcessLock distributedRequired db refused work s =
     (case withDatabaseLock db work s of
        (Inr (Some v), s') \<Rightarrow> (Inr v, s')
      | (Inr None, s') \<Rightarrow> withFileLock refused work s'
      | (Inl e, s') \<Rightarrow> if distributedRequired then (Inl e, s') else withFileLock refused work s')"

text \<open>Work that counts how often it was started.\<close>

definition counting :: "('s, 'e, 'a) work \<Rightarrow> (nat \<times> 's, 'e, 'a) work" where
  "counting work = (\<lambda>(n, s). case work s of (r, s') \<Rightarrow> (r, Suc n, s'))"

text \<open>Work that does not throw is run exactly once when a lock is obtained, under the database lock or the file
  lock, and never without one: if neither can be had, or the database is required and unavailable, it is not
  started at all and the caller sees the error.\<close>

theorem successful_work_runs_once:
  assumes "work s = (Inr v, s')"
  shows "withCrossProcessLock req db refused (counting work) (0, s) =
    (case db of
       DatabaseLocked \<Rightarrow> (Inr v, 1, s')
     | NoDatabase \<Rightarrow> (case refused of Some e \<Rightarrow> (Inl e, 0, s) | None \<Rightarrow> (Inr v, 1, s'))
     | DatabaseError e \<Rightarrow> if req then (Inl e, 0, s)
                          else (case refused of Some e' \<Rightarrow> (Inl e', 0, s) | None \<Rightarrow> (Inr v, 1, s')))"
  using assms by (auto simp: withCrossProcessLock_def withDatabaseLock_def withFileLock_def counting_def
      split: db_lock.splits option.splits)

theorem successful_work_runs_once_witness:
  "withCrossProcessLock False NoDatabase (None :: string option) (counting (\<lambda>s :: nat. (Inr True, s + 5))) (0, 1) = (Inr True, 1, 6)"
  using successful_work_runs_once [of "\<lambda>s :: nat. (Inr True, s + 5)" 1 True 6 False NoDatabase "None :: string option"] by simp

text \<open>Work that throws under the database lock is started a second time under the file lock, from the state its
  first run left behind, unless the deployment requires the database; with the database required, or
  without a database, it runs once. The fallback meant for a broken database also catches errors of the work.\<close>

theorem failing_work_runs_again:
  assumes "work s = (Inl e, s1)" "work s1 = (r2, s2)"
  shows "withCrossProcessLock False DatabaseLocked None (counting work) (0, s) = (r2, 2, s2)
    \<and> withCrossProcessLock True DatabaseLocked None (counting work) (0, s) = (Inl e, 1, s1)
    \<and> withCrossProcessLock req NoDatabase None (counting work) (0, s) = (Inl e, 1, s1)"
  using assms by (simp add: withCrossProcessLock_def withDatabaseLock_def withFileLock_def counting_def)

theorem failing_work_runs_again_witness:
  "withCrossProcessLock False DatabaseLocked None (counting (\<lambda>balance :: int. (Inl ''declined'' :: string + unit, balance - 10))) (0, 100)
     = (Inl ''declined'', 2, 80)"
  using failing_work_runs_again [of "\<lambda>balance :: int. (Inl ''declined'' :: string + unit, balance - 10)" 100 "''declined''" 90 "Inl ''declined''" 80 False]
  by simp

section \<open>The file lock\<close>

text \<open>A process waits, has created the lock file but not yet written its metadata, holds the lock, or has read
  a lock file that it judges abandoned and is about to remove. The file carries the creation time, or
  nothing yet; \<open>lf_owner\<close> is the process that created it (it writes through its own handle, so a
  file that was replaced meanwhile is not affected by the write).\<close>

datatype lock_pc = Trying | Created | Holding | Removing

record lock_file =
  lf_owner :: nat
  lf_createdAt :: "time option"

record lock_state =
  ls_file :: "lock_file option"
  ls_pc :: "nat \<Rightarrow> lock_pc"
  ls_now :: time

definition abandoned :: "ms \<Rightarrow> time \<Rightarrow> lock_file \<Rightarrow> bool" where
  "abandoned staleMs now f = (case lf_createdAt f of None \<Rightarrow> True | Some c \<Rightarrow> c = 0 \<or> now - c > staleMs)"

text \<open>\<open>cleanup\<close> says whether processes get to judge lock files abandoned: with it the relation is the code's, without
  it the runs in which nobody ever does.\<close>

inductive lock_step :: "ms \<Rightarrow> bool \<Rightarrow> lock_state \<Rightarrow> lock_state \<Rightarrow> bool" for staleMs :: ms and cleanup :: bool where
  create: "ls_pc s p = Trying \<Longrightarrow> ls_file s = None \<Longrightarrow>
     lock_step staleMs cleanup s (s\<lparr>ls_file := Some \<lparr>lf_owner = p, lf_createdAt = None\<rparr>, ls_pc := (ls_pc s)(p := Created)\<rparr>)"
| fill: "ls_pc s p = Created \<Longrightarrow>
     lock_step staleMs cleanup s (s\<lparr>ls_file := map_option (\<lambda>f. if lf_owner f = p then f\<lparr>lf_createdAt := Some (ls_now s)\<rparr> else f) (ls_file s),
                           ls_pc := (ls_pc s)(p := Holding)\<rparr>)"
| judge: "cleanup \<Longrightarrow> ls_pc s p = Trying \<Longrightarrow> ls_file s = Some f \<Longrightarrow> abandoned staleMs (ls_now s) f \<Longrightarrow>
     lock_step staleMs cleanup s (s\<lparr>ls_pc := (ls_pc s)(p := Removing)\<rparr>)"
| remove: "ls_pc s p = Removing \<Longrightarrow>
     lock_step staleMs cleanup s (s\<lparr>ls_file := None, ls_pc := (ls_pc s)(p := Trying)\<rparr>)"
| release: "ls_pc s p = Holding \<Longrightarrow>
     lock_step staleMs cleanup s (s\<lparr>ls_file := None, ls_pc := (ls_pc s)(p := Trying)\<rparr>)"
| tick: "0 \<le> d \<Longrightarrow> lock_step staleMs cleanup s (s\<lparr>ls_now := ls_now s + d\<rparr>)"

inductive_cases lock_stepE: "lock_step staleMs cleanup s t"

definition lock_init :: "lock_state \<Rightarrow> bool" where
  "lock_init s \<longleftrightarrow> ls_file s = None \<and> (\<forall>p. ls_pc s p = Trying)"

definition owner_of :: "lock_state \<Rightarrow> nat option" where
  "owner_of s = (case ls_file s of None \<Rightarrow> None | Some f \<Rightarrow> Some (lf_owner f))"

definition owns :: "lock_state \<Rightarrow> bool" where
  "owns s \<longleftrightarrow> (\<forall>p. ls_pc s p \<noteq> Removing \<and> (ls_pc s p = Created \<or> ls_pc s p = Holding \<longrightarrow> owner_of s = Some p))"

lemma owns_step:
  assumes o: "owns s" and "lock_step staleMs False s t"
  shows "owns t"
proof -
  have one: "ls_pc s q = Trying" if "owner_of s = None \<or> owner_of s = Some p" "q \<noteq> p" for p q
    using o that unfolding owns_def by (cases "ls_pc s q") auto
  from assms(2) show ?thesis
  proof cases
    case (create p)
    have "owner_of s = None" using create by (simp add: owner_of_def)
    then have "ls_pc s q = Trying" if "q \<noteq> p" for q using one that by blast
    then show ?thesis using create by (auto simp: owns_def owner_of_def)
  next
    case (fill p)
    have w: "owner_of s = Some p" using o fill by (simp add: owns_def)
    then have "ls_pc s q = Trying" if "q \<noteq> p" for q using one that by blast
    then show ?thesis using fill w by (auto simp: owns_def owner_of_def split: option.splits)
  next
    case (judge p f)
    then show ?thesis by simp
  next
    case (remove p)
    then show ?thesis using o by (simp add: owns_def)
  next
    case (release p)
    have "owner_of s = Some p" using o release by (simp add: owns_def)
    then have "ls_pc s q = Trying" if "q \<noteq> p" for q using one that by blast
    then show ?thesis using release by (auto simp: owns_def)
  next
    case (tick d)
    then show ?thesis using o by (simp add: owns_def owner_of_def)
  qed
qed

interpretation quiet_lock: step_invariant lock_init "lock_step staleMs False" owns for staleMs
proof unfold_locales
  show "owns s" if "lock_init s" for s using that by (simp add: lock_init_def owns_def)
qed (rule owns_step)

text \<open>C34: the file lock gives mutual exclusion in every interleaving in which no process judges a lock file
  abandoned: two processes are never in the critical section together.\<close>

theorem file_lock_exclusive:
  assumes "reachable_from lock_init (lock_step staleMs False) s" and "ls_pc s p = Holding" "ls_pc s q = Holding"
  shows "p = q"
proof -
  have "owner_of s = Some p" "owner_of s = Some q"
    using quiet_lock.reachable_inv [OF assms(1), unfolded owns_def] assms(2,3) by blast+
  then show ?thesis by simp
qed

definition lock_start :: lock_state where
  "lock_start = \<lparr> ls_file = None, ls_pc = (\<lambda>_. Trying), ls_now = 100 \<rparr>"

lemma lock_start_reachable: "reachable_from lock_init (lock_step m b) lock_start"
  by (rule reachable_from.init) (simp add: lock_start_def lock_init_def)

theorem file_lock_exclusive_witness:
  "\<exists>s. reachable_from lock_init (lock_step 120000 False) s \<and> ls_pc s 1 = Holding \<and> (\<forall>q. ls_pc s q = Holding \<longrightarrow> 1 = q)"
proof -
  let ?s1 = "lock_start\<lparr>ls_file := Some \<lparr>lf_owner = 1, lf_createdAt = None\<rparr>, ls_pc := (ls_pc lock_start)(1 := Created)\<rparr>"
  have 1: "reachable_from lock_init (lock_step 120000 False) ?s1"
    by (rule reachable_from.step [OF lock_start_reachable lock_step.create]) (simp_all add: lock_start_def)
  let ?s2 = "?s1\<lparr>ls_file := map_option (\<lambda>f. if lf_owner f = 1 then f\<lparr>lf_createdAt := Some (ls_now ?s1)\<rparr> else f) (ls_file ?s1),
                 ls_pc := (ls_pc ?s1)(1 := Holding)\<rparr>"
  have 2: "reachable_from lock_init (lock_step 120000 False) ?s2"
    by (rule reachable_from.step [OF 1 lock_step.fill]) simp
  have h: "ls_pc ?s2 1 = Holding" by simp
  with 2 file_lock_exclusive [OF 2 h] show ?thesis by blast
qed

text \<open>The clean-up of abandoned lock files breaks mutual exclusion, whatever the stale time: a process that
  looks at the lock file between its creation and the writing of its metadata reads an empty file, takes it
  for garbage and removes it, and then both processes enter the critical section.\<close>

theorem file_lock_race:
  "\<exists>s. reachable_from lock_init (lock_step staleMs True) s \<and> ls_pc s 3 = Holding \<and> ls_pc s 2 = Holding"
proof -
  let ?R = "reachable_from lock_init (lock_step staleMs True)"
  let ?c1 = "\<lparr>lf_owner = 3, lf_createdAt = None\<rparr>" and ?c2 = "\<lparr>lf_owner = 2, lf_createdAt = None\<rparr>"
  let ?st = "\<lambda>f a b. \<lparr> ls_file = f, ls_pc = (\<lambda>q. if q = 3 then a else if q = 2 then b else Trying), ls_now = 100 \<rparr>"
  have start: "?R (?st None Trying Trying)"
    by (rule reachable_from.init) (simp add: lock_init_def)
  note go = reachable_from.step
  have u: "(\<lambda>q :: nat. if q = 3 then a else if q = 2 then b else Trying)(3 := c) = (\<lambda>q. if q = 3 then c else if q = 2 then b else Trying)"
    "(\<lambda>q :: nat. if q = 3 then a else if q = 2 then b else Trying)(2 := c) = (\<lambda>q. if q = 3 then a else if q = 2 then c else Trying)"
    for a b c :: lock_pc by (simp_all add: fun_eq_iff)
  have 1: "lock_step staleMs True (?st None Trying Trying) (?st (Some ?c1) Created Trying)"
    using lock_step.create [where s = "?st None Trying Trying" and p = 3 and staleMs = staleMs and cleanup = True] by (simp add: u)
  have 2: "lock_step staleMs True (?st (Some ?c1) Created Trying) (?st (Some ?c1) Created Removing)"
    using lock_step.judge [where s = "?st (Some ?c1) Created Trying" and p = 2 and staleMs = staleMs and cleanup = True]
    by (simp add: u abandoned_def)
  have 3: "lock_step staleMs True (?st (Some ?c1) Created Removing) (?st None Created Trying)"
    using lock_step.remove [where s = "?st (Some ?c1) Created Removing" and p = 2 and staleMs = staleMs and cleanup = True]
    by (simp add: u)
  have 4: "lock_step staleMs True (?st None Created Trying) (?st (Some ?c2) Created Created)"
    using lock_step.create [where s = "?st None Created Trying" and p = 2 and staleMs = staleMs and cleanup = True] by (simp add: u)
  have 5: "lock_step staleMs True (?st (Some ?c2) Created Created) (?st (Some ?c2) Holding Created)"
    using lock_step.fill [where s = "?st (Some ?c2) Created Created" and p = 3 and staleMs = staleMs and cleanup = True] by (simp add: u)
  have 6: "lock_step staleMs True (?st (Some ?c2) Holding Created) (?st (Some (?c2\<lparr>lf_createdAt := Some 100\<rparr>)) Holding Holding)"
    using lock_step.fill [where s = "?st (Some ?c2) Holding Created" and p = 2 and staleMs = staleMs and cleanup = True] by (simp add: u)
  have "?R (?st (Some (?c2\<lparr>lf_createdAt := Some 100\<rparr>)) Holding Holding)"
    by (rule go [OF go [OF go [OF go [OF go [OF go [OF start 1] 2] 3] 4] 5] 6])
  then show ?thesis by (intro exI conjI) (assumption, simp_all)
qed

end
