(* ===== verification/Capacity_Planner.thy ===== *)
theory Capacity_Planner
  imports Js_Value
begin

text \<open>
  The capacity model of \<open>web/lib/capacity-planner.ts\<close>: validation of the planning inputs, the browser,
  fleet and infrastructure figures, the fourteen readiness checks and the verdicts, the reading of the
  inputs from the environment and the text report. An object of settings is a partial map from its keys, so
  that object spread is \<open>++\<close> on maps and a key that is present with the value \<open>undefined\<close> stays
  distinguishable from a missing one. Arithmetic is on exact rationals. A text with interpolated numbers is a
  list of pieces; how a double is printed is not modelled.
\<close>

section \<open>Inputs\<close>

datatype setting_key =
    Campaigns | SavedCampaignLimit | ActiveCampaignLimit | BrowserWorkers | DedicatedGatewayPorts
  | CampaignsPerShard | ConfiguredShardCount | MaxAccountsPerScript | MaxConcurrentShardScripts
  | CaptureIntervalSeconds | FleetPollSeconds | FleetActiveSecondsPerHour | TargetMaxUtilization
  | AveragePageMegabytes | NetworkOverheadRatio | MeasuredBrowserMemoryMb | AvailableMemoryMb
  | AvailableNetworkMbps | MeasuredDatabaseWritesPerSecond | SoakTestHours | RequiredSoakTestHours

datatype tunnel_mode = NoTunnel | QuickTunnel | NamedTunnel

type_synonym settings = "setting_key \<rightharpoonup> js_number"

record capacity_input =
  in_numbers :: settings
  in_tunnel :: tunnel_mode

text \<open>A partial input: the tunnel mode may be missing as well.\<close>

record capacity_overrides =
  ov_numbers :: settings
  ov_tunnel :: "tunnel_mode option"

definition DEFAULT_CAPACITY_INPUT :: capacity_input where
  "DEFAULT_CAPACITY_INPUT = \<lparr>
     in_numbers = map_of [
       (Campaigns, Num 500), (SavedCampaignLimit, Num 5000), (ActiveCampaignLimit, Num 500),
       (BrowserWorkers, Num 8), (DedicatedGatewayPorts, Num 104), (CampaignsPerShard, Num 40),
       (MaxAccountsPerScript, Num 50), (MaxConcurrentShardScripts, Num 30), (CaptureIntervalSeconds, Num 58),
       (FleetPollSeconds, Num 50), (FleetActiveSecondsPerHour, Num (56 * 60)), (TargetMaxUtilization, Num (65 / 100)),
       (AveragePageMegabytes, Num 5), (NetworkOverheadRatio, Num (3 / 10)), (SoakTestHours, Num 0),
       (RequiredSoakTestHours, Num 72)],
     in_tunnel = NoTunnel \<rparr>"

definition field :: "settings \<Rightarrow> setting_key \<Rightarrow> js_number" where
  "field m k = (case m k of None \<Rightarrow> Undefined | Some v \<Rightarrow> v)"

text \<open>\<open>overrides.k ?? dflt\<close>\<close>

definition override :: "settings \<Rightarrow> setting_key \<Rightarrow> js_number \<Rightarrow> js_number" where
  "override m k dflt = (case field m k of Undefined \<Rightarrow> dflt | v \<Rightarrow> v)"

section \<open>Validation\<close>

datatype range_error =
    MustBePositiveInteger setting_key
  | MustBeNonNegative setting_key
  | MustBePositiveWhenSupplied setting_key
  | ActiveSecondsTooLarge
  | UtilizationOutOfRange
  | MustBeNumeric string

definition requirePositiveInteger :: "settings \<Rightarrow> setting_key \<Rightarrow> range_error + unit" where
  "requirePositiveInteger m k =
     (case field m k of
        Num v \<Rightarrow> throwIf (\<not> is_safe_integer v \<or> v \<le> 0) (MustBePositiveInteger k)
      | _ \<Rightarrow> Inl (MustBePositiveInteger k))"

definition requireNonNegativeNumber :: "settings \<Rightarrow> setting_key \<Rightarrow> range_error + unit" where
  "requireNonNegativeNumber m k =
     (case field m k of Num v \<Rightarrow> throwIf (v < 0) (MustBeNonNegative k) | _ \<Rightarrow> Inl (MustBeNonNegative k))"

definition requireOptionalPositiveNumber :: "settings \<Rightarrow> setting_key \<Rightarrow> range_error + unit" where
  "requireOptionalPositiveNumber m k =
     (case field m k of
        Num v \<Rightarrow> throwIf (v \<le> 0) (MustBePositiveWhenSupplied k)
      | Undefined \<Rightarrow> Inr ()
      | _ \<Rightarrow> Inl (MustBePositiveWhenSupplied k))"

definition requireUtilization :: "settings \<Rightarrow> range_error + unit" where
  "requireUtilization m =
     (case field m TargetMaxUtilization of
        Num v \<Rightarrow> throwIf (v \<le> 0 \<or> 1 \<le> v) UtilizationOutOfRange
      | _ \<Rightarrow> Inl UtilizationOutOfRange)"

definition checkActiveSeconds :: "settings \<Rightarrow> range_error + unit" where
  "checkActiveSeconds m =
     throwIf (case field m FleetActiveSecondsPerHour of Num v \<Rightarrow> 3600 < v | _ \<Rightarrow> False) ActiveSecondsTooLarge"

definition positive_integers :: "setting_key list" where
  "positive_integers =
     [Campaigns, SavedCampaignLimit, ActiveCampaignLimit, BrowserWorkers, DedicatedGatewayPorts, CampaignsPerShard,
      ConfiguredShardCount, MaxAccountsPerScript, MaxConcurrentShardScripts, CaptureIntervalSeconds, FleetPollSeconds,
      FleetActiveSecondsPerHour]"

definition validateInput :: "settings \<Rightarrow> range_error + unit" where
  "validateInput m =
     bindE (mapE (requirePositiveInteger m) positive_integers) (\<lambda>_.
     bindE (mapE (requireNonNegativeNumber m) [AveragePageMegabytes, NetworkOverheadRatio, SoakTestHours]) (\<lambda>_.
     bindE (requirePositiveInteger m RequiredSoakTestHours) (\<lambda>_.
     bindE (mapE (requireOptionalPositiveNumber m)
              [MeasuredBrowserMemoryMb, AvailableMemoryMb, AvailableNetworkMbps, MeasuredDatabaseWritesPerSecond]) (\<lambda>_.
     bindE (checkActiveSeconds m) (\<lambda>_.
       requireUtilization m)))))"

section \<open>The plan\<close>

text \<open>After validation every required number is finite.\<close>

definition num :: "settings \<Rightarrow> setting_key \<Rightarrow> rat" where
  "num m k = (case field m k of Num v \<Rightarrow> v | _ \<Rightarrow> 0)"

definition optional_num :: "settings \<Rightarrow> setting_key \<Rightarrow> rat option" where
  "optional_num m k = (case field m k of Num v \<Rightarrow> Some v | _ \<Rightarrow> None)"

definition ceil_js :: "rat \<Rightarrow> rat" where
  "ceil_js r = of_int \<lceil>r\<rceil>"

text \<open>\<open>Math.round\<close> rounds halves up.\<close>

definition rounded_to :: "rat \<Rightarrow> nat \<Rightarrow> rat" where
  "rounded_to v precision = of_int \<lfloor>v * 10 ^ precision + 1 / 2\<rfloor> / 10 ^ precision"

text \<open>A quotient that is not a number is refused by validation under the name of one of its operands, before the
  shard count is looked at.\<close>

definition default_shards :: "js_number \<Rightarrow> js_number \<Rightarrow> js_number" where
  "default_shards campaigns perShard =
     (case (campaigns, perShard) of
        (Num c, Num p) \<Rightarrow> if p = 0 then NaN else Num (ceil_js (c / p))
      | _ \<Rightarrow> NaN)"

definition plan_input :: "capacity_overrides \<Rightarrow> capacity_input" where
  "plan_input ov =
     (let m = ov_numbers ov; d = in_numbers DEFAULT_CAPACITY_INPUT;
          campaigns = override m Campaigns (field d Campaigns);
          perShard = override m CampaignsPerShard (field d CampaignsPerShard);
          shards = override m ConfiguredShardCount (default_shards campaigns perShard)
      in \<lparr> in_numbers = (d ++ m)(Campaigns \<mapsto> campaigns, CampaignsPerShard \<mapsto> perShard, ConfiguredShardCount \<mapsto> shards),
           in_tunnel = (case ov_tunnel ov of Some t \<Rightarrow> t | None \<Rightarrow> in_tunnel DEFAULT_CAPACITY_INPUT) \<rparr>)"

text \<open>Browser admission.\<close>

definition requested_campaigns :: "settings \<Rightarrow> rat" where
  "requested_campaigns m = min (num m Campaigns) (num m ActiveCampaignLimit)"

definition admitted_campaigns :: "settings \<Rightarrow> rat" where
  "admitted_campaigns m = min (min (requested_campaigns m) (num m BrowserWorkers)) (num m DedicatedGatewayPorts)"

definition true_parallel_ready :: "settings \<Rightarrow> bool" where
  "true_parallel_ready m \<longleftrightarrow> requested_campaigns m = num m Campaigns \<and> admitted_campaigns m = num m Campaigns"

definition shortfall :: "settings \<Rightarrow> setting_key \<Rightarrow> rat" where
  "shortfall m k = max 0 (num m Campaigns - num m k)"

text \<open>Fleet throughput, per second.\<close>

definition base_shards :: "settings \<Rightarrow> rat" where
  "base_shards m = ceil_js (num m Campaigns / num m CampaignsPerShard)"

definition duty_cycle :: "settings \<Rightarrow> rat" where
  "duty_cycle m = num m FleetActiveSecondsPerHour / 3600"

definition arrival_rate :: "settings \<Rightarrow> rat" where
  "arrival_rate m = num m Campaigns / num m CaptureIntervalSeconds"

definition raw_service_rate :: "settings \<Rightarrow> rat" where
  "raw_service_rate m = num m ConfiguredShardCount * num m CampaignsPerShard / num m FleetPollSeconds"

definition effective_service_rate :: "settings \<Rightarrow> rat" where
  "effective_service_rate m = raw_service_rate m * duty_cycle m"

definition fleet_utilization :: "settings \<Rightarrow> rat" where
  "fleet_utilization m = arrival_rate m / effective_service_rate m"

definition reserve_margin :: "settings \<Rightarrow> rat" where
  "reserve_margin m = (effective_service_rate m - arrival_rate m) / arrival_rate m"

definition shard_rate :: "settings \<Rightarrow> rat" where
  "shard_rate m = num m CampaignsPerShard / num m FleetPollSeconds * duty_cycle m"

definition recommended_shards :: "settings \<Rightarrow> rat" where
  "recommended_shards m = ceil_js (arrival_rate m / (shard_rate m * num m TargetMaxUtilization))"

definition recommended_per_shard :: "settings \<Rightarrow> rat" where
  "recommended_per_shard m = ceil_js (num m Campaigns / recommended_shards m)"

definition fanout_ready :: "settings \<Rightarrow> bool" where
  "fanout_ready m \<longleftrightarrow> num m CampaignsPerShard \<le> num m MaxAccountsPerScript"

definition execution_quota_ready :: "settings \<Rightarrow> bool" where
  "execution_quota_ready m \<longleftrightarrow> num m ConfiguredShardCount \<le> num m MaxConcurrentShardScripts
     \<and> recommended_shards m \<le> num m MaxConcurrentShardScripts"

definition stable_for_newest :: "settings \<Rightarrow> bool" where
  "stable_for_newest m \<longleftrightarrow> base_shards m \<le> num m ConfiguredShardCount \<and> fleet_utilization m < 1 \<and> fanout_ready m"

definition headroom_ready :: "settings \<Rightarrow> bool" where
  "headroom_ready m \<longleftrightarrow> recommended_shards m \<le> num m ConfiguredShardCount
     \<and> fleet_utilization m \<le> num m TargetMaxUtilization \<and> fanout_ready m \<and> execution_quota_ready m"

definition every_capture_possible :: "settings \<Rightarrow> bool" where
  "every_capture_possible m \<longleftrightarrow> num m FleetActiveSecondsPerHour = 3600 \<and> headroom_ready m"

text \<open>Infrastructure, each figure against its measurement.\<close>

definition network_mbps :: "settings \<Rightarrow> rat" where
  "network_mbps m = arrival_rate m * num m AveragePageMegabytes * 8 * (1 + num m NetworkOverheadRatio)"

definition required_writes :: "settings \<Rightarrow> rat" where
  "required_writes m = arrival_rate m * 3 / num m TargetMaxUtilization"

definition estimated_memory :: "settings \<Rightarrow> rat option" where
  "estimated_memory m = map_option (\<lambda>v. v * num m Campaigns) (optional_num m MeasuredBrowserMemoryMb)"

definition at_least :: "rat option \<Rightarrow> rat \<Rightarrow> bool" where
  "at_least measured needed = (case measured of None \<Rightarrow> False | Some v \<Rightarrow> needed \<le> v)"

definition memory_ready :: "settings \<Rightarrow> bool" where
  "memory_ready m = (case estimated_memory m of None \<Rightarrow> False | Some e \<Rightarrow> at_least (optional_num m AvailableMemoryMb) e)"

definition network_ready :: "settings \<Rightarrow> bool" where
  "network_ready m = at_least (optional_num m AvailableNetworkMbps) (network_mbps m)"

definition database_ready :: "settings \<Rightarrow> bool" where
  "database_ready m = at_least (optional_num m MeasuredDatabaseWritesPerSecond) (required_writes m)"

definition soak_ready :: "settings \<Rightarrow> bool" where
  "soak_ready m \<longleftrightarrow> num m RequiredSoakTestHours \<le> num m SoakTestHours"

definition queue_ready :: "settings \<Rightarrow> bool" where
  "queue_ready m \<longleftrightarrow> num m Campaigns \<le> num m SavedCampaignLimit \<and> stable_for_newest m"

definition infrastructure_ready :: "capacity_input \<Rightarrow> bool" where
  "infrastructure_ready i \<longleftrightarrow> memory_ready (in_numbers i) \<and> network_ready (in_numbers i)
     \<and> database_ready (in_numbers i) \<and> in_tunnel i = NamedTunnel \<and> soak_ready (in_numbers i)"

definition ready_for_latest :: "capacity_input \<Rightarrow> bool" where
  "ready_for_latest i \<longleftrightarrow> queue_ready (in_numbers i) \<and> true_parallel_ready (in_numbers i)
     \<and> headroom_ready (in_numbers i) \<and> infrastructure_ready i"

definition ready_for_every_capture :: "capacity_input \<Rightarrow> bool" where
  "ready_for_every_capture i \<longleftrightarrow> ready_for_latest i \<and> every_capture_possible (in_numbers i)"

section \<open>The readiness checks\<close>

datatype piece = Txt string | Val rat

datatype check_status = Pass | Warn | Fail

record capacity_check =
  ck_id :: string
  ck_label :: string
  ck_status :: check_status
  ck_detail :: "piece list"

definition check_of :: "string \<Rightarrow> string \<Rightarrow> check_status \<Rightarrow> piece list \<Rightarrow> capacity_check" where
  "check_of i l st d = \<lparr>ck_id = i, ck_label = l, ck_status = st, ck_detail = d\<rparr>"

definition pass_if :: "bool \<Rightarrow> check_status \<Rightarrow> check_status" where
  "pass_if b other = (if b then Pass else other)"

definition browser_checks :: "settings \<Rightarrow> capacity_check list" where
  "browser_checks m = [
     check_of ''saved-capacity'' ''Saved campaign capacity''
       (pass_if (num m Campaigns \<le> num m SavedCampaignLimit) Fail)
       [Val (num m Campaigns), Txt '' requested of '', Val (num m SavedCampaignLimit), Txt '' available slots.''],
     check_of ''active-limit'' ''Configured active limit''
       (pass_if (num m Campaigns \<le> num m ActiveCampaignLimit) Fail)
       [Val (num m ActiveCampaignLimit), Txt '' active slots configured for '', Val (num m Campaigns), Txt '' campaigns.''],
     check_of ''browser-workers'' ''Browser worker capacity''
       (pass_if (shortfall m BrowserWorkers = 0) Fail)
       (if shortfall m BrowserWorkers = 0
        then [Val (num m BrowserWorkers), Txt '' workers cover all campaigns.'']
        else [Val (shortfall m BrowserWorkers),
              Txt '' additional isolated browser workers are required for true parallel operation.'']),
     check_of ''gateway-ports'' ''Dedicated proxy gateway ports''
       (pass_if (shortfall m DedicatedGatewayPorts = 0) Fail)
       (if shortfall m DedicatedGatewayPorts = 0
        then [Val (num m DedicatedGatewayPorts), Txt '' dedicated ports cover all campaigns.'']
        else [Val (shortfall m DedicatedGatewayPorts),
              Txt '' additional dedicated ports are required by the one-port-per-running-campaign lock.''])]"

definition fleet_checks :: "settings \<Rightarrow> capacity_check list" where
  "fleet_checks m = [
     check_of ''fleet-stability'' ''Fleet newest-value stability''
       (pass_if (stable_for_newest m) Fail)
       (if stable_for_newest m
        then [Txt ''Effective capacity '', Val (rounded_to (effective_service_rate m) 4),
              Txt '' updates/s exceeds arrival '', Val (rounded_to (arrival_rate m) 4), Txt '' updates/s.'']
        else [Txt ''Effective capacity '', Val (rounded_to (effective_service_rate m) 4),
              Txt '' updates/s does not safely cover arrival '', Val (rounded_to (arrival_rate m) 4), Txt '' updates/s.'']),
     check_of ''fleet-headroom'' ''Fleet safety headroom''
       (if headroom_ready m then Pass else if stable_for_newest m then Warn else Fail)
       [Val (num m ConfiguredShardCount), Txt '' shards configured; '', Val (recommended_shards m),
        Txt '' are required to hold utilization at or below '', Val (rounded_to (num m TargetMaxUtilization * 100) 1), Txt ''%.''],
     check_of ''google-account-fanout'' ''Google account fan-out''
       (pass_if (fanout_ready m) Fail)
       [Val (num m CampaignsPerShard), Txt '' worst-case child accounts per shard against a '',
        Val (num m MaxAccountsPerScript), Txt ''-account planning limit.''],
     check_of ''google-shard-executions'' ''Concurrent shard execution budget''
       (pass_if (execution_quota_ready m) Fail)
       [Val (recommended_shards m), Txt '' recommended shard scripts against a '',
        Val (num m MaxConcurrentShardScripts), Txt ''-execution planning limit.''],
     check_of ''continuous-delivery'' ''Every-capture continuity''
       (pass_if (every_capture_possible m) Warn)
       (if every_capture_possible m then [Txt ''The capacity model has no planned hourly delivery gap.'']
        else [Val (3600 - num m FleetActiveSecondsPerHour),
              Txt '' seconds per hour have no planned Fleet polling; newest-value delivery remains possible, but intermediate captures can be superseded.''])]"

definition not_supplied :: "rat option \<Rightarrow> piece" where
  "not_supplied v = (case v of None \<Rightarrow> Txt ''not supplied'' | Some r \<Rightarrow> Val r)"

definition zero_or :: "rat option \<Rightarrow> rat" where
  "zero_or v = (case v of None \<Rightarrow> 0 | Some r \<Rightarrow> r)"

definition infrastructure_checks :: "capacity_input \<Rightarrow> capacity_check list" where
  "infrastructure_checks i = (let m = in_numbers i in [
     check_of ''public-ingress'' ''Stable public HTTPS ingress''
       (pass_if (in_tunnel i = NamedTunnel) Fail)
       [Txt (case in_tunnel i of
          NamedTunnel \<Rightarrow> ''A named production HTTPS endpoint is configured.''
        | QuickTunnel \<Rightarrow> ''A temporary Quick Tunnel is configured; its hostname and availability are not production-stable.''
        | NoTunnel \<Rightarrow> ''No named production HTTPS endpoint is configured.'')],
     check_of ''memory-proof'' ''Measured browser memory capacity''
       (pass_if (memory_ready m) Fail)
       (if memory_ready m
        then [Val (rounded_to (zero_or (estimated_memory m)) 0), Txt '' MB estimated against '',
              Val (rounded_to (zero_or (optional_num m AvailableMemoryMb)) 0), Txt '' MB available.'']
        else [Txt ''Per-browser memory and available production memory have not both been measured at target workload.'']),
     check_of ''network-proof'' ''Measured network capacity''
       (pass_if (network_ready m) Fail)
       [Val (rounded_to (network_mbps m) 1), Txt '' Mbps estimated at '', Val (num m AveragePageMegabytes),
        Txt '' MB per journey; measured available throughput is '', not_supplied (optional_num m AvailableNetworkMbps), Txt '' Mbps.''],
     check_of ''database-proof'' ''Measured database write capacity''
       (pass_if (database_ready m) Fail)
       [Val (rounded_to (required_writes m) 1), Txt '' writes/s required at the target utilization; measured capacity is '',
        not_supplied (optional_num m MeasuredDatabaseWritesPerSecond), Txt '' writes/s.''],
     check_of ''soak-proof'' ''Production soak evidence''
       (pass_if (soak_ready m) Fail)
       [Val (num m SoakTestHours), Txt '' of '', Val (num m RequiredSoakTestHours),
        Txt '' required hours completed at target load.'']])"

definition plan_checks :: "capacity_input \<Rightarrow> capacity_check list" where
  "plan_checks i = browser_checks (in_numbers i) @ fleet_checks (in_numbers i) @ infrastructure_checks i"

section \<open>\<open>planCapacity\<close>\<close>

record browser_plan =
  bp_requestedConcurrentCampaigns :: rat
  bp_admittedConcurrentCampaigns :: rat
  bp_queuedCampaigns :: rat
  bp_workerShortfall :: rat
  bp_gatewayPortShortfall :: rat
  bp_trueParallelReady :: bool

record fleet_plan =
  fp_baseShardCount :: rat
  fp_configuredShardCount :: rat
  fp_recommendedShardCount :: rat
  fp_recommendedCampaignsPerShard :: rat
  fp_arrivalRatePerSecond :: rat
  fp_rawServiceRatePerSecond :: rat
  fp_effectiveServiceRatePerSecond :: rat
  fp_utilization :: rat
  fp_reserveMargin :: rat
  fp_stableForNewestValue :: bool
  fp_safetyHeadroomReady :: bool
  fp_everyCaptureMathematicallyPossible :: bool
  fp_googleFanoutReady :: bool
  fp_shardExecutionQuotaReady :: bool

record infrastructure_plan =
  ip_estimatedNetworkMbps :: rat
  ip_requiredDatabaseWritesPerSecond :: rat
  ip_estimatedMemoryMb :: "rat option"
  ip_memoryMeasuredAndReady :: bool
  ip_networkMeasuredAndReady :: bool
  ip_databaseMeasuredAndReady :: bool
  ip_namedTunnelReady :: bool
  ip_soakReady :: bool

record capacity_plan =
  cp_input :: capacity_input
  cp_browser :: browser_plan
  cp_fleet :: fleet_plan
  cp_infrastructure :: infrastructure_plan
  cp_managedQueueReady :: bool
  cp_productionReadyForLatestValue :: bool
  cp_productionReadyForEveryCapture :: bool
  cp_checks :: "capacity_check list"

definition browser_plan_of :: "settings \<Rightarrow> browser_plan" where
  "browser_plan_of m = \<lparr>
     bp_requestedConcurrentCampaigns = requested_campaigns m,
     bp_admittedConcurrentCampaigns = admitted_campaigns m,
     bp_queuedCampaigns = max 0 (num m Campaigns - admitted_campaigns m),
     bp_workerShortfall = shortfall m BrowserWorkers,
     bp_gatewayPortShortfall = shortfall m DedicatedGatewayPorts,
     bp_trueParallelReady = true_parallel_ready m \<rparr>"

definition fleet_plan_of :: "settings \<Rightarrow> fleet_plan" where
  "fleet_plan_of m = \<lparr>
     fp_baseShardCount = base_shards m,
     fp_configuredShardCount = num m ConfiguredShardCount,
     fp_recommendedShardCount = recommended_shards m,
     fp_recommendedCampaignsPerShard = recommended_per_shard m,
     fp_arrivalRatePerSecond = rounded_to (arrival_rate m) 4,
     fp_rawServiceRatePerSecond = rounded_to (raw_service_rate m) 4,
     fp_effectiveServiceRatePerSecond = rounded_to (effective_service_rate m) 4,
     fp_utilization = rounded_to (fleet_utilization m) 4,
     fp_reserveMargin = rounded_to (reserve_margin m) 4,
     fp_stableForNewestValue = stable_for_newest m,
     fp_safetyHeadroomReady = headroom_ready m,
     fp_everyCaptureMathematicallyPossible = every_capture_possible m,
     fp_googleFanoutReady = fanout_ready m,
     fp_shardExecutionQuotaReady = execution_quota_ready m \<rparr>"

definition infrastructure_plan_of :: "capacity_input \<Rightarrow> infrastructure_plan" where
  "infrastructure_plan_of i = (let m = in_numbers i in \<lparr>
     ip_estimatedNetworkMbps = rounded_to (network_mbps m) 4,
     ip_requiredDatabaseWritesPerSecond = rounded_to (required_writes m) 4,
     ip_estimatedMemoryMb = map_option (\<lambda>e. rounded_to e 0) (estimated_memory m),
     ip_memoryMeasuredAndReady = memory_ready m,
     ip_networkMeasuredAndReady = network_ready m,
     ip_databaseMeasuredAndReady = database_ready m,
     ip_namedTunnelReady = (in_tunnel i = NamedTunnel),
     ip_soakReady = soak_ready m \<rparr>)"

definition plan_of :: "capacity_input \<Rightarrow> capacity_plan" where
  "plan_of i = \<lparr>
     cp_input = i,
     cp_browser = browser_plan_of (in_numbers i),
     cp_fleet = fleet_plan_of (in_numbers i),
     cp_infrastructure = infrastructure_plan_of i,
     cp_managedQueueReady = queue_ready (in_numbers i),
     cp_productionReadyForLatestValue = ready_for_latest i,
     cp_productionReadyForEveryCapture = ready_for_every_capture i,
     cp_checks = plan_checks i \<rparr>"

definition planCapacity :: "capacity_overrides \<Rightarrow> range_error + capacity_plan" where
  "planCapacity ov =
     (let i = plan_input ov in bindE (validateInput (in_numbers i)) (\<lambda>_. Inr (plan_of i)))"

section \<open>Reading the environment\<close>

text \<open>The first of the given variables that is set and not empty.\<close>

definition optionalEnvNumber :: "(string \<Rightarrow> string option) \<Rightarrow> string list \<Rightarrow> range_error + rat option" where
  "optionalEnvNumber env names =
     (case find (\<lambda>v. v \<noteq> None \<and> v \<noteq> Some []) (map env names) of
        Some (Some raw) \<Rightarrow>
          (case js_Number raw of Num v \<Rightarrow> Inr (Some v) | _ \<Rightarrow> Inl (MustBeNumeric (case names of n # _ \<Rightarrow> n | [] \<Rightarrow> [])))
      | _ \<Rightarrow> Inr None)"

definition drop_slash :: "string \<Rightarrow> string" where
  "drop_slash s = (if ends_with ''/'' s then butlast s else s)"

definition detectTunnelMode :: "(string \<Rightarrow> string option) \<Rightarrow> tunnel_mode" where
  "detectTunnelMode env =
     (if env ''TAH_TUNNEL_MODE'' = Some ''none'' then NoTunnel
      else if env ''TAH_TUNNEL_MODE'' = Some ''quick'' then QuickTunnel
      else if env ''TAH_TUNNEL_MODE'' = Some ''named'' then NamedTunnel
      else (let u = to_lower (case env ''TAH_PUBLIC_BASE_URL'' of None \<Rightarrow> [] | Some s \<Rightarrow> s) in
        if ends_with ''.trycloudflare.com'' (drop_slash u) then QuickTunnel
        else if starts_with ''https://'' u then NamedTunnel
        else NoTunnel))"

definition env_names :: "(setting_key \<times> string list) list" where
  "env_names = [
     (Campaigns, [''TAH_CAPACITY_TARGET'']),
     (SavedCampaignLimit, [''TAH_SAVED_CAMPAIGN_LIMIT'']),
     (ActiveCampaignLimit, [''TAH_ACTIVE_CAMPAIGN_LIMIT'', ''TAH_ACTIVE_LIMIT'']),
     (BrowserWorkers, [''TAH_MAX_LOCAL_WORKERS'']),
     (DedicatedGatewayPorts, [''TAH_GATEWAY_PORT_COUNT'']),
     (CampaignsPerShard, [''TAH_FLEET_CAMPAIGNS_PER_SHARD'']),
     (ConfiguredShardCount, [''TAH_FLEET_SHARD_COUNT'']),
     (MaxAccountsPerScript, [''TAH_GOOGLE_MAX_ACCOUNTS_PER_SCRIPT'']),
     (MaxConcurrentShardScripts, [''TAH_GOOGLE_MAX_CONCURRENT_SHARD_SCRIPTS'']),
     (CaptureIntervalSeconds, [''TAH_CAPTURE_INTERVAL_SECONDS'']),
     (FleetPollSeconds, [''TAH_FLEET_POLL_SECONDS'']),
     (FleetActiveSecondsPerHour, [''TAH_FLEET_ACTIVE_SECONDS_PER_HOUR'']),
     (TargetMaxUtilization, [''TAH_TARGET_MAX_UTILIZATION'']),
     (AveragePageMegabytes, [''TAH_AVERAGE_PAGE_MEGABYTES'']),
     (NetworkOverheadRatio, [''TAH_NETWORK_OVERHEAD_RATIO'']),
     (MeasuredBrowserMemoryMb, [''TAH_MEASURED_BROWSER_MEMORY_MB'']),
     (AvailableMemoryMb, [''TAH_AVAILABLE_MEMORY_MB'']),
     (AvailableNetworkMbps, [''TAH_AVAILABLE_NETWORK_MBPS'']),
     (MeasuredDatabaseWritesPerSecond, [''TAH_MEASURED_DATABASE_WRITES_PER_SECOND'']),
     (SoakTestHours, [''TAH_SOAK_TEST_HOURS'']),
     (RequiredSoakTestHours, [''TAH_REQUIRED_SOAK_TEST_HOURS''])]"

definition env_settings ::
  "(string \<Rightarrow> string option) \<Rightarrow> (setting_key \<times> string list) list \<Rightarrow> range_error + (setting_key \<times> rat option) list" where
  "env_settings env = mapE (\<lambda>(k, names). bindE (optionalEnvNumber env names) (\<lambda>v. Inr (k, v)))"

definition capacityInputFromEnvironment ::
  "(string \<Rightarrow> string option) \<Rightarrow> capacity_overrides \<Rightarrow> range_error + capacity_overrides" where
  "capacityInputFromEnvironment env ov =
     bindE (env_settings env env_names) (\<lambda>vs.
       Inr \<lparr> ov_numbers = map_of (List.map_filter (\<lambda>(k, v). map_option (\<lambda>r. (k, Num r)) v) vs) ++ ov_numbers ov,
             ov_tunnel = Some (case ov_tunnel ov of Some t \<Rightarrow> t | None \<Rightarrow> detectTunnelMode env) \<rparr>)"

section \<open>The text report\<close>

definition verdict_text :: "bool \<Rightarrow> piece" where
  "verdict_text b = Txt (if b then ''PASS'' else ''FAIL'')"

definition status_text :: "check_status \<Rightarrow> string" where
  "status_text st = (case st of Pass \<Rightarrow> ''PASS'' | Warn \<Rightarrow> ''WARN'' | Fail \<Rightarrow> ''FAIL'')"

definition renderCapacityReport :: "capacity_plan \<Rightarrow> piece list list" where
  "renderCapacityReport p =
     [[Txt ''Traffic Armour 500-campaign capacity preflight''],
      [Txt ''Managed queue: '', verdict_text (cp_managedQueueReady p)],
      [Txt ''True browser parallelism: '', verdict_text (bp_trueParallelReady (cp_browser p)), Txt '' ('',
       Val (bp_admittedConcurrentCampaigns (cp_browser p)), Txt ''/'', Val (num (in_numbers (cp_input p)) Campaigns), Txt '' admitted)''],
      [Txt ''Fleet newest-value stability: '', verdict_text (fp_stableForNewestValue (cp_fleet p))],
      [Txt ''Fleet safety headroom: '', verdict_text (fp_safetyHeadroomReady (cp_fleet p)), Txt '' ('',
       Val (fp_configuredShardCount (cp_fleet p)), Txt ''/'', Val (fp_recommendedShardCount (cp_fleet p)), Txt '' shards)''],
      [Txt ''Every-capture continuity: '', verdict_text (fp_everyCaptureMathematicallyPossible (cp_fleet p))],
      [Txt ''Production latest-value readiness: '', verdict_text (cp_productionReadyForLatestValue p)],
      [Txt ''Production every-capture readiness: '', verdict_text (cp_productionReadyForEveryCapture p)],
      [Txt []]]
     @ map (\<lambda>c. [Txt ''['', Txt (status_text (ck_status c)), Txt ''] '', Txt (ck_label c), Txt '': ''] @ ck_detail c) (cp_checks p)"

section \<open>What validation guarantees\<close>

definition valid_settings :: "settings \<Rightarrow> bool" where
  "valid_settings m \<longleftrightarrow>
     (\<forall>k\<in>set positive_integers. 1 \<le> num m k \<and> num m k \<in> \<int>)
   \<and> 0 < num m TargetMaxUtilization \<and> num m TargetMaxUtilization < 1 \<and> num m FleetActiveSecondsPerHour \<le> 3600"

lemma requirePositiveInteger_Inr:
  assumes "requirePositiveInteger m k = Inr u"
  shows "1 \<le> num m k \<and> num m k \<in> \<int>"
proof -
  from assms obtain v where v: "field m k = Num v" "is_safe_integer v" "0 < v"
    by (auto simp: requirePositiveInteger_def split: js_number.splits)
  then have e: "v = of_int \<lfloor>v\<rfloor>" by (simp add: is_safe_integer_def)
  moreover have "0 < \<lfloor>v\<rfloor>"
  proof (rule ccontr)
    assume "\<not> ?thesis"
    then have "(of_int \<lfloor>v\<rfloor> :: rat) \<le> 0" by simp
    with e v(3) show False by simp
  qed
  ultimately have "1 \<le> v" by linarith
  moreover have "v \<in> \<int>" using e by (metis Ints_of_int)
  ultimately show ?thesis by (simp add: num_def v(1))
qed

lemma validateInput_valid:
  assumes "validateInput m = Inr u"
  shows "valid_settings m"
proof -
  from assms obtain us vs ws where v: "mapE (requirePositiveInteger m) positive_integers = Inr us"
      "mapE (requireNonNegativeNumber m) [AveragePageMegabytes, NetworkOverheadRatio, SoakTestHours] = Inr vs"
      "checkActiveSeconds m = Inr ()" "requireUtilization m = Inr ()"
    unfolding validateInput_def bindE_Inr_conv by auto
  have p: "\<forall>k\<in>set positive_integers. 1 \<le> num m k \<and> num m k \<in> \<int>"
    using mapE_Inr_mem [OF v(1)] requirePositiveInteger_Inr by blast
  have t: "0 < num m TargetMaxUtilization" "num m TargetMaxUtilization < 1"
    using v(4) by (auto simp: requireUtilization_def num_def split: js_number.splits)
  have a: "num m FleetActiveSecondsPerHour \<le> 3600"
    using v(3) by (auto simp: checkActiveSeconds_def num_def split: js_number.splits)
  from p t a show ?thesis by (simp add: valid_settings_def)
qed

lemma planCapacity_Inr:
  assumes "planCapacity ov = Inr p"
  shows "p = plan_of (plan_input ov)" "valid_settings (in_numbers (plan_input ov))"
  using assms validateInput_valid [of "in_numbers (plan_input ov)"]
  by (auto simp: planCapacity_def bindE_Inr_conv Let_def)



section \<open>The recommended number of shards\<close>










section \<open>The checks and the verdicts agree\<close>

lemma pass_if_Pass [simp]: "pass_if b other = Pass \<longleftrightarrow> b \<or> other = Pass"
  by (simp add: pass_if_def)

lemma true_parallel_iff:
  "true_parallel_ready m \<longleftrightarrow> num m Campaigns \<le> num m ActiveCampaignLimit
     \<and> shortfall m BrowserWorkers = 0 \<and> shortfall m DedicatedGatewayPorts = 0"
  by (auto simp: true_parallel_ready_def requested_campaigns_def admitted_campaigns_def shortfall_def min_def max_def)

lemma browser_checks_pass:
  "(\<forall>c\<in>set (browser_checks m). ck_status c = Pass) \<longleftrightarrow>
     num m Campaigns \<le> num m SavedCampaignLimit \<and> true_parallel_ready m"
  by (auto simp: browser_checks_def check_of_def true_parallel_iff)

lemma fleet_checks_pass:
  "(\<forall>c\<in>set (fleet_checks m). ck_id c \<noteq> ''continuous-delivery'' \<longrightarrow> ck_status c = Pass) \<longleftrightarrow>
     stable_for_newest m \<and> headroom_ready m"
  "(\<forall>c\<in>set (fleet_checks m). ck_status c = Pass) \<longleftrightarrow>
     stable_for_newest m \<and> headroom_ready m \<and> every_capture_possible m"
  by (auto simp: fleet_checks_def check_of_def headroom_ready_def)

lemma infrastructure_checks_pass:
  "(\<forall>c\<in>set (infrastructure_checks i). ck_status c = Pass) \<longleftrightarrow> infrastructure_ready i"
  by (auto simp: infrastructure_checks_def check_of_def infrastructure_ready_def Let_def)

lemma other_ids:
  "c \<in> set (browser_checks m) \<union> set (infrastructure_checks i) \<Longrightarrow> ck_id c \<noteq> ''continuous-delivery''"
  by (auto simp: browser_checks_def infrastructure_checks_def check_of_def Let_def)

text \<open>The fourteen checks and the production verdicts agree: production is ready for every capture exactly
  when all checks pass, and ready for the latest value exactly when all but the continuous-delivery check do.\<close>

theorem checks_decide_readiness:
  assumes "planCapacity ov = Inr p"
  shows "(cp_productionReadyForEveryCapture p \<longleftrightarrow> (\<forall>c\<in>set (cp_checks p). ck_status c = Pass))
    \<and> (cp_productionReadyForLatestValue p \<longleftrightarrow>
        (\<forall>c\<in>set (cp_checks p). ck_id c \<noteq> ''continuous-delivery'' \<longrightarrow> ck_status c = Pass))
    \<and> length (cp_checks p) = 14"
proof -
  let ?i = "plan_input ov"
  let ?m = "in_numbers ?i"
  note p = planCapacity_Inr(1) [OF assms]
  have all: "(\<forall>c\<in>set (plan_checks ?i). ck_status c = Pass) \<longleftrightarrow> ready_for_every_capture ?i"
    using browser_checks_pass [of ?m] fleet_checks_pass(2) [of ?m] infrastructure_checks_pass [of ?i]
    by (auto simp: plan_checks_def ready_for_every_capture_def ready_for_latest_def queue_ready_def)
  have "(\<forall>c\<in>set (plan_checks ?i). ck_id c \<noteq> ''continuous-delivery'' \<longrightarrow> ck_status c = Pass) \<longleftrightarrow>
      (\<forall>c\<in>set (browser_checks ?m). ck_status c = Pass)
    \<and> (\<forall>c\<in>set (fleet_checks ?m). ck_id c \<noteq> ''continuous-delivery'' \<longrightarrow> ck_status c = Pass)
    \<and> (\<forall>c\<in>set (infrastructure_checks ?i). ck_status c = Pass)"
    using other_ids [of _ ?m ?i] unfolding plan_checks_def set_append by blast
  also have "\<dots> \<longleftrightarrow> ready_for_latest ?i"
    using browser_checks_pass [of ?m] fleet_checks_pass(1) [of ?m] infrastructure_checks_pass [of ?i]
    by (auto simp: ready_for_latest_def queue_ready_def)
  finally have most: "(\<forall>c\<in>set (plan_checks ?i). ck_id c \<noteq> ''continuous-delivery'' \<longrightarrow> ck_status c = Pass)
      \<longleftrightarrow> ready_for_latest ?i" .
  have "length (plan_checks ?i) = 14"
    by (simp add: plan_checks_def browser_checks_def fleet_checks_def infrastructure_checks_def Let_def)
  then show ?thesis using all most by (simp add: p plan_of_def)
qed

section \<open>The documented default plan\<close>

definition no_overrides :: capacity_overrides where
  "no_overrides = \<lparr>ov_numbers = Map.empty, ov_tunnel = None\<rparr>"

lemma default_ceilings: "\<lceil>25 / 2 :: rat\<rceil> = 13" "\<lceil>46875 / 2639 :: rat\<rceil> = 18"
  by (rule ceiling_unique; simp)+

lemma default_numbers:
  "in_numbers (plan_input no_overrides) = (in_numbers DEFAULT_CAPACITY_INPUT)(Campaigns \<mapsto> Num 500, CampaignsPerShard \<mapsto> Num 40,
     ConfiguredShardCount \<mapsto> Num 13)"
  by (simp add: plan_input_def no_overrides_def override_def field_def default_shards_def ceil_js_def
      DEFAULT_CAPACITY_INPUT_def Let_def default_ceilings fun_upd_twist)

lemma default_valid: "validateInput (in_numbers (plan_input no_overrides)) = Inr ()"
  by (simp add: default_numbers validateInput_def positive_integers_def requirePositiveInteger_def
      requireNonNegativeNumber_def requireOptionalPositiveNumber_def checkActiveSeconds_def requireUtilization_def
      field_def DEFAULT_CAPACITY_INPUT_def is_safe_integer_def throwIf_def)

lemma default_plan: "planCapacity no_overrides = Inr (plan_of (plan_input no_overrides))"
  by (simp add: planCapacity_def default_valid Let_def)



theorem checks_decide_readiness_witness:
  "\<not> cp_productionReadyForLatestValue (plan_of (plan_input no_overrides))
   \<and> \<not> (\<forall>c\<in>set (cp_checks (plan_of (plan_input no_overrides))). ck_id c \<noteq> ''continuous-delivery'' \<longrightarrow> ck_status c = Pass)"
proof -
  have "\<not> infrastructure_ready (plan_input no_overrides)"
    by (simp add: infrastructure_ready_def plan_input_def no_overrides_def DEFAULT_CAPACITY_INPUT_def Let_def)
  then have "\<not> cp_productionReadyForLatestValue (plan_of (plan_input no_overrides))"
    by (simp add: plan_of_def ready_for_latest_def)
  with checks_decide_readiness [OF default_plan] show ?thesis by blast
qed

end
