(* ===== verification/Health_Alerts.thy ===== *)
theory Health_Alerts
  imports Fleet_Prelude
begin

text \<open>
  The alert store of \<open>web/lib/health-alert-store.ts\<close>: how the outcome of a health evaluation is merged into the
  tables of alerts and heartbeats, how operators acknowledge and resolve alerts, and the report. The texts of an
  alert or heartbeat (title, message, remediation, details) are carried along unchanged and are the type
  parameter. \<open>NOW()\<close> is the time of the transaction.
\<close>

datatype severity = Warning | Critical
datatype alert_status = Observing | Active | Acknowledged | Resolved
datatype health_state = Healthy | WarningState | CriticalState

record 'x candidate =
  ac_fingerprint :: string
  ac_severity :: severity
  ac_component :: string
  ac_scope :: string
  ac_code :: string
  ac_campaignRecordId :: "string option"
  ac_shardId :: "string option"
  ac_activationAfterMs :: ms
  ac_text :: 'x

record 'x alert =
  ha_fingerprint :: string
  ha_severity :: severity
  ha_status :: alert_status
  ha_component :: string
  ha_scope :: string
  ha_code :: string
  ha_campaign_record_id :: "string option"
  ha_shard_id :: "string option"
  ha_text :: 'x
  ha_activation_after_ms :: ms
  ha_occurrence_count :: int
  ha_first_seen_at :: time
  ha_last_seen_at :: time
  ha_opened_at :: "time option"
  ha_acknowledged_at :: "time option"
  ha_acknowledged_by :: "string option"
  ha_resolved_at :: "time option"
  ha_updated_at :: time

record 'x heartbeat =
  hk_componentId :: string
  hk_componentType :: string
  hk_state :: health_state
  hk_latencyMs :: "int option"
  hk_text :: 'x

record 'x heartbeat_entry =
  he_beat :: "'x heartbeat"
  he_last_seen_at :: time

record 'x health_store =
  hs_alerts :: "'x alert list"
  hs_heartbeats :: "'x heartbeat_entry list"

datatype health_error = DuplicateHeartbeat

section \<open>Collecting candidates\<close>

text \<open>A \<open>Map\<close> by fingerprint in which a critical candidate replaces a warning; \<open>Map.set\<close> on an existing key keeps
  its place.\<close>

definition addCandidate :: "'x candidate \<Rightarrow> 'x candidate list \<Rightarrow> 'x candidate list" where
  "addCandidate c cs =
     (case lookup_by ac_fingerprint (ac_fingerprint c) cs of
        None \<Rightarrow> cs @ [c]
      | Some p \<Rightarrow> if ac_severity p = Warning \<and> ac_severity c = Critical
                  then update_where (\<lambda>d. ac_fingerprint d = ac_fingerprint c) (\<lambda>_. c) cs else cs)"

definition severityState :: "'x candidate list \<Rightarrow> health_state" where
  "severityState cs = (if list_ex (\<lambda>c. ac_severity c = Critical) cs then CriticalState
     else if cs \<noteq> [] then WarningState else Healthy)"

section \<open>\<open>persistEvaluation\<close>\<close>

text \<open>\<open>x || null\<close> of an optional string.\<close>

definition or_null :: "string option \<Rightarrow> string option" where
  "or_null x = (if x = Some [] then None else x)"

definition insert_alert :: "time \<Rightarrow> 'x candidate \<Rightarrow> 'x alert" where
  "insert_alert now c = \<lparr>
     ha_fingerprint = ac_fingerprint c, ha_severity = ac_severity c,
     ha_status = (if ac_activationAfterMs c = 0 then Active else Observing),
     ha_component = ac_component c, ha_scope = ac_scope c, ha_code = ac_code c,
     ha_campaign_record_id = or_null (ac_campaignRecordId c), ha_shard_id = or_null (ac_shardId c), ha_text = ac_text c,
     ha_activation_after_ms = ac_activationAfterMs c, ha_occurrence_count = 1, ha_first_seen_at = now,
     ha_last_seen_at = now, ha_opened_at = (if ac_activationAfterMs c = 0 then Some now else None),
     ha_acknowledged_at = None, ha_acknowledged_by = None, ha_resolved_at = None, ha_updated_at = now \<rparr>"

text \<open>An observed alert has lasted for its activation delay.\<close>

definition matured :: "time \<Rightarrow> 'x candidate \<Rightarrow> 'x alert \<Rightarrow> bool" where
  "matured now c a \<longleftrightarrow> ha_status a = Observing \<and> ac_activationAfterMs c \<le> now - ha_first_seen_at a"

definition next_status :: "time \<Rightarrow> 'x candidate \<Rightarrow> 'x alert \<Rightarrow> alert_status" where
  "next_status now c a =
     (if ha_status a = Acknowledged then Acknowledged
      else if ha_status a = Resolved then (if ac_activationAfterMs c = 0 then Active else Observing)
      else if matured now c a then Active
      else ha_status a)"

definition refresh_alert :: "time \<Rightarrow> 'x candidate \<Rightarrow> 'x alert \<Rightarrow> 'x alert" where
  "refresh_alert now c a = a\<lparr>
     ha_severity := ac_severity c, ha_component := ac_component c, ha_scope := ac_scope c, ha_code := ac_code c,
     ha_campaign_record_id := or_null (ac_campaignRecordId c), ha_shard_id := or_null (ac_shardId c), ha_text := ac_text c,
     ha_activation_after_ms := ac_activationAfterMs c,
     ha_occurrence_count := (if ha_status a = Resolved then 1 else ha_occurrence_count a + 1),
     ha_first_seen_at := (if ha_status a = Resolved then now else ha_first_seen_at a),
     ha_last_seen_at := now,
     ha_opened_at := (if ha_status a = Resolved \<and> ac_activationAfterMs c = 0 then Some now
                      else if matured now c a then Some now
                      else ha_opened_at a),
     ha_status := next_status now c a,
     ha_acknowledged_at := (if ha_status a = Resolved then None else ha_acknowledged_at a),
     ha_acknowledged_by := (if ha_status a = Resolved then None else ha_acknowledged_by a),
     ha_resolved_at := None, ha_updated_at := now \<rparr>"

definition upsert_alert :: "time \<Rightarrow> 'x candidate \<Rightarrow> 'x alert list \<Rightarrow> 'x alert list" where
  "upsert_alert now c as =
     (if list_ex (\<lambda>a. ha_fingerprint a = ac_fingerprint c) as
      then update_where (\<lambda>a. ha_fingerprint a = ac_fingerprint c) (refresh_alert now c) as
      else as @ [insert_alert now c])"

definition close_alert :: "time \<Rightarrow> 'x alert \<Rightarrow> 'x alert" where
  "close_alert now a = a\<lparr>ha_status := Resolved, ha_resolved_at := Some now, ha_updated_at := now\<rparr>"

definition resolve_missing :: "time \<Rightarrow> string list \<Rightarrow> 'x alert list \<Rightarrow> 'x alert list" where
  "resolve_missing now fps as =
     update_where (\<lambda>a. ha_status a \<noteq> Resolved \<and> ha_fingerprint a \<notin> set fps) (close_alert now) as"

text \<open>One \<open>INSERT .. ON CONFLICT DO UPDATE\<close> of all heartbeats: PostgreSQL refuses to touch a row twice.\<close>

definition upsert_heartbeat :: "time \<Rightarrow> 'x heartbeat \<Rightarrow> 'x heartbeat_entry list \<Rightarrow> 'x heartbeat_entry list" where
  "upsert_heartbeat now h es =
     (let same = (\<lambda>e. hk_componentId (he_beat e) = hk_componentId h) in
      if list_ex same es then update_where same (\<lambda>e. e\<lparr>he_beat := h, he_last_seen_at := now\<rparr>) es
      else es @ [\<lparr>he_beat = h, he_last_seen_at = now\<rparr>])"

definition evaluated_types :: "string list" where
  "evaluated_types = [''campaign'', ''campaign-delivery'', ''apps-script-shard'']"

definition drop_stale_heartbeats :: "string list \<Rightarrow> 'x heartbeat_entry list \<Rightarrow> 'x heartbeat_entry list" where
  "drop_stale_heartbeats ids es =
     filter (\<lambda>e. \<not> (hk_componentType (he_beat e) \<in> set evaluated_types \<and> hk_componentId (he_beat e) \<notin> set ids)) es"

definition persistEvaluation ::
  "time \<Rightarrow> 'x candidate list \<Rightarrow> 'x heartbeat list \<Rightarrow> 'x health_store \<Rightarrow> health_error + 'x health_store" where
  "persistEvaluation now cs hs st =
     bindE (throwIf (\<not> distinct (map hk_componentId hs)) DuplicateHeartbeat) (\<lambda>_. Inr \<lparr>
       hs_alerts = resolve_missing now (map ac_fingerprint cs) (fold (upsert_alert now) cs (hs_alerts st)),
       hs_heartbeats = drop_stale_heartbeats (map hk_componentId hs) (fold (upsert_heartbeat now) hs (hs_heartbeats st)) \<rparr>)"

section \<open>Operators\<close>

text \<open>Both return the updated row, or \<open>None\<close>.\<close>

definition acknowledgeHealthAlert :: "time \<Rightarrow> string \<Rightarrow> string \<Rightarrow> 'x health_store \<Rightarrow> 'x alert option \<times> 'x health_store" where
  "acknowledgeHealthAlert now fp actor st =
     (let hit = (\<lambda>a. ha_fingerprint a = fp \<and> ha_status a = Active);
          as = update_where hit (\<lambda>a. a\<lparr>ha_status := Acknowledged, ha_acknowledged_at := Some now,
                 ha_acknowledged_by := Some actor, ha_updated_at := now\<rparr>) (hs_alerts st)
      in (if list_ex hit (hs_alerts st) then lookup_by ha_fingerprint fp as else None, st\<lparr>hs_alerts := as\<rparr>))"

definition resolveHealthAlert :: "time \<Rightarrow> string \<Rightarrow> 'x health_store \<Rightarrow> 'x alert option \<times> 'x health_store" where
  "resolveHealthAlert now fp st =
     (let hit = (\<lambda>a. ha_fingerprint a = fp \<and> ha_status a \<noteq> Resolved);
          as = update_where hit (close_alert now) (hs_alerts st)
      in (if list_ex hit (hs_alerts st) then lookup_by ha_fingerprint fp as else None, st\<lparr>hs_alerts := as\<rparr>))"

section \<open>The report\<close>

record health_summary =
  sm_open :: nat
  sm_critical :: nat
  sm_warning :: nat
  sm_acknowledged :: nat
  sm_observing :: nat
  sm_resolved24h :: nat

definition is_open :: "'x alert \<Rightarrow> bool" where
  "is_open a \<longleftrightarrow> ha_status a \<in> {Active, Acknowledged}"

definition resolved_recently :: "time \<Rightarrow> 'x alert \<Rightarrow> bool" where
  "resolved_recently now a = (case ha_resolved_at a of None \<Rightarrow> False | Some r \<Rightarrow> now - 86400000 \<le> r)"

definition count_where :: "('a \<Rightarrow> bool) \<Rightarrow> 'a list \<Rightarrow> nat" where
  "count_where p xs = length (filter p xs)"

definition health_summary_of :: "time \<Rightarrow> 'x alert list \<Rightarrow> health_summary" where
  "health_summary_of now as = \<lparr>
     sm_open = count_where is_open as,
     sm_critical = count_where (\<lambda>a. ha_severity a = Critical \<and> is_open a) as,
     sm_warning = count_where (\<lambda>a. ha_severity a = Warning \<and> is_open a) as,
     sm_acknowledged = count_where (\<lambda>a. ha_status a = Acknowledged) as,
     sm_observing = count_where (\<lambda>a. ha_status a = Observing) as,
     sm_resolved24h = count_where (\<lambda>a. ha_status a = Resolved \<and> resolved_recently now a) as \<rparr>"

definition severity_rank :: "severity \<Rightarrow> nat" where
  "severity_rank s = (case s of Critical \<Rightarrow> 0 | Warning \<Rightarrow> 1)"

definition status_rank :: "alert_status \<Rightarrow> nat" where
  "status_rank s = (case s of Active \<Rightarrow> 0 | Acknowledged \<Rightarrow> 1 | Observing \<Rightarrow> 2 | Resolved \<Rightarrow> 3)"

definition state_rank :: "health_state \<Rightarrow> nat" where
  "state_rank s = (case s of CriticalState \<Rightarrow> 0 | WarningState \<Rightarrow> 1 | Healthy \<Rightarrow> 2)"

definition listed_alerts :: "time \<Rightarrow> bool \<Rightarrow> 'x alert list \<Rightarrow> 'x alert list" where
  "listed_alerts now includeResolved as =
     take 500 (sort_key (\<lambda>a. severity_rank (ha_severity a)) (sort_key (\<lambda>a. status_rank (ha_status a))
       (sort_key (\<lambda>a. - ha_last_seen_at a)
         (filter (\<lambda>a. ha_status a \<noteq> Resolved \<or> (includeResolved \<and> resolved_recently now a)) as))))"

text \<open>A heartbeat that has not advanced for a minute is shown as critical; the flag replaces the message.\<close>

record 'x shown_heartbeat =
  sh_beat :: "'x heartbeat"
  sh_lastSeenAt :: time
  sh_stale :: bool

definition show_heartbeat :: "time \<Rightarrow> 'x heartbeat_entry \<Rightarrow> 'x shown_heartbeat" where
  "show_heartbeat now e =
     (let stale = (60000 < now - he_last_seen_at e) in
      \<lparr> sh_beat = (if stale then (he_beat e)\<lparr>hk_state := CriticalState\<rparr> else he_beat e),
        sh_lastSeenAt = he_last_seen_at e, sh_stale = stale \<rparr>)"

definition listed_heartbeats :: "time \<Rightarrow> 'x heartbeat_entry list \<Rightarrow> 'x shown_heartbeat list" where
  "listed_heartbeats now es =
     map (show_heartbeat now) (take 500 (sort_key (\<lambda>e. state_rank (hk_state (he_beat e)))
       (sort_key (\<lambda>e. - he_last_seen_at e) es)))"

record 'x health_report =
  hr_state :: health_state
  hr_summary :: health_summary
  hr_alerts :: "'x alert list"
  hr_heartbeats :: "'x shown_heartbeat list"

definition listHealthAlerts :: "time \<Rightarrow> bool \<Rightarrow> bool \<Rightarrow> 'x health_store \<Rightarrow> 'x health_report" where
  "listHealthAlerts now summaryOnly includeResolved st =
     (let s = health_summary_of now (hs_alerts st) in \<lparr>
       hr_state = (if 0 < sm_critical s then CriticalState else if 0 < sm_warning s then WarningState else Healthy),
       hr_summary = s,
       hr_alerts = (if summaryOnly then [] else listed_alerts now includeResolved (hs_alerts st)),
       hr_heartbeats = (if summaryOnly then [] else listed_heartbeats now (hs_heartbeats st)) \<rparr>)"

section \<open>Throttling of evaluations\<close>

text \<open>The cached state of the process. A call within ten seconds of the last one joins the evaluation that is still
  running, or returns the last report; otherwise it starts an evaluation.\<close>

record ('e, 'r) evaluation_cache =
  ec_running :: "'e option"
  ec_evaluatedAt :: time
  ec_lastReport :: "'r option"

datatype ('e, 'r) evaluation_choice = Join 'e | Reuse 'r | Start

definition choose_evaluation :: "time \<Rightarrow> bool \<Rightarrow> ('e, 'r) evaluation_cache \<Rightarrow> ('e, 'r) evaluation_choice" where
  "choose_evaluation now force c =
     (if \<not> force \<and> now - ec_evaluatedAt c < 10000
      then (case ec_running c of Some e \<Rightarrow> Join e
            | None \<Rightarrow> (case ec_lastReport c of Some r \<Rightarrow> Reuse r | None \<Rightarrow> Start))
      else Start)"

definition begin_evaluation :: "time \<Rightarrow> 'e \<Rightarrow> ('e, 'r) evaluation_cache \<Rightarrow> ('e, 'r) evaluation_cache" where
  "begin_evaluation now e c = c\<lparr>ec_running := Some e, ec_evaluatedAt := now\<rparr>"

definition finish_evaluation :: "'e \<Rightarrow> 'r option \<Rightarrow> ('e, 'r) evaluation_cache \<Rightarrow> ('e, 'r) evaluation_cache" where
  "finish_evaluation e r c =
     (let c' = (case r of Some x \<Rightarrow> c\<lparr>ec_lastReport := Some x\<rparr> | None \<Rightarrow> c)
      in if ec_running c' = Some e then c'\<lparr>ec_running := None\<rparr> else c')"

section \<open>Alerts by fingerprint\<close>

abbreviation alert_of :: "'x alert list \<Rightarrow> string \<Rightarrow> 'x alert option" where
  "alert_of as f \<equiv> lookup_by ha_fingerprint f as"

lemma refresh_fingerprint [simp]: "ha_fingerprint (refresh_alert now c a) = ha_fingerprint a"
  by (simp add: refresh_alert_def)

lemma insert_fingerprint [simp]: "ha_fingerprint (insert_alert now c) = ac_fingerprint c"
  by (simp add: insert_alert_def)

lemma close_fingerprint [simp]: "ha_fingerprint (close_alert now a) = ha_fingerprint a"
  by (simp add: close_alert_def)

lemma close_status [simp]: "ha_status (close_alert now a) = Resolved"
  by (simp add: close_alert_def)

definition merged :: "time \<Rightarrow> 'x candidate \<Rightarrow> 'x alert option \<Rightarrow> 'x alert" where
  "merged now c old = (case old of None \<Rightarrow> insert_alert now c | Some a \<Rightarrow> refresh_alert now c a)"

lemma alert_of_upsert:
  "alert_of (upsert_alert now c as) f = (if f = ac_fingerprint c then Some (merged now c (alert_of as f)) else alert_of as f)"
proof (cases "alert_of as (ac_fingerprint c)")
  case None
  then show ?thesis
    by (simp add: upsert_alert_def list_ex_lookup lookup_append merged_def split: option.split)
next
  case (Some a)
  from lookup_by_SomeD [OF this] have key: "ha_fingerprint a = ac_fingerprint c" by simp
  have other: "ha_fingerprint r = f" if "alert_of as f = Some r" for r
    using lookup_by_SomeD [OF that] by simp
  show ?thesis
  proof (cases "f = ac_fingerprint c")
    case True
    with Some key show ?thesis
      by (simp add: upsert_alert_def list_ex_lookup lookup_update_rows merged_def)
  next
    case False
    with Some other show ?thesis
      by (cases "alert_of as f") (auto simp: upsert_alert_def list_ex_lookup lookup_update_rows)
  qed
qed

lemma alert_of_fold:
  "distinct (map ac_fingerprint cs) \<Longrightarrow>
   alert_of (fold (upsert_alert now) cs as) f =
     (case lookup_by ac_fingerprint f cs of None \<Rightarrow> alert_of as f | Some c \<Rightarrow> Some (merged now c (alert_of as f)))"
proof (induction cs arbitrary: as)
  case Nil
  then show ?case by simp
next
  case (Cons c cs)
  from Cons.prems have n: "lookup_by ac_fingerprint (ac_fingerprint c) cs = None"
    by (auto simp: lookup_by_None_iff)
  show ?case
    using Cons.IH [of "upsert_alert now c as"] Cons.prems n by (auto simp: alert_of_upsert split: option.split)
qed

lemma alert_of_resolve:
  "alert_of (resolve_missing now fps as) f =
     map_option (\<lambda>a. if ha_status a \<noteq> Resolved \<and> f \<notin> set fps then close_alert now a else a) (alert_of as f)"
proof -
  have "alert_of (resolve_missing now fps as) f = map_option
      (\<lambda>a. if ha_status a \<noteq> Resolved \<and> ha_fingerprint a \<notin> set fps then close_alert now a else a) (alert_of as f)"
    unfolding resolve_missing_def by (rule lookup_update_rows) simp
  also have "\<dots> = map_option (\<lambda>a. if ha_status a \<noteq> Resolved \<and> f \<notin> set fps then close_alert now a else a) (alert_of as f)"
    by (rule option.map_cong0) (auto dest!: lookup_by_SomeD)
  finally show ?thesis .
qed

lemma upsert_distinct:
  "distinct (map ha_fingerprint as) \<Longrightarrow> distinct (map ha_fingerprint (upsert_alert now c as))"
  by (auto simp: upsert_alert_def map_update_where list_ex_iff)

lemma fold_upsert_distinct:
  "distinct (map ha_fingerprint as) \<Longrightarrow> distinct (map ha_fingerprint (fold (upsert_alert now) cs as))"
  by (induction cs arbitrary: as) (simp_all add: upsert_distinct)

lemma resolve_fingerprints [simp]: "map ha_fingerprint (resolve_missing now fps as) = map ha_fingerprint as"
  by (simp add: resolve_missing_def map_update_where)

section \<open>An evaluation decides which alerts are open\<close>

lemma merged_not_resolved: "ha_status (merged now c old) \<noteq> Resolved"
  by (auto simp: merged_def insert_alert_def refresh_alert_def next_status_def split: option.splits)

lemma persist_alerts:
  assumes "persistEvaluation now cs hs st = Inr st'"
  shows "hs_alerts st' = resolve_missing now (map ac_fingerprint cs) (fold (upsert_alert now) cs (hs_alerts st))"
  using assms by (auto simp: persistEvaluation_def bindE_Inr_conv)

lemma alert_of_persist:
  assumes "persistEvaluation now cs hs st = Inr st'" "distinct (map ac_fingerprint cs)"
  shows "alert_of (hs_alerts st') f =
    (case lookup_by ac_fingerprint f cs of
       Some c \<Rightarrow> Some (merged now c (alert_of (hs_alerts st) f))
     | None \<Rightarrow> map_option (\<lambda>a. if ha_status a = Resolved then a else close_alert now a) (alert_of (hs_alerts st) f))"
proof (cases "lookup_by ac_fingerprint f cs")
  case None
  then have "f \<notin> set (map ac_fingerprint cs)" by (simp add: lookup_by_None_iff)
  with None show ?thesis
    unfolding persist_alerts [OF assms(1)] alert_of_resolve alert_of_fold [OF assms(2)] by (auto intro!: option.map_cong0)
next
  case (Some c)
  then have "f \<in> set (map ac_fingerprint cs)" by (auto dest: lookup_by_SomeD)
  with Some show ?thesis
    unfolding persist_alerts [OF assms(1)] alert_of_resolve alert_of_fold [OF assms(2)] by simp
qed

text \<open>C31: after an evaluation the unresolved alerts are exactly those of its candidates. A candidate without a row gets a
  new alert and one with a row refreshes it; every other open alert is resolved and nothing else changes.\<close>

theorem evaluation_decides_alerts:
  assumes "persistEvaluation now cs hs st = Inr st'"
    and "distinct (map ac_fingerprint cs)" "distinct (map ha_fingerprint (hs_alerts st))"
  shows "{ha_fingerprint a |a. a \<in> set (hs_alerts st') \<and> ha_status a \<noteq> Resolved} = ac_fingerprint ` set cs
    \<and> (\<forall>f. alert_of (hs_alerts st') f =
        (case lookup_by ac_fingerprint f cs of
           Some c \<Rightarrow> Some (case alert_of (hs_alerts st) f of None \<Rightarrow> insert_alert now c | Some a \<Rightarrow> refresh_alert now c a)
         | None \<Rightarrow> map_option (\<lambda>a. if ha_status a = Resolved then a else close_alert now a) (alert_of (hs_alerts st) f)))"
proof -
  note p = persist_alerts [OF assms(1)]
  note look = alert_of_persist [OF assms(1,2)]
  have dist: "distinct (map ha_fingerprint (hs_alerts st'))"
    unfolding p resolve_fingerprints by (rule fold_upsert_distinct [OF assms(3)])
  have "{ha_fingerprint a |a. a \<in> set (hs_alerts st') \<and> ha_status a \<noteq> Resolved} = ac_fingerprint ` set cs"
  proof (intro set_eqI iffI)
    fix f
    assume "f \<in> {ha_fingerprint a |a. a \<in> set (hs_alerts st') \<and> ha_status a \<noteq> Resolved}"
    then obtain a where a: "a \<in> set (hs_alerts st')" "ha_status a \<noteq> Resolved" "f = ha_fingerprint a" by blast
    have "a \<noteq> close_alert now b" for b
      using a(2) close_status [of now b] by metis
    with lookup_by_mem [OF dist a(1)] a(2,3) have "lookup_by ac_fingerprint f cs \<noteq> None"
      by (auto simp: look split: option.splits if_splits)
    then show "f \<in> ac_fingerprint ` set cs" by (simp add: lookup_by_None_iff)
  next
    fix f
    assume "f \<in> ac_fingerprint ` set cs"
    then obtain c where c: "lookup_by ac_fingerprint f cs = Some c"
      by (metis lookup_by_None_iff option.exhaust)
    then have "alert_of (hs_alerts st') f = Some (merged now c (alert_of (hs_alerts st) f))" by (simp add: look)
    from lookup_by_SomeD [OF this] merged_not_resolved [of now c "alert_of (hs_alerts st) f"]
    show "f \<in> {ha_fingerprint a |a. a \<in> set (hs_alerts st') \<and> ha_status a \<noteq> Resolved}" by (metis (mono_tags, lifting) mem_Collect_eq)
  qed
  with look show ?thesis by (auto simp: merged_def split: option.split)
qed

section \<open>The life of an alert\<close>

inductive health_step :: "'x health_store \<Rightarrow> 'x health_store \<Rightarrow> bool" where
  evaluated: "persistEvaluation now cs hs st = Inr st' \<Longrightarrow> \<forall>c\<in>set cs. 0 \<le> ac_activationAfterMs c \<Longrightarrow> health_step st st'"
| acknowledged: "health_step st (snd (acknowledgeHealthAlert now fp actor st))"
| resolved: "health_step st (snd (resolveHealthAlert now fp st))"

inductive_cases health_stepE: "health_step st st'"

definition fresh_store :: "'x health_store \<Rightarrow> bool" where
  "fresh_store st \<longleftrightarrow> hs_alerts st = []"

definition alert_ok :: "'x alert \<Rightarrow> bool" where
  "alert_ok a \<longleftrightarrow>
     (ha_status a = Resolved \<longleftrightarrow> ha_resolved_at a \<noteq> None)
   \<and> (ha_status a \<in> {Active, Acknowledged} \<longrightarrow> (\<exists>t. ha_opened_at a = Some t \<and> ha_first_seen_at a \<le> t))
   \<and> (ha_status a = Acknowledged \<longrightarrow> ha_acknowledged_at a \<noteq> None \<and> ha_acknowledged_by a \<noteq> None)
   \<and> (ha_status a \<in> {Observing, Active} \<longrightarrow> ha_acknowledged_at a = None \<and> ha_acknowledged_by a = None)
   \<and> 1 \<le> ha_occurrence_count a"

definition store_ok :: "'x health_store \<Rightarrow> bool" where
  "store_ok st \<longleftrightarrow> distinct (map ha_fingerprint (hs_alerts st)) \<and> (\<forall>a\<in>set (hs_alerts st). alert_ok a)"

lemma insert_ok: "alert_ok (insert_alert now c)"
  by (simp add: alert_ok_def insert_alert_def)

lemma refresh_ok: "alert_ok a \<Longrightarrow> 0 \<le> ac_activationAfterMs c \<Longrightarrow> alert_ok (refresh_alert now c a)"
  by (cases "ha_status a") (auto simp: alert_ok_def refresh_alert_def next_status_def matured_def)

lemma close_ok: "alert_ok a \<Longrightarrow> alert_ok (close_alert now a)"
  by (auto simp: alert_ok_def close_alert_def)

lemma upsert_ok:
  "0 \<le> ac_activationAfterMs c \<Longrightarrow> \<forall>a\<in>set as. alert_ok a \<Longrightarrow> \<forall>a\<in>set (upsert_alert now c as). alert_ok a"
  by (auto simp: upsert_alert_def set_update_where insert_ok refresh_ok)

lemma fold_upsert_ok:
  "\<forall>c\<in>set cs. 0 \<le> ac_activationAfterMs c \<Longrightarrow> \<forall>a\<in>set as. alert_ok a
    \<Longrightarrow> \<forall>a\<in>set (fold (upsert_alert now) cs as). alert_ok a"
proof (induction cs arbitrary: as)
  case Nil
  then show ?case by simp
next
  case (Cons c cs)
  have "\<forall>a\<in>set (upsert_alert now c as). alert_ok a" by (rule upsert_ok) (use Cons.prems in simp_all)
  with Cons show ?case by simp
qed

lemma health_step_ok: "store_ok st \<Longrightarrow> health_step st st' \<Longrightarrow> store_ok st'"
proof (elim health_stepE)
  fix now cs hs
  assume ok: "store_ok st" and p: "persistEvaluation now cs hs st = Inr st'" and c: "\<forall>c\<in>set cs. 0 \<le> ac_activationAfterMs c"
  have "\<forall>a\<in>set (fold (upsert_alert now) cs (hs_alerts st)). alert_ok a"
    using fold_upsert_ok [OF c, of "hs_alerts st"] ok by (simp add: store_ok_def)
  then have "\<forall>a\<in>set (hs_alerts st'). alert_ok a"
    by (auto simp: persist_alerts [OF p] resolve_missing_def set_update_where close_ok)
  moreover have "distinct (map ha_fingerprint (hs_alerts st'))"
    unfolding persist_alerts [OF p] resolve_fingerprints using ok by (simp add: fold_upsert_distinct store_ok_def)
  ultimately show "store_ok st'" by (simp add: store_ok_def)
next
  fix now fp actor
  assume ok: "store_ok st" and e: "st' = snd (acknowledgeHealthAlert now fp actor st)"
  show "store_ok st'"
    using ok by (auto simp: e store_ok_def acknowledgeHealthAlert_def Let_def set_update_where map_update_where alert_ok_def)
next
  fix now fp
  assume ok: "store_ok st" and e: "st' = snd (resolveHealthAlert now fp st)"
  show "store_ok st'"
    using ok by (auto simp: e store_ok_def resolveHealthAlert_def Let_def set_update_where map_update_where close_ok)
qed

interpretation health: step_invariant fresh_store health_step store_ok
proof
  show "store_ok st" if "fresh_store st" for st :: "'a health_store"
    using that by (simp add: fresh_store_def store_ok_def)
qed (rule health_step_ok)

lemma alert_ok_facts:
  assumes "alert_ok a"
  shows "(ha_status a = Resolved \<longleftrightarrow> ha_resolved_at a \<noteq> None)
    \<and> (is_open a \<longrightarrow> (\<exists>t. ha_opened_at a = Some t \<and> ha_first_seen_at a \<le> t))
    \<and> (ha_acknowledged_at a \<noteq> None \<longrightarrow> ha_status a \<in> {Acknowledged, Resolved})
    \<and> (ha_status a = Acknowledged \<longrightarrow> ha_acknowledged_at a \<noteq> None \<and> ha_acknowledged_by a \<noteq> None)
    \<and> 1 \<le> ha_occurrence_count a"
  using assms unfolding alert_ok_def is_open_def by (cases "ha_status a") simp_all

text \<open>Whatever sequence of evaluations and operator actions, there is one alert per fingerprint; it has a resolution
  time exactly while it is resolved, an open alert was opened no earlier than its condition was first seen, and
  only an acknowledged alert, or one resolved since, carries an acknowledgement.\<close>

theorem alert_life_is_consistent:
  assumes "reachable_from fresh_store health_step st"
  shows "distinct (map ha_fingerprint (hs_alerts st))
    \<and> (\<forall>a\<in>set (hs_alerts st).
        (ha_status a = Resolved \<longleftrightarrow> ha_resolved_at a \<noteq> None)
      \<and> (is_open a \<longrightarrow> (\<exists>t. ha_opened_at a = Some t \<and> ha_first_seen_at a \<le> t))
      \<and> (ha_acknowledged_at a \<noteq> None \<longrightarrow> ha_status a \<in> {Acknowledged, Resolved})
      \<and> (ha_status a = Acknowledged \<longrightarrow> ha_acknowledged_at a \<noteq> None \<and> ha_acknowledged_by a \<noteq> None)
      \<and> 1 \<le> ha_occurrence_count a)"
proof -
  from health.reachable_inv [OF assms] have "store_ok st" .
  then show ?thesis unfolding store_ok_def using alert_ok_facts by blast
qed

text \<open>An alert that reappears with an activation delay is only observed, but keeps the opening time of its previous
  life.\<close>

lemma reappearing_alert_keeps_opening:
  assumes "ha_status a = Resolved" "ac_activationAfterMs c \<noteq> 0"
  shows "ha_status (refresh_alert now c a) = Observing \<and> ha_opened_at (refresh_alert now c a) = ha_opened_at a"
  using assms by (simp add: refresh_alert_def next_status_def matured_def)

section \<open>Witnesses\<close>

definition demo_candidate :: "unit candidate" where
  "demo_candidate = \<lparr>ac_fingerprint = ''system:redis'', ac_severity = Critical, ac_component = ''redis'', ac_scope = ''infrastructure'',
     ac_code = ''redis_unhealthy'', ac_campaignRecordId = None, ac_shardId = None, ac_activationAfterMs = 30000, ac_text = ()\<rparr>"

definition no_alerts :: "unit health_store" where
  "no_alerts = \<lparr>hs_alerts = [], hs_heartbeats = []\<rparr>"

definition demo_alerts :: "unit health_store" where
  "demo_alerts = \<lparr>hs_alerts = [insert_alert 1000 demo_candidate], hs_heartbeats = []\<rparr>"

lemma demo_evaluation: "persistEvaluation 1000 [demo_candidate] [] no_alerts = Inr demo_alerts"
  by code_simp

theorem evaluation_decides_alerts_witness:
  "\<exists>st'. persistEvaluation 40000 [demo_candidate] [] demo_alerts = Inr st'
     \<and> alert_of (hs_alerts st') ''system:redis'' = Some (refresh_alert 40000 demo_candidate (insert_alert 1000 demo_candidate))
     \<and> ha_status (refresh_alert 40000 demo_candidate (insert_alert 1000 demo_candidate)) = Active"
proof -
  obtain st' where p: "persistEvaluation 40000 [demo_candidate] [] demo_alerts = Inr st'"
    by (auto simp: persistEvaluation_def)
  have d: "distinct (map ac_fingerprint [demo_candidate])" "distinct (map ha_fingerprint (hs_alerts demo_alerts))"
    by (simp_all add: demo_alerts_def)
  from evaluation_decides_alerts [OF p d, THEN conjunct2, rule_format, of "''system:redis''"]
  have "alert_of (hs_alerts st') ''system:redis'' = Some (refresh_alert 40000 demo_candidate (insert_alert 1000 demo_candidate))"
    by (simp add: demo_candidate_def demo_alerts_def insert_alert_def)
  moreover have "ha_status (refresh_alert 40000 demo_candidate (insert_alert 1000 demo_candidate)) = Active" by code_simp
  ultimately show ?thesis using p by blast
qed

theorem alert_life_is_consistent_witness:
  "{a \<in> set (hs_alerts demo_alerts). ha_status a = Observing \<and> ha_acknowledged_at a = None} = set (hs_alerts demo_alerts)"
proof -
  have "reachable_from fresh_store health_step no_alerts"
    by (rule reachable_from.init) (simp add: fresh_store_def no_alerts_def)
  then have r: "reachable_from fresh_store health_step demo_alerts"
    by (rule reachable_from.step) (rule health_step.evaluated [OF demo_evaluation], simp add: demo_candidate_def)
  have "list_all (\<lambda>a. ha_status a = Observing) (hs_alerts demo_alerts)" by code_simp
  then have "\<forall>a\<in>set (hs_alerts demo_alerts). ha_status a = Observing" by (simp add: list_all_iff)
  with alert_life_is_consistent [OF r] show ?thesis by fastforce
qed

end
