(* ===== verification/Health_Rules.thy ===== *)
theory Health_Rules
  imports Js_Value Health_Alerts "HOL-Library.AList"
begin

text \<open>
  The evaluation of \<open>web/lib/health-alert-store.ts\<close>: what \<open>evaluateHealth\<close> derives from the capacity report of the
  control service, the campaign registry, the legacy bridge state and the relational tables. Candidates and heartbeats
  carry their \<open>details\<close>; titles, messages and remediation texts are left out. A row's cell is a JSON value or, for
  the timestamps the database driver returns, a \<open>Date\<close>. The text of a number (\<open>prt\<close>) and \<open>Date.parse\<close> are parameters.
\<close>

section \<open>Reading loosely typed rows\<close>

datatype cell = Plain json | Stamp time

type_synonym row = "(string \<times> cell) list"

definition plain_row :: "json_object \<Rightarrow> row" where
  "plain_row ms = map (\<lambda>(k, v). (k, Plain v)) ms"

definition col :: "row \<Rightarrow> string \<Rightarrow> cell option" where
  "col r k = map_of r k"

definition cell_truthy :: "cell option \<Rightarrow> bool" where
  "cell_truthy c = (case c of None \<Rightarrow> False | Some (Plain v) \<Rightarrow> truthy (Some v) | Some (Stamp _) \<Rightarrow> True)"

text \<open>\<open>a ?? b\<close>, \<open>a || null\<close>, and an object literal, whose undefined members JSON drops.\<close>

definition cell_coalesce :: "cell option \<Rightarrow> cell option \<Rightarrow> cell option" where
  "cell_coalesce a b = (case a of None \<Rightarrow> b | Some c \<Rightarrow> if c = Plain JNull then b else a)"

definition cell_or_null :: "cell option \<Rightarrow> cell option" where
  "cell_or_null c = (if cell_truthy c then c else Some (Plain JNull))"

definition members :: "(string \<times> cell option) list \<Rightarrow> row" where
  "members = List.map_filter (\<lambda>(k, c). map_option (Pair k) c)"

definition text_cell :: "string \<Rightarrow> cell option" where
  "text_cell s = Some (Plain (JStr s))"

definition number_cell :: "rat option \<Rightarrow> cell option" where
  "number_cell = map_option (\<lambda>r. Plain (JNum r))"

text \<open>\<open>{ ...a, ...b }\<close>\<close>

definition spread :: "(string \<times> 'v) list \<Rightarrow> (string \<times> 'v) list \<Rightarrow> (string \<times> 'v) list" where
  "spread a b = fold (\<lambda>(k, v). AList.update k v) b a"

definition record_of :: "cell option \<Rightarrow> json_object" where
  "record_of c = (case c of Some (Plain v) \<Rightarrow> object_of v | _ \<Rightarrow> [])"

definition records :: "json option \<Rightarrow> json_object list" where
  "records v = filter (\<lambda>ms. ms \<noteq> [])
     (case v of Some (JArr vs) \<Rightarrow> map object_of vs | Some (JObj ms) \<Rightarrow> map (object_of \<circ> snd) ms | _ \<Rightarrow> [])"

fun textValue :: "(rat \<Rightarrow> string) \<Rightarrow> row \<Rightarrow> string list \<Rightarrow> string" where
  "textValue prt r [] = []"
| "textValue prt r (k # ks) =
     (case col r k of
        Some (Plain (JStr s)) \<Rightarrow> if js_trim s \<noteq> [] then js_trim s else textValue prt r ks
      | Some (Plain (JNum n)) \<Rightarrow> number_text prt n
      | _ \<Rightarrow> textValue prt r ks)"

text \<open>The boolean a value stands for.\<close>

definition as_boolean :: "json option \<Rightarrow> bool option" where
  "as_boolean v =
     (case v of
        Some (JBool b) \<Rightarrow> Some b
      | Some (JStr s) \<Rightarrow> if s = ''true'' then Some True else if s = ''false'' then Some False else None
      | Some (JNum n) \<Rightarrow> if n = 1 then Some True else if n = 0 then Some False else None
      | _ \<Rightarrow> None)"

definition plain_value :: "cell option \<Rightarrow> json option" where
  "plain_value c = (case c of Some (Plain v) \<Rightarrow> Some v | _ \<Rightarrow> None)"

fun booleanValue :: "row \<Rightarrow> string list \<Rightarrow> bool option" where
  "booleanValue r [] = None"
| "booleanValue r (k # ks) =
     (case as_boolean (plain_value (col r k)) of Some b \<Rightarrow> Some b | None \<Rightarrow> booleanValue r ks)"

definition finite_number :: "js_number \<Rightarrow> rat option" where
  "finite_number n = (case n of Num r \<Rightarrow> Some r | _ \<Rightarrow> None)"

definition cell_to_number :: "(rat \<Rightarrow> string) \<Rightarrow> cell option \<Rightarrow> js_number" where
  "cell_to_number prt c = (case c of Some (Stamp t) \<Rightarrow> Num (of_int t) | _ \<Rightarrow> js_to_number prt (plain_value c))"

fun numberValue :: "(rat \<Rightarrow> string) \<Rightarrow> row \<Rightarrow> string list \<Rightarrow> rat option" where
  "numberValue prt r [] = None"
| "numberValue prt r (k # ks) =
     (case finite_number (cell_to_number prt (col r k)) of Some n \<Rightarrow> Some n | None \<Rightarrow> numberValue prt r ks)"

section \<open>Searching nested JSON\<close>

fun first_some :: "('a \<Rightarrow> 'b option) \<Rightarrow> 'a list \<Rightarrow> 'b option" where
  "first_some f [] = None"
| "first_some f (x # xs) = (case f x of Some y \<Rightarrow> Some y | None \<Rightarrow> first_some f xs)"

definition children :: "json \<Rightarrow> json list" where
  "children v = (case v of JArr vs \<Rightarrow> vs | JObj ms \<Rightarrow> map snd ms | _ \<Rightarrow> [])"

text \<open>The keys at one level come before any child; the number bounds the depth.\<close>

primrec find_within :: "nat \<Rightarrow> string list \<Rightarrow> json \<Rightarrow> json option" where
  "find_within 0 keys v = None"
| "find_within (Suc d) keys v =
     (case first_some (map_of (object_of v)) keys of
        Some x \<Rightarrow> Some x
      | None \<Rightarrow> first_some (find_within d keys) (children v))"

definition findValue :: "json_object \<Rightarrow> string list \<Rightarrow> json option" where
  "findValue obj keys = find_within 7 keys (JObj obj)"

definition findNumber :: "(rat \<Rightarrow> string) \<Rightarrow> json_object \<Rightarrow> string list \<Rightarrow> rat option" where
  "findNumber prt obj keys = finite_number (js_to_number prt (findValue obj keys))"

definition findBoolean :: "json_object \<Rightarrow> string list \<Rightarrow> bool option" where
  "findBoolean obj keys = as_boolean (findValue obj keys)"

section \<open>Times and settings\<close>

record health_limits =
  SHARD_POLL_WARNING_MS :: rat
  SHARD_POLL_CRITICAL_MS :: rat
  V8_COMPLETED_RUN_MS :: rat
  V8_HOURLY_HANDOFF_MS :: rat
  ADAPTIVE_START_WARNING_MS :: rat
  ADAPTIVE_START_CRITICAL_MS :: rat
  ADAPTIVE_DEADLINE_OVERRUN_MS :: rat

text \<open>\<open>Math.max(lo, Number(env) || dflt)\<close> of a finite setting; \<open>None\<close> is a missing or non-numeric one.\<close>

definition setting :: "rat \<Rightarrow> rat option \<Rightarrow> rat \<Rightarrow> rat" where
  "setting lo v dflt = max lo (case v of None \<Rightarrow> dflt | Some n \<Rightarrow> if n = 0 then dflt else n)"

definition health_limits_of :: "(string \<Rightarrow> rat option) \<Rightarrow> health_limits" where
  "health_limits_of env =
     (let warn = setting 60000 (env ''TAH_SHARD_POLL_WARNING_MS'') 300000;
          run = setting 1800000 (env ''TAH_V8_COMPLETED_RUN_MS'') 3000000;
          start = setting 60000 (env ''TAH_ADAPTIVE_START_WARNING_MS'') 300000
      in \<lparr> SHARD_POLL_WARNING_MS = warn,
           SHARD_POLL_CRITICAL_MS = setting (warn + 60000) (env ''TAH_SHARD_POLL_CRITICAL_MS'') 900000,
           V8_COMPLETED_RUN_MS = run,
           V8_HOURLY_HANDOFF_MS = setting run (env ''TAH_V8_HOURLY_HANDOFF_MS'') 4500000,
           ADAPTIVE_START_WARNING_MS = start,
           ADAPTIVE_START_CRITICAL_MS = setting (start + 60000) (env ''TAH_ADAPTIVE_START_CRITICAL_MS'') 900000,
           ADAPTIVE_DEADLINE_OVERRUN_MS = setting 30000 (env ''TAH_ADAPTIVE_DEADLINE_OVERRUN_MS'') 60000 \<rparr>)"

record health_env =
  hx_prt :: "rat \<Rightarrow> string"
  hx_parse :: "string \<Rightarrow> rat option"
  hx_limits :: health_limits

definition number_timestamp :: "rat \<Rightarrow> rat" where
  "number_timestamp r = (if 1000000000000 < r then r else if 1000000000 < r then r * 1000 else 0)"

definition timestampMs :: "health_env \<Rightarrow> cell option \<Rightarrow> rat" where
  "timestampMs env c =
     (case c of
        Some (Stamp t) \<Rightarrow> of_int t
      | Some (Plain (JNum r)) \<Rightarrow> number_timestamp r
      | Some (Plain (JStr s)) \<Rightarrow>
          if js_trim s = [] then 0
          else (case finite_number (js_Number s) of
                  Some r \<Rightarrow> number_timestamp r
                | None \<Rightarrow> (case hx_parse env s of Some r \<Rightarrow> r | None \<Rightarrow> 0))
      | _ \<Rightarrow> 0)"

definition ageMs :: "health_env \<Rightarrow> cell option \<Rightarrow> rat \<Rightarrow> js_number" where
  "ageMs env c now =
     (let t = timestampMs env c in if t \<noteq> 0 then Num (max 0 (now - t)) else PosInf)"

definition exceeds :: "js_number \<Rightarrow> rat \<Rightarrow> bool" where
  "exceeds age limit = (case age of Num a \<Rightarrow> limit < a | PosInf \<Rightarrow> True | _ \<Rightarrow> False)"

definition row_time :: "health_env \<Rightarrow> string list \<Rightarrow> row \<Rightarrow> rat" where
  "row_time env keys r =
     (case find (\<lambda>t. t \<noteq> 0) (map (\<lambda>k. timestampMs env (col r k)) keys) of Some t \<Rightarrow> t | None \<Rightarrow> 0)"

text \<open>The first of the rows with the greatest time, as the stable sort puts it.\<close>

definition newest :: "health_env \<Rightarrow> row list \<Rightarrow> string list \<Rightarrow> row option" where
  "newest env rows keys =
     (case sort_key (\<lambda>r. - row_time env keys r) rows of [] \<Rightarrow> None | r # _ \<Rightarrow> Some r)"

section \<open>Candidates and heartbeats\<close>

definition candidate_of :: "string \<Rightarrow> severity \<Rightarrow> string \<Rightarrow> string \<Rightarrow> string \<Rightarrow> ms \<Rightarrow> row \<Rightarrow> row candidate" where
  "candidate_of fp sev component scope code activation details = \<lparr>
     ac_fingerprint = fp, ac_severity = sev, ac_component = component, ac_scope = scope, ac_code = code,
     ac_campaignRecordId = None, ac_shardId = None, ac_activationAfterMs = activation, ac_text = details \<rparr>"

definition beat_of :: "string \<Rightarrow> string \<Rightarrow> health_state \<Rightarrow> int option \<Rightarrow> row \<Rightarrow> row heartbeat" where
  "beat_of ident type state latency details =
     \<lparr>hk_componentId = ident, hk_componentType = type, hk_state = state, hk_latencyMs = latency, hk_text = details\<rparr>"

text \<open>What an evaluation has found so far: the \<open>Map\<close> of candidates and the heartbeats.\<close>

record evaluation =
  ev_candidates :: "row candidate list"
  ev_heartbeats :: "row heartbeat list"

definition raise_all :: "row candidate list \<Rightarrow> evaluation \<Rightarrow> evaluation" where
  "raise_all cs ev = ev\<lparr>ev_candidates := fold addCandidate cs (ev_candidates ev)\<rparr>"

definition report_beats :: "row heartbeat list \<Rightarrow> evaluation \<Rightarrow> evaluation" where
  "report_beats hs ev = ev\<lparr>ev_heartbeats := ev_heartbeats ev @ hs\<rparr>"

section \<open>Services and host\<close>

record health_inputs =
  hi_capacity :: "json_object option"
  hi_bridge :: "json_object option"
  hi_registry :: "json list option"
  hi_shards :: "row list option"
  hi_deliveries :: "row list option"

definition control_candidates :: "health_inputs \<Rightarrow> row candidate list" where
  "control_candidates i =
     (if hi_capacity i = None
      then [candidate_of ''system:control-unreachable'' Critical ''control'' ''infrastructure'' ''control_unreachable'' 30000 []]
      else [])"

definition control_beat :: "int \<Rightarrow> health_inputs \<Rightarrow> row heartbeat" where
  "control_beat latency i =
     beat_of ''control'' ''service'' (if hi_capacity i \<noteq> None then Healthy else CriticalState) (Some latency) []"

definition fleet_state_candidates :: "health_inputs \<Rightarrow> row candidate list" where
  "fleet_state_candidates i =
     (if hi_bridge i = None \<or> hi_registry i = None \<or> hi_deliveries i = None
      then [candidate_of ''system:fleet-state-unavailable'' Critical ''script-fleet'' ''delivery'' ''fleet_state_unavailable'' 30000 []]
      else [])"

definition dependencies :: "json_object \<Rightarrow> (string \<times> bool option) list" where
  "dependencies capacity = [
     (''postgres'', findBoolean capacity [''postgresHealthy'', ''databaseHealthy'', ''postgresUp'']),
     (''redis'', findBoolean capacity [''redisHealthy'', ''redisUp'']),
     (''leader'', findBoolean capacity [''leaderHealthy'', ''leaderActive'', ''isLeader''])]"

definition dependency_candidate :: "string \<times> bool option \<Rightarrow> row candidate option" where
  "dependency_candidate d =
     (if snd d = Some False
      then Some (candidate_of (''system:'' @ fst d @ ''-unhealthy'') Critical (fst d) ''infrastructure'' (fst d @ ''_unhealthy'')
             (if fst d = ''postgres'' then 15000 else 30000) [])
      else None)"

definition dependency_beat :: "string \<times> bool option \<Rightarrow> row heartbeat option" where
  "dependency_beat d =
     map_option (\<lambda>ok. beat_of (fst d) ''dependency'' (if ok then Healthy else CriticalState) None []) (snd d)"

record host_load =
  hl_cpuPercent :: "rat option"
  hl_memoryPercent :: "rat option"
  hl_diskFreePercent :: "rat option"
  hl_activeWorkers :: "rat option"
  hl_workerLimit :: "rat option"
  hl_queuedWorkers :: "rat option"

definition host_load_of :: "(rat \<Rightarrow> string) \<Rightarrow> json_object \<Rightarrow> host_load" where
  "host_load_of prt capacity = \<lparr>
     hl_cpuPercent = findNumber prt capacity [''cpuPercent'', ''cpuUsagePercent'', ''hostCpuPercent''],
     hl_memoryPercent = findNumber prt capacity [''memoryPercent'', ''memoryUsedPercent'', ''hostMemoryPercent''],
     hl_diskFreePercent = findNumber prt capacity [''diskFreePercent'', ''freeDiskPercent''],
     hl_activeWorkers = findNumber prt capacity [''activeWorkers'', ''browserWorkersActive''],
     hl_workerLimit = findNumber prt capacity [''workerLimit'', ''browserWorkerLimit'', ''maxWorkers''],
     hl_queuedWorkers = findNumber prt capacity [''queuedCampaigns'', ''queuedWorkers'', ''browserQueueDepth''] \<rparr>"

definition cpu_candidates :: "host_load \<Rightarrow> row candidate list" where
  "cpu_candidates h =
     (case hl_cpuPercent h of
        Some cpu \<Rightarrow> if 95 \<le> cpu
          then [candidate_of ''capacity:cpu-sustained'' Critical ''host'' ''capacity'' ''cpu_sustained'' 120000
                 (members [(''cpuPercent'', number_cell (Some cpu))])] else []
      | None \<Rightarrow> [])"

definition memory_candidates :: "host_load \<Rightarrow> row candidate list" where
  "memory_candidates h =
     (case hl_memoryPercent h of
        Some mem \<Rightarrow> if 92 \<le> mem
          then [candidate_of ''capacity:memory-sustained'' Critical ''host'' ''capacity'' ''memory_sustained'' 120000
                 (members [(''memoryPercent'', number_cell (Some mem))])] else []
      | None \<Rightarrow> [])"

definition disk_candidates :: "host_load \<Rightarrow> row candidate list" where
  "disk_candidates h =
     (case hl_diskFreePercent h of
        Some disk \<Rightarrow> if disk \<le> 8
          then [candidate_of ''capacity:disk-low'' (if disk \<le> 5 then Critical else Warning) ''host'' ''capacity'' ''disk_low'' 0
                 (members [(''diskFreePercent'', number_cell (Some disk))])] else []
      | None \<Rightarrow> [])"

definition pool_candidates :: "host_load \<Rightarrow> row candidate list" where
  "pool_candidates h =
     (case (hl_activeWorkers h, hl_workerLimit h, hl_queuedWorkers h) of
        (Some active, Some limit, Some queued) \<Rightarrow>
          if 0 < limit \<and> limit \<le> active \<and> 0 < queued
          then [candidate_of ''capacity:browser-pool-saturated'' Warning ''browser-pool'' ''capacity'' ''browser_pool_saturated'' 300000
                 (members [(''activeWorkers'', number_cell (Some active)), (''workerLimit'', number_cell (Some limit)),
                   (''queuedWorkers'', number_cell (Some queued))])] else []
      | _ \<Rightarrow> [])"

definition host_candidates :: "host_load \<Rightarrow> row candidate list" where
  "host_candidates h = cpu_candidates h @ memory_candidates h @ disk_candidates h @ pool_candidates h"

definition host_beat :: "host_load \<Rightarrow> row candidate list \<Rightarrow> row heartbeat" where
  "host_beat h cs =
     beat_of ''host-capacity'' ''capacity'' (severityState (filter (\<lambda>c. ac_scope c = ''capacity'') cs)) None
       (members [(''cpuPercent'', number_cell (hl_cpuPercent h)), (''memoryPercent'', number_cell (hl_memoryPercent h)),
         (''diskFreePercent'', number_cell (hl_diskFreePercent h)), (''activeWorkers'', number_cell (hl_activeWorkers h)),
         (''workerLimit'', number_cell (hl_workerLimit h)), (''queuedWorkers'', number_cell (hl_queuedWorkers h))])"

definition evaluate_services :: "(rat \<Rightarrow> string) \<Rightarrow> int \<Rightarrow> health_inputs \<Rightarrow> evaluation \<Rightarrow> evaluation" where
  "evaluate_services prt latency i ev0 =
     (let capacity = (case hi_capacity i of Some c \<Rightarrow> c | None \<Rightarrow> []);
          ds = dependencies capacity; h = host_load_of prt capacity;
          ev1 = report_beats [control_beat latency i] (raise_all (control_candidates i) ev0);
          ev2 = report_beats (List.map_filter dependency_beat ds)
                  (raise_all (List.map_filter dependency_candidate ds) (raise_all (fleet_state_candidates i) ev1));
          ev3 = raise_all (host_candidates h) ev2
      in report_beats [host_beat h (ev_candidates ev3)] ev3)"

section \<open>Campaigns\<close>

definition id_keys :: "string list" where
  "id_keys = [''id'', ''campaignRecordId'', ''recordId'']"

text \<open>\<open>new Map(rows.map((row) => [textValue(row, ..), row]))\<close>\<close>

definition index_by :: "(row \<Rightarrow> string) \<Rightarrow> row list \<Rightarrow> (string \<times> row) list" where
  "index_by key rows = fold (\<lambda>r. AList.update (key r) r) rows []"

definition registry_rows :: "health_inputs \<Rightarrow> row list" where
  "registry_rows i = (case hi_registry i of Some js \<Rightarrow> map (plain_row \<circ> object_of) js | None \<Rightarrow> [])"

definition campaign_rows :: "health_inputs \<Rightarrow> row list" where
  "campaign_rows i =
     (let rows = map plain_row (records (findValue (case hi_capacity i of Some c \<Rightarrow> c | None \<Rightarrow> []) [''campaigns'', ''campaignRows'']))
      in if rows \<noteq> [] then rows else registry_rows i)"

record campaign_view =
  cv_id :: string
  cv_name :: string
  cv_status :: string
  cv_desiredRunning :: bool
  cv_lastCapturedAt :: "cell option"
  cv_lastError :: string
  cv_useScriptMesh :: bool

definition campaign_view_of :: "(rat \<Rightarrow> string) \<Rightarrow> (string \<times> row) list \<Rightarrow> row \<Rightarrow> campaign_view" where
  "campaign_view_of prt registryById campaign =
     (let id = textValue prt campaign id_keys;
          registryCampaign = (case map_of registryById id of Some r \<Rightarrow> r | None \<Rightarrow> []);
          combined = spread registryCampaign campaign;
          config = spread (record_of (col registryCampaign ''config'')) (record_of (col campaign ''config''));
          name = textValue prt combined [''name'', ''campaignName'']
      in \<lparr> cv_id = id,
           cv_name = (if name \<noteq> [] then name else id),
           cv_status = to_lower (textValue prt combined [''status'', ''runStatus'']),
           cv_desiredRunning = (case booleanValue combined [''desiredRunning'', ''shouldRun''] of Some b \<Rightarrow> b | None \<Rightarrow> False),
           cv_lastCapturedAt = cell_coalesce (col combined ''lastCapturedAt'') (col combined ''last_capture_at''),
           cv_lastError = textValue prt combined [''lastError'', ''error''],
           cv_useScriptMesh = truthy (jget config ''useScriptMesh'') \<rparr>)"

definition status_details :: "campaign_view \<Rightarrow> row" where
  "status_details v = members [(''status'', text_cell (cv_status v)), (''lastError'', text_cell (cv_lastError v))]"

definition campaign_candidates :: "health_env \<Rightarrow> rat \<Rightarrow> campaign_view \<Rightarrow> row candidate list" where
  "campaign_candidates env now v =
     (if cv_desiredRunning v \<and> cv_status v \<notin> set [''running'', ''queued'', ''starting'', ''scheduled'', ''retrying'']
      then [(candidate_of (''campaign:'' @ cv_id v @ '':unexpected-stop'') Critical (cv_name v) ''campaign'' ''campaign_unexpected_stop''
              30000 (status_details v))\<lparr>ac_campaignRecordId := Some (cv_id v)\<rparr>] else [])
   @ (if cv_desiredRunning v \<and> cv_status v = ''running'' \<and> exceeds (ageMs env (cv_lastCapturedAt v) now) 180000
      then [(candidate_of (''campaign:'' @ cv_id v @ '':capture-stale'') Warning (cv_name v) ''capture'' ''capture_stale'' 0
              (members [(''lastCapturedAt'', cell_or_null (cv_lastCapturedAt v)), (''lastError'', text_cell (cv_lastError v))]))
              \<lparr>ac_campaignRecordId := Some (cv_id v)\<rparr>] else [])
   @ (if cv_desiredRunning v \<and> cv_status v \<in> set [''error'', ''failed'', ''fatal'']
      then [(candidate_of (''campaign:'' @ cv_id v @ '':run-failed'') Critical (cv_name v) ''campaign'' ''campaign_failed'' 0
              (status_details v))\<lparr>ac_campaignRecordId := Some (cv_id v)\<rparr>] else [])"

definition campaign_beat :: "campaign_view \<Rightarrow> row candidate list \<Rightarrow> row heartbeat" where
  "campaign_beat v cs =
     beat_of (''campaign:'' @ cv_id v) ''campaign'' (severityState cs) None
       (members [(''campaignRecordId'', text_cell (cv_id v)), (''name'', text_cell (cv_name v)), (''status'', text_cell (cv_status v)),
         (''desiredRunning'', Some (Plain (JBool (cv_desiredRunning v)))),
         (''lastCapturedAt'', cell_or_null (cv_lastCapturedAt v)), (''useScriptMesh'', Some (Plain (JBool (cv_useScriptMesh v))))])"

definition evaluate_campaign :: "health_env \<Rightarrow> rat \<Rightarrow> (string \<times> row) list \<Rightarrow> row \<Rightarrow> evaluation \<Rightarrow> evaluation" where
  "evaluate_campaign env now registryById campaign ev =
     (let v = campaign_view_of (hx_prt env) registryById campaign; cs = campaign_candidates env now v
      in if cv_id v = [] then ev else report_beats [campaign_beat v cs] (raise_all cs ev))"

definition evaluate_campaigns :: "health_env \<Rightarrow> rat \<Rightarrow> health_inputs \<Rightarrow> evaluation \<Rightarrow> evaluation" where
  "evaluate_campaigns env now i =
     fold (evaluate_campaign env now (index_by (\<lambda>r. textValue (hx_prt env) r id_keys) (registry_rows i))) (campaign_rows i)"

section \<open>Deliveries\<close>

text \<open>A member of the bridge state under its current or an older name.\<close>

definition bridge_rows :: "health_inputs \<Rightarrow> string \<Rightarrow> string \<Rightarrow> string \<Rightarrow> row list" where
  "bridge_rows i k1 k2 k3 =
     (let b = (case hi_bridge i of Some ms \<Rightarrow> ms | None \<Rightarrow> [])
      in map plain_row (records (js_coalesce (js_coalesce (jget b k1) (jget b k2)) (jget b k3))))"

definition delivery_rows :: "health_inputs \<Rightarrow> row list" where
  "delivery_rows i =
     bridge_rows i ''deliveries'' ''deliveryByCampaign'' ''campaignDeliveries''
   @ (case hi_deliveries i of Some rs \<Rightarrow> rs | None \<Rightarrow> [])
   @ bridge_rows i ''jobs'' ''deliveryJobs'' ''queue''"

definition shard_key :: "(rat \<Rightarrow> string) \<Rightarrow> row \<Rightarrow> string" where
  "shard_key prt r = textValue prt r [''id'', ''shardId'']"

definition add_legacy_shard :: "(rat \<Rightarrow> string) \<Rightarrow> row \<Rightarrow> (string \<times> row) list \<Rightarrow> (string \<times> row) list" where
  "add_legacy_shard prt r m = (if shard_key prt r \<noteq> [] then AList.update (shard_key prt r) r m else m)"

definition add_relational_shard :: "(rat \<Rightarrow> string) \<Rightarrow> row \<Rightarrow> (string \<times> row) list \<Rightarrow> (string \<times> row) list" where
  "add_relational_shard prt r m =
     (let k = shard_key prt r
      in if k \<noteq> [] then AList.update k (spread (case map_of m k of Some old \<Rightarrow> old | None \<Rightarrow> []) r) m else m)"

definition shard_rows :: "(rat \<Rightarrow> string) \<Rightarrow> health_inputs \<Rightarrow> row list" where
  "shard_rows prt i =
     filter (\<lambda>r. \<not> cell_truthy (col r ''deletedAt''))
       (map snd (fold (add_relational_shard prt) (case hi_shards i of Some rs \<Rightarrow> rs | None \<Rightarrow> [])
         (fold (add_legacy_shard prt) (bridge_rows i ''shards'' ''fleetShards'' ''workers'') [])))"

definition delivery_campaign :: "(rat \<Rightarrow> string) \<Rightarrow> row \<Rightarrow> string" where
  "delivery_campaign prt r = textValue prt r [''campaignRecordId'', ''campaignId'', ''recordId'']"

definition group_delivery :: "(rat \<Rightarrow> string) \<Rightarrow> row \<Rightarrow> (string \<times> row list) list \<Rightarrow> (string \<times> row list) list" where
  "group_delivery prt r m =
     (let k = delivery_campaign prt r
      in if k = [] then m else AList.update k ((case map_of m k of Some rs \<Rightarrow> rs | None \<Rightarrow> []) @ [r]) m)"

definition deliveries_by_campaign :: "(rat \<Rightarrow> string) \<Rightarrow> health_inputs \<Rightarrow> (string \<times> row list) list" where
  "deliveries_by_campaign prt i = fold (group_delivery prt) (delivery_rows i) []"

definition is_enrolled :: "(rat \<Rightarrow> string) \<Rightarrow> (string \<times> row list) list \<Rightarrow> row \<Rightarrow> bool" where
  "is_enrolled prt byCampaign campaign \<longleftrightarrow>
     cell_truthy (cell_coalesce (map_option Plain (jget (record_of (col campaign ''config'')) ''useScriptMesh'')) (col campaign ''useScriptMesh''))
   \<or> map_of byCampaign (textValue prt campaign id_keys) \<noteq> None"

definition enrolled_campaigns :: "(rat \<Rightarrow> string) \<Rightarrow> health_inputs \<Rightarrow> row list" where
  "enrolled_campaigns prt i = filter (is_enrolled prt (deliveries_by_campaign prt i)) (registry_rows i)"

record delivery_view =
  dv_id :: string
  dv_name :: string
  dv_shardId :: string
  dv_latestSuffix :: string
  dv_capturedAt :: "cell option"
  dv_delivery :: "row option"
  dv_deliveryStatus :: string
  dv_deliveryAge :: js_number
  dv_expectedHash :: string
  dv_verifiedHash :: string
  dv_verifiedSuffix :: string

definition delivery_time_keys :: "string list" where
  "delivery_time_keys = [''updatedAt'', ''verifiedAt'', ''appliedAt'', ''leasedAt'', ''queuedAt'', ''createdAt'', ''version'']"

text \<open>\<open>delivery && (delivery.queuedAt ?? delivery.createdAt ?? delivery.version)\<close>, then the age of that or of the capture\<close>

definition delivery_age :: "health_env \<Rightarrow> rat \<Rightarrow> row option \<Rightarrow> cell option \<Rightarrow> js_number" where
  "delivery_age env now delivery capturedAt =
     (let queuedAt = (case delivery of None \<Rightarrow> None
           | Some d \<Rightarrow> cell_coalesce (cell_coalesce (col d ''queuedAt'') (col d ''createdAt'')) (col d ''version''))
      in if cell_truthy queuedAt then ageMs env queuedAt now else ageMs env capturedAt now)"

definition delivery_view_of :: "health_env \<Rightarrow> rat \<Rightarrow> (string \<times> row list) list \<Rightarrow> row \<Rightarrow> delivery_view" where
  "delivery_view_of env now byCampaign campaign =
     (let prt = hx_prt env; id = textValue prt campaign id_keys; name = textValue prt campaign [''name'', ''campaignName''];
          config = plain_row (record_of (col campaign ''config'')); own = textValue prt campaign [''scriptFleetShardId'', ''shardId''];
          capturedAt = cell_coalesce (col campaign ''lastCapturedAt'') (col campaign ''last_capture_at'');
          delivery = newest env (case map_of byCampaign id of Some rs \<Rightarrow> rs | None \<Rightarrow> []) delivery_time_keys;
          d = (case delivery of Some r \<Rightarrow> r | None \<Rightarrow> [])
      in \<lparr> dv_id = id,
           dv_name = (if name \<noteq> [] then name else id),
           dv_shardId = (if own \<noteq> [] then own else textValue prt config [''scriptFleetShardId'', ''shardId'']),
           dv_latestSuffix = textValue prt campaign [''latestSuffix'', ''suffix''],
           dv_capturedAt = capturedAt,
           dv_delivery = delivery,
           dv_deliveryStatus = to_lower (textValue prt d [''status'', ''state'', ''deliveryStatus'', ''jobStatus'']),
           dv_deliveryAge = delivery_age env now delivery capturedAt,
           dv_expectedHash = textValue prt d [''suffixHash'', ''queuedSuffixHash'', ''expectedSuffixHash''],
           dv_verifiedHash = textValue prt d [''verifiedSuffixHash'', ''appliedSuffixHash'', ''lastAppliedSuffixHash''],
           dv_verifiedSuffix = textValue prt d [''verifiedSuffix'', ''appliedSuffix'', ''readBackSuffix''] \<rparr>)"

text \<open>\<open>x || undefined\<close> and \<open>x || null\<close> of a string\<close>

definition or_undefined :: "string \<Rightarrow> string option" where
  "or_undefined s = (if s = [] then None else Some s)"

definition text_or_null :: "string \<Rightarrow> cell option" where
  "text_or_null s = cell_or_null (text_cell s)"

definition delivery_candidate :: "delivery_view \<Rightarrow> string \<Rightarrow> severity \<Rightarrow> string \<Rightarrow> row \<Rightarrow> row candidate" where
  "delivery_candidate v kind sev code details =
     (candidate_of (''delivery:'' @ dv_id v @ '':'' @ kind) sev (dv_name v) ''delivery'' code 0 details)
       \<lparr>ac_campaignRecordId := Some (dv_id v), ac_shardId := or_undefined (dv_shardId v)\<rparr>"

definition age_cell :: "js_number \<Rightarrow> cell option" where
  "age_cell a = Some (Plain (case a of Num r \<Rightarrow> JNum r | _ \<Rightarrow> JNull))"

text \<open>The exact suffix that was leased differs from what was read back.\<close>

definition readback_differs :: "delivery_view \<Rightarrow> bool" where
  "readback_differs v \<longleftrightarrow>
     dv_expectedHash v \<noteq> [] \<and> dv_verifiedHash v \<noteq> [] \<and> dv_expectedHash v \<noteq> dv_verifiedHash v
   \<or> dv_latestSuffix v \<noteq> [] \<and> dv_verifiedSuffix v \<noteq> [] \<and> dv_latestSuffix v \<noteq> dv_verifiedSuffix v"

definition delivery_candidates :: "health_env \<Rightarrow> rat \<Rightarrow> delivery_view \<Rightarrow> row candidate list" where
  "delivery_candidates env now v =
     (if dv_shardId v = [] then [delivery_candidate v ''unassigned'' Critical ''fleet_unassigned'' []] else [])
   @ (if dv_latestSuffix v \<noteq> [] \<and> dv_delivery v = None \<and> exceeds (ageMs env (dv_capturedAt v) now) 60000
      then [delivery_candidate v ''not-queued'' Critical ''suffix_not_queued'' (members [(''capturedAt'', cell_or_null (dv_capturedAt v))])]
      else [])
   @ (if dv_deliveryStatus v \<in> set [''failed'', ''dead'', ''dead_letter'', ''rejected'']
      then [delivery_candidate v ''failed'' Critical ''delivery_failed'' (members [(''deliveryStatus'', text_cell (dv_deliveryStatus v))])]
      else [])
   @ (if dv_deliveryStatus v \<in> set [''pending'', ''queued'', ''leased'', ''processing'', ''retrying''] \<and> exceeds (dv_deliveryAge v) 180000
      then [delivery_candidate v ''delayed'' (if exceeds (dv_deliveryAge v) 600000 then Critical else Warning) ''delivery_delayed''
              (members [(''deliveryStatus'', text_cell (dv_deliveryStatus v)), (''deliveryAgeMs'', age_cell (dv_deliveryAge v))])]
      else [])
   @ (if readback_differs v
      then [delivery_candidate v ''mismatch'' Critical ''suffix_mismatch''
              (members [(''expectedHash'', text_or_null (dv_expectedHash v)), (''verifiedHash'', text_or_null (dv_verifiedHash v))])]
      else [])"

definition delivery_beat :: "delivery_view \<Rightarrow> row candidate list \<Rightarrow> row heartbeat" where
  "delivery_beat v cs =
     beat_of (''delivery:'' @ dv_id v) ''campaign-delivery'' (severityState cs) None
       (members [(''campaignRecordId'', text_cell (dv_id v)), (''name'', text_cell (dv_name v)), (''shardId'', text_or_null (dv_shardId v)),
         (''deliveryStatus'', text_cell (if dv_deliveryStatus v \<noteq> [] then dv_deliveryStatus v else ''waiting_for_capture''))])"

definition evaluate_delivery :: "health_env \<Rightarrow> rat \<Rightarrow> (string \<times> row list) list \<Rightarrow> row \<Rightarrow> evaluation \<Rightarrow> evaluation" where
  "evaluate_delivery env now byCampaign campaign ev =
     (let v = delivery_view_of env now byCampaign campaign; cs = delivery_candidates env now v
      in if dv_id v = [] then ev else report_beats [delivery_beat v cs] (raise_all cs ev))"

definition evaluate_deliveries :: "health_env \<Rightarrow> rat \<Rightarrow> health_inputs \<Rightarrow> evaluation \<Rightarrow> evaluation" where
  "evaluate_deliveries env now i =
     fold (evaluate_delivery env now (deliveries_by_campaign (hx_prt env) i)) (enrolled_campaigns (hx_prt env) i)"

text \<open>How many enrolled campaigns each shard serves.\<close>

definition count_shard :: "health_env \<Rightarrow> rat \<Rightarrow> (string \<times> row list) list \<Rightarrow> row \<Rightarrow> (string \<times> nat) list \<Rightarrow> (string \<times> nat) list" where
  "count_shard env now byCampaign campaign m =
     (let v = delivery_view_of env now byCampaign campaign; s = dv_shardId v
      in if dv_id v = [] \<or> s = [] then m
         else AList.update s ((case map_of m s of Some n \<Rightarrow> n | None \<Rightarrow> 0) + 1) m)"

definition shard_campaigns :: "health_env \<Rightarrow> rat \<Rightarrow> health_inputs \<Rightarrow> (string \<times> nat) list" where
  "shard_campaigns env now i =
     fold (count_shard env now (deliveries_by_campaign (hx_prt env) i)) (enrolled_campaigns (hx_prt env) i) []"

section \<open>Shards\<close>

record shard_view =
  sv_lastPollAt :: "cell option"
  sv_lastAckAt :: "cell option"
  sv_lastManifestSeenAt :: "cell option"
  sv_executionStartedAt :: "cell option"
  sv_expectedNextStartAt :: "cell option"
  sv_hardStopAt :: "cell option"
  sv_heartbeatSource :: string
  sv_pollAge :: js_number
  sv_manifestAge :: js_number
  sv_runSpan :: rat
  sv_handoffMarginMs :: "rat option"
  sv_scheduleSampleCount :: "rat option"
  sv_accountCount :: "rat option"

definition shard_view_of :: "health_env \<Rightarrow> rat \<Rightarrow> row \<Rightarrow> shard_view" where
  "shard_view_of env now shard =
     (let poll = cell_coalesce (cell_coalesce (col shard ''lastPollAt'') (col shard ''last_poll_at'')) (col shard ''lastHeartbeatAt'');
          manifest = cell_coalesce (col shard ''lastManifestSeenAt'') (col shard ''manifestSeenAt'');
          created = cell_coalesce (col shard ''createdAt'') (col shard ''updatedAt'')
      in \<lparr> sv_lastPollAt = poll,
           sv_lastAckAt = cell_coalesce (cell_coalesce (col shard ''lastAcknowledgementAt'') (col shard ''lastAcknowledgedAt''))
             (col shard ''lastAckAt''),
           sv_lastManifestSeenAt = manifest,
           sv_executionStartedAt = col shard ''lastExecutionStartedAt'',
           sv_expectedNextStartAt = col shard ''expectedNextStartAt'',
           sv_hardStopAt = col shard ''hardStopAt'',
           sv_heartbeatSource = textValue (hx_prt env) shard [''heartbeatSource''],
           sv_pollAge = (if cell_truthy poll then ageMs env poll now else ageMs env created now),
           sv_manifestAge = (if cell_truthy manifest then ageMs env manifest now else PosInf),
           sv_runSpan = (if cell_truthy poll \<and> cell_truthy manifest
             then max 0 (timestampMs env poll - timestampMs env manifest) else 0),
           sv_handoffMarginMs = numberValue (hx_prt env) shard [''handoffMarginMs''],
           sv_scheduleSampleCount = numberValue (hx_prt env) shard [''scheduleSampleCount''],
           sv_accountCount = numberValue (hx_prt env) shard [''accountCount''] \<rparr>)"

definition v8HourlyHandoff :: "health_env \<Rightarrow> shard_view \<Rightarrow> bool" where
  "v8HourlyHandoff env s \<longleftrightarrow>
     sv_heartbeatSource s = ''relational-v8'' \<and> V8_COMPLETED_RUN_MS (hx_limits env) \<le> sv_runSpan s"

definition adaptive_shard :: "shard_view \<Rightarrow> bool" where
  "adaptive_shard s \<longleftrightarrow> sv_heartbeatSource s = ''relational-v9'' \<and> cell_truthy (sv_expectedNextStartAt s)"

definition effectiveContactAge :: "health_env \<Rightarrow> shard_view \<Rightarrow> js_number" where
  "effectiveContactAge env s =
     (if v8HourlyHandoff env s
      then (case sv_manifestAge s of Num m \<Rightarrow> Num (max 0 (m - V8_HOURLY_HANDOFF_MS (hx_limits env))) | m \<Rightarrow> m)
      else sv_pollAge s)"

definition executionHasPolled :: "health_env \<Rightarrow> shard_view \<Rightarrow> bool" where
  "executionHasPolled env s \<longleftrightarrow>
     cell_truthy (sv_lastPollAt s) \<and> cell_truthy (sv_executionStartedAt s)
   \<and> timestampMs env (sv_executionStartedAt s) \<le> timestampMs env (sv_lastPollAt s)"

definition executionAge :: "health_env \<Rightarrow> rat \<Rightarrow> shard_view \<Rightarrow> js_number" where
  "executionAge env now s =
     (if cell_truthy (sv_executionStartedAt s) then Num (max 0 (now - timestampMs env (sv_executionStartedAt s))) else PosInf)"

definition beforeHardStop :: "health_env \<Rightarrow> rat \<Rightarrow> shard_view \<Rightarrow> bool" where
  "beforeHardStop env now s \<longleftrightarrow> cell_truthy (sv_hardStopAt s) \<and> now < timestampMs env (sv_hardStopAt s)"

definition expectedStartDelay :: "health_env \<Rightarrow> rat \<Rightarrow> shard_view \<Rightarrow> js_number" where
  "expectedStartDelay env now s =
     (if cell_truthy (sv_expectedNextStartAt s) then Num (now - timestampMs env (sv_expectedNextStartAt s)) else NegInf)"

definition pollAfterHardStop :: "health_env \<Rightarrow> shard_view \<Rightarrow> bool" where
  "pollAfterHardStop env s \<longleftrightarrow>
     cell_truthy (sv_lastPollAt s) \<and> cell_truthy (sv_hardStopAt s)
   \<and> timestampMs env (sv_hardStopAt s) < timestampMs env (sv_lastPollAt s)"

definition deadlineOverrun :: "health_env \<Rightarrow> rat \<Rightarrow> shard_view \<Rightarrow> js_number" where
  "deadlineOverrun env now s =
     (if cell_truthy (sv_hardStopAt s) \<and> pollAfterHardStop env s \<and> \<not> exceeds (sv_pollAge s) (SHARD_POLL_WARNING_MS (hx_limits env))
      then Num (now - timestampMs env (sv_hardStopAt s)) else NegInf)"

definition plannedAdaptiveHandoff :: "health_env \<Rightarrow> rat \<Rightarrow> shard_view \<Rightarrow> bool" where
  "plannedAdaptiveHandoff env now s \<longleftrightarrow>
     adaptive_shard s \<and> cell_truthy (sv_hardStopAt s) \<and> cell_truthy (sv_expectedNextStartAt s)
   \<and> timestampMs env (sv_hardStopAt s) \<le> now
   \<and> now \<le> timestampMs env (sv_expectedNextStartAt s) + ADAPTIVE_START_WARNING_MS (hx_limits env)
   \<and> \<not> pollAfterHardStop env s"

definition shard_candidate :: "string \<Rightarrow> string \<Rightarrow> severity \<Rightarrow> string \<Rightarrow> row \<Rightarrow> row candidate" where
  "shard_candidate shardId kind sev code details =
     (candidate_of (''shard:'' @ shardId @ '':'' @ kind) sev shardId ''script-fleet'' code 0 details)\<lparr>ac_shardId := Some shardId\<rparr>"

definition adaptive_details :: "nat \<Rightarrow> shard_view \<Rightarrow> row" where
  "adaptive_details campaignCount s = members [
     (''campaignCount'', number_cell (Some (of_nat campaignCount))), (''lastPollAt'', sv_lastPollAt s),
     (''executionStartedAt'', sv_executionStartedAt s), (''hardStopAt'', sv_hardStopAt s),
     (''expectedNextStartAt'', sv_expectedNextStartAt s)]"

definition heartbeat_source_cell :: "shard_view \<Rightarrow> cell option" where
  "heartbeat_source_cell s = text_cell (if sv_heartbeatSource s \<noteq> [] then sv_heartbeatSource s else ''legacy-fallback'')"

definition contact_details :: "health_env \<Rightarrow> nat \<Rightarrow> shard_view \<Rightarrow> row" where
  "contact_details env campaignCount s =
     (let l = hx_limits env in members [
       (''campaignCount'', number_cell (Some (of_nat campaignCount))),
       (''lastPollAt'', cell_or_null (sv_lastPollAt s)), (''lastAckAt'', cell_or_null (sv_lastAckAt s)),
       (''lastManifestSeenAt'', cell_or_null (sv_lastManifestSeenAt s)), (''heartbeatSource'', heartbeat_source_cell s),
       (''heartbeatMode'', text_cell (if v8HourlyHandoff env s then ''hourly-handoff'' else ''active-execution'')),
       (''rawPollAgeMs'', age_cell (sv_pollAge s)), (''effectiveContactAgeMs'', age_cell (effectiveContactAge env s)),
       (''warningAfterMs'', number_cell (Some (SHARD_POLL_WARNING_MS l))), (''criticalAfterMs'', number_cell (Some (SHARD_POLL_CRITICAL_MS l))),
       (''v8CompletedRunMs'', number_cell (Some (V8_COMPLETED_RUN_MS l))), (''v8HourlyHandoffMs'', number_cell (Some (V8_HOURLY_HANDOFF_MS l))),
       (''nextEvaluationWithinMs'', number_cell (Some 15000))])"

definition shard_candidates :: "health_env \<Rightarrow> rat \<Rightarrow> string \<Rightarrow> nat \<Rightarrow> shard_view \<Rightarrow> row candidate list" where
  "shard_candidates env now shardId n s =
     (let l = hx_limits env in
      if adaptive_shard s \<and> exceeds (deadlineOverrun env now s) (ADAPTIVE_DEADLINE_OVERRUN_MS l)
      then [shard_candidate shardId ''deadline-overrun'' Warning ''apps_script_deadline_overrun'' (adaptive_details n s)]
      else if adaptive_shard s \<and> beforeHardStop env now s \<and> exceeds (executionAge env now s) (SHARD_POLL_WARNING_MS l)
              \<and> (\<not> executionHasPolled env s \<or> exceeds (sv_pollAge s) (SHARD_POLL_WARNING_MS l))
      then (let critical = exceeds (sv_pollAge s) (SHARD_POLL_CRITICAL_MS l) in
            [shard_candidate shardId ''active-poll-stale'' (if critical then Critical else Warning)
               (if critical then ''apps_script_active_stopped'' else ''apps_script_active_delayed'') (adaptive_details n s)])
      else if adaptive_shard s \<and> exceeds (expectedStartDelay env now s) (ADAPTIVE_START_WARNING_MS l)
      then (let critical = exceeds (expectedStartDelay env now s) (ADAPTIVE_START_CRITICAL_MS l) in
            [shard_candidate shardId ''expected-start-missed'' (if critical then Critical else Warning)
               (if critical then ''apps_script_stopped'' else ''apps_script_start_delayed'') (adaptive_details n s)])
      else if \<not> adaptive_shard s \<and> exceeds (effectiveContactAge env s) (SHARD_POLL_WARNING_MS l)
      then (let critical = exceeds (effectiveContactAge env s) (SHARD_POLL_CRITICAL_MS l) in
            [shard_candidate shardId ''poll-stale'' (if critical then Critical else Warning)
               (if critical then ''apps_script_stopped'' else ''apps_script_poll_delayed'') (contact_details env n s)])
      else [])"

definition shard_beat :: "health_env \<Rightarrow> rat \<Rightarrow> string \<Rightarrow> nat \<Rightarrow> shard_view \<Rightarrow> row candidate list \<Rightarrow> row heartbeat" where
  "shard_beat env now shardId n s cs =
     beat_of (''shard:'' @ shardId) ''apps-script-shard'' (severityState cs) None (members [
       (''shardId'', text_cell shardId), (''campaignCount'', number_cell (Some (of_nat n))),
       (''lastPollAt'', cell_or_null (sv_lastPollAt s)), (''lastAckAt'', cell_or_null (sv_lastAckAt s)),
       (''lastManifestSeenAt'', cell_or_null (sv_lastManifestSeenAt s)), (''heartbeatSource'', heartbeat_source_cell s),
       (''heartbeatMode'', text_cell (if plannedAdaptiveHandoff env now s then ''adaptive-handoff''
          else if v8HourlyHandoff env s then ''hourly-handoff'' else ''active-execution'')),
       (''executionStartedAt'', cell_or_null (sv_executionStartedAt s)),
       (''expectedNextStartAt'', cell_or_null (sv_expectedNextStartAt s)), (''hardStopAt'', cell_or_null (sv_hardStopAt s)),
       (''handoffMarginMs'', number_cell (sv_handoffMarginMs s)),
       (''scheduleSampleCount'', number_cell (sv_scheduleSampleCount s)), (''accountCount'', number_cell (sv_accountCount s))])"

definition evaluate_shard :: "health_env \<Rightarrow> rat \<Rightarrow> (string \<times> row) list \<Rightarrow> string \<times> nat \<Rightarrow> evaluation \<Rightarrow> evaluation" where
  "evaluate_shard env now shardById c ev =
     (let s = shard_view_of env now (case map_of shardById (fst c) of Some r \<Rightarrow> r | None \<Rightarrow> []);
          cs = shard_candidates env now (fst c) (snd c) s
      in report_beats [shard_beat env now (fst c) (snd c) s cs] (raise_all cs ev))"

definition evaluate_shards :: "health_env \<Rightarrow> rat \<Rightarrow> health_inputs \<Rightarrow> evaluation \<Rightarrow> evaluation" where
  "evaluate_shards env now i =
     fold (evaluate_shard env now (index_by (shard_key (hx_prt env)) (shard_rows (hx_prt env) i))) (shard_campaigns env now i)"

section \<open>The whole evaluation\<close>

definition fleet_candidates :: "evaluation \<Rightarrow> row candidate list" where
  "fleet_candidates ev = filter (\<lambda>c. ac_scope c = ''delivery'' \<or> ac_scope c = ''script-fleet'') (ev_candidates ev)"

definition fleet_beat :: "health_env \<Rightarrow> rat \<Rightarrow> health_inputs \<Rightarrow> evaluation \<Rightarrow> row heartbeat" where
  "fleet_beat env now i ev =
     beat_of ''script-fleet'' ''delivery'' (severityState (fleet_candidates ev)) None (members [
       (''enrolledCampaigns'', number_cell (Some (of_nat (length (enrolled_campaigns (hx_prt env) i))))),
       (''shards'', number_cell (Some (of_nat (length (shard_campaigns env now i))))),
       (''openFleetAlerts'', number_cell (Some (of_nat (length (fleet_candidates ev))))),
       (''summary'', Some (Plain (JBool True)))])"

definition evaluator_beat :: "int \<Rightarrow> string \<Rightarrow> evaluation \<Rightarrow> row heartbeat" where
  "evaluator_beat latency source ev =
     beat_of ''alert-evaluator'' ''watchdog'' Healthy (Some latency) (members [(''source'', text_cell source),
       (''candidates'', number_cell (Some (of_nat (length (ev_candidates ev)))))])"

definition evaluation_of :: "health_env \<Rightarrow> rat \<Rightarrow> int \<Rightarrow> int \<Rightarrow> string \<Rightarrow> health_inputs \<Rightarrow> evaluation" where
  "evaluation_of env now latency1 latency2 source i =
     (let ev = evaluate_shards env now i (evaluate_deliveries env now i (evaluate_campaigns env now i
                 (evaluate_services (hx_prt env) latency1 i \<lparr>ev_candidates = [], ev_heartbeats = []\<rparr>)))
      in report_beats [fleet_beat env now i ev, evaluator_beat latency2 source ev] ev)"

text \<open>\<open>persisted\<close> is the database's time of the transaction and \<open>reported\<close> the time of the report.\<close>

definition evaluateHealth ::
  "health_env \<Rightarrow> rat \<Rightarrow> int \<Rightarrow> int \<Rightarrow> string \<Rightarrow> time \<Rightarrow> time \<Rightarrow> health_inputs \<Rightarrow> row health_store
    \<Rightarrow> health_error + row health_report \<times> row health_store" where
  "evaluateHealth env now latency1 latency2 source persisted reported i st =
     (let ev = evaluation_of env now latency1 latency2 source i in
      bindE (persistEvaluation persisted (ev_candidates ev) (ev_heartbeats ev) st) (\<lambda>st'.
      Inr (listHealthAlerts reported True False st', st')))"

section \<open>The map of candidates\<close>

lemma lookup_set_candidate:
  "lookup_by ac_fingerprint f (update_where (\<lambda>d. ac_fingerprint d = ac_fingerprint c) (\<lambda>_. c) cs) =
     (if f = ac_fingerprint c \<and> lookup_by ac_fingerprint f cs \<noteq> None then Some c else lookup_by ac_fingerprint f cs)"
  by (induction cs) (auto simp: update_where_def)

lemma lookup_new_candidate:
  "lookup_by ac_fingerprint f (cs @ [c]) =
     (case lookup_by ac_fingerprint f cs of Some p \<Rightarrow> Some p | None \<Rightarrow> if f = ac_fingerprint c then Some c else None)"
  by (induction cs) auto

definition critical_at :: "string \<Rightarrow> row candidate list \<Rightarrow> bool" where
  "critical_at f cs \<longleftrightarrow> (\<exists>p. lookup_by ac_fingerprint f cs = Some p \<and> ac_severity p = Critical)"

lemma severity_cases: "s \<noteq> Warning \<longleftrightarrow> s = Critical"
  by (cases s) auto

lemma critical_keep: "critical_at f cs \<Longrightarrow> critical_at f (addCandidate c cs)"
  by (auto simp: critical_at_def addCandidate_def lookup_set_candidate lookup_new_candidate split: option.split)

lemma critical_add: "ac_severity c = Critical \<Longrightarrow> critical_at (ac_fingerprint c) (addCandidate c cs)"
  by (auto simp: critical_at_def addCandidate_def lookup_set_candidate lookup_new_candidate severity_cases split: option.split)

lemma add_distinct: "distinct (map ac_fingerprint cs) \<Longrightarrow> distinct (map ac_fingerprint (addCandidate c cs))"
proof (cases "lookup_by ac_fingerprint (ac_fingerprint c) cs")
  case None
  then have "ac_fingerprint c \<notin> ac_fingerprint ` set cs" by (simp add: lookup_by_None_iff)
  moreover assume "distinct (map ac_fingerprint cs)"
  ultimately show ?thesis by (simp add: addCandidate_def None)
next
  case (Some p)
  assume "distinct (map ac_fingerprint cs)"
  moreover have "map ac_fingerprint (update_where (\<lambda>d. ac_fingerprint d = ac_fingerprint c) (\<lambda>_. c) cs) = map ac_fingerprint cs"
    by (rule map_update_where) simp
  ultimately show ?thesis using Some by (simp add: addCandidate_def)
qed

text \<open>What every stage of the evaluation keeps.\<close>

definition keeps :: "(evaluation \<Rightarrow> bool) \<Rightarrow> (evaluation \<Rightarrow> evaluation) \<Rightarrow> bool" where
  "keeps P f \<longleftrightarrow> (\<forall>ev. P ev \<longrightarrow> P (f ev))"

lemma keepsD: "keeps P f \<Longrightarrow> P ev \<Longrightarrow> P (f ev)"
  by (simp add: keeps_def)

lemma keeps_fold: "(\<And>x. keeps P (f x)) \<Longrightarrow> keeps P (fold f xs)"
  by (induction xs) (auto simp: keeps_def)

lemma fold_reaches:
  assumes "x \<in> set xs" "\<And>ev. P (f x ev)" "\<And>y. keeps P (f y)"
  shows "P (fold f xs ev)"
  using assms(1)
proof (induction xs arbitrary: ev)
  case (Cons y ys)
  show ?case
  proof (cases "x = y")
    case True
    then show ?thesis using keepsD [OF keeps_fold [of P f ys]] assms(2,3) by simp
  next
    case False
    with Cons show ?thesis by simp
  qed
qed simp

text \<open>A property of the candidates that \<open>addCandidate\<close> keeps survives every stage.\<close>

locale candidate_property =
  fixes Q :: "row candidate list \<Rightarrow> bool"
  assumes add: "Q cs \<Longrightarrow> Q (addCandidate c cs)"
begin

definition holds :: "evaluation \<Rightarrow> bool" where
  "holds ev \<longleftrightarrow> Q (ev_candidates ev)"

lemma fold_add: "Q cs \<Longrightarrow> Q (fold addCandidate ds cs)"
  by (induction ds arbitrary: cs) (auto intro: add)

lemma raise: "holds ev \<Longrightarrow> holds (raise_all cs ev)"
  by (simp add: holds_def raise_all_def fold_add)

lemma report: "holds (report_beats hs ev) \<longleftrightarrow> holds ev"
  by (simp add: holds_def report_beats_def)

lemma services: "keeps holds (evaluate_services prt latency i)"
  by (simp add: keeps_def evaluate_services_def Let_def report raise)

lemma campaign: "keeps holds (evaluate_campaign env now byId c)"
  by (simp add: keeps_def evaluate_campaign_def Let_def report raise)

lemma delivery: "keeps holds (evaluate_delivery env now byCampaign c)"
  by (simp add: keeps_def evaluate_delivery_def Let_def report raise)

lemma shard: "keeps holds (evaluate_shard env now byId c)"
  by (simp add: keeps_def evaluate_shard_def Let_def report raise)

lemma deliveries: "keeps holds (evaluate_deliveries env now i)"
  unfolding evaluate_deliveries_def by (rule keeps_fold [OF delivery])

lemma campaigns: "keeps holds (evaluate_campaigns env now i)"
  unfolding evaluate_campaigns_def by (rule keeps_fold [OF campaign])

lemma shards: "keeps holds (evaluate_shards env now i)"
  unfolding evaluate_shards_def by (rule keeps_fold [OF shard])

lemma evaluation: "Q [] \<Longrightarrow> Q (ev_candidates (evaluation_of env now l1 l2 source i))"
  using keepsD [OF shards keepsD [OF deliveries keepsD [OF campaigns keepsD [OF services]]]]
  unfolding evaluation_of_def Let_def report_beats_def by (simp add: holds_def)

lemma raised_by_delivery:
  assumes "c \<in> set (enrolled_campaigns (hx_prt env) i)"
    "\<And>ev. holds (evaluate_delivery env now (deliveries_by_campaign (hx_prt env) i) c ev)"
  shows "Q (ev_candidates (evaluation_of env now l1 l2 source i))"
proof -
  let ?f = "evaluate_delivery env now (deliveries_by_campaign (hx_prt env) i)"
  have "holds (fold ?f (enrolled_campaigns (hx_prt env) i) ev)" for ev
    by (rule fold_reaches [where f = ?f, OF assms delivery])
  from keepsD [OF shards this] show ?thesis
    unfolding evaluation_of_def evaluate_deliveries_def Let_def report_beats_def by (simp add: holds_def)
qed

end

interpretation unique: candidate_property "\<lambda>cs. distinct (map ac_fingerprint cs)"
  by unfold_locales (rule add_distinct)

interpretation critical: candidate_property "critical_at f" for f
  by unfold_locales (rule critical_keep)

lemma critical_in_fold:
  "c \<in> set cs \<Longrightarrow> ac_severity c = Critical \<Longrightarrow> critical_at (ac_fingerprint c) (fold addCandidate cs ds)"
proof (induction cs arbitrary: ds)
  case (Cons d cs)
  then show ?case using critical.fold_add [OF critical_add] by auto
qed simp

lemma mismatch_candidate:
  assumes "readback_differs v"
  shows "\<exists>c\<in>set (delivery_candidates env now v). ac_fingerprint c = ''delivery:'' @ dv_id v @ '':mismatch'' \<and> ac_severity c = Critical"
  using assms unfolding delivery_candidates_def delivery_candidate_def candidate_of_def by force

lemma mismatch_raised:
  assumes "c \<in> set (enrolled_campaigns (hx_prt env) i)"
    "v = delivery_view_of env now (deliveries_by_campaign (hx_prt env) i) c" "dv_id v \<noteq> []" "readback_differs v"
  shows "critical_at (''delivery:'' @ dv_id v @ '':mismatch'') (ev_candidates (evaluation_of env now l1 l2 source i))"
proof (rule critical.raised_by_delivery [OF assms(1)])
  obtain d where d: "d \<in> set (delivery_candidates env now v)" "ac_fingerprint d = ''delivery:'' @ dv_id v @ '':mismatch''"
      "ac_severity d = Critical"
    using mismatch_candidate [OF assms(4)] by metis
  fix ev
  show "critical.holds (''delivery:'' @ dv_id v @ '':mismatch'') (evaluate_delivery env now (deliveries_by_campaign (hx_prt env) i) c ev)"
    using critical_in_fold [OF d(1,3)] assms(2,3) unfolding d(2)
    by (simp add: critical.holds_def evaluate_delivery_def Let_def report_beats_def raise_all_def)
qed

text \<open>Delivery faults are raised without a delay.\<close>

definition immediate :: "row candidate \<Rightarrow> bool" where
  "immediate c \<longleftrightarrow> (take 9 (ac_fingerprint c) = ''delivery:'' \<longrightarrow> ac_activationAfterMs c = 0)"

definition all_immediate :: "evaluation \<Rightarrow> bool" where
  "all_immediate ev \<longleftrightarrow> (\<forall>c\<in>set (ev_candidates ev). immediate c)"

lemma add_candidate_set: "set (addCandidate c cs) \<subseteq> insert c (set cs)"
  by (auto simp: addCandidate_def set_update_where split: option.split)

lemma fold_add_set: "set (fold addCandidate ds cs) \<subseteq> set ds \<union> set cs"
proof (induction ds arbitrary: cs)
  case (Cons d ds)
  from Cons.IH [of "addCandidate d cs"] add_candidate_set [of d cs] show ?case by auto
qed simp

lemma raise_immediate: "\<forall>c\<in>set cs. immediate c \<Longrightarrow> all_immediate ev \<Longrightarrow> all_immediate (raise_all cs ev)"
  using fold_add_set [of cs "ev_candidates ev"] by (auto simp: all_immediate_def raise_all_def)

lemma report_immediate [simp]: "all_immediate (report_beats hs ev) = all_immediate ev"
  by (simp add: all_immediate_def report_beats_def)

lemma service_candidates_immediate:
  "\<forall>c\<in>set (control_candidates i). immediate c" "\<forall>c\<in>set (fleet_state_candidates i). immediate c"
  "\<forall>c\<in>set (List.map_filter dependency_candidate ds). immediate c" "\<forall>c\<in>set (host_candidates h). immediate c"
  by (auto simp: immediate_def candidate_of_def control_candidates_def fleet_state_candidates_def in_map_filter dependency_candidate_def
      host_candidates_def cpu_candidates_def memory_candidates_def disk_candidates_def pool_candidates_def
      split: option.splits if_splits prod.splits)

lemma campaign_candidates_immediate: "\<forall>c\<in>set (campaign_candidates env now v). immediate c"
  by (auto simp: immediate_def candidate_of_def campaign_candidates_def)

lemma delivery_candidates_immediate: "\<forall>c\<in>set (delivery_candidates env now v). immediate c"
  by (auto simp: immediate_def candidate_of_def delivery_candidate_def delivery_candidates_def)

lemma shard_candidates_immediate: "\<forall>c\<in>set (shard_candidates env now k n v). immediate c"
  by (auto simp: immediate_def candidate_of_def shard_candidate_def shard_candidates_def Let_def)

lemma evaluation_immediate: "all_immediate (evaluation_of env now l1 l2 source i)"
proof -
  have c: "keeps all_immediate (evaluate_campaign env now byId c)" for byId c
    by (simp add: keeps_def evaluate_campaign_def Let_def raise_immediate campaign_candidates_immediate)
  have d: "keeps all_immediate (evaluate_delivery env now byCampaign c)" for byCampaign c
    by (simp add: keeps_def evaluate_delivery_def Let_def raise_immediate delivery_candidates_immediate)
  have s: "keeps all_immediate (evaluate_shard env now byId c)" for byId c
    by (simp add: keeps_def evaluate_shard_def Let_def raise_immediate shard_candidates_immediate)
  have z: "all_immediate (evaluate_services prt latency i \<lparr>ev_candidates = [], ev_heartbeats = []\<rparr>)" for prt latency
    unfolding evaluate_services_def Let_def
    by (intro raise_immediate service_candidates_immediate report_immediate [THEN iffD2]) (simp add: all_immediate_def)
  note stage = keepsD [where P = all_immediate, OF keeps_fold [where P = all_immediate]]
  show ?thesis
    unfolding evaluation_of_def evaluate_campaigns_def evaluate_deliveries_def evaluate_shards_def Let_def report_immediate
    by (rule stage [OF s], rule stage [OF d], rule stage [OF c], rule z)
qed

section \<open>From a finding to the report\<close>

lemma open_critical_reported:
  assumes "a \<in> set (hs_alerts st)" "ha_severity a = Critical" "is_open a"
  shows "hr_state (listHealthAlerts now s r st) = CriticalState"
proof -
  have "a \<in> set (filter (\<lambda>a. ha_severity a = Critical \<and> is_open a) (hs_alerts st))" using assms by simp
  then have "0 < count_where (\<lambda>a. ha_severity a = Critical \<and> is_open a) (hs_alerts st)"
    unfolding count_where_def by (rule length_pos_if_in_set)
  then show ?thesis by (simp add: listHealthAlerts_def Let_def health_summary_of_def)
qed

lemma merged_immediate:
  assumes "ac_activationAfterMs c = 0" "\<And>a. old = Some a \<Longrightarrow> ha_first_seen_at a \<le> now"
  shows "is_open (merged now c old)"
proof (cases old)
  case None
  then show ?thesis using assms(1) by (simp add: merged_def insert_alert_def is_open_def)
next
  case (Some a)
  then show ?thesis using assms
    by (cases "ha_status a") (auto simp: merged_def refresh_alert_def is_open_def next_status_def matured_def)
qed

text \<open>C30: when the suffix read back for an enrolled campaign is not the exact suffix that was leased, a completed evaluation
  leaves an open critical alert for that delivery and reports the system as critical.\<close>

theorem mismatch_is_reported:
  assumes "evaluateHealth env now l1 l2 source t u i st = Inr (rep, st')"
    and "distinct (map ha_fingerprint (hs_alerts st))" "\<forall>a\<in>set (hs_alerts st). ha_first_seen_at a \<le> t"
    and "c \<in> set (enrolled_campaigns (hx_prt env) i)"
    and "v = delivery_view_of env now (deliveries_by_campaign (hx_prt env) i) c" "dv_id v \<noteq> []" "readback_differs v"
  shows "hr_state rep = CriticalState
    \<and> (\<exists>a\<in>set (hs_alerts st'). ha_fingerprint a = ''delivery:'' @ dv_id v @ '':mismatch'' \<and> ha_severity a = Critical \<and> is_open a)"
proof -
  let ?f = "''delivery:'' @ dv_id v @ '':mismatch''" and ?ev = "evaluation_of env now l1 l2 source i"
  from assms(1) have p: "persistEvaluation t (ev_candidates ?ev) (ev_heartbeats ?ev) st = Inr st'"
    and r: "rep = listHealthAlerts u True False st'"
    by (auto simp: evaluateHealth_def Let_def bindE_Inr_conv)
  obtain d where d: "lookup_by ac_fingerprint ?f (ev_candidates ?ev) = Some d" "ac_severity d = Critical"
    using mismatch_raised [OF assms(4-7), of l1 l2 source] unfolding critical_at_def by blast
  from lookup_by_SomeD [OF d(1)] evaluation_immediate [of env now l1 l2 source i] have z: "ac_activationAfterMs d = 0"
    by (auto simp: all_immediate_def immediate_def)
  let ?a = "merged t d (alert_of (hs_alerts st) ?f)"
  have l: "alert_of (hs_alerts st') ?f = Some ?a"
    using alert_of_persist [OF p unique.evaluation] d(1) by simp
  have o: "is_open ?a"
    by (rule merged_immediate [OF z]) (use assms(3) in \<open>auto dest!: lookup_by_SomeD\<close>)
  have s: "ha_severity ?a = Critical"
    using d(2) by (simp add: merged_def insert_alert_def refresh_alert_def split: option.split)
  from lookup_by_SomeD [OF l] have m: "?a \<in> set (hs_alerts st')" "ha_fingerprint ?a = ?f" by auto
  show ?thesis using open_critical_reported [OF m(1) s o] m s o r by blast
qed

text \<open>Between the protected stop of an adaptive shard and the end of the allowance after its expected start, a shard
  that has not polled since the stop raises no alert.\<close>

theorem planned_handoff_is_quiet:
  assumes "plannedAdaptiveHandoff env now s"
  shows "shard_candidates env now shardId n s = []"
proof -
  from assms have "\<not> exceeds (deadlineOverrun env now s) (ADAPTIVE_DEADLINE_OVERRUN_MS (hx_limits env))"
    by (simp add: plannedAdaptiveHandoff_def deadlineOverrun_def exceeds_def)
  moreover from assms have "\<not> beforeHardStop env now s"
    by (simp add: plannedAdaptiveHandoff_def beforeHardStop_def)
  moreover from assms have "\<not> exceeds (expectedStartDelay env now s) (ADAPTIVE_START_WARNING_MS (hx_limits env))"
    by (simp add: plannedAdaptiveHandoff_def expectedStartDelay_def exceeds_def)
  moreover from assms have "adaptive_shard s" by (simp add: plannedAdaptiveHandoff_def)
  ultimately show ?thesis by (simp add: shard_candidates_def Let_def)
qed

section \<open>Heartbeats\<close>

abbreviation beat_ids :: "evaluation \<Rightarrow> string list" where
  "beat_ids ev \<equiv> map hk_componentId (ev_heartbeats ev)"

lemma beat_ids_raise [simp]: "beat_ids (raise_all cs ev) = beat_ids ev"
  by (simp add: raise_all_def)

lemma beat_ids_report [simp]: "beat_ids (report_beats hs ev) = beat_ids ev @ map hk_componentId hs"
  by (simp add: report_beats_def)

lemma beat_of_id [simp]: "hk_componentId (beat_of ident type state latency details) = ident"
  by (simp add: beat_of_def)

lemma beat_ids_fold:
  assumes "\<And>x ev. beat_ids (f x ev) = beat_ids ev @ g x"
  shows "beat_ids (fold f xs ev) = beat_ids ev @ concat (map g xs)"
  by (induction xs arbitrary: ev) (simp_all add: assms)

definition campaign_ids :: "health_env \<Rightarrow> health_inputs \<Rightarrow> string list" where
  "campaign_ids env i = filter (\<lambda>k. k \<noteq> []) (map (\<lambda>r. textValue (hx_prt env) r id_keys) (campaign_rows i))"

definition enrolled_ids :: "health_env \<Rightarrow> health_inputs \<Rightarrow> string list" where
  "enrolled_ids env i = filter (\<lambda>k. k \<noteq> []) (map (\<lambda>r. textValue (hx_prt env) r id_keys) (enrolled_campaigns (hx_prt env) i))"

lemma concat_filter: "concat (map (\<lambda>x. if p x then [] else [f x]) xs) = map f (filter (\<lambda>x. \<not> p x) xs)"
  by (induction xs) auto

lemma view_ids [simp]:
  "cv_id (campaign_view_of prt byId r) = textValue prt r id_keys"
  "dv_id (delivery_view_of env now byCampaign r) = textValue (hx_prt env) r id_keys"
  by (simp_all add: campaign_view_of_def delivery_view_of_def Let_def)

lemma beat_ids_campaigns:
  "beat_ids (evaluate_campaigns env now i ev) = beat_ids ev @ map (\<lambda>k. ''campaign:'' @ k) (campaign_ids env i)"
proof -
  let ?id = "\<lambda>r. textValue (hx_prt env) r id_keys"
  have "beat_ids (evaluate_campaign env now byId r ev) = beat_ids ev @ (if ?id r = [] then [] else [''campaign:'' @ ?id r])" for byId r ev
    by (simp add: evaluate_campaign_def Let_def campaign_beat_def)
  from beat_ids_fold [OF this] show ?thesis
    by (simp add: evaluate_campaigns_def campaign_ids_def concat_filter filter_map comp_def)
qed

lemma beat_ids_deliveries:
  "beat_ids (evaluate_deliveries env now i ev) = beat_ids ev @ map (\<lambda>k. ''delivery:'' @ k) (enrolled_ids env i)"
proof -
  let ?id = "\<lambda>r. textValue (hx_prt env) r id_keys"
  have "beat_ids (evaluate_delivery env now byC r ev) = beat_ids ev @ (if ?id r = [] then [] else [''delivery:'' @ ?id r])" for byC r ev
    by (simp add: evaluate_delivery_def Let_def delivery_beat_def)
  from beat_ids_fold [OF this] show ?thesis
    by (simp add: evaluate_deliveries_def enrolled_ids_def concat_filter filter_map comp_def)
qed

lemma beat_ids_shards:
  "beat_ids (evaluate_shards env now i ev) = beat_ids ev @ map (\<lambda>c. ''shard:'' @ fst c) (shard_campaigns env now i)"
proof -
  have "beat_ids (evaluate_shard env now byId c ev) = beat_ids ev @ [''shard:'' @ fst c]" for byId c ev
    by (simp add: evaluate_shard_def Let_def shard_beat_def)
  from beat_ids_fold [OF this] show ?thesis
    by (simp add: evaluate_shards_def concat_map_singleton)
qed

lemma shard_campaigns_distinct: "distinct (map fst (shard_campaigns env now i))"
proof -
  have "distinct (map fst (fold (count_shard env now b) cs m))" if "distinct (map fst m)" for b cs m
    using that by (induction cs arbitrary: m) (simp_all add: count_shard_def Let_def distinct_update)
  then show ?thesis by (simp add: shard_campaigns_def)
qed

definition service_ids :: "health_env \<Rightarrow> health_inputs \<Rightarrow> string list" where
  "service_ids env i =
     [''control''] @ map hk_componentId (List.map_filter dependency_beat (dependencies (case hi_capacity i of Some c \<Rightarrow> c | None \<Rightarrow> [])))
     @ [''host-capacity'']"

lemma service_ids_eq:
  "service_ids env i = ''control'' # concat (map (\<lambda>d. if snd d = None then [] else [fst d])
     (dependencies (case hi_capacity i of Some c \<Rightarrow> c | None \<Rightarrow> []))) @ [''host-capacity'']"
  by (auto simp: service_ids_def dependencies_def dependency_beat_def List.map_filter_def)

lemma service_ids_small: "set (service_ids env i) \<subseteq> {''control'', ''postgres'', ''redis'', ''leader'', ''host-capacity''}"
  by (auto simp: service_ids_eq dependencies_def split: if_splits)

lemma service_ids_distinct: "distinct (service_ids env i)"
  by (simp add: service_ids_eq dependencies_def)

lemma beat_ids_services:
  "beat_ids (evaluate_services (hx_prt env) latency i ev) = beat_ids ev @ service_ids env i"
  by (simp add: evaluate_services_def Let_def control_beat_def host_beat_def service_ids_def)

lemma beat_ids_evaluation:
  "beat_ids (evaluation_of env now l1 l2 source i) =
     service_ids env i @ map (\<lambda>k. ''campaign:'' @ k) (campaign_ids env i) @ map (\<lambda>k. ''delivery:'' @ k) (enrolled_ids env i)
     @ map (\<lambda>c. ''shard:'' @ fst c) (shard_campaigns env now i) @ [''script-fleet'', ''alert-evaluator'']"
  by (simp add: evaluation_of_def Let_def fleet_beat_def evaluator_beat_def beat_ids_services beat_ids_campaigns
      beat_ids_deliveries beat_ids_shards)

lemma prefixed_distinct: "distinct (map (\<lambda>k. p @ k) xs) = distinct xs" for p :: string
  by (simp add: distinct_map inj_on_def)

lemma shard_ids_distinct: "distinct (map (\<lambda>c. ''shard:'' @ fst c) (shard_campaigns env now i))"
proof -
  have "distinct (map (\<lambda>k. ''shard:'' @ k) (map fst (shard_campaigns env now i)))"
    by (subst prefixed_distinct) (rule shard_campaigns_distinct)
  then show ?thesis by (simp only: map_map comp_def)
qed

lemma beat_ids_distinct_iff:
  "distinct (beat_ids (evaluation_of env now l1 l2 source i)) \<longleftrightarrow> distinct (campaign_ids env i) \<and> distinct (enrolled_ids env i)"
proof -
  let ?c = "map (\<lambda>k. ''campaign:'' @ k) (campaign_ids env i)" and ?d = "map (\<lambda>k. ''delivery:'' @ k) (enrolled_ids env i)"
  let ?s = "map (\<lambda>c. ''shard:'' @ fst c) (shard_campaigns env now i)" and ?e = "[''script-fleet'', ''alert-evaluator'']"
  have heads: "list_all (\<lambda>k. take 9 k \<in> {''control'', ''postgres'', ''redis'', ''leader'', ''host-capa''}) (service_ids env i)"
    using service_ids_small [of env i] by (auto simp: list_all_iff)
  have sep: "set (service_ids env i) \<inter> (set ?c \<union> set ?d \<union> set ?s \<union> set ?e) = {}"
    using heads by (auto simp: list_all_iff)
  have cd: "set ?c \<inter> (set ?d \<union> set ?s \<union> set ?e) = {}" by auto
  have ds: "set ?d \<inter> (set ?s \<union> set ?e) = {}" by auto
  have se: "set ?s \<inter> set ?e = {}" by auto
  have e: "distinct ?e" by simp
  have "distinct (service_ids env i @ ?c @ ?d @ ?s @ ?e) \<longleftrightarrow> distinct ?c \<and> distinct ?d"
    using sep cd ds se e service_ids_distinct [of env i] shard_ids_distinct [of env now i]
    unfolding distinct_append set_append Un_assoc by blast
  then show ?thesis unfolding beat_ids_evaluation prefixed_distinct .
qed

text \<open>An evaluation fails exactly when two listed campaigns, or two enrolled ones, have the same id: the heartbeats are
  written in one statement, which the database refuses when it would touch a row twice. Otherwise it is persisted and
  reported.\<close>

theorem evaluation_fails_on_duplicate_ids:
  "(case evaluateHealth env now l1 l2 source t u i st of
      Inr (rep, st') \<Rightarrow> rep = listHealthAlerts u True False st' \<and> distinct (campaign_ids env i) \<and> distinct (enrolled_ids env i)
    | Inl e \<Rightarrow> e = DuplicateHeartbeat \<and> \<not> (distinct (campaign_ids env i) \<and> distinct (enrolled_ids env i)))"
  using beat_ids_distinct_iff [of env now l1 l2 source i]
  by (cases "distinct (beat_ids (evaluation_of env now l1 l2 source i))")
    (auto simp: evaluateHealth_def Let_def persistEvaluation_def throwIf_def)

section \<open>Witnesses\<close>

definition demo_env :: health_env where
  "demo_env = \<lparr>hx_prt = (\<lambda>_. []), hx_parse = (\<lambda>_. None), hx_limits = health_limits_of (\<lambda>_. None)\<rparr>"

definition demo_registry :: "json list" where
  "demo_registry = [JObj [(''id'', JStr ''c1''), (''config'', JObj [(''useScriptMesh'', JBool True), (''shardId'', JStr ''s1'')])]]"

definition demo_delivery :: row where
  "demo_delivery = [(''campaignRecordId'', Plain (JStr ''c1'')), (''status'', Plain (JStr ''applied'')),
     (''suffixHash'', Plain (JStr ''a1'')), (''verifiedSuffixHash'', Plain (JStr ''b2''))]"

definition demo_inputs :: health_inputs where
  "demo_inputs = \<lparr>hi_capacity = Some [], hi_bridge = Some [], hi_registry = Some demo_registry, hi_shards = Some [],
     hi_deliveries = Some [demo_delivery]\<rparr>"

definition demo_campaign :: row where
  "demo_campaign = plain_row [(''id'', JStr ''c1''), (''config'', JObj [(''useScriptMesh'', JBool True), (''shardId'', JStr ''s1'')])]"

definition demo_store :: "row health_store" where
  "demo_store = \<lparr>hs_alerts = [], hs_heartbeats = []\<rparr>"

lemma demo_enrolled: "enrolled_campaigns (hx_prt demo_env) demo_inputs = [demo_campaign]"
  by code_simp

lemma demo_view:
  "(let v = delivery_view_of demo_env 0 (deliveries_by_campaign (hx_prt demo_env) demo_inputs) demo_campaign
    in dv_id v = ''c1'' \<and> readback_differs v)"
  by code_simp

lemma demo_ids: "campaign_ids demo_env demo_inputs = [''c1''] \<and> enrolled_ids demo_env demo_inputs = [''c1'']"
  by code_simp

lemma evaluation_succeeds:
  assumes "distinct (campaign_ids env i)" "distinct (enrolled_ids env i)"
  shows "\<exists>rep st'. evaluateHealth env now l1 l2 source t u i st = Inr (rep, st')"
  using assms beat_ids_distinct_iff [of env now l1 l2 source i]
  by (auto simp: evaluateHealth_def Let_def persistEvaluation_def throwIf_def)

theorem mismatch_is_reported_witness:
  "\<exists>rep st'. evaluateHealth demo_env 0 1 2 ''test'' 5 6 demo_inputs demo_store = Inr (rep, st') \<and> hr_state rep = CriticalState
     \<and> (\<exists>a\<in>set (hs_alerts st'). ha_fingerprint a = ''delivery:'' @ ''c1'' @ '':mismatch'' \<and> is_open a)"
proof -
  let ?v = "delivery_view_of demo_env 0 (deliveries_by_campaign (hx_prt demo_env) demo_inputs) demo_campaign"
  obtain rep st' where e: "evaluateHealth demo_env 0 1 2 ''test'' 5 6 demo_inputs demo_store = Inr (rep, st')"
    using evaluation_succeeds [of demo_env demo_inputs 0 1 2 "''test''" 5 6 demo_store] demo_ids by auto
  have s: "distinct (map ha_fingerprint (hs_alerts demo_store))" "\<forall>a\<in>set (hs_alerts demo_store). ha_first_seen_at a \<le> 5"
    by (simp_all add: demo_store_def)
  have c: "demo_campaign \<in> set (enrolled_campaigns (hx_prt demo_env) demo_inputs)" by (simp add: demo_enrolled)
  from demo_view have v: "dv_id ?v = ''c1''" "readback_differs ?v" unfolding Let_def by auto
  from v(1) have n: "dv_id ?v \<noteq> []" by simp
  from mismatch_is_reported [OF e s c refl n v(2)] e show ?thesis unfolding v(1) by blast
qed

definition handed_off :: shard_view where
  "handed_off = shard_view_of demo_env 1800000000000 [(''heartbeatSource'', Plain (JStr ''relational-v9'')),
     (''lastPollAt'', Stamp 1799999700000), (''lastExecutionStartedAt'', Stamp 1799996400000),
     (''hardStopAt'', Stamp 1799999880000), (''expectedNextStartAt'', Stamp 1800000000000)]"

theorem planned_handoff_is_quiet_witness: "shard_candidates demo_env 1800000000000 ''s1'' 3 handed_off = []"
proof -
  have "plannedAdaptiveHandoff demo_env 1800000000000 handed_off" by code_simp
  then show ?thesis by (rule planned_handoff_is_quiet)
qed

end
