(* ===== verification/Proxy_Lease.thy ===== *)
theory Proxy_Lease
  imports Js_Value
begin

text \<open>
  Leases of proxy endpoints: \<open>web/server/proxy-lease-coordinator.mjs\<close>. A coordinator combines a repository of leases with
  a lock store; each of the two has an in-memory version and one on PostgreSQL or Redis. The operations take the
  time of the call. The metadata of a lease is left out, and so are the foreign keys of the lease table, whose
  violation aborts a reservation.
\<close>

datatype lease_state = LActive | LReleased | LExpired | LQuarantined

record lease_input =
  li_leaseId :: string
  li_providerId :: string
  li_poolId :: string
  li_campaignId :: string
  li_endpointKey :: string
  li_ownerId :: string
  li_sessionId :: "string option"
  li_rotationMode :: string
  li_ttlMs :: ms

record lease =
  pl_leaseId :: string
  pl_providerId :: string
  pl_poolId :: string
  pl_campaignId :: string
  pl_endpointKey :: string
  pl_ownerId :: string
  pl_sessionId :: "string option"
  pl_rotationMode :: string
  pl_fencingToken :: nat
  pl_state :: lease_state
  pl_createdAt :: time
  pl_expiresAt :: time
  pl_releasedAt :: "time option"

record lease_ref =
  lr_leaseId :: string
  lr_ownerId :: string
  lr_fencingToken :: nat

text \<open>\<open>boundedTtl\<close>\<close>

definition js_trunc :: "rat \<Rightarrow> int" where
  "js_trunc r = (if 0 \<le> r then \<lfloor>r\<rfloor> else - \<lfloor>- r\<rfloor>)"

definition boundedTtl :: "js_number \<Rightarrow> ms" where
  "boundedTtl v = (case v of Num r \<Rightarrow> min 86400000 (max 10000 (js_trunc r)) | _ \<Rightarrow> 120000)"

definition new_lease :: "time \<Rightarrow> lease_input \<Rightarrow> nat \<Rightarrow> lease" where
  "new_lease now i token = \<lparr>
     pl_leaseId = li_leaseId i, pl_providerId = li_providerId i, pl_poolId = li_poolId i, pl_campaignId = li_campaignId i,
     pl_endpointKey = li_endpointKey i, pl_ownerId = li_ownerId i, pl_sessionId = li_sessionId i,
     pl_rotationMode = li_rotationMode i, pl_fencingToken = token, pl_state = LActive, pl_createdAt = now,
     pl_expiresAt = now + li_ttlMs i, pl_releasedAt = None \<rparr>"

text \<open>The lease a reference names, while it is active.\<close>

definition held_by :: "lease_ref \<Rightarrow> lease \<Rightarrow> bool" where
  "held_by r l \<longleftrightarrow> pl_leaseId l = lr_leaseId r \<and> pl_state l = LActive \<and> pl_ownerId l = lr_ownerId r
     \<and> pl_fencingToken l = lr_fencingToken r"

section \<open>Repositories\<close>

text \<open>What the coordinator calls, over a repository state.\<close>

record 'r lease_repository =
  repo_reserve :: "time \<Rightarrow> lease_input \<Rightarrow> 'r \<Rightarrow> lease option \<times> 'r"
  repo_renew :: "time \<Rightarrow> lease_ref \<Rightarrow> ms \<Rightarrow> 'r \<Rightarrow> lease option \<times> 'r"
  repo_release :: "time \<Rightarrow> lease_ref \<Rightarrow> lease_state \<Rightarrow> 'r \<Rightarrow> bool \<times> 'r"
  repo_get :: "string \<Rightarrow> 'r \<Rightarrow> lease option"
  repo_reapExpired :: "time \<Rightarrow> 'r \<Rightarrow> nat \<times> 'r"

subsection \<open>In memory\<close>

record memory_leases =
  ml_leases :: "lease list"
  ml_activeEndpoints :: "string \<rightharpoonup> string"
  ml_fence :: nat

text \<open>\<open>leases.set(id, lease)\<close>\<close>

definition put_lease :: "lease \<Rightarrow> lease list \<Rightarrow> lease list" where
  "put_lease l ls =
     (if list_ex (\<lambda>x. pl_leaseId x = pl_leaseId l) ls then update_where (\<lambda>x. pl_leaseId x = pl_leaseId l) (\<lambda>_. l) ls else ls @ [l])"

definition memory_insert :: "time \<Rightarrow> lease_input \<Rightarrow> memory_leases \<Rightarrow> lease option \<times> memory_leases" where
  "memory_insert now i m =
     (let l = new_lease now i (ml_fence m + 1)
      in (Some l, \<lparr>ml_leases = put_lease l (ml_leases m),
                   ml_activeEndpoints = (ml_activeEndpoints m)(li_endpointKey i \<mapsto> li_leaseId i), ml_fence = ml_fence m + 1\<rparr>))"

definition memory_current :: "string \<Rightarrow> memory_leases \<Rightarrow> lease option" where
  "memory_current endpoint m =
     (case ml_activeEndpoints m endpoint of None \<Rightarrow> None | Some k \<Rightarrow> lookup_by pl_leaseId k (ml_leases m))"

definition memory_expire :: "lease \<Rightarrow> string \<Rightarrow> memory_leases \<Rightarrow> memory_leases" where
  "memory_expire a endpoint m =
     m\<lparr>ml_leases := update_where (\<lambda>x. pl_leaseId x = pl_leaseId a) (\<lambda>x. x\<lparr>pl_state := LExpired\<rparr>) (ml_leases m),
       ml_activeEndpoints := (ml_activeEndpoints m)(endpoint := None)\<rparr>"

definition memory_reserve :: "time \<Rightarrow> lease_input \<Rightarrow> memory_leases \<Rightarrow> lease option \<times> memory_leases" where
  "memory_reserve now i m =
     (case memory_current (li_endpointKey i) m of
        None \<Rightarrow> memory_insert now i m
      | Some a \<Rightarrow> if pl_state a = LActive \<and> now < pl_expiresAt a then (None, m)
                  else memory_insert now i (memory_expire a (li_endpointKey i) m))"

definition memory_renew :: "time \<Rightarrow> lease_ref \<Rightarrow> ms \<Rightarrow> memory_leases \<Rightarrow> lease option \<times> memory_leases" where
  "memory_renew now r ttl m =
     (case lookup_by pl_leaseId (lr_leaseId r) (ml_leases m) of
        None \<Rightarrow> (None, m)
      | Some l \<Rightarrow> if \<not> held_by r l \<or> pl_expiresAt l \<le> now then (None, m)
                  else (Some (l\<lparr>pl_expiresAt := now + ttl\<rparr>),
                        m\<lparr>ml_leases := update_where (\<lambda>x. pl_leaseId x = lr_leaseId r) (\<lambda>x. x\<lparr>pl_expiresAt := now + ttl\<rparr>) (ml_leases m)\<rparr>))"

definition memory_release :: "time \<Rightarrow> lease_ref \<Rightarrow> lease_state \<Rightarrow> memory_leases \<Rightarrow> bool \<times> memory_leases" where
  "memory_release now r s m =
     (case lookup_by pl_leaseId (lr_leaseId r) (ml_leases m) of
        None \<Rightarrow> (False, m)
      | Some l \<Rightarrow> if \<not> held_by r l then (False, m)
                  else (True, m\<lparr>ml_leases := update_where (\<lambda>x. pl_leaseId x = lr_leaseId r)
                                    (\<lambda>x. x\<lparr>pl_state := s, pl_releasedAt := Some now\<rparr>) (ml_leases m),
                                ml_activeEndpoints := (ml_activeEndpoints m)(pl_endpointKey l := None)\<rparr>))"

definition overdue :: "time \<Rightarrow> lease \<Rightarrow> bool" where
  "overdue now l \<longleftrightarrow> pl_state l = LActive \<and> pl_expiresAt l \<le> now"

definition memory_reapExpired :: "time \<Rightarrow> memory_leases \<Rightarrow> nat \<times> memory_leases" where
  "memory_reapExpired now m =
     (let late = filter (overdue now) (ml_leases m)
      in (length late,
          m\<lparr>ml_leases := update_where (overdue now) (\<lambda>x. x\<lparr>pl_state := LExpired\<rparr>) (ml_leases m),
            ml_activeEndpoints := (\<lambda>e. if e \<in> pl_endpointKey ` set late then None else ml_activeEndpoints m e)\<rparr>))"

definition memory_repository :: "memory_leases lease_repository" where
  "memory_repository = \<lparr>repo_reserve = memory_reserve, repo_renew = memory_renew, repo_release = memory_release,
     repo_get = (\<lambda>k m. lookup_by pl_leaseId k (ml_leases m)), repo_reapExpired = memory_reapExpired\<rparr>"

subsection \<open>PostgreSQL\<close>

text \<open>The table \<open>tah_proxy_leases\<close> with its primary key and the unique index on active endpoints, and the sequence behind
  the fencing token, which an insert consumes even when it conflicts.\<close>

record lease_table =
  lt_rows :: "lease list"
  lt_sequence :: nat

definition expire_rows :: "time \<Rightarrow> lease list \<Rightarrow> lease list" where
  "expire_rows now = update_where (overdue now) (\<lambda>x. x\<lparr>pl_state := LExpired\<rparr>)"

definition lease_conflict :: "lease_input \<Rightarrow> lease \<Rightarrow> bool" where
  "lease_conflict i l \<longleftrightarrow> pl_leaseId l = li_leaseId i
     \<or> (pl_state l = LActive \<and> pl_providerId l = li_providerId i \<and> pl_poolId l = li_poolId i \<and> pl_endpointKey l = li_endpointKey i)"

definition table_reserve :: "time \<Rightarrow> lease_input \<Rightarrow> lease_table \<Rightarrow> lease option \<times> lease_table" where
  "table_reserve now i t =
     (let rows = expire_rows now (lt_rows t); l = new_lease now i (lt_sequence t + 1)
      in if list_ex (lease_conflict i) rows then (None, \<lparr>lt_rows = rows, lt_sequence = lt_sequence t + 1\<rparr>)
         else (Some l, \<lparr>lt_rows = rows @ [l], lt_sequence = lt_sequence t + 1\<rparr>))"

definition table_renew :: "time \<Rightarrow> lease_ref \<Rightarrow> ms \<Rightarrow> lease_table \<Rightarrow> lease option \<times> lease_table" where
  "table_renew now r ttl t =
     (let hit = (\<lambda>l. held_by r l \<and> now < pl_expiresAt l)
      in (map_option (\<lambda>l. l\<lparr>pl_expiresAt := now + ttl\<rparr>) (find hit (lt_rows t)),
          t\<lparr>lt_rows := update_where hit (\<lambda>l. l\<lparr>pl_expiresAt := now + ttl\<rparr>) (lt_rows t)\<rparr>))"

definition table_release :: "time \<Rightarrow> lease_ref \<Rightarrow> lease_state \<Rightarrow> lease_table \<Rightarrow> bool \<times> lease_table" where
  "table_release now r s t =
     (length (filter (held_by r) (lt_rows t)) = 1,
      t\<lparr>lt_rows := update_where (held_by r) (\<lambda>l. l\<lparr>pl_state := s, pl_releasedAt := Some now\<rparr>) (lt_rows t)\<rparr>)"

definition table_reapExpired :: "time \<Rightarrow> lease_table \<Rightarrow> nat \<times> lease_table" where
  "table_reapExpired now t = (length (filter (overdue now) (lt_rows t)), t\<lparr>lt_rows := expire_rows now (lt_rows t)\<rparr>)"

definition table_repository :: "lease_table lease_repository" where
  "table_repository = \<lparr>repo_reserve = table_reserve, repo_renew = table_renew, repo_release = table_release,
     repo_get = (\<lambda>k t. lookup_by pl_leaseId k (lt_rows t)), repo_reapExpired = table_reapExpired\<rparr>"

section \<open>Locks\<close>

record 'k lease_lock =
  lock_acquire :: "time \<Rightarrow> string \<Rightarrow> string \<Rightarrow> ms \<Rightarrow> 'k \<Rightarrow> bool \<times> 'k"
  lock_renew :: "time \<Rightarrow> string \<Rightarrow> string \<Rightarrow> ms \<Rightarrow> 'k \<Rightarrow> bool \<times> 'k"
  lock_release :: "time \<Rightarrow> string \<Rightarrow> string \<Rightarrow> 'k \<Rightarrow> bool \<times> 'k"

type_synonym lock_entries = "string \<rightharpoonup> string \<times> time"

subsection \<open>In memory\<close>

definition mlock_acquire :: "time \<Rightarrow> string \<Rightarrow> string \<Rightarrow> ms \<Rightarrow> lock_entries \<Rightarrow> bool \<times> lock_entries" where
  "mlock_acquire now key v ttl m =
     (case m key of
        Some (_, e) \<Rightarrow> if now < e then (False, m) else (True, m(key \<mapsto> (v, now + ttl)))
      | None \<Rightarrow> (True, m(key \<mapsto> (v, now + ttl))))"

definition mlock_renew :: "time \<Rightarrow> string \<Rightarrow> string \<Rightarrow> ms \<Rightarrow> lock_entries \<Rightarrow> bool \<times> lock_entries" where
  "mlock_renew now key v ttl m =
     (case m key of
        None \<Rightarrow> (False, m)
      | Some (w, e) \<Rightarrow> if w \<noteq> v \<or> e \<le> now then (False, m) else (True, m(key \<mapsto> (w, now + ttl))))"

definition mlock_release :: "time \<Rightarrow> string \<Rightarrow> string \<Rightarrow> lock_entries \<Rightarrow> bool \<times> lock_entries" where
  "mlock_release now key v m =
     (case m key of
        None \<Rightarrow> (False, m)
      | Some (w, _) \<Rightarrow> if w \<noteq> v then (False, m) else (True, m(key := None)))"

definition memory_lock :: "lock_entries lease_lock" where
  "memory_lock = \<lparr>lock_acquire = mlock_acquire, lock_renew = mlock_renew, lock_release = mlock_release\<rparr>"

subsection \<open>Redis\<close>

text \<open>A key past its expiry does not exist any more. \<open>SET key value NX PX\<close>, and the two scripts on \<open>GET\<close>, \<open>PEXPIRE\<close>
  and \<open>DEL\<close>.\<close>

definition redis_get :: "time \<Rightarrow> string \<Rightarrow> lock_entries \<Rightarrow> string option" where
  "redis_get now key db = (case db key of None \<Rightarrow> None | Some (v, e) \<Rightarrow> if now < e then Some v else None)"

definition redis_key :: "string \<Rightarrow> string \<Rightarrow> string" where
  "redis_key prefix key = prefix @ '':'' @ key"

definition rlock_acquire :: "string \<Rightarrow> time \<Rightarrow> string \<Rightarrow> string \<Rightarrow> ms \<Rightarrow> lock_entries \<Rightarrow> bool \<times> lock_entries" where
  "rlock_acquire prefix now key v ttl db =
     (let k = redis_key prefix key
      in if redis_get now k db = None then (True, db(k \<mapsto> (v, now + ttl))) else (False, db))"

definition rlock_renew :: "string \<Rightarrow> time \<Rightarrow> string \<Rightarrow> string \<Rightarrow> ms \<Rightarrow> lock_entries \<Rightarrow> bool \<times> lock_entries" where
  "rlock_renew prefix now key v ttl db =
     (let k = redis_key prefix key
      in if redis_get now k db = Some v then (True, db(k \<mapsto> (v, now + ttl))) else (False, db))"

definition rlock_release :: "string \<Rightarrow> time \<Rightarrow> string \<Rightarrow> string \<Rightarrow> lock_entries \<Rightarrow> bool \<times> lock_entries" where
  "rlock_release prefix now key v db =
     (let k = redis_key prefix key
      in if redis_get now k db = Some v then (True, db(k := None)) else (False, db))"

definition redis_lock :: "string \<Rightarrow> lock_entries lease_lock" where
  "redis_lock prefix = \<lparr>lock_acquire = rlock_acquire prefix, lock_renew = rlock_renew prefix, lock_release = rlock_release prefix\<rparr>"

section \<open>The coordinator\<close>

datatype lease_error = NoEndpoints | LeaseUnavailable

definition ref_of :: "string \<Rightarrow> lease \<Rightarrow> lease_ref" where
  "ref_of owner l = \<lparr>lr_leaseId = pl_leaseId l, lr_ownerId = owner, lr_fencingToken = pl_fencingToken l\<rparr>"

definition lock_key :: "lease \<Rightarrow> string" where
  "lock_key l = pl_providerId l @ '':'' @ pl_endpointKey l"

definition lockValue :: "lease \<Rightarrow> string" where
  "lockValue l = pl_leaseId l @ '':'' @ pl_ownerId l @ '':'' @ nat_digits (pl_fencingToken l)"

text \<open>The calls of one operation happen at the times of \<open>clock\<close>, and \<open>idFactory\<close> gives an id per attempt.\<close>

fun acquire_from ::
  "'r lease_repository \<Rightarrow> 'k lease_lock \<Rightarrow> (nat \<Rightarrow> string) \<Rightarrow> (nat \<Rightarrow> time) \<Rightarrow> lease_input \<Rightarrow> nat \<Rightarrow> string list
    \<Rightarrow> 'r \<times> 'k \<Rightarrow> (lease_error + lease) \<times> ('r \<times> 'k)" where
  "acquire_from repo lock ids clock i n [] st = (Inl LeaseUnavailable, st)"
| "acquire_from repo lock ids clock i n (e # es) (r, k) =
     (case repo_reserve repo (clock (3 * n)) (i\<lparr>li_endpointKey := e, li_leaseId := ids n\<rparr>) r of
        (None, r1) \<Rightarrow> acquire_from repo lock ids clock i (Suc n) es (r1, k)
      | (Some l, r1) \<Rightarrow>
          (case lock_acquire lock (clock (3 * n + 1)) (lock_key l) (lockValue l) (li_ttlMs i) k of
             (True, k1) \<Rightarrow> (Inr l, (r1, k1))
           | (False, k1) \<Rightarrow>
               acquire_from repo lock ids clock i (Suc n) es
                 (snd (repo_release repo (clock (3 * n + 2)) (ref_of (li_ownerId i) l) LReleased r1), k1)))"

text \<open>\<open>[...new Set(keys)]\<close> keeps the first occurrences.\<close>

definition first_occurrences :: "'a list \<Rightarrow> 'a list" where
  "first_occurrences xs = rev (remdups (rev xs))"

definition coordinator_acquire ::
  "'r lease_repository \<Rightarrow> 'k lease_lock \<Rightarrow> (nat \<Rightarrow> string) \<Rightarrow> (nat \<Rightarrow> time) \<Rightarrow> string \<Rightarrow> js_number \<Rightarrow> string list \<Rightarrow> lease_input
    \<Rightarrow> 'r \<times> 'k \<Rightarrow> (lease_error + lease) \<times> ('r \<times> 'k)" where
  "coordinator_acquire repo lock ids clock owner ttl endpointKeys i st =
     (let keys = first_occurrences endpointKeys
      in if keys = [] then (Inl NoEndpoints, st)
         else acquire_from repo lock ids clock (i\<lparr>li_ownerId := owner, li_ttlMs := boundedTtl ttl\<rparr>) 0 keys st)"

definition coordinator_renew ::
  "'r lease_repository \<Rightarrow> 'k lease_lock \<Rightarrow> (nat \<Rightarrow> time) \<Rightarrow> string \<Rightarrow> lease \<Rightarrow> js_number \<Rightarrow> 'r \<times> 'k \<Rightarrow> lease option \<times> ('r \<times> 'k)" where
  "coordinator_renew repo lock clock owner l ttl st =
     (case repo_renew repo (clock 0) (ref_of owner l) (boundedTtl ttl) (fst st) of
        (None, r) \<Rightarrow> (None, (r, snd st))
      | (Some l', r) \<Rightarrow>
          (case lock_renew lock (clock 1) (lock_key l) (lockValue l) (boundedTtl ttl) (snd st) of
             (True, k) \<Rightarrow> (Some l', (r, k))
           | (False, k) \<Rightarrow> (None, (snd (repo_release repo (clock 2) (ref_of owner l) LExpired r), k))))"

definition coordinator_release ::
  "'r lease_repository \<Rightarrow> 'k lease_lock \<Rightarrow> (nat \<Rightarrow> time) \<Rightarrow> string \<Rightarrow> lease \<Rightarrow> lease_state \<Rightarrow> 'r \<times> 'k \<Rightarrow> bool \<times> ('r \<times> 'k)" where
  "coordinator_release repo lock clock owner l s st =
     (case repo_release repo (clock 0) (ref_of owner l) s (fst st) of
        (True, r) \<Rightarrow> (True, (r, snd (lock_release lock (clock 1) (lock_key l) (lockValue l) (snd st))))
      | (False, r) \<Rightarrow> (False, (r, snd st)))"

section \<open>The memory lock and the Redis lock\<close>

definition live_entries :: "time \<Rightarrow> lock_entries \<Rightarrow> lock_entries" where
  "live_entries now m = (\<lambda>k. case m k of None \<Rightarrow> None | Some (v, e) \<Rightarrow> if now < e then Some (v, e) else None)"

text \<open>The entries of a Redis database under the coordinator's prefix.\<close>

definition under_prefix :: "string \<Rightarrow> lock_entries \<Rightarrow> lock_entries" where
  "under_prefix p db = (\<lambda>k. db (redis_key p k))"

lemma redis_key_inj [simp]: "redis_key p k = redis_key p k' \<longleftrightarrow> k = k'"
  by (simp add: redis_key_def)

lemma under_prefix_upd [simp]: "under_prefix p (db(redis_key p k := x)) = (under_prefix p db)(k := x)"
  by (auto simp: under_prefix_def)

lemma redis_get_live: "redis_get now (redis_key p k) db = map_option fst (live_entries now (under_prefix p db) k)"
  by (simp add: redis_get_def live_entries_def under_prefix_def split: option.split prod.split)

lemma live_entries_later:
  assumes "live_entries now m = live_entries now m'" "now \<le> t"
  shows "live_entries t m = live_entries t m'"
proof
  fix k
  from fun_cong [OF assms(1), of k] assms(2) show "live_entries t m k = live_entries t m' k"
    by (auto simp: live_entries_def split: option.splits prod.splits if_splits)
qed

lemma live_entries_upd: "live_entries now m = live_entries now m' \<Longrightarrow> live_entries now (m(k := x)) = live_entries now (m'(k := x))"
  by (auto simp: live_entries_def fun_eq_iff)

lemma live_at: "live_entries now m = live_entries now m' \<Longrightarrow> live_entries now m' k = live_entries now m k"
  by simp

lemma live_cases:
  "live_entries now m k = (case m k of None \<Rightarrow> None | Some (v, e) \<Rightarrow> if now < e then Some (v, e) else None)"
  by (simp add: live_entries_def)

lemma drop_dead: "live_entries now m k = None \<Longrightarrow> live_entries now (m(k := None)) = live_entries now m"
  by (auto simp: live_entries_def fun_eq_iff)

text \<open>The in-memory lock simulates the Redis lock: as long as both hold the same live entries, every call gives the same
  answer and leaves the same live entries, now and later. Only releasing an entry of one's own that has already
  expired is answered differently.\<close>

theorem memory_lock_refines_redis:
  assumes "live_entries now m = live_entries now (under_prefix p db)"
  shows "(let (a, m') = mlock_acquire now key v ttl m; (b, db') = rlock_acquire p now key v ttl db
          in a = b \<and> live_entries now m' = live_entries now (under_prefix p db'))
    \<and> (let (a, m') = mlock_renew now key v ttl m; (b, db') = rlock_renew p now key v ttl db
       in a = b \<and> live_entries now m' = live_entries now (under_prefix p db'))
    \<and> (let (a, m') = mlock_release now key v m; (b, db') = rlock_release p now key v db
       in b = (a \<and> live_entries now m key \<noteq> None) \<and> live_entries now m' = live_entries now (under_prefix p db'))"
proof (intro conjI)
  note upd = live_entries_upd [OF assms]
  have g: "redis_get now (redis_key p key) db
      = (case m key of None \<Rightarrow> None | Some (v, e) \<Rightarrow> if now < e then Some v else None)"
    unfolding redis_get_live assms [symmetric] live_cases by (simp split: option.split prod.split)
  show "let (a, m') = mlock_acquire now key v ttl m; (b, db') = rlock_acquire p now key v ttl db
        in a = b \<and> live_entries now m' = live_entries now (under_prefix p db')"
    by (auto simp: mlock_acquire_def rlock_acquire_def Let_def g upd assms split: option.splits)
  show "let (a, m') = mlock_renew now key v ttl m; (b, db') = rlock_renew p now key v ttl db
        in a = b \<and> live_entries now m' = live_entries now (under_prefix p db')"
    by (auto simp: mlock_renew_def rlock_renew_def Let_def g upd assms split: option.splits)
  show "let (a, m') = mlock_release now key v m; (b, db') = rlock_release p now key v db
        in b = (a \<and> live_entries now m key \<noteq> None) \<and> live_entries now m' = live_entries now (under_prefix p db')"
  proof (cases "m key")
    case None
    then show ?thesis by (simp add: mlock_release_def rlock_release_def g assms)
  next
    case (Some x)
    obtain w e where x: "x = (w, e)" by fastforce
    have l: "live_entries now (under_prefix p db) key = (if now < e then Some (w, e) else None)"
      unfolding assms [symmetric] live_cases by (simp add: Some x)
    show ?thesis
      by (cases "w = v"; cases "now < e") (simp_all add: mlock_release_def rlock_release_def g upd assms Some x l drop_dead)
  qed
qed

section \<open>Coordinators at work\<close>

text \<open>What never changes about a lease.\<close>

definition same_lease :: "lease \<Rightarrow> lease \<Rightarrow> bool" where
  "same_lease l l' \<longleftrightarrow> pl_leaseId l' = pl_leaseId l \<and> pl_providerId l' = pl_providerId l \<and> pl_poolId l' = pl_poolId l
     \<and> pl_endpointKey l' = pl_endpointKey l \<and> pl_ownerId l' = pl_ownerId l \<and> pl_fencingToken l' = pl_fencingToken l"

text \<open>A call keeps every lease, and never makes one active again.\<close>

definition evolves :: "(string \<Rightarrow> 'r \<Rightarrow> lease option) \<Rightarrow> 'r \<Rightarrow> 'r \<Rightarrow> bool" where
  "evolves get r r' \<longleftrightarrow> (\<forall>k l. get k r = Some l \<longrightarrow>
     (\<exists>l'. get k r' = Some l' \<and> same_lease l l' \<and> (pl_state l' = LActive \<longrightarrow> pl_state l = LActive)))"

text \<open>The shared stores, and where each coordinator stands: reserved leases that wait for their lock, renewed leases
  whose lock is being renewed, released leases whose lock is being deleted, and for every lease the expiry its
  holder was last told. One step is one call of a store, so coordinators interleave freely.\<close>

record ('r, 'k) lease_world =
  lw_now :: time
  lw_repo :: 'r
  lw_lock :: 'k
  lw_reserved :: "lease set"
  lw_renewing :: "(lease \<times> ms) set"
  lw_releasing :: "lease set"
  lw_held :: "string \<rightharpoonup> time"

inductive lease_step :: "'r lease_repository \<Rightarrow> 'k lease_lock \<Rightarrow> ('r, 'k) lease_world \<Rightarrow> ('r, 'k) lease_world \<Rightarrow> bool"
  for repo :: "'r lease_repository" and lock :: "'k lease_lock" where
  clock: "lw_now w \<le> t \<Longrightarrow> lease_step repo lock w (w\<lparr>lw_now := t\<rparr>)"
| reserved: "repo_get repo (li_leaseId i) (lw_repo w) = None \<Longrightarrow> repo_reserve repo (lw_now w) i (lw_repo w) = (Some l, r) \<Longrightarrow>
    lease_step repo lock w (w\<lparr>lw_repo := r, lw_reserved := insert l (lw_reserved w)\<rparr>)"
| not_reserved: "repo_reserve repo (lw_now w) i (lw_repo w) = (None, r) \<Longrightarrow> lease_step repo lock w (w\<lparr>lw_repo := r\<rparr>)"
| locked: "l \<in> lw_reserved w \<Longrightarrow>
    lock_acquire lock (lw_now w) (lock_key l) (lockValue l) (pl_expiresAt l - pl_createdAt l) (lw_lock w) = (True, k) \<Longrightarrow>
    lease_step repo lock w (w\<lparr>lw_lock := k, lw_reserved := lw_reserved w - {l}, lw_held := (lw_held w)(pl_leaseId l \<mapsto> pl_expiresAt l)\<rparr>)"
| not_locked: "l \<in> lw_reserved w \<Longrightarrow>
    lock_acquire lock (lw_now w) (lock_key l) (lockValue l) (pl_expiresAt l - pl_createdAt l) (lw_lock w) = (False, k) \<Longrightarrow>
    lease_step repo lock w (w\<lparr>lw_lock := k\<rparr>)"
| dropped: "l \<in> lw_reserved w \<Longrightarrow> repo_release repo (lw_now w) (ref_of (pl_ownerId l) l) LReleased (lw_repo w) = (b, r) \<Longrightarrow>
    lease_step repo lock w (w\<lparr>lw_repo := r, lw_reserved := lw_reserved w - {l}\<rparr>)"
| renewed: "repo_get repo (pl_leaseId l) (lw_repo w) = Some l0 \<Longrightarrow> same_lease l0 l \<Longrightarrow>
    repo_renew repo (lw_now w) (ref_of owner l) ttl (lw_repo w) = (Some l', r) \<Longrightarrow>
    lease_step repo lock w (w\<lparr>lw_repo := r, lw_renewing := insert (l', ttl) (lw_renewing w)\<rparr>)"
| not_renewed: "repo_renew repo (lw_now w) ref ttl (lw_repo w) = (None, r) \<Longrightarrow> lease_step repo lock w (w\<lparr>lw_repo := r\<rparr>)"
| lock_kept: "(l, ttl) \<in> lw_renewing w \<Longrightarrow> lock_renew lock (lw_now w) (lock_key l) (lockValue l) ttl (lw_lock w) = (True, k) \<Longrightarrow>
    lease_step repo lock w (w\<lparr>lw_lock := k, lw_renewing := lw_renewing w - {(l, ttl)}, lw_held := (lw_held w)(pl_leaseId l \<mapsto> pl_expiresAt l)\<rparr>)"
| lock_lost: "(l, ttl) \<in> lw_renewing w \<Longrightarrow> lock_renew lock (lw_now w) (lock_key l) (lockValue l) ttl (lw_lock w) = (False, k) \<Longrightarrow>
    lease_step repo lock w (w\<lparr>lw_lock := k\<rparr>)"
| given_up: "(l, ttl) \<in> lw_renewing w \<Longrightarrow> repo_release repo (lw_now w) (ref_of owner l) LExpired (lw_repo w) = (b, r) \<Longrightarrow>
    lease_step repo lock w (w\<lparr>lw_repo := r, lw_renewing := lw_renewing w - {(l, ttl)}\<rparr>)"
| released: "repo_get repo (pl_leaseId l) (lw_repo w) = Some l0 \<Longrightarrow> same_lease l0 l \<Longrightarrow> s \<noteq> LActive \<Longrightarrow>
    repo_release repo (lw_now w) (ref_of owner l) s (lw_repo w) = (True, r) \<Longrightarrow>
    lease_step repo lock w (w\<lparr>lw_repo := r, lw_releasing := insert l (lw_releasing w)\<rparr>)"
| not_released: "s \<noteq> LActive \<Longrightarrow> repo_release repo (lw_now w) ref s (lw_repo w) = (False, r) \<Longrightarrow> lease_step repo lock w (w\<lparr>lw_repo := r\<rparr>)"
| unlocked: "l \<in> lw_releasing w \<Longrightarrow> lock_release lock (lw_now w) (lock_key l) (lockValue l) (lw_lock w) = (b, k) \<Longrightarrow>
    lease_step repo lock w (w\<lparr>lw_lock := k, lw_releasing := lw_releasing w - {l}\<rparr>)"
| reaped: "repo_reapExpired repo (lw_now w) (lw_repo w) = (n, r) \<Longrightarrow> lease_step repo lock w (w\<lparr>lw_repo := r\<rparr>)"

inductive_cases lease_stepE: "lease_step repo lock w w'"

section \<open>Contracts of the stores\<close>

locale lease_store =
  fixes repo :: "'r lease_repository" and ok :: "'r \<Rightarrow> bool"
  assumes reserve: "ok r \<Longrightarrow> repo_reserve repo now i r = (o1, r') \<Longrightarrow> (o1 = None \<or> repo_get repo (li_leaseId i) r = None) \<Longrightarrow>
      ok r' \<and> evolves (repo_get repo) r r'
        \<and> (\<forall>l. o1 = Some l \<longrightarrow> repo_get repo (li_leaseId i) r' = Some l \<and> l = new_lease now i (pl_fencingToken l))"
    and renew: "ok r \<Longrightarrow> repo_renew repo now ref ttl r = (o1, r') \<Longrightarrow>
      ok r' \<and> evolves (repo_get repo) r r'
        \<and> (\<forall>l. o1 = Some l \<longrightarrow> repo_get repo (lr_leaseId ref) r' = Some l \<and> pl_expiresAt l = now + ttl)"
    and release: "ok r \<Longrightarrow> s \<noteq> LActive \<Longrightarrow> repo_release repo now ref s r = (b, r') \<Longrightarrow>
      ok r' \<and> evolves (repo_get repo) r r'
        \<and> (b \<longrightarrow> (\<exists>l. repo_get repo (lr_leaseId ref) r' = Some l \<and> pl_state l \<noteq> LActive))"
    and reap: "ok r \<Longrightarrow> repo_reapExpired repo now r = (n, r') \<Longrightarrow> ok r' \<and> evolves (repo_get repo) r r'"
    and reserve_ids: "repo_reserve repo now i r = (o1, r') \<Longrightarrow> k \<noteq> li_leaseId i \<Longrightarrow> repo_get repo k r = None
      \<Longrightarrow> repo_get repo k r' = None"
    and release_ids: "repo_release repo now ref s r = (b, r') \<Longrightarrow> s \<noteq> LActive \<Longrightarrow> repo_get repo k r = None \<Longrightarrow> repo_get repo k r' = None"
    and ids: "ok r \<Longrightarrow> repo_get repo k r = Some l \<Longrightarrow> pl_leaseId l = k"
    and tokens: "ok r \<Longrightarrow> repo_get repo k r = Some l \<Longrightarrow> repo_get repo k' r = Some l' \<Longrightarrow> pl_fencingToken l = pl_fencingToken l' \<Longrightarrow> k = k'"

locale lock_store =
  fixes lock :: "'k lease_lock" and entries :: "'k \<Rightarrow> lock_entries"
  assumes acquire: "lock_acquire lock now key v ttl k = (b, k') \<Longrightarrow>
      entries k' = (if b then (entries k)(key \<mapsto> (v, now + ttl)) else entries k)
      \<and> (b \<longrightarrow> live_entries now (entries k) key = None)"
    and renew_lock: "lock_renew lock now key v ttl k = (b, k') \<Longrightarrow>
      entries k' = (if b then (entries k)(key \<mapsto> (v, now + ttl)) else entries k)
      \<and> (b \<longrightarrow> map_option fst (live_entries now (entries k) key) = Some v)"
    and release_lock: "lock_release lock now key v k = (b, k') \<Longrightarrow>
      entries k' = (if b then (entries k)(key := None) else entries k)
      \<and> (b \<longrightarrow> map_option fst (entries k key) = Some v)"

section \<open>Lock values identify leases\<close>

lemma last_segment:
  assumes "a @ CHR '':'' # x = b @ CHR '':'' # y" "CHR '':'' \<notin> set x" "CHR '':'' \<notin> set y"
  shows "x = y"
proof -
  let ?p = "\<lambda>c. c \<noteq> CHR '':''"
  have t: "takeWhile ?p (rev (u @ CHR '':'' # v)) = rev v" if "CHR '':'' \<notin> set v" for u v :: string
    using that by (auto simp: takeWhile_append2 takeWhile_tail)
  from t [OF assms(2), of a] t [OF assms(3), of b] assms(1) show ?thesis by simp
qed

lemma digits_no_colon: "CHR '':'' \<notin> set (nat_digits n)"
  using nat_digits_digit [of "CHR '':''" n] by (auto simp: is_digit_def)

lemma nat_digits_inject: "nat_digits m = nat_digits n \<Longrightarrow> m = n"
  by (metis digits_value_nat_digits)

lemma lockValue_token: "lockValue l = lockValue l' \<Longrightarrow> pl_fencingToken l = pl_fencingToken l'"
  using last_segment [of "pl_leaseId l @ '':'' @ pl_ownerId l" "nat_digits (pl_fencingToken l)"
      "pl_leaseId l' @ '':'' @ pl_ownerId l'" "nat_digits (pl_fencingToken l')"] digits_no_colon nat_digits_inject
  by (auto simp: lockValue_def)

lemma same_lease_refl [simp]: "same_lease l l"
  by (simp add: same_lease_def)

lemma same_lease_trans: "same_lease a b \<Longrightarrow> same_lease b c \<Longrightarrow> same_lease a c"
  by (simp add: same_lease_def)

lemma same_lease_sym: "same_lease a b \<Longrightarrow> same_lease b a"
  by (simp add: same_lease_def)

lemma same_lease_lock: "same_lease l l' \<Longrightarrow> lock_key l' = lock_key l \<and> lockValue l' = lockValue l \<and> pl_leaseId l' = pl_leaseId l"
  by (simp add: same_lease_def lock_key_def lockValue_def)

lemma evolvesD:
  assumes "evolves get r r'" "get k r = Some l"
  obtains l' where "get k r' = Some l'" "same_lease l l'" "pl_state l' = LActive \<Longrightarrow> pl_state l = LActive"
  using assms unfolding evolves_def by blast

section \<open>Exclusive leases from the contracts\<close>

definition known :: "(string \<Rightarrow> 'r \<Rightarrow> lease option) \<Rightarrow> 'r \<Rightarrow> lease \<Rightarrow> bool" where
  "known get r l \<longleftrightarrow> (\<exists>l0. get (pl_leaseId l) r = Some l0 \<and> same_lease l0 l)"

definition gone :: "(string \<Rightarrow> 'r \<Rightarrow> lease option) \<Rightarrow> 'r \<Rightarrow> lease \<Rightarrow> bool" where
  "gone get r l \<longleftrightarrow> (\<exists>l0. get (pl_leaseId l) r = Some l0 \<and> same_lease l0 l \<and> pl_state l0 \<noteq> LActive)"

text \<open>The lock covers a lease at least until the time its holder was told.\<close>

definition covered :: "lock_entries \<Rightarrow> lease \<Rightarrow> time \<Rightarrow> bool" where
  "covered entries l e \<longleftrightarrow> (\<exists>e'. entries (lock_key l) = Some (lockValue l, e') \<and> e \<le> e')"

lemma same_lease_euclid: "same_lease a b \<Longrightarrow> same_lease a c \<Longrightarrow> same_lease b c"
  by (simp add: same_lease_def)

lemma known_evolves:
  assumes "known get r l" "evolves get r r'"
  shows "known get r' l"
proof -
  from assms(1) obtain l0 where l0: "get (pl_leaseId l) r = Some l0" "same_lease l0 l" by (auto simp: known_def)
  from evolvesD [OF assms(2) l0(1)] obtain l1 where "get (pl_leaseId l) r' = Some l1" "same_lease l0 l1" .
  with l0(2) same_lease_euclid [of l0 l1 l] show ?thesis by (auto simp: known_def)
qed

lemma gone_evolves:
  assumes "gone get r l" "evolves get r r'"
  shows "gone get r' l"
proof -
  from assms(1) obtain l0 where l0: "get (pl_leaseId l) r = Some l0" "same_lease l0 l" "pl_state l0 \<noteq> LActive"
    by (auto simp: gone_def)
  from evolvesD [OF assms(2) l0(1)] obtain l1 where "get (pl_leaseId l) r' = Some l1" "same_lease l0 l1"
      "pl_state l1 = LActive \<Longrightarrow> pl_state l0 = LActive" by blast
  with l0 same_lease_euclid [of l0 l1 l] show ?thesis by (auto simp: gone_def)
qed

lemma covered_same: "same_lease l l' \<Longrightarrow> covered es l' e = covered es l e"
  by (simp add: covered_def same_lease_lock)

locale proxy_leases = lease_store repo ok + lock_store lock entries
  for repo :: "'r lease_repository" and ok :: "'r \<Rightarrow> bool" and lock :: "'k lease_lock" and entries :: "'k \<Rightarrow> lock_entries"
begin

definition holder_ok :: "('r, 'k) lease_world \<Rightarrow> string \<Rightarrow> time \<Rightarrow> bool" where
  "holder_ok w k e \<longleftrightarrow> (\<exists>l. repo_get repo k (lw_repo w) = Some l
     \<and> (pl_state l = LActive \<longrightarrow> lw_now w < e \<longrightarrow> covered (entries (lw_lock w)) l e))"

definition world_ok :: "('r, 'k) lease_world \<Rightarrow> bool" where
  "world_ok w \<longleftrightarrow> ok (lw_repo w)
     \<and> (\<forall>l\<in>lw_reserved w. known (repo_get repo) (lw_repo w) l \<and> pl_createdAt l \<le> lw_now w)
     \<and> (\<forall>(l, ttl)\<in>lw_renewing w. known (repo_get repo) (lw_repo w) l \<and> pl_expiresAt l \<le> lw_now w + ttl)
     \<and> (\<forall>l\<in>lw_releasing w. gone (repo_get repo) (lw_repo w) l)
     \<and> (\<forall>k e. lw_held w k = Some e \<longrightarrow> holder_ok w k e)"

lemma holder_repo:
  "holder_ok w k e \<Longrightarrow> evolves (repo_get repo) (lw_repo w) r \<Longrightarrow> holder_ok (w\<lparr>lw_repo := r\<rparr>) k e"
  unfolding holder_ok_def by (auto elim!: evolvesD simp: covered_same)

lemma world_repo:
  assumes "world_ok w" "ok r" "evolves (repo_get repo) (lw_repo w) r"
  shows "world_ok (w\<lparr>lw_repo := r\<rparr>)"
  using assms known_evolves [OF _ assms(3)] gone_evolves [OF _ assms(3)] holder_repo [OF _ assms(3)]
  unfolding world_ok_def by fastforce

lemma world_repo_steps:
  assumes "world_ok w"
  shows "repo_reserve repo (lw_now w) i (lw_repo w) = (o1, r) \<Longrightarrow> o1 = None \<or> repo_get repo (li_leaseId i) (lw_repo w) = None
      \<Longrightarrow> world_ok (w\<lparr>lw_repo := r\<rparr>)"
    "repo_renew repo (lw_now w) ref ttl (lw_repo w) = (o1, r) \<Longrightarrow> world_ok (w\<lparr>lw_repo := r\<rparr>)"
    "s \<noteq> LActive \<Longrightarrow> repo_release repo (lw_now w) ref s (lw_repo w) = (b, r) \<Longrightarrow> world_ok (w\<lparr>lw_repo := r\<rparr>)"
    "repo_reapExpired repo (lw_now w) (lw_repo w) = (n, r) \<Longrightarrow> world_ok (w\<lparr>lw_repo := r\<rparr>)"
proof -
  have ok: "ok (lw_repo w)" using assms by (simp add: world_ok_def)
  show "repo_reserve repo (lw_now w) i (lw_repo w) = (o1, r) \<Longrightarrow> o1 = None \<or> repo_get repo (li_leaseId i) (lw_repo w) = None
      \<Longrightarrow> world_ok (w\<lparr>lw_repo := r\<rparr>)"
    using reserve [OF ok] world_repo [OF assms] by blast
  show "repo_renew repo (lw_now w) ref ttl (lw_repo w) = (o1, r) \<Longrightarrow> world_ok (w\<lparr>lw_repo := r\<rparr>)"
    using renew [OF ok] world_repo [OF assms] by blast
  show "s \<noteq> LActive \<Longrightarrow> repo_release repo (lw_now w) ref s (lw_repo w) = (b, r) \<Longrightarrow> world_ok (w\<lparr>lw_repo := r\<rparr>)"
    using release [OF ok] world_repo [OF assms] by blast
  show "repo_reapExpired repo (lw_now w) (lw_repo w) = (n, r) \<Longrightarrow> world_ok (w\<lparr>lw_repo := r\<rparr>)"
    using reap [OF ok] world_repo [OF assms] by blast
qed

lemma world_forget:
  assumes "world_ok w"
  shows "world_ok (w\<lparr>lw_reserved := lw_reserved w - {l}\<rparr>)" "world_ok (w\<lparr>lw_renewing := lw_renewing w - X\<rparr>)"
    "world_ok (w\<lparr>lw_releasing := lw_releasing w - {l}\<rparr>)"
  using assms unfolding world_ok_def holder_ok_def by auto

text \<open>Writing the entry of one known lease does not uncover another one.\<close>

lemma lock_written:
  assumes "world_ok w" "known (repo_get repo) (lw_repo w) l" "pl_expiresAt l \<le> e"
    and "entries k = (entries (lw_lock w))(lock_key l \<mapsto> (lockValue l, e))"
    and "live_entries (lw_now w) (entries (lw_lock w)) (lock_key l) = None
      \<or> map_option fst (live_entries (lw_now w) (entries (lw_lock w)) (lock_key l)) = Some (lockValue l)"
  shows "world_ok (w\<lparr>lw_lock := k, lw_held := (lw_held w)(pl_leaseId l \<mapsto> pl_expiresAt l)\<rparr>)"
proof -
  from assms(2) obtain l0 where l0: "repo_get repo (pl_leaseId l) (lw_repo w) = Some l0" "same_lease l0 l" by (auto simp: known_def)
  have ok: "ok (lw_repo w)" using assms(1) by (simp add: world_ok_def)
  let ?w = "w\<lparr>lw_lock := k, lw_held := (lw_held w)(pl_leaseId l \<mapsto> pl_expiresAt l)\<rparr>"
  have own: "covered (entries k) l0 (pl_expiresAt l)"
    using assms(3,4) same_lease_lock [OF l0(2)] by (auto simp: covered_def)
  have "holder_ok ?w x e1" if "lw_held ?w x = Some e1" for x e1
  proof (cases "x = pl_leaseId l")
    case True
    with that l0(1) own show ?thesis by (auto simp: holder_ok_def)
  next
    case False
    with that have "holder_ok w x e1" using assms(1) by (auto simp: world_ok_def)
    then obtain m where m: "repo_get repo x (lw_repo w) = Some m"
        "pl_state m = LActive \<Longrightarrow> lw_now w < e1 \<Longrightarrow> covered (entries (lw_lock w)) m e1"
      by (auto simp: holder_ok_def)
    have "covered (entries k) m e1" if "pl_state m = LActive" "lw_now w < e1"
    proof (cases "lock_key m = lock_key l")
      case False
      with m(2) [OF that] show ?thesis by (simp add: covered_def assms(4))
    next
      case True
      from m(2) [OF that] obtain e2 where e2: "entries (lw_lock w) (lock_key l) = Some (lockValue m, e2)" "e1 \<le> e2"
        by (auto simp: covered_def True)
      with that assms(5) have "lockValue m = lockValue l0"
        using same_lease_lock [OF l0(2)] by (simp add: live_cases)
      from lockValue_token [OF this] tokens [OF ok m(1) l0(1)] False show ?thesis by simp
    qed
    with m(1) show ?thesis by (auto simp: holder_ok_def)
  qed
  with assms(1) show ?thesis unfolding world_ok_def by auto
qed

lemma lock_same: "world_ok w \<Longrightarrow> entries k = entries (lw_lock w) \<Longrightarrow> world_ok (w\<lparr>lw_lock := k\<rparr>)"
  by (simp add: world_ok_def holder_ok_def)

lemma lock_deleted:
  assumes "world_ok w" "gone (repo_get repo) (lw_repo w) l" "entries k = (entries (lw_lock w))(lock_key l := None)"
    "map_option fst (entries (lw_lock w) (lock_key l)) = Some (lockValue l)"
  shows "world_ok (w\<lparr>lw_lock := k\<rparr>)"
proof -
  from assms(2) obtain l0 where l0: "repo_get repo (pl_leaseId l) (lw_repo w) = Some l0" "same_lease l0 l" "pl_state l0 \<noteq> LActive"
    by (auto simp: gone_def)
  have ok: "ok (lw_repo w)" using assms(1) by (simp add: world_ok_def)
  have "holder_ok (w\<lparr>lw_lock := k\<rparr>) x e1" if held: "lw_held w x = Some e1" for x e1
  proof -
    from held have "holder_ok w x e1" using assms(1) by (auto simp: world_ok_def)
    then obtain m where m: "repo_get repo x (lw_repo w) = Some m"
        "pl_state m = LActive \<Longrightarrow> lw_now w < e1 \<Longrightarrow> covered (entries (lw_lock w)) m e1"
      by (auto simp: holder_ok_def)
    have "covered (entries k) m e1" if "pl_state m = LActive" "lw_now w < e1"
    proof (cases "lock_key m = lock_key l")
      case False
      with m(2) [OF that] show ?thesis by (simp add: covered_def assms(3))
    next
      case True
      with m(2) [OF that] assms(4) have "lockValue m = lockValue l0"
        using same_lease_lock [OF l0(2)] by (auto simp: covered_def)
      from lockValue_token [OF this] tokens [OF ok m(1) l0(1)] have "m = l0" using m(1) l0(1) by simp
      with that(1) l0(3) show ?thesis by simp
    qed
    with m(1) show ?thesis by (auto simp: holder_ok_def)
  qed
  with assms(1) show ?thesis unfolding world_ok_def by auto
qed

lemma step_ok: "lease_step repo lock w w' \<Longrightarrow> world_ok w \<Longrightarrow> world_ok w'"
proof (induction rule: lease_step.induct)
  case (clock w t)
  then show ?case unfolding world_ok_def holder_ok_def by (fastforce split: prod.splits)
next
  case (reserved i w l r)
  from reserved.prems have ok: "ok (lw_repo w)" by (simp add: world_ok_def)
  from reserve [OF ok reserved.hyps(2)] reserved.hyps(1)
  have g: "repo_get repo (li_leaseId i) r = Some l" "l = new_lease (lw_now w) i (pl_fencingToken l)" by auto
  then have "pl_leaseId l = li_leaseId i" "pl_createdAt l = lw_now w" by (simp_all add: new_lease_def) (metis lease.select_convs)+
  with g(1) have "known (repo_get repo) r l \<and> pl_createdAt l \<le> lw_now w" by (simp add: known_def)
  with world_repo_steps(1) [OF reserved.prems reserved.hyps(2)] reserved.hyps(1) show ?case
    unfolding world_ok_def holder_ok_def by auto
next
  case (not_reserved w i r)
  then show ?case using world_repo_steps(1) by blast
next
  case (locked l w k)
  let ?e = "lw_now w + (pl_expiresAt l - pl_createdAt l)"
  from locked.prems locked.hyps(1) have l: "known (repo_get repo) (lw_repo w) l" "pl_expiresAt l \<le> ?e"
    by (auto simp: world_ok_def)
  from acquire [OF locked.hyps(2)] have k: "entries k = (entries (lw_lock w))(lock_key l \<mapsto> (lockValue l, ?e))"
    "live_entries (lw_now w) (entries (lw_lock w)) (lock_key l) = None" by auto
  from world_forget(1) [OF lock_written [OF locked.prems l k(1)], of l] k(2) show ?case by (cases w) simp
next
  case (not_locked l w k)
  from acquire [OF not_locked.hyps(2)] lock_same [OF not_locked.prems] show ?case by simp
next
  case (dropped l w b r)
  from world_forget(1) [OF world_repo_steps(3) [OF dropped.prems _ dropped.hyps(2)], of l] show ?case by simp
next
  case (renewed l w l0 owner ttl l' r)
  from renewed.prems have ok: "ok (lw_repo w)" by (simp add: world_ok_def)
  from renew [OF ok renewed.hyps(3)]
  have g: "ok r" "repo_get repo (pl_leaseId l) r = Some l'" "pl_expiresAt l' = lw_now w + ttl" by (auto simp: ref_of_def)
  from ids [OF g(1,2)] g(2,3) have "known (repo_get repo) r l' \<and> pl_expiresAt l' \<le> lw_now w + ttl" by (simp add: known_def)
  with world_repo_steps(2) [OF renewed.prems renewed.hyps(3)] show ?case
    unfolding world_ok_def holder_ok_def by auto
next
  case (not_renewed w ref ttl r)
  then show ?case using world_repo_steps(2) by blast
next
  case (lock_kept l ttl w k)
  from lock_kept.prems lock_kept.hyps(1) have l: "known (repo_get repo) (lw_repo w) l" "pl_expiresAt l \<le> lw_now w + ttl"
    by (auto simp: world_ok_def)
  from renew_lock [OF lock_kept.hyps(2)] have k: "entries k = (entries (lw_lock w))(lock_key l \<mapsto> (lockValue l, lw_now w + ttl))"
    "map_option fst (live_entries (lw_now w) (entries (lw_lock w)) (lock_key l)) = Some (lockValue l)" by auto
  from world_forget(2) [OF lock_written [OF lock_kept.prems l k(1)], of "{(l, ttl)}"] k(2) show ?case by (cases w) simp
next
  case (lock_lost l ttl w k)
  from renew_lock [OF lock_lost.hyps(2)] lock_same [OF lock_lost.prems] show ?case by simp
next
  case (given_up l ttl w owner b r)
  from world_forget(2) [OF world_repo_steps(3) [OF given_up.prems _ given_up.hyps(2)], of "{(l, ttl)}"] show ?case by simp
next
  case (released l w l0 s owner r)
  from released.prems have ok: "ok (lw_repo w)" by (simp add: world_ok_def)
  from release [OF ok released.hyps(3,4)] obtain l1 where
    g: "evolves (repo_get repo) (lw_repo w) r" "repo_get repo (pl_leaseId l) r = Some l1" "pl_state l1 \<noteq> LActive"
    by (auto simp: ref_of_def)
  from evolvesD [OF g(1) released.hyps(1)] g(2) have "same_lease l0 l1" by auto
  with released.hyps(2) g(2,3) same_lease_euclid [of l0 l1 l] have "gone (repo_get repo) r l" by (auto simp: gone_def)
  with world_repo_steps(3) [OF released.prems released.hyps(3,4)] show ?case
    unfolding world_ok_def holder_ok_def by auto
next
  case (not_released s w ref r)
  then show ?case using world_repo_steps(3) by blast
next
  case (unlocked l w b k)
  from unlocked.prems unlocked.hyps(1) have l: "gone (repo_get repo) (lw_repo w) l" by (auto simp: world_ok_def)
  have "world_ok (w\<lparr>lw_lock := k\<rparr>)"
  proof (cases b)
    case True
    with release_lock [OF unlocked.hyps(2)] lock_deleted [OF unlocked.prems l] show ?thesis by simp
  next
    case False
    with release_lock [OF unlocked.hyps(2)] lock_same [OF unlocked.prems] show ?thesis by simp
  qed
  from world_forget(3) [OF this, of l] show ?case by simp
next
  case (reaped w n r)
  then show ?case using world_repo_steps(4) by blast
qed

text \<open>Two holders that may use the same endpoint of a provider hold the same lease.\<close>

lemma exclusive:
  assumes "world_ok w"
    and "lw_held w k1 = Some e1" "lw_now w < e1" "repo_get repo k1 (lw_repo w) = Some l1" "pl_state l1 = LActive"
    and "lw_held w k2 = Some e2" "lw_now w < e2" "repo_get repo k2 (lw_repo w) = Some l2" "pl_state l2 = LActive"
    and "lock_key l1 = lock_key l2"
  shows "k1 = k2"
proof -
  from assms(1,2,6) have "holder_ok w k1 e1" "holder_ok w k2 e2" by (auto simp: world_ok_def)
  with assms have "covered (entries (lw_lock w)) l1 e1" "covered (entries (lw_lock w)) l2 e2" by (auto simp: holder_ok_def)
  with assms(10) have "lockValue l1 = lockValue l2" by (auto simp: covered_def)
  from lockValue_token [OF this] tokens [of "lw_repo w"] assms(1,4,8) show ?thesis by (auto simp: world_ok_def)
qed

text \<open>One call of \<open>acquire\<close> is a sequence of steps.\<close>

lemma acquire_from_steps:
  assumes mono: "\<And>a b. a \<le> b \<Longrightarrow> clock a \<le> clock b" and inj: "inj fresh"
  shows "acquire_from repo lock fresh clock i n es (lw_repo w, lw_lock w) = (res, r, k) \<Longrightarrow> world_ok w \<Longrightarrow> lw_now w \<le> clock (3 * n)
    \<Longrightarrow> \<forall>m\<ge>n. repo_get repo (fresh m) (lw_repo w) = None
    \<Longrightarrow> \<exists>w'. (lease_step repo lock)\<^sup>*\<^sup>* w w' \<and> lw_repo w' = r \<and> lw_lock w' = k \<and> lw_now w' \<le> clock (3 * (n + length es))
        \<and> (\<forall>l. res = Inr l \<longrightarrow> lw_held w' (pl_leaseId l) = Some (pl_expiresAt l))"
proof (induction es arbitrary: n w)
  case Nil
  then show ?case by auto
next
  case (Cons e es)
  let ?i = "i\<lparr>li_endpointKey := e, li_leaseId := fresh n\<rparr>" and ?w0 = "w\<lparr>lw_now := clock (3 * n)\<rparr>"
  have s0: "lease_step repo lock w ?w0" by (rule lease_step.clock) (rule Cons.prems(3))
  have w0: "world_ok ?w0" by (rule step_ok [OF s0 Cons.prems(2)])
  have fresh_n: "repo_get repo (fresh n) (lw_repo w) = None" using Cons.prems(4) by simp
  have next_n: "clock (3 * n) \<le> clock (3 * Suc n)" by (rule mono) simp
  obtain o1 r1 where res: "repo_reserve repo (clock (3 * n)) ?i (lw_repo w) = (o1, r1)" by fastforce
  have keep: "\<forall>m\<ge>Suc n. repo_get repo (fresh m) r1 = None"
  proof (intro allI impI)
    fix m
    assume "Suc n \<le> m"
    then have "fresh m \<noteq> fresh n" using inj by (auto dest: injD)
    with reserve_ids [OF res, of "fresh m"] Cons.prems(4) \<open>Suc n \<le> m\<close> show "repo_get repo (fresh m) r1 = None" by simp
  qed
  show ?case
  proof (cases o1)
    case None
    let ?w1 = "?w0\<lparr>lw_repo := r1\<rparr>"
    have s1: "lease_step repo lock ?w0 ?w1" by (rule lease_step.not_reserved) (use res None in simp)
    have "acquire_from repo lock fresh clock i (Suc n) es (lw_repo ?w1, lw_lock ?w1) = (res, r, k)"
      using Cons.prems(1) res None by simp
    from Cons.IH [OF this step_ok [OF s1 w0]] next_n keep
    obtain w' where w': "(lease_step repo lock)\<^sup>*\<^sup>* ?w1 w'" "lw_repo w' = r" "lw_lock w' = k"
      "lw_now w' \<le> clock (3 * (n + length (e # es)))" "\<forall>l. res = Inr l \<longrightarrow> lw_held w' (pl_leaseId l) = Some (pl_expiresAt l)" by auto
    note converse_rtranclp_into_rtranclp [of "lease_step repo lock", OF s0 converse_rtranclp_into_rtranclp [of "lease_step repo lock", OF s1 w'(1)]]
    with w'(2-5) show ?thesis by blast
  next
    case (Some l)
    from w0 have ok: "ok (lw_repo w)" by (simp add: world_ok_def)
    from reserve [OF ok res] Some fresh_n have l: "l = new_lease (clock (3 * n)) ?i (pl_fencingToken l)" by auto
    have lf: "pl_ownerId l = li_ownerId i" "pl_expiresAt l - pl_createdAt l = li_ttlMs i"
      by (subst l, simp add: new_lease_def) (subst (1 2) l, simp add: new_lease_def)
    let ?w1 = "?w0\<lparr>lw_repo := r1, lw_reserved := insert l (lw_reserved ?w0)\<rparr>"
    have s1: "lease_step repo lock ?w0 ?w1" by (rule lease_step.reserved [where i = ?i]) (use res Some fresh_n in simp_all)
    have w1: "world_ok ?w1" by (rule step_ok [OF s1 w0])
    let ?w2 = "?w1\<lparr>lw_now := clock (3 * n + 1)\<rparr>"
    have s2: "lease_step repo lock ?w1 ?w2" by (rule lease_step.clock) (simp add: mono)
    have w2: "world_ok ?w2" by (rule step_ok [OF s2 w1])
    obtain b k1 where acq: "lock_acquire lock (clock (3 * n + 1)) (lock_key l) (lockValue l) (li_ttlMs i) (lw_lock w) = (b, k1)" by fastforce
    show ?thesis
    proof (cases b)
      case True
      let ?w3 = "?w2\<lparr>lw_lock := k1, lw_reserved := lw_reserved ?w2 - {l}, lw_held := (lw_held ?w2)(pl_leaseId l \<mapsto> pl_expiresAt l)\<rparr>"
      have s3: "lease_step repo lock ?w2 ?w3" by (rule lease_step.locked) (use acq True lf in simp_all)
      note cons = converse_rtranclp_into_rtranclp [of "lease_step repo lock"]
      from cons [OF s0 cons [OF s1 cons [OF s2 cons [OF s3 rtranclp.rtrancl_refl]]]] have "(lease_step repo lock)\<^sup>*\<^sup>* w ?w3" .
      moreover have "res = Inr l" "r = r1" "k = k1" using Cons.prems(1) res Some acq True by simp_all
      ultimately show ?thesis by (intro exI [of _ ?w3]) (simp add: mono)
    next
      case False
      let ?w3 = "?w2\<lparr>lw_lock := k1\<rparr>"
      have s3: "lease_step repo lock ?w2 ?w3" by (rule lease_step.not_locked [where l = l]) (use acq False lf in simp_all)
      have w3: "world_ok ?w3" by (rule step_ok [OF s3 w2])
      let ?w4 = "?w3\<lparr>lw_now := clock (3 * n + 2)\<rparr>"
      have s4: "lease_step repo lock ?w3 ?w4" by (rule lease_step.clock) (simp add: mono)
      have w4: "world_ok ?w4" by (rule step_ok [OF s4 w3])
      obtain b2 r2 where rel: "repo_release repo (clock (3 * n + 2)) (ref_of (li_ownerId i) l) LReleased r1 = (b2, r2)" by fastforce
      let ?w5 = "?w4\<lparr>lw_repo := r2, lw_reserved := lw_reserved ?w4 - {l}\<rparr>"
      have s5: "lease_step repo lock ?w4 ?w5" by (rule lease_step.dropped) (use rel lf in simp_all)
      have keep2: "\<forall>m\<ge>Suc n. repo_get repo (fresh m) r2 = None" using keep release_ids [OF rel] by simp
      have last: "clock (3 * n + 2) \<le> clock (3 * Suc n)" by (rule mono) simp
      have "acquire_from repo lock fresh clock i (Suc n) es (lw_repo ?w5, lw_lock ?w5) = (res, r, k)"
        using Cons.prems(1) res Some acq False rel by simp
      from Cons.IH [OF this step_ok [OF s5 w4]] last keep2
      obtain w' where w': "(lease_step repo lock)\<^sup>*\<^sup>* ?w5 w'" "lw_repo w' = r" "lw_lock w' = k"
        "lw_now w' \<le> clock (3 * (n + length (e # es)))" "\<forall>l. res = Inr l \<longrightarrow> lw_held w' (pl_leaseId l) = Some (pl_expiresAt l)" by auto
      note cons = converse_rtranclp_into_rtranclp [of "lease_step repo lock"]
      from cons [OF s0 cons [OF s1 cons [OF s2 cons [OF s3 cons [OF s4 cons [OF s5 w'(1)]]]]]] w'(2-5) show ?thesis by blast
    qed
  qed
qed

end

section \<open>The two repositories meet the contract\<close>

definition rows_ok :: "lease list \<Rightarrow> nat \<Rightarrow> bool" where
  "rows_ok ls n \<longleftrightarrow> distinct (map pl_leaseId ls) \<and> distinct (map pl_fencingToken ls) \<and> (\<forall>l\<in>set ls. pl_fencingToken l \<le> n)"

text \<open>A change that keeps identities and activates nothing.\<close>

definition tame :: "(lease \<Rightarrow> bool) \<Rightarrow> (lease \<Rightarrow> lease) \<Rightarrow> bool" where
  "tame p f \<longleftrightarrow> (\<forall>l. same_lease l (f l) \<and> (p l \<longrightarrow> pl_state (f l) = LActive \<longrightarrow> pl_state l = LActive))"

lemma tame_expire: "tame p (\<lambda>x. x\<lparr>pl_state := LExpired\<rparr>)"
  by (simp add: tame_def same_lease_def)

lemma tame_renew: "tame p (\<lambda>x. x\<lparr>pl_expiresAt := e\<rparr>)"
  by (simp add: tame_def same_lease_def)

lemma tame_release: "s \<noteq> LActive \<Longrightarrow> tame p (\<lambda>x. x\<lparr>pl_state := s, pl_releasedAt := t\<rparr>)"
  by (simp add: tame_def same_lease_def)

lemma rows_ok_update:
  assumes "tame p f"
  shows "rows_ok (update_where p f ls) n = rows_ok ls n"
proof -
  have i: "map pl_leaseId (update_where p f ls) = map pl_leaseId ls"
    and t: "map pl_fencingToken (update_where p f ls) = map pl_fencingToken ls"
    using assms by (auto intro!: map_update_where simp: tame_def same_lease_def)
  have "(\<forall>l\<in>set (update_where p f ls). pl_fencingToken l \<le> n) = (\<forall>x\<in>set (map pl_fencingToken (update_where p f ls)). x \<le> n)" by auto
  with i t show ?thesis unfolding rows_ok_def by simp
qed

lemma rows_ok_add:
  "rows_ok ls n \<Longrightarrow> pl_leaseId l \<notin> pl_leaseId ` set ls \<Longrightarrow> pl_fencingToken l = Suc n \<Longrightarrow> rows_ok (ls @ [l]) (Suc n)"
  by (fastforce simp: rows_ok_def)

lemma rows_ok_Suc: "rows_ok ls n \<Longrightarrow> rows_ok ls (Suc n)"
  by (fastforce simp: rows_ok_def)

lemma lookup_tame:
  assumes "tame p f"
  shows "lookup_by pl_leaseId k (update_where p f ls) = map_option (\<lambda>l. if p l then f l else l) (lookup_by pl_leaseId k ls)"
  by (rule lookup_update_rows) (use assms in \<open>simp add: tame_def same_lease_def\<close>)

lemma evolves_tame:
  assumes "tame p f" "rows r' = update_where p f (rows r)"
  shows "evolves (\<lambda>k r. lookup_by pl_leaseId k (rows r)) r r'"
  using assms(1) unfolding evolves_def assms(2) lookup_tame [OF assms(1)] by (auto simp: tame_def)

lemma evolves_add:
  assumes "rows r' = rows r @ [l]"
  shows "evolves (\<lambda>k r. lookup_by pl_leaseId k (rows r)) r r'"
  unfolding evolves_def assms lookup_append by auto

lemma evolves_id: "rows r' = rows r \<Longrightarrow> evolves (\<lambda>k r. lookup_by pl_leaseId k (rows r)) r r'"
  by (simp add: evolves_def)

lemma evolves_trans:
  assumes "evolves get a b" "evolves get b c"
  shows "evolves get a c"
  unfolding evolves_def
proof (intro allI impI)
  fix k l
  assume "get k a = Some l"
  from evolvesD [OF assms(1) this] obtain m where m: "get k b = Some m" "same_lease l m"
      "pl_state m = LActive \<Longrightarrow> pl_state l = LActive" by blast
  from evolvesD [OF assms(2) m(1)] obtain n where "get k c = Some n" "same_lease m n"
      "pl_state n = LActive \<Longrightarrow> pl_state m = LActive" by blast
  with m same_lease_trans [of l m n]
  show "\<exists>l'. get k c = Some l' \<and> same_lease l l' \<and> (pl_state l' = LActive \<longrightarrow> pl_state l = LActive)" by blast
qed

lemma rows_tokens:
  assumes "rows_ok ls n" "lookup_by pl_leaseId k ls = Some l" "lookup_by pl_leaseId k' ls = Some l'" "pl_fencingToken l = pl_fencingToken l'"
  shows "k = k'"
proof -
  from lookup_by_SomeD [OF assms(2)] lookup_by_SomeD [OF assms(3)]
  have m: "l \<in> set ls" "l' \<in> set ls" "pl_leaseId l = k" "pl_leaseId l' = k'" by auto
  from assms(1) have "distinct (map pl_fencingToken ls)" by (simp add: rows_ok_def)
  from distinct_key_eq [OF this m(1,2) assms(4)] m(3,4) show ?thesis by simp
qed

subsection \<open>In memory\<close>

definition memory_ok :: "memory_leases \<Rightarrow> bool" where
  "memory_ok m \<longleftrightarrow> rows_ok (ml_leases m) (ml_fence m)"

abbreviation memory_get :: "string \<Rightarrow> memory_leases \<Rightarrow> lease option" where
  "memory_get k m \<equiv> lookup_by pl_leaseId k (ml_leases m)"

lemma memory_insert_contract:
  assumes "memory_ok m" "memory_get (li_leaseId i) m = None" "memory_insert now i m = (o1, m')"
  shows "memory_ok m' \<and> evolves memory_get m m'
    \<and> (\<forall>l. o1 = Some l \<longrightarrow> memory_get (li_leaseId i) m' = Some l \<and> l = new_lease now i (pl_fencingToken l))"
proof -
  let ?l = "new_lease now i (Suc (ml_fence m))"
  have id: "pl_leaseId ?l = li_leaseId i" and t: "pl_fencingToken ?l = Suc (ml_fence m)" by (simp_all add: new_lease_def)
  from assms(2) have n: "pl_leaseId ?l \<notin> pl_leaseId ` set (ml_leases m)" by (simp add: id lookup_by_None_iff)
  have "\<not> list_ex (\<lambda>x. pl_leaseId x = pl_leaseId ?l) (ml_leases m)" using assms(2) by (simp add: list_ex_lookup id)
  then have p: "ml_leases m' = ml_leases m @ [?l]" "ml_fence m' = Suc (ml_fence m)" "o1 = Some ?l"
    using assms(3) by (auto simp: memory_insert_def Let_def put_lease_def)
  have "memory_ok m'" using rows_ok_add [OF _ n t] assms(1) by (simp add: memory_ok_def p)
  moreover have "evolves memory_get m m'" by (rule evolves_add [where rows = ml_leases, OF p(1)])
  moreover have "memory_get (li_leaseId i) m' = Some ?l" using assms(2) by (simp add: p(1) lookup_append id)
  ultimately show ?thesis using p(3) t by simp
qed

lemma memory_reserve_contract:
  assumes "memory_ok m" "memory_reserve now i m = (o1, m')" "o1 = None \<or> memory_get (li_leaseId i) m = None"
  shows "memory_ok m' \<and> evolves memory_get m m'
    \<and> (\<forall>l. o1 = Some l \<longrightarrow> memory_get (li_leaseId i) m' = Some l \<and> l = new_lease now i (pl_fencingToken l))"
proof (cases "o1 = None")
  case True
  with assms show ?thesis
    by (auto simp: memory_reserve_def memory_insert_def Let_def evolves_id split: option.splits if_splits)
next
  case False
  with assms(3) have n: "memory_get (li_leaseId i) m = None" by simp
  show ?thesis
  proof (cases "memory_current (li_endpointKey i) m")
    case None
    with assms(2) memory_insert_contract [OF assms(1) n] show ?thesis by (simp add: memory_reserve_def)
  next
    case (Some a)
    let ?m = "memory_expire a (li_endpointKey i) m"
    have e: "ml_leases ?m = update_where (\<lambda>x. pl_leaseId x = pl_leaseId a) (\<lambda>x. x\<lparr>pl_state := LExpired\<rparr>) (ml_leases m)"
      "ml_fence ?m = ml_fence m" by (simp_all add: memory_expire_def)
    have "memory_ok ?m" using assms(1) by (simp add: memory_ok_def e rows_ok_update [OF tame_expire])
    moreover have "memory_get (li_leaseId i) ?m = None" using n by (simp add: e lookup_tame [OF tame_expire])
    moreover have "memory_insert now i ?m = (o1, m')" using assms(2) False Some by (auto simp: memory_reserve_def split: if_splits)
    ultimately show ?thesis
      using memory_insert_contract [of ?m i now o1 m'] evolves_trans [OF evolves_tame [where rows = ml_leases, OF tame_expire e(1)], of m'] by auto
  qed
qed

lemma memory_renew_contract:
  assumes "memory_ok m" "memory_renew now r ttl m = (o1, m')"
  shows "memory_ok m' \<and> evolves memory_get m m'
    \<and> (\<forall>l. o1 = Some l \<longrightarrow> memory_get (lr_leaseId r) m' = Some l \<and> pl_expiresAt l = now + ttl)"
proof (cases "o1")
  case None
  with assms show ?thesis by (auto simp: memory_renew_def evolves_id split: option.splits if_splits)
next
  case (Some l1)
  then obtain l where l: "memory_get (lr_leaseId r) m = Some l" "l1 = l\<lparr>pl_expiresAt := now + ttl\<rparr>"
    and m': "ml_leases m' = update_where (\<lambda>x. pl_leaseId x = lr_leaseId r) (\<lambda>x. x\<lparr>pl_expiresAt := now + ttl\<rparr>) (ml_leases m)"
      "ml_fence m' = ml_fence m"
    using assms(2) by (auto simp: memory_renew_def split: option.splits if_splits)
  from lookup_by_SomeD [OF l(1)] l Some show ?thesis
    using assms(1) evolves_tame [where rows = ml_leases, OF tame_renew m'(1)]
    by (simp add: memory_ok_def m' rows_ok_update [OF tame_renew] lookup_tame [OF tame_renew])
qed

lemma memory_release_contract:
  assumes "memory_ok m" "s \<noteq> LActive" "memory_release now r s m = (b, m')"
  shows "memory_ok m' \<and> evolves memory_get m m' \<and> (b \<longrightarrow> (\<exists>l. memory_get (lr_leaseId r) m' = Some l \<and> pl_state l \<noteq> LActive))"
proof (cases b)
  case False
  with assms show ?thesis by (auto simp: memory_release_def evolves_id split: option.splits if_splits)
next
  case True
  then obtain l where l: "memory_get (lr_leaseId r) m = Some l"
    and m': "ml_leases m' = update_where (\<lambda>x. pl_leaseId x = lr_leaseId r) (\<lambda>x. x\<lparr>pl_state := s, pl_releasedAt := Some now\<rparr>) (ml_leases m)"
      "ml_fence m' = ml_fence m"
    using assms(3) by (auto simp: memory_release_def split: option.splits if_splits)
  note t = tame_release [OF assms(2)]
  from lookup_by_SomeD [OF l] l assms(2) show ?thesis
    using assms(1) evolves_tame [where rows = ml_leases, OF t m'(1)]
    by (simp add: memory_ok_def m' rows_ok_update [OF t] lookup_tame [OF t])
qed

lemma memory_reap_contract:
  assumes "memory_ok m" "memory_reapExpired now m = (n, m')"
  shows "memory_ok m' \<and> evolves memory_get m m'"
proof -
  have m': "ml_leases m' = update_where (overdue now) (\<lambda>x. x\<lparr>pl_state := LExpired\<rparr>) (ml_leases m)" "ml_fence m' = ml_fence m"
    using assms(2) by (auto simp: memory_reapExpired_def Let_def)
  show ?thesis
    using assms(1) evolves_tame [where rows = ml_leases, OF tame_expire m'(1)]
    by (simp add: memory_ok_def m' rows_ok_update [OF tame_expire])
qed

lemma lookup_put: "lookup_by pl_leaseId k (put_lease l ls) = (if k = pl_leaseId l then Some l else lookup_by pl_leaseId k ls)"
proof (cases "list_ex (\<lambda>x. pl_leaseId x = pl_leaseId l) ls")
  case True
  have "lookup_by pl_leaseId k (update_where (\<lambda>x. pl_leaseId x = pl_leaseId l) (\<lambda>_. l) ls)
      = (if k = pl_leaseId l then map_option (\<lambda>_. l) (lookup_by pl_leaseId k ls) else lookup_by pl_leaseId k ls)"
    by (induction ls) (auto simp: update_where_def)
  with True show ?thesis by (auto simp: put_lease_def list_ex_lookup)
next
  case False
  then show ?thesis by (auto simp: put_lease_def list_ex_lookup lookup_append split: option.split)
qed

lemma memory_reserve_ids:
  "memory_reserve now i m = (o1, m') \<Longrightarrow> k \<noteq> li_leaseId i \<Longrightarrow> memory_get k m = None \<Longrightarrow> memory_get k m' = None"
  by (auto simp: memory_reserve_def memory_insert_def memory_expire_def Let_def lookup_put lookup_tame [OF tame_expire] new_lease_def
      split: option.splits if_splits)

lemma memory_release_ids:
  "memory_release now r s m = (b, m') \<Longrightarrow> s \<noteq> LActive \<Longrightarrow> memory_get k m = None \<Longrightarrow> memory_get k m' = None"
  by (auto simp: memory_release_def lookup_tame [OF tame_release] split: option.splits if_splits)

lemma mlock_contract:
  "mlock_acquire now key v ttl m = (b, m') \<Longrightarrow>
    m' = (if b then m(key \<mapsto> (v, now + ttl)) else m) \<and> (b \<longrightarrow> live_entries now m key = None)"
  "mlock_renew now key v ttl m = (b, m') \<Longrightarrow>
    m' = (if b then m(key \<mapsto> (v, now + ttl)) else m) \<and> (b \<longrightarrow> map_option fst (live_entries now m key) = Some v)"
  "mlock_release now key v m = (b, m') \<Longrightarrow>
    m' = (if b then m(key := None) else m) \<and> (b \<longrightarrow> map_option fst (m key) = Some v)"
  by (auto simp: mlock_acquire_def mlock_renew_def mlock_release_def live_cases split: option.splits if_splits)

interpretation memory: proxy_leases memory_repository memory_ok memory_lock "\<lambda>m. m"
proof unfold_locales
  fix m m' :: memory_leases and now i o1 r ttl s b n
  show "memory_ok m \<Longrightarrow> repo_reserve memory_repository now i m = (o1, m') \<Longrightarrow>
      o1 = None \<or> repo_get memory_repository (li_leaseId i) m = None \<Longrightarrow>
      memory_ok m' \<and> evolves (repo_get memory_repository) m m'
        \<and> (\<forall>l. o1 = Some l \<longrightarrow> repo_get memory_repository (li_leaseId i) m' = Some l \<and> l = new_lease now i (pl_fencingToken l))"
    unfolding memory_repository_def lease_repository.simps by (rule memory_reserve_contract)
  show "memory_ok m \<Longrightarrow> repo_renew memory_repository now r ttl m = (o1, m') \<Longrightarrow>
      memory_ok m' \<and> evolves (repo_get memory_repository) m m'
        \<and> (\<forall>l. o1 = Some l \<longrightarrow> repo_get memory_repository (lr_leaseId r) m' = Some l \<and> pl_expiresAt l = now + ttl)"
    unfolding memory_repository_def lease_repository.simps by (rule memory_renew_contract)
  show "memory_ok m \<Longrightarrow> s \<noteq> LActive \<Longrightarrow> repo_release memory_repository now r s m = (b, m') \<Longrightarrow>
      memory_ok m' \<and> evolves (repo_get memory_repository) m m'
        \<and> (b \<longrightarrow> (\<exists>l. repo_get memory_repository (lr_leaseId r) m' = Some l \<and> pl_state l \<noteq> LActive))"
    unfolding memory_repository_def lease_repository.simps by (rule memory_release_contract)
  show "memory_ok m \<Longrightarrow> repo_reapExpired memory_repository now m = (n, m') \<Longrightarrow> memory_ok m' \<and> evolves (repo_get memory_repository) m m'"
    unfolding memory_repository_def lease_repository.simps by (rule memory_reap_contract)
  show "repo_reserve memory_repository now i m = (o1, m') \<Longrightarrow> k \<noteq> li_leaseId i \<Longrightarrow> repo_get memory_repository k m = None
      \<Longrightarrow> repo_get memory_repository k m' = None" for k
    unfolding memory_repository_def lease_repository.simps by (rule memory_reserve_ids)
  show "repo_release memory_repository now r s m = (b, m') \<Longrightarrow> s \<noteq> LActive \<Longrightarrow> repo_get memory_repository k m = None
      \<Longrightarrow> repo_get memory_repository k m' = None" for k
    unfolding memory_repository_def lease_repository.simps by (rule memory_release_ids)
  show "pl_leaseId l = k" if "repo_get memory_repository k m = Some l" for k l
    using that lookup_by_SomeD by (fastforce simp: memory_repository_def)
  show "k = k'" if "memory_ok m" "repo_get memory_repository k m = Some l" "repo_get memory_repository k' m = Some l'"
      "pl_fencingToken l = pl_fencingToken l'" for k k' l l'
    using that rows_tokens by (fastforce simp: memory_repository_def memory_ok_def)
qed (unfold memory_lock_def lease_lock.simps, (rule mlock_contract; assumption)+)

subsection \<open>PostgreSQL and Redis\<close>

text \<open>Among the leases of one endpoint of a pool only the one with the greatest token can be active.\<close>

definition newest_only :: "lease list \<Rightarrow> bool" where
  "newest_only ls \<longleftrightarrow> (\<forall>a\<in>set ls. \<forall>b\<in>set ls.
     pl_providerId a = pl_providerId b \<longrightarrow> pl_poolId a = pl_poolId b \<longrightarrow> pl_endpointKey a = pl_endpointKey b \<longrightarrow>
     pl_fencingToken a < pl_fencingToken b \<longrightarrow> pl_state a \<noteq> LActive)"

definition table_ok :: "lease_table \<Rightarrow> bool" where
  "table_ok t \<longleftrightarrow> rows_ok (lt_rows t) (lt_sequence t) \<and> newest_only (lt_rows t)"

abbreviation table_get :: "string \<Rightarrow> lease_table \<Rightarrow> lease option" where
  "table_get k t \<equiv> lookup_by pl_leaseId k (lt_rows t)"

lemma newest_only_update:
  assumes "tame p f" "newest_only ls"
  shows "newest_only (update_where p f ls)"
proof -
  have o: "\<exists>y\<in>set ls. same_lease y x \<and> (pl_state x = LActive \<longrightarrow> pl_state y = LActive)" if "x \<in> set (update_where p f ls)" for x
    using in_update_whereE [OF that] assms(1) unfolding tame_def by (metis same_lease_refl)
  show ?thesis
    unfolding newest_only_def
  proof (intro ballI impI)
    fix a b
    assume ab: "a \<in> set (update_where p f ls)" "b \<in> set (update_where p f ls)" "pl_providerId a = pl_providerId b"
      "pl_poolId a = pl_poolId b" "pl_endpointKey a = pl_endpointKey b" "pl_fencingToken a < pl_fencingToken b"
    from o [OF ab(1)] obtain x where x: "x \<in> set ls" "same_lease x a" "pl_state a = LActive \<longrightarrow> pl_state x = LActive" by blast
    from o [OF ab(2)] obtain y where y: "y \<in> set ls" "same_lease y b" by blast
    have "pl_state x \<noteq> LActive"
      using assms(2) x(1,2) y ab(3-6) unfolding newest_only_def same_lease_def by metis
    with x(3) show "pl_state a \<noteq> LActive" by blast
  qed
qed

lemma newest_only_add:
  assumes "newest_only ls" "\<forall>x\<in>set ls. pl_fencingToken x < pl_fencingToken l"
    "\<forall>x\<in>set ls. pl_providerId x = pl_providerId l \<longrightarrow> pl_poolId x = pl_poolId l \<longrightarrow> pl_endpointKey x = pl_endpointKey l
      \<longrightarrow> pl_state x \<noteq> LActive"
  shows "newest_only (ls @ [l])"
  using assms unfolding newest_only_def by (auto dest: order.asym)

lemma table_reserve_contract:
  assumes "table_ok t" "table_reserve now i t = (o1, t')"
  shows "table_ok t' \<and> evolves table_get t t'
    \<and> (\<forall>l. o1 = Some l \<longrightarrow> table_get (li_leaseId i) t' = Some l \<and> l = new_lease now i (pl_fencingToken l))"
proof -
  let ?rows = "expire_rows now (lt_rows t)" and ?l = "new_lease now i (Suc (lt_sequence t))"
  have id: "pl_leaseId ?l = li_leaseId i" and tk: "pl_fencingToken ?l = Suc (lt_sequence t)"
    and pos: "pl_providerId ?l = li_providerId i" "pl_poolId ?l = li_poolId i" "pl_endpointKey ?l = li_endpointKey i"
    by (simp_all add: new_lease_def)
  have r: "rows_ok ?rows (lt_sequence t)" "newest_only ?rows"
    using assms(1) by (auto simp: table_ok_def expire_rows_def rows_ok_update [OF tame_expire] newest_only_update [OF tame_expire])
  have e: "evolves table_get t (t\<lparr>lt_rows := ?rows\<rparr>)"
    by (rule evolves_tame [where rows = lt_rows, OF tame_expire]) (simp add: expire_rows_def)
  show ?thesis
  proof (cases "list_ex (lease_conflict i) ?rows")
    case True
    then have t': "lt_rows t' = ?rows" "lt_sequence t' = Suc (lt_sequence t)" "o1 = None"
      using assms(2) by (auto simp: table_reserve_def Let_def)
    have "table_ok t'" using r rows_ok_Suc by (simp add: table_ok_def t')
    moreover have "evolves table_get t t'" using e by (simp add: evolves_def t'(1))
    ultimately show ?thesis using t'(3) by simp
  next
    case False
    then have t': "lt_rows t' = ?rows @ [?l]" "lt_sequence t' = Suc (lt_sequence t)" "o1 = Some ?l"
      using assms(2) by (auto simp: table_reserve_def Let_def)
    from False have n: "\<not> lease_conflict i x" if "x \<in> set ?rows" for x using that by (auto simp: list_ex_iff)
    have a: "pl_leaseId ?l \<notin> pl_leaseId ` set ?rows"
    proof
      assume "pl_leaseId ?l \<in> pl_leaseId ` set ?rows"
      then obtain x where "x \<in> set ?rows" "pl_leaseId x = li_leaseId i" unfolding id by force
      with n [of x] show False by (simp add: lease_conflict_def)
    qed
    have "rows_ok (?rows @ [?l]) (Suc (lt_sequence t))" by (rule rows_ok_add [OF r(1) a tk])
    moreover have "newest_only (?rows @ [?l])"
    proof (rule newest_only_add [OF r(2)])
      show "\<forall>x\<in>set ?rows. pl_fencingToken x < pl_fencingToken ?l" using r(1) tk by (auto simp: rows_ok_def less_Suc_eq_le)
    qed (use n pos in \<open>auto simp: lease_conflict_def\<close>)
    ultimately have "table_ok t'" by (simp add: table_ok_def t')
    moreover have "evolves table_get t t'"
      by (rule evolves_trans [OF e evolves_add [where rows = lt_rows]]) (simp add: t'(1))
    moreover have "table_get (li_leaseId i) t' = Some ?l"
      using a by (simp add: t'(1) lookup_append id lookup_by_None_iff [symmetric])
    ultimately show ?thesis using t'(3) tk by simp
  qed
qed

lemma table_renew_contract:
  assumes "table_ok t" "table_renew now r ttl t = (o1, t')"
  shows "table_ok t' \<and> evolves table_get t t'
    \<and> (\<forall>l. o1 = Some l \<longrightarrow> table_get (lr_leaseId r) t' = Some l \<and> pl_expiresAt l = now + ttl)"
proof -
  let ?hit = "\<lambda>l. held_by r l \<and> now < pl_expiresAt l"
  have t': "lt_rows t' = update_where ?hit (\<lambda>x. x\<lparr>pl_expiresAt := now + ttl\<rparr>) (lt_rows t)" "lt_sequence t' = lt_sequence t"
    and o1: "o1 = map_option (\<lambda>l. l\<lparr>pl_expiresAt := now + ttl\<rparr>) (find ?hit (lt_rows t))"
    using assms(2) by (auto simp: table_renew_def Let_def)
  have "table_get (lr_leaseId r) t' = Some l1 \<and> pl_expiresAt l1 = now + ttl" if "o1 = Some l1" for l1
  proof -
    from that o1 obtain l where l: "find ?hit (lt_rows t) = Some l" "l1 = l\<lparr>pl_expiresAt := now + ttl\<rparr>" by auto
    from find_SomeD [OF l(1)] have m: "l \<in> set (lt_rows t)" "held_by r l" "now < pl_expiresAt l" by auto
    from assms(1) have "distinct (map pl_leaseId (lt_rows t))" by (simp add: table_ok_def rows_ok_def)
    from lookup_by_mem [OF this m(1)] m(2,3) l(2) show ?thesis
      by (simp add: t'(1) lookup_tame [OF tame_renew] held_by_def)
  qed
  with assms(1) show ?thesis
    using evolves_tame [where rows = lt_rows, OF tame_renew t'(1)]
    by (simp add: table_ok_def t' rows_ok_update [OF tame_renew] newest_only_update [OF tame_renew])
qed

lemma table_release_contract:
  assumes "table_ok t" "s \<noteq> LActive" "table_release now r s t = (b, t')"
  shows "table_ok t' \<and> evolves table_get t t' \<and> (b \<longrightarrow> (\<exists>l. table_get (lr_leaseId r) t' = Some l \<and> pl_state l \<noteq> LActive))"
proof -
  have t': "lt_rows t' = update_where (held_by r) (\<lambda>x. x\<lparr>pl_state := s, pl_releasedAt := Some now\<rparr>) (lt_rows t)"
      "lt_sequence t' = lt_sequence t" and b: "b = (length (filter (held_by r) (lt_rows t)) = 1)"
    using assms(3) by (auto simp: table_release_def)
  note tm = tame_release [OF assms(2)]
  have "\<exists>l. table_get (lr_leaseId r) t' = Some l \<and> pl_state l \<noteq> LActive" if b
  proof -
    from that b have "filter (held_by r) (lt_rows t) \<noteq> []" by auto
    then obtain l where m: "l \<in> set (lt_rows t)" "held_by r l" by (auto simp: filter_empty_conv)
    from assms(1) have "distinct (map pl_leaseId (lt_rows t))" by (simp add: table_ok_def rows_ok_def)
    from lookup_by_mem [OF this m(1)] m(2) assms(2) show ?thesis
      by (simp add: t'(1) lookup_tame [OF tm] held_by_def)
  qed
  with assms(1) show ?thesis
    using evolves_tame [where rows = lt_rows, OF tm t'(1)]
    by (simp add: table_ok_def t' rows_ok_update [OF tm] newest_only_update [OF tm])
qed

lemma table_reap_contract:
  assumes "table_ok t" "table_reapExpired now t = (n, t')"
  shows "table_ok t' \<and> evolves table_get t t'"
proof -
  have t': "lt_rows t' = update_where (overdue now) (\<lambda>x. x\<lparr>pl_state := LExpired\<rparr>) (lt_rows t)" "lt_sequence t' = lt_sequence t"
    using assms(2) by (auto simp: table_reapExpired_def expire_rows_def)
  show ?thesis
    using assms(1) evolves_tame [where rows = lt_rows, OF tame_expire t'(1)]
    by (simp add: table_ok_def t' rows_ok_update [OF tame_expire] newest_only_update [OF tame_expire])
qed

lemma table_reserve_ids:
  "table_reserve now i t = (o1, t') \<Longrightarrow> k \<noteq> li_leaseId i \<Longrightarrow> table_get k t = None \<Longrightarrow> table_get k t' = None"
  by (auto simp: table_reserve_def expire_rows_def Let_def lookup_append lookup_tame [OF tame_expire] new_lease_def split: if_splits)

lemma table_release_ids:
  "table_release now r s t = (b, t') \<Longrightarrow> s \<noteq> LActive \<Longrightarrow> table_get k t = None \<Longrightarrow> table_get k t' = None"
  by (auto simp: table_release_def lookup_tame [OF tame_release])

lemma rlock_contract:
  "rlock_acquire p now key v ttl m = (b, m') \<Longrightarrow>
    under_prefix p m' = (if b then (under_prefix p m)(key \<mapsto> (v, now + ttl)) else under_prefix p m)
    \<and> (b \<longrightarrow> live_entries now (under_prefix p m) key = None)"
  "rlock_renew p now key v ttl m = (b, m') \<Longrightarrow>
    under_prefix p m' = (if b then (under_prefix p m)(key \<mapsto> (v, now + ttl)) else under_prefix p m)
    \<and> (b \<longrightarrow> map_option fst (live_entries now (under_prefix p m) key) = Some v)"
  "rlock_release p now key v m = (b, m') \<Longrightarrow>
    under_prefix p m' = (if b then (under_prefix p m)(key := None) else under_prefix p m)
    \<and> (b \<longrightarrow> map_option fst (under_prefix p m key) = Some v)"
  by (auto simp: rlock_acquire_def rlock_renew_def rlock_release_def Let_def redis_get_live split: if_splits)
    (auto simp: live_cases split: option.splits if_splits)

interpretation production: proxy_leases table_repository table_ok "redis_lock p" "under_prefix p" for p
proof unfold_locales
  fix t t' :: lease_table and now i o1 r ttl s b n
  show "table_ok t \<Longrightarrow> repo_reserve table_repository now i t = (o1, t') \<Longrightarrow>
      o1 = None \<or> repo_get table_repository (li_leaseId i) t = None \<Longrightarrow>
      table_ok t' \<and> evolves (repo_get table_repository) t t'
        \<and> (\<forall>l. o1 = Some l \<longrightarrow> repo_get table_repository (li_leaseId i) t' = Some l \<and> l = new_lease now i (pl_fencingToken l))"
    unfolding table_repository_def lease_repository.simps by (rule table_reserve_contract)
  show "table_ok t \<Longrightarrow> repo_renew table_repository now r ttl t = (o1, t') \<Longrightarrow>
      table_ok t' \<and> evolves (repo_get table_repository) t t'
        \<and> (\<forall>l. o1 = Some l \<longrightarrow> repo_get table_repository (lr_leaseId r) t' = Some l \<and> pl_expiresAt l = now + ttl)"
    unfolding table_repository_def lease_repository.simps by (rule table_renew_contract)
  show "table_ok t \<Longrightarrow> s \<noteq> LActive \<Longrightarrow> repo_release table_repository now r s t = (b, t') \<Longrightarrow>
      table_ok t' \<and> evolves (repo_get table_repository) t t'
        \<and> (b \<longrightarrow> (\<exists>l. repo_get table_repository (lr_leaseId r) t' = Some l \<and> pl_state l \<noteq> LActive))"
    unfolding table_repository_def lease_repository.simps by (rule table_release_contract)
  show "table_ok t \<Longrightarrow> repo_reapExpired table_repository now t = (n, t') \<Longrightarrow> table_ok t' \<and> evolves (repo_get table_repository) t t'"
    unfolding table_repository_def lease_repository.simps by (rule table_reap_contract)
  show "repo_reserve table_repository now i t = (o1, t') \<Longrightarrow> k \<noteq> li_leaseId i \<Longrightarrow> repo_get table_repository k t = None
      \<Longrightarrow> repo_get table_repository k t' = None" for k
    unfolding table_repository_def lease_repository.simps by (rule table_reserve_ids)
  show "repo_release table_repository now r s t = (b, t') \<Longrightarrow> s \<noteq> LActive \<Longrightarrow> repo_get table_repository k t = None
      \<Longrightarrow> repo_get table_repository k t' = None" for k
    unfolding table_repository_def lease_repository.simps by (rule table_release_ids)
  show "pl_leaseId l = k" if "repo_get table_repository k t = Some l" for k l
    using that lookup_by_SomeD by (fastforce simp: table_repository_def)
  show "k = k'" if "table_ok t" "repo_get table_repository k t = Some l" "repo_get table_repository k' t = Some l'"
      "pl_fencingToken l = pl_fencingToken l'" for k k' l l'
    using that rows_tokens by (fastforce simp: table_repository_def table_ok_def)
qed (unfold redis_lock_def lease_lock.simps, (rule rlock_contract; assumption)+)

section \<open>Guarantees of the production stores\<close>

type_synonym proxy_world = "(lease_table, lock_entries) lease_world"

definition idle_world :: "proxy_world \<Rightarrow> bool" where
  "idle_world w \<longleftrightarrow> lt_rows (lw_repo w) = [] \<and> lw_reserved w = {} \<and> lw_renewing w = {} \<and> lw_releasing w = {} \<and> lw_held w = Map.empty"

abbreviation proxy_step :: "string \<Rightarrow> proxy_world \<Rightarrow> proxy_world \<Rightarrow> bool" where
  "proxy_step p \<equiv> lease_step table_repository (redis_lock p)"

text \<open>A lease that its holder may still use: not expired by what the holder was told, and not given up or taken back.\<close>

definition may_use :: "proxy_world \<Rightarrow> string \<Rightarrow> string \<Rightarrow> bool" where
  "may_use w endpoint k \<longleftrightarrow> (case (lw_held w k, table_get k (lw_repo w)) of
     (Some e, Some l) \<Rightarrow> lw_now w < e \<and> pl_state l = LActive \<and> lock_key l = endpoint
   | _ \<Rightarrow> False)"

interpretation proxy: step_invariant idle_world "proxy_step p" "production.world_ok p" for p
proof
  show "production.world_ok p w" if "idle_world w" for w
    using that by (simp add: idle_world_def production.world_ok_def table_ok_def rows_ok_def newest_only_def)
qed (rule production.step_ok)

lemma reachable_steps:
  assumes "step\<^sup>*\<^sup>* s s'" "reachable_from init step s"
  shows "reachable_from init step s'"
  using assms by (induction rule: rtranclp_induct) (auto intro: reachable_from.step)

text \<open>C19: however the calls of any number of coordinators interleave, at most one lease of an endpoint may be in use at any
  time: reservations in PostgreSQL and locks in Redis together exclude a second holder, also after expiry,
  renewal and release.\<close>

theorem proxy_lease_is_exclusive:
  assumes "reachable_from idle_world (proxy_step p) w" "may_use w endpoint k1" "may_use w endpoint k2"
  shows "k1 = k2"
proof -
  have get: "repo_get table_repository k t = table_get k t" for k t by (simp add: table_repository_def)
  show ?thesis
    using production.exclusive [OF proxy.reachable_inv [OF assms(1)], of k1 _ _ k2] assms(2,3)
    by (auto simp: may_use_def get split: option.splits)
qed

lemma acquire_steps:
  assumes "reachable_from idle_world (proxy_step p) w" "lw_now w \<le> clock 0"
    and "\<And>a b. a \<le> b \<Longrightarrow> clock a \<le> clock b" "inj fresh" "\<And>m. table_get (fresh m) (lw_repo w) = None"
    and "coordinator_acquire table_repository (redis_lock p) fresh clock owner ttl endpointKeys i (lw_repo w, lw_lock w) = (Inr l, r, k)"
  shows "\<exists>w'. reachable_from idle_world (proxy_step p) w' \<and> lw_repo w' = r \<and> lw_lock w' = k
    \<and> lw_now w' \<le> clock (3 * length (first_occurrences endpointKeys)) \<and> lw_held w' (pl_leaseId l) = Some (pl_expiresAt l)"
proof -
  have get: "repo_get table_repository k t = table_get k t" for k t by (simp add: table_repository_def)
  let ?i = "i\<lparr>li_ownerId := owner, li_ttlMs := boundedTtl ttl\<rparr>"
  have a: "acquire_from table_repository (redis_lock p) fresh clock ?i 0 (first_occurrences endpointKeys) (lw_repo w, lw_lock w) = (Inr l, r, k)"
    using assms(6) by (auto simp: coordinator_acquire_def Let_def split: if_splits)
  have c: "lw_now w \<le> clock (3 * 0)" "\<forall>m\<ge>0. repo_get table_repository (fresh m) (lw_repo w) = None"
    using assms(2,5) by (simp_all add: get)
  from production.acquire_from_steps [OF assms(3,4) a proxy.reachable_inv [OF assms(1)] c]
  show ?thesis using reachable_steps [OF _ assms(1)] by auto
qed

text \<open>C20: a call of the coordinator's \<open>acquire\<close> is a sequence of those steps: it ends in a reachable world with the same
  stores, in which the returned lease is held for the time it carries.\<close>

theorem acquire_refines_steps:
  assumes "reachable_from idle_world (proxy_step p) w" "lw_now w \<le> clock 0"
    and "\<And>a b. a \<le> b \<Longrightarrow> clock a \<le> clock b" "inj fresh" "\<And>m. table_get (fresh m) (lw_repo w) = None"
    and "coordinator_acquire table_repository (redis_lock p) fresh clock owner ttl endpointKeys i (lw_repo w, lw_lock w) = (Inr l, r, k)"
  shows "\<exists>w'. reachable_from idle_world (proxy_step p) w' \<and> lw_repo w' = r \<and> lw_lock w' = k
    \<and> lw_now w' \<le> clock (3 * length (first_occurrences endpointKeys)) \<and> lw_held w' (pl_leaseId l) = Some (pl_expiresAt l)"
  using assms by (rule acquire_steps)

text \<open>C21: fencing: once an endpoint of a pool has been leased again, the former lease, whose token is smaller, can be neither
  renewed nor released.\<close>

theorem stale_lease_is_fenced:
  assumes "reachable_from idle_world (proxy_step p) w"
    and "l \<in> set (lt_rows (lw_repo w))" "newer \<in> set (lt_rows (lw_repo w))"
    and "pl_providerId l = pl_providerId newer" "pl_poolId l = pl_poolId newer" "pl_endpointKey l = pl_endpointKey newer"
    and "pl_fencingToken l < pl_fencingToken newer"
  shows "fst (table_renew now (ref_of owner l) ttl (lw_repo w)) = None
    \<and> \<not> fst (table_release now (ref_of owner l) s (lw_repo w))"
proof -
  from proxy.reachable_inv [OF assms(1)] have ok: "table_ok (lw_repo w)" by (simp add: production.world_ok_def)
  then have inactive: "pl_state l \<noteq> LActive" using assms(2-7) unfolding table_ok_def newest_only_def by blast
  have "distinct (map pl_leaseId (lt_rows (lw_repo w)))" using ok by (simp add: table_ok_def rows_ok_def)
  then have none: "\<not> held_by (ref_of owner l) x" if "x \<in> set (lt_rows (lw_repo w))" for x
    using distinct_key_eq [OF _ that assms(2)] inactive by (auto simp: held_by_def ref_of_def)
  then have "filter (held_by (ref_of owner l)) (lt_rows (lw_repo w)) = []" by (simp add: filter_empty_conv)
  with none show ?thesis by (auto simp: table_renew_def table_release_def Let_def find_None_iff)
qed

section \<open>Witnesses\<close>

definition demo_request :: lease_input where
  "demo_request = \<lparr>li_leaseId = [], li_providerId = ''p1'', li_poolId = ''pool'', li_campaignId = ''c1'', li_endpointKey = [],
     li_ownerId = [], li_sessionId = None, li_rotationMode = ''port-pool'', li_ttlMs = 0\<rparr>"

definition idle :: proxy_world where
  "idle = \<lparr>lw_now = 1000, lw_repo = \<lparr>lt_rows = [], lt_sequence = 0\<rparr>, lw_lock = Map.empty, lw_reserved = {}, lw_renewing = {},
     lw_releasing = {}, lw_held = Map.empty\<rparr>"

lemma idle_reachable: "reachable_from idle_world (proxy_step p) idle"
  by (rule reachable_from.init) (simp add: idle_world_def idle_def)

abbreviation demo_acquire :: "(lease_error + lease) \<times> lease_table \<times> lock_entries" where
  "demo_acquire \<equiv> coordinator_acquire table_repository (redis_lock ''tah'') nat_digits (\<lambda>_. 1000) ''worker-a'' (Num 60000)
     [''gw:12000''] demo_request (lw_repo idle, lw_lock idle)"

definition demo_granted :: bool where
  "demo_granted \<longleftrightarrow> (case demo_acquire of
     (Inr l, t, _) \<Rightarrow> pl_leaseId l = ''0'' \<and> pl_expiresAt l = 61000 \<and> table_get ''0'' t = Some l \<and> pl_state l = LActive
       \<and> lock_key l = ''p1:gw:12000''
   | _ \<Rightarrow> False)"

lemma demo_granted: "demo_granted"
  by code_simp

lemma demo_acquired:
  obtains l t k where "demo_acquire = (Inr l, t, k)" "pl_leaseId l = ''0''" "pl_expiresAt l = 61000" "table_get ''0'' t = Some l"
    "pl_state l = LActive" "lock_key l = ''p1:gw:12000''"
  using demo_granted unfolding demo_granted_def by (auto split: prod.splits sum.splits)

lemma demo_lease_ids: "inj nat_digits" "table_get k (lw_repo idle) = None"
  by (auto simp: idle_def nat_digits_inject inj_def)

theorem acquire_refines_steps_witness:
  "\<exists>w'. reachable_from idle_world (proxy_step ''tah'') w' \<and> lw_held w' ''0'' = Some 61000"
proof -
  obtain l t k where a: "demo_acquire = (Inr l, t, k)" "pl_leaseId l = ''0''" "pl_expiresAt l = 61000"
    by (rule demo_acquired) blast
  have "lw_now idle \<le> 1000" by (simp add: idle_def)
  from acquire_refines_steps [OF idle_reachable this order_refl demo_lease_ids(1) demo_lease_ids(2) a(1)] a(2,3) show ?thesis by auto
qed

theorem proxy_lease_is_exclusive_witness:
  "\<exists>w'. reachable_from idle_world (proxy_step ''tah'') w' \<and> {k. may_use w' ''p1:gw:12000'' k} = {''0''}"
proof -
  obtain l t k where a: "demo_acquire = (Inr l, t, k)" "pl_leaseId l = ''0''" "pl_expiresAt l = 61000" "table_get ''0'' t = Some l"
    "pl_state l = LActive" "lock_key l = ''p1:gw:12000''" by (rule demo_acquired) blast
  have "lw_now idle \<le> 1000" by (simp add: idle_def)
  from acquire_steps [OF idle_reachable this order_refl demo_lease_ids(1) demo_lease_ids(2) a(1)] a(2,3)
  obtain w' where w': "reachable_from idle_world (proxy_step ''tah'') w'" "lw_repo w' = t" "lw_now w' \<le> 1000" "lw_held w' ''0'' = Some 61000"
    by auto
  have use: "may_use w' ''p1:gw:12000'' ''0''" using w' a(4-6) by (simp add: may_use_def)
  then have "{k. may_use w' ''p1:gw:12000'' k} = {''0''}"
    using proxy_lease_is_exclusive [OF w'(1) _ use] by blast
  with w'(1) show ?thesis by blast
qed

definition first_request :: lease_input where
  "first_request = demo_request\<lparr>li_leaseId := ''a'', li_endpointKey := ''gw:12000'', li_ownerId := ''o'', li_ttlMs := 10000\<rparr>"

definition second_request :: lease_input where
  "second_request = first_request\<lparr>li_leaseId := ''b'', li_campaignId := ''c2''\<rparr>"

definition released_table :: lease_table where
  "released_table = snd (table_reserve 20000 second_request (snd (table_reserve 1000 first_request (lw_repo idle))))"

definition former :: lease where "former = (new_lease 1000 first_request 1)\<lparr>pl_state := LExpired\<rparr>"
definition newer_lease :: lease where "newer_lease = new_lease 20000 second_request 2"

lemma released_rows: "lt_rows released_table = [former, newer_lease]"
  by code_simp

theorem stale_lease_is_fenced_witness: "fst (table_renew 21000 (ref_of ''o'' former) 10000 released_table) = None"
proof -
  let ?t1 = "snd (table_reserve 1000 first_request (lw_repo idle))"
  have r1: "table_reserve 1000 first_request (lw_repo idle) = (Some (new_lease 1000 first_request 1), ?t1)"
    by (simp add: table_reserve_def expire_rows_def idle_def Let_def)
  have fresh: "table_get ''b'' ?t1 = None" by code_simp
  have "fst (table_reserve 20000 second_request ?t1) \<noteq> None" by code_simp
  then obtain l2 where r2: "table_reserve 20000 second_request ?t1 = (Some l2, released_table)"
    by (cases "table_reserve 20000 second_request ?t1") (auto simp: released_table_def)
  let ?w1 = "idle\<lparr>lw_repo := ?t1, lw_reserved := insert (new_lease 1000 first_request 1) (lw_reserved idle)\<rparr>"
  have s1: "proxy_step ''tah'' idle ?w1"
    by (rule lease_step.reserved [where i = first_request]) (use r1 in \<open>simp_all add: table_repository_def idle_def\<close>)
  have w1: "reachable_from idle_world (proxy_step ''tah'') ?w1" by (rule reachable_from.step) (rule idle_reachable, rule s1)
  let ?w2 = "?w1\<lparr>lw_now := 20000\<rparr>"
  have s2: "proxy_step ''tah'' ?w1 ?w2" by (rule lease_step.clock) (simp add: idle_def)
  have w2: "reachable_from idle_world (proxy_step ''tah'') ?w2" by (rule reachable_from.step) (rule w1, rule s2)
  let ?w3 = "?w2\<lparr>lw_repo := released_table, lw_reserved := insert l2 (lw_reserved ?w2)\<rparr>"
  have s3: "proxy_step ''tah'' ?w2 ?w3"
    by (rule lease_step.reserved [where i = second_request])
      (use r2 fresh in \<open>simp_all add: table_repository_def second_request_def\<close>)
  have w3: "reachable_from idle_world (proxy_step ''tah'') ?w3" by (rule reachable_from.step) (rule w2, rule s3)
  have m: "former \<in> set (lt_rows (lw_repo ?w3))" "newer_lease \<in> set (lt_rows (lw_repo ?w3))" by (simp_all add: released_rows)
  have "pl_providerId former = pl_providerId newer_lease" "pl_poolId former = pl_poolId newer_lease"
    "pl_endpointKey former = pl_endpointKey newer_lease" "pl_fencingToken former < pl_fencingToken newer_lease"
    by (simp_all add: former_def newer_lease_def new_lease_def second_request_def)
  from stale_lease_is_fenced [OF w3 m this, of 21000 "''o''" 10000] show ?thesis by simp
qed

theorem memory_lock_refines_redis_witness:
  "(let m = (Map.empty)(''k'' \<mapsto> (''v'', 500)); db = (Map.empty)(''tah:k'' \<mapsto> (''v'', 500))
    in fst (mlock_release 900 ''k'' ''v'' m) \<and> \<not> fst (rlock_release ''tah'' 900 ''k'' ''v'' db))"
proof -
  let ?m = "(Map.empty)(''k'' \<mapsto> (''v'', 500))" and ?db = "(Map.empty)(redis_key ''tah'' ''k'' \<mapsto> (''v'', 500))"
  have s: "live_entries 900 ?m = live_entries 900 (under_prefix ''tah'' ?db)"
    by (auto simp: live_entries_def under_prefix_def fun_eq_iff)
  have a: "fst (mlock_release 900 ''k'' ''v'' ?m)" by (simp add: mlock_release_def)
  have d: "live_entries 900 ?m ''k'' = None" by (simp add: live_entries_def)
  from memory_lock_refines_redis [OF s, of "''k''" "''v''" 0] a d
  have "\<not> fst (rlock_release ''tah'' 900 ''k'' ''v'' ?db)" by (auto simp: Let_def split: prod.splits)
  with a show ?thesis by (simp add: redis_key_def)
qed

end
