(* ===== verification/Proxy_Runtime.thy ===== *)
theory Proxy_Runtime
  imports Proxy_Lease
begin

text \<open>
  The proxy runtime: \<open>web/server/proxy-runtime-service.mjs\<close> with the endpoint keys of
  \<open>web/server/proxy-setup-core.mjs\<close>. It picks a provider for a campaign, leases an endpoint through the coordinator of
  \<open>Proxy_Lease\<close>, and keeps a circuit breaker per endpoint. SHA-256, the secret vault and the adapters that build a
  proxy address are parameters; the retry time of a circuit is given as parsed.
\<close>

section \<open>Endpoint keys\<close>

definition EVOMI_HOSTS :: "string list" where
  "EVOMI_HOSTS = [''core-residential.evomi.com'', ''premium-residential.evomi.com'', ''rp.evomi.com'', ''rp.evomi-proxy.com'']"

record proxy_pool =
  pp_poolId :: string
  pp_providerId :: string
  pp_enabled :: bool
  pp_endpointPorts :: "nat list"
  pp_sessionSharedGateway :: bool
  pp_sessionCapacity :: js_number

text \<open>\<open>Math.max(1, Math.min(500, Number(capacity) || 100))\<close>, or \<open>None\<close> if that is not an integer\<close>

definition session_slots :: "js_number \<Rightarrow> nat option" where
  "session_slots c =
     (let v = (case c of Num r \<Rightarrow> if r = 0 then 100 else r | PosInf \<Rightarrow> 500 | NegInf \<Rightarrow> 1 | _ \<Rightarrow> 100); s = max 1 (min 500 v)
      in if s = of_int \<lfloor>s\<rfloor> then Some (nat \<lfloor>s\<rfloor>) else None)"

definition plain_key :: "string \<Rightarrow> nat \<Rightarrow> string" where
  "plain_key host port = host @ '':'' @ nat_digits port"

definition slot_key :: "string \<Rightarrow> string \<Rightarrow> nat \<Rightarrow> nat \<Rightarrow> string" where
  "slot_key host pool slot port = host @ ''~'' @ pool @ ''~'' @ nat_digits slot @ '':'' @ nat_digits port"

definition leaseEndpointKeys :: "(string \<Rightarrow> nat) \<Rightarrow> proxy_pool \<Rightarrow> string \<Rightarrow> string \<Rightarrow> string \<Rightarrow> unit + string list" where
  "leaseEndpointKeys sha32 pool host rotationMode sessionId =
     (let ports = pp_endpointPorts pool in
      if to_lower host \<notin> set EVOMI_HOSTS \<or> \<not> pp_sessionSharedGateway pool \<or> rotationMode \<noteq> ''sticky-session''
      then Inr (map (plain_key host) ports)
      else case session_slots (pp_sessionCapacity pool) of
        None \<Rightarrow> Inl ()
      | Some slots \<Rightarrow>
          if 5000 < slots * length ports then Inl ()
          else Inr (concat (map (\<lambda>port. map (\<lambda>index. slot_key host (pp_poolId pool) ((index + sha32 sessionId mod slots) mod slots) port)
                 [0..<slots]) ports)))"

text \<open>\<open>key.replace(/~[a-z0-9._-]+~[0-9]+(?=:[0-9]+$)/, "")\<close>: the leftmost match is removed.\<close>

definition slot_char :: "char \<Rightarrow> bool" where
  "slot_char c \<longleftrightarrow> is_lower c \<or> is_digit c \<or> c \<in> {CHR ''.'', CHR ''_'', CHR ''-''}"

definition all_digits :: "string \<Rightarrow> bool" where
  "all_digits s \<longleftrightarrow> s \<noteq> [] \<and> list_all is_digit s"

text \<open>What follows a match that starts here, if there is one.\<close>

definition after_slot :: "string \<Rightarrow> string option" where
  "after_slot s =
     (case s of
        c # t \<Rightarrow>
          (let name = takeWhile slot_char t; u = dropWhile slot_char t in
           if c \<noteq> CHR ''~'' \<or> name = [] then None
           else case u of
             d # v \<Rightarrow>
               (let n = takeWhile is_digit v; w = dropWhile is_digit v in
                if d = CHR ''~'' \<and> n \<noteq> [] \<and> w \<noteq> [] \<and> hd w = CHR '':'' \<and> all_digits (tl w) then Some w else None)
           | [] \<Rightarrow> None)
      | [] \<Rightarrow> None)"

fun physicalEndpointKey :: "string \<Rightarrow> string" where
  "physicalEndpointKey [] = []"
| "physicalEndpointKey (c # s) = (case after_slot (c # s) of Some w \<Rightarrow> w | None \<Rightarrow> c # physicalEndpointKey s)"

text \<open>\<open>endpointPort\<close>: the number after the last colon; without one the whole key.\<close>

definition after_last_colon :: "string \<Rightarrow> string" where
  "after_last_colon s = rev (takeWhile (\<lambda>c. c \<noteq> CHR '':'') (rev s))"

definition endpointPort :: "string \<Rightarrow> nat option" where
  "endpointPort key =
     (case js_Number (after_last_colon key) of
        Num r \<Rightarrow> if r = of_int \<lfloor>r\<rfloor> \<and> 1 \<le> r \<and> r \<le> 65535 then Some (nat \<lfloor>r\<rfloor>) else None
      | _ \<Rightarrow> None)"

lemma endpointPort_digits:
  assumes "list_all is_digit (after_last_colon key)" "after_last_colon key \<noteq> []"
  shows "endpointPort key = (let v = digits_value (after_last_colon key) 0 in if 1 \<le> v \<and> v \<le> 65535 then Some v else None)"
proof -
  let ?v = "digits_value (after_last_colon key) 0"
  have n: "js_Number (after_last_colon key) = js_finite (of_nat ?v)" by (rule js_Number_digits [OF assms])
  have le: "(of_nat ?v :: rat) \<le> 65535 \<longleftrightarrow> ?v \<le> 65535" "(1::rat) \<le> of_nat ?v \<longleftrightarrow> 1 \<le> ?v"
    using of_nat_le_iff [of ?v 65535, where 'a = rat] of_nat_le_iff [of 1 ?v, where 'a = rat] by simp_all
  show ?thesis
  proof (cases "?v \<le> 65535")
    case True
    then have "\<bar>of_nat ?v :: rat\<bar> < double_limit" using le(1) by (simp add: double_limit_def)
    with True le show ?thesis by (simp add: endpointPort_def n js_finite_def Let_def)
  next
    case False
    with le show ?thesis by (auto simp: endpointPort_def n js_finite_def Let_def split: if_splits)
  qed
qed

lemma endpointPort_code [code]:
  "endpointPort key =
     (let s = after_last_colon key in
      if s \<noteq> [] \<and> list_all is_digit s then (let v = digits_value s 0 in if 1 \<le> v \<and> int v \<le> 65535 then Some v else None)
      else case js_Number s of
        Num r \<Rightarrow> if r = of_int \<lfloor>r\<rfloor> \<and> 1 \<le> r \<and> r \<le> 65535 then Some (nat \<lfloor>r\<rfloor>) else None
      | _ \<Rightarrow> None)"
  using endpointPort_digits [of key] by (auto simp: endpointPort_def Let_def)

lemma after_last_colon_key: "after_last_colon (h @ CHR '':'' # nat_digits port) = nat_digits port"
proof -
  have "takeWhile (\<lambda>c. c \<noteq> CHR '':'') (rev (nat_digits port) @ CHR '':'' # rev h) = rev (nat_digits port)"
    using digits_no_colon [of port] by (subst takeWhile_append2) auto
  then show ?thesis by (simp add: after_last_colon_def)
qed

lemma endpointPort_key:
  assumes "1 \<le> port" "port \<le> 65535"
  shows "endpointPort (plain_key h port) = Some port" "endpointPort (slot_key h p slot port) = Some port"
  using assms by (simp_all add: endpointPort_code plain_key_def slot_key_def after_last_colon_key [of h] Let_def
    after_last_colon_key [of "h @ ''~'' @ p @ ''~'' @ nat_digits slot", simplified] list_all_iff nat_digits_digit digits_value_nat_digits)

section \<open>Circuit breakers\<close>

datatype circuit_state = Closed | Open | HalfOpen

record circuit =
  cb_providerId :: string
  cb_poolId :: string
  cb_endpointKey :: string
  cb_state :: circuit_state
  cb_consecutiveFailures :: int
  cb_consecutiveSuccesses :: int
  cb_openedAt :: "time option"
  cb_retryAt :: "time option"

definition FAILURE_THRESHOLD :: int where "FAILURE_THRESHOLD = 5"
definition RECOVERY_SUCCESSES :: int where "RECOVERY_SUCCESSES = 2"
definition OPEN_DURATION_MS :: ms where "OPEN_DURATION_MS = 60000"

definition circuitBlocks :: "circuit option \<Rightarrow> time \<Rightarrow> bool" where
  "circuitBlocks c now =
     (case c of
        None \<Rightarrow> False
      | Some x \<Rightarrow> cb_state x = Open \<and> (case cb_retryAt x of None \<Rightarrow> True | Some t \<Rightarrow> now < t))"

definition after_success :: "circuit \<Rightarrow> circuit" where
  "after_success c =
     (let successes = cb_consecutiveSuccesses c + 1; recovered = (cb_state c = Closed \<or> RECOVERY_SUCCESSES \<le> successes)
      in c\<lparr>cb_state := (if recovered then Closed else HalfOpen), cb_consecutiveFailures := 0,
           cb_consecutiveSuccesses := (if recovered then 0 else successes), cb_openedAt := None, cb_retryAt := None\<rparr>)"

definition after_failure :: "time \<Rightarrow> circuit \<Rightarrow> circuit" where
  "after_failure now c =
     (let failures = cb_consecutiveFailures c + 1; opened = (FAILURE_THRESHOLD \<le> failures)
      in c\<lparr>cb_state := (if opened then Open else Closed), cb_consecutiveFailures := failures, cb_consecutiveSuccesses := 0,
           cb_openedAt := (if opened then Some now else cb_openedAt c),
           cb_retryAt := (if opened then Some (now + OPEN_DURATION_MS) else None)\<rparr>)"

definition closed_circuit :: "string \<Rightarrow> string \<Rightarrow> string \<Rightarrow> circuit" where
  "closed_circuit provider pool endpoint = \<lparr>cb_providerId = provider, cb_poolId = pool, cb_endpointKey = endpoint, cb_state = Closed,
     cb_consecutiveFailures = 0, cb_consecutiveSuccesses = 0, cb_openedAt = None, cb_retryAt = None\<rparr>"

definition same_circuit :: "circuit \<Rightarrow> circuit \<Rightarrow> bool" where
  "same_circuit a b \<longleftrightarrow> cb_providerId a = cb_providerId b \<and> cb_poolId a = cb_poolId b \<and> cb_endpointKey a = cb_endpointKey b"

definition upsertCircuit :: "circuit \<Rightarrow> circuit list \<Rightarrow> circuit list" where
  "upsertCircuit c cs = (if list_ex (same_circuit c) cs then update_where (same_circuit c) (\<lambda>_. c) cs else cs @ [c])"

definition endpoint_circuit :: "string \<Rightarrow> string \<Rightarrow> string \<Rightarrow> circuit list \<Rightarrow> circuit option" where
  "endpoint_circuit provider pool endpoint cs =
     find (\<lambda>c. cb_providerId c = provider \<and> cb_poolId c = pool \<and> cb_endpointKey c = endpoint) cs"

definition pool_circuit :: "string \<Rightarrow> string \<Rightarrow> circuit list \<Rightarrow> circuit option" where
  "pool_circuit provider pool cs =
     find (\<lambda>c. cb_providerId c = provider \<and> cb_poolId c = pool \<and> (cb_endpointKey c = ''*'' \<or> cb_endpointKey c = [])) cs"

text \<open>The breaker after a health report for a lease.\<close>

definition next_circuit :: "time \<Rightarrow> bool \<Rightarrow> lease \<Rightarrow> circuit list \<Rightarrow> circuit" where
  "next_circuit now healthy l cs =
     (let e = physicalEndpointKey (pl_endpointKey l);
          current = (case endpoint_circuit (pl_providerId l) (pl_poolId l) e cs of
            Some c \<Rightarrow> c | None \<Rightarrow> closed_circuit (pl_providerId l) (pl_poolId l) e)
      in if healthy then after_success current else after_failure now current)"

definition report :: "time \<Rightarrow> bool \<Rightarrow> lease \<Rightarrow> circuit list \<Rightarrow> circuit \<times> circuit list" where
  "report now healthy l cs = (let c = next_circuit now healthy l cs in (c, upsertCircuit c cs))"

section \<open>Resolving a proxy\<close>

record provider =
  pv_providerId :: string
  pv_enabled :: bool
  pv_gatewayHost :: string
  pv_ipAllowlist :: bool

record proxy_policy =
  py_enabled :: bool
  py_primaryProviderId :: string
  py_primaryPoolId :: string
  py_fallbackProviderIds :: "string list"
  py_rotationMode :: string

text \<open>What one call reads from the provider repository.\<close>

record proxy_registry =
  pr_policy :: "string \<Rightarrow> proxy_policy option"
  pr_providers :: "provider list"
  pr_pools :: "proxy_pool list"
  pr_circuits :: "circuit list"

text \<open>The vault and the adapters: a secret of a provider, and the address for a lease and port; both may fail.\<close>

record ('s, 'u) proxy_adapters =
  pa_sha32 :: "string \<Rightarrow> nat"
  pa_secret :: "string \<Rightarrow> 's option"
  pa_build :: "provider \<Rightarrow> 's option \<Rightarrow> lease \<Rightarrow> nat \<Rightarrow> 'u option"

record 'u proxy_grant =
  pg_lease :: lease
  pg_url :: 'u
  pg_rotationMode :: string
  pg_leaseTtlMs :: ms
  pg_fallbackUsed :: bool

datatype resolve_error = CampaignRequired | PolicyNotFound | InvalidSession | NoProvider

definition valid_session :: "string \<Rightarrow> bool" where
  "valid_session s \<longleftrightarrow> s \<noteq> [] \<and> length s \<le> 128 \<and> list_all (\<lambda>c. is_alnum c \<or> c = CHR ''_'' \<or> c = CHR ''-'') s"

definition pool_for :: "proxy_registry \<Rightarrow> proxy_policy \<Rightarrow> string \<Rightarrow> proxy_pool option" where
  "pool_for reg policy providerId =
     (let providerPools = filter (\<lambda>p. pp_providerId p = providerId \<and> pp_enabled p) (pr_pools reg) in
      if providerId = py_primaryProviderId policy then find (\<lambda>p. pp_poolId p = py_primaryPoolId policy) providerPools
      else (case providerPools of [] \<Rightarrow> None | p # _ \<Rightarrow> Some p))"

definition open_endpoints :: "proxy_registry \<Rightarrow> string \<Rightarrow> string \<Rightarrow> time \<Rightarrow> string list \<Rightarrow> string list" where
  "open_endpoints reg providerId poolId now keys =
     filter (\<lambda>k. \<not> circuitBlocks (endpoint_circuit providerId poolId (physicalEndpointKey k) (pr_circuits reg)) now) keys"

text \<open>\<open>Math.max(30_000, Math.min(300_000, Number(ttl) || 180_000))\<close>\<close>

definition lease_ttl :: "js_number \<Rightarrow> js_number" where
  "lease_ttl v = (case v of Num r \<Rightarrow> Num (max 30000 (min 300000 (if r = 0 then 180000 else r)))
     | PosInf \<Rightarrow> Num 300000 | NegInf \<Rightarrow> Num 30000 | _ \<Rightarrow> Num 180000)"

text \<open>The calls made for candidate number \<open>c\<close>: the ids and times of the acquisition's calls, the time of the checks before
  it and the times of the calls after it.\<close>

record resolve_env =
  rs_owner :: string
  rs_campaign :: string
  rs_session :: string
  rs_ttl :: js_number
  rs_ids :: "nat \<Rightarrow> nat \<Rightarrow> string"
  rs_checkedAt :: "nat \<Rightarrow> time"
  rs_clock :: "nat \<Rightarrow> nat \<Rightarrow> time"
  rs_after :: "nat \<Rightarrow> nat \<Rightarrow> time"

definition lease_request :: "resolve_env \<Rightarrow> proxy_policy \<Rightarrow> string \<Rightarrow> proxy_pool \<Rightarrow> lease_input" where
  "lease_request env policy providerId pool = \<lparr>li_leaseId = [], li_providerId = providerId, li_poolId = pp_poolId pool,
     li_campaignId = rs_campaign env, li_endpointKey = [], li_ownerId = [], li_sessionId = Some (rs_session env),
     li_rotationMode = py_rotationMode policy, li_ttlMs = 0\<rparr>"

text \<open>The address for a lease, after the credentials are read; \<open>None\<close> if any part of it throws.\<close>

definition endpoint_address :: "('s, 'u) proxy_adapters \<Rightarrow> provider \<Rightarrow> lease \<Rightarrow> 'u option" where
  "endpoint_address ad provider l =
     (case endpointPort (pl_endpointKey l) of
        None \<Rightarrow> None
      | Some port \<Rightarrow>
          if pv_ipAllowlist provider then pa_build ad provider None l port
          else (case pa_secret ad (pv_providerId provider) of None \<Rightarrow> None | Some s \<Rightarrow> pa_build ad provider (Some s) l port))"

text \<open>\<open>new Map(providers.map(...))\<close>: the last one of an id counts.\<close>

definition provider_entry :: "proxy_registry \<Rightarrow> string \<Rightarrow> provider option" where
  "provider_entry reg providerId = lookup_by pv_providerId providerId (rev (pr_providers reg))"

text \<open>The endpoints a candidate may lease at the time of the check; \<open>None\<close> if it cannot serve.\<close>

definition candidate_endpoints ::
  "('s, 'u) proxy_adapters \<Rightarrow> proxy_registry \<Rightarrow> proxy_policy \<Rightarrow> string \<Rightarrow> time \<Rightarrow> string \<Rightarrow> (provider \<times> proxy_pool \<times> string list) option" where
  "candidate_endpoints ad reg policy session checkedAt providerId =
     (case provider_entry reg providerId of
        None \<Rightarrow> None
      | Some provider \<Rightarrow>
         if \<not> pv_enabled provider then None
         else case pool_for reg policy providerId of
           None \<Rightarrow> None
         | Some pool \<Rightarrow>
            if circuitBlocks (pool_circuit providerId (pp_poolId pool) (pr_circuits reg)) checkedAt then None
            else case leaseEndpointKeys (pa_sha32 ad) pool (pv_gatewayHost provider) (py_rotationMode policy) session of
              Inl _ \<Rightarrow> None
            | Inr keys \<Rightarrow>
                (case open_endpoints reg providerId (pp_poolId pool) checkedAt keys of
                   [] \<Rightarrow> None
                 | k # ks \<Rightarrow> Some (provider, pool, k # ks)))"

text \<open>One candidate: \<open>None\<close> if it did not serve. A lease whose address cannot be built is released again.\<close>

definition try_provider ::
  "'r lease_repository \<Rightarrow> 'k lease_lock \<Rightarrow> ('s, 'u) proxy_adapters \<Rightarrow> proxy_registry \<Rightarrow> proxy_policy \<Rightarrow> resolve_env \<Rightarrow> nat \<Rightarrow> string
    \<Rightarrow> 'r \<times> 'k \<Rightarrow> 'u proxy_grant option \<times> ('r \<times> 'k)" where
  "try_provider repo lock ad reg policy env c providerId st =
     (case candidate_endpoints ad reg policy (rs_session env) (rs_checkedAt env c) providerId of
        None \<Rightarrow> (None, st)
      | Some (provider, pool, keys) \<Rightarrow>
         (case coordinator_acquire repo lock (rs_ids env c) (rs_clock env c) (rs_owner env) (lease_ttl (rs_ttl env)) keys
                 (lease_request env policy providerId pool) st of
            (Inl _, st') \<Rightarrow> (None, st')
          | (Inr l, st') \<Rightarrow>
              (case endpoint_address ad provider l of
                 None \<Rightarrow> (None, snd (coordinator_release repo lock (rs_after env c) (rs_owner env) l LReleased st'))
               | Some u \<Rightarrow>
                   (Some \<lparr>pg_lease = l, pg_url = u, pg_rotationMode = py_rotationMode policy,
                      pg_leaseTtlMs = max 30000 (pl_expiresAt l - rs_after env c 0),
                      pg_fallbackUsed = (providerId \<noteq> py_primaryProviderId policy)\<rparr>, st'))))"

fun try_providers ::
  "'r lease_repository \<Rightarrow> 'k lease_lock \<Rightarrow> ('s, 'u) proxy_adapters \<Rightarrow> proxy_registry \<Rightarrow> proxy_policy \<Rightarrow> resolve_env \<Rightarrow> nat \<Rightarrow> string list
    \<Rightarrow> 'r \<times> 'k \<Rightarrow> (resolve_error + 'u proxy_grant) \<times> ('r \<times> 'k)" where
  "try_providers repo lock ad reg policy env c [] st = (Inl NoProvider, st)"
| "try_providers repo lock ad reg policy env c (p # ps) st =
     (case try_provider repo lock ad reg policy env c p st of
        (Some g, st') \<Rightarrow> (Inr g, st')
      | (None, st') \<Rightarrow> try_providers repo lock ad reg policy env (Suc c) ps st')"

definition resolve ::
  "'r lease_repository \<Rightarrow> 'k lease_lock \<Rightarrow> ('s, 'u) proxy_adapters \<Rightarrow> proxy_registry \<Rightarrow> resolve_env \<Rightarrow> 'r \<times> 'k
    \<Rightarrow> (resolve_error + 'u proxy_grant) \<times> ('r \<times> 'k)" where
  "resolve repo lock ad reg env st =
     (let campaign = js_trim (rs_campaign env) in
      if campaign = [] then (Inl CampaignRequired, st)
      else case pr_policy reg campaign of
        None \<Rightarrow> (Inl PolicyNotFound, st)
      | Some policy \<Rightarrow>
          if \<not> py_enabled policy then (Inl PolicyNotFound, st)
          else if \<not> valid_session (rs_session env) then (Inl InvalidSession, st)
          else try_providers repo lock ad reg policy (env\<lparr>rs_campaign := campaign\<rparr>) 0
                 (py_primaryProviderId policy # py_fallbackProviderIds policy) st)"

text \<open>The other calls look the lease up by its id first.\<close>

definition runtime_renew ::
  "'r lease_repository \<Rightarrow> 'k lease_lock \<Rightarrow> (nat \<Rightarrow> time) \<Rightarrow> string \<Rightarrow> string \<Rightarrow> js_number \<Rightarrow> 'r \<times> 'k \<Rightarrow> lease option \<times> ('r \<times> 'k)" where
  "runtime_renew repo lock clock owner leaseId ttl st =
     (case repo_get repo leaseId (fst st) of
        None \<Rightarrow> (None, st)
      | Some l \<Rightarrow> coordinator_renew repo lock clock owner l ttl st)"

definition runtime_release ::
  "'r lease_repository \<Rightarrow> 'k lease_lock \<Rightarrow> (nat \<Rightarrow> time) \<Rightarrow> string \<Rightarrow> string \<Rightarrow> lease_state \<Rightarrow> 'r \<times> 'k \<Rightarrow> bool \<times> ('r \<times> 'k)" where
  "runtime_release repo lock clock owner leaseId s st =
     (case repo_get repo leaseId (fst st) of
        None \<Rightarrow> (False, st)
      | Some l \<Rightarrow> coordinator_release repo lock clock owner l s st)"

section \<open>Endpoint keys name the gateway's ports\<close>

lemma digits_split:
  assumes "\<not> is_digit c"
  shows "takeWhile is_digit (nat_digits n @ c # s) = nat_digits n" "dropWhile is_digit (nat_digits n @ c # s) = c # s"
proof -
  have "\<forall>x\<in>set (nat_digits n). is_digit x" using nat_digits_digit by blast
  then show "takeWhile is_digit (nat_digits n @ c # s) = nat_digits n" "dropWhile is_digit (nat_digits n @ c # s) = c # s"
    using assms by (simp_all add: takeWhile_append2 dropWhile_append2)
qed

lemma slot_split:
  assumes "list_all slot_char p"
  shows "takeWhile slot_char (p @ CHR ''~'' # s) = p" "dropWhile slot_char (p @ CHR ''~'' # s) = CHR ''~'' # s"
  using assms by (simp_all add: takeWhile_append2 dropWhile_append2 list_all_iff slot_char_def is_lower_def is_digit_def)

lemma after_slot_key:
  assumes "list_all slot_char p" "p \<noteq> []"
  shows "after_slot (CHR ''~'' # p @ CHR ''~'' # nat_digits slot @ CHR '':'' # nat_digits port) = Some (CHR '':'' # nat_digits port)"
proof -
  have c: "\<not> is_digit (CHR '':'')" by (simp add: is_digit_def)
  have "list_all is_digit (nat_digits port)" by (auto simp: list_all_iff nat_digits_digit)
  then have "all_digits (nat_digits port)" by (simp add: all_digits_def)
  with assms(2) show ?thesis
    using c by (simp add: after_slot_def slot_split [OF assms(1)] digits_split Let_def)
qed

lemma physical_prefix: "CHR ''~'' \<notin> set h \<Longrightarrow> physicalEndpointKey (h @ s) = h @ physicalEndpointKey s"
  by (induction h) (auto simp: after_slot_def Let_def)

lemma physical_plain: "CHR ''~'' \<notin> set s \<Longrightarrow> physicalEndpointKey s = s"
  using physical_prefix [of s "[]"] by simp

lemma no_tilde_digits: "CHR ''~'' \<notin> set (nat_digits n)"
  using nat_digits_digit [of "CHR ''~''" n] by (auto simp: is_digit_def)

lemma physical_plain_key: "CHR ''~'' \<notin> set h \<Longrightarrow> physicalEndpointKey (plain_key h port) = plain_key h port"
  by (rule physical_plain) (simp add: plain_key_def no_tilde_digits)

lemma physical_slot_key:
  assumes "CHR ''~'' \<notin> set h" "list_all slot_char p" "p \<noteq> []"
  shows "physicalEndpointKey (slot_key h p slot port) = plain_key h port"
  using after_slot_key [OF assms(2,3), of slot port] by (simp add: slot_key_def plain_key_def physical_prefix [OF assms(1)])

lemma port_split: "CHR '':'' \<notin> set x \<Longrightarrow> a @ CHR '':'' # x = b @ CHR '':'' # y \<Longrightarrow> CHR '':'' \<notin> set y \<Longrightarrow> a = b \<and> x = y"
  using last_segment [of a x b y] by simp

lemma plain_key_inject: "plain_key h p = plain_key h q \<longleftrightarrow> p = q"
  by (auto simp: plain_key_def nat_digits_inject)

lemma slot_key_inject:
  assumes "slot_key h p s port = slot_key h p s' port'"
  shows "s = s' \<and> port = port'"
proof -
  let ?a = "\<lambda>x. h @ ''~'' @ p @ ''~'' @ nat_digits x"
  have "?a s @ CHR '':'' # nat_digits port = ?a s' @ CHR '':'' # nat_digits port'" using assms by (simp add: slot_key_def)
  from port_split [OF digits_no_colon this digits_no_colon] show ?thesis using nat_digits_inject by auto
qed

lemma rotation_inject: "a < n \<Longrightarrow> b < n \<Longrightarrow> (a + k) mod n = (b + k) mod n \<Longrightarrow> a = b" for a b k n :: nat
proof -
  assume "a < n" "b < n" "(a + k) mod n = (b + k) mod n"
  then have "(int a + int k) mod int n = (int b + int k) mod int n" by (metis of_nat_add of_nat_mod)
  then have "int a mod int n = int b mod int n" by (metis add_diff_cancel_right' mod_diff_left_eq)
  with \<open>a < n\<close> \<open>b < n\<close> show "a = b" by simp
qed

lemma distinct_concat_map:
  assumes "\<And>p. distinct (f p)" "\<And>p q. p \<noteq> q \<Longrightarrow> set (f p) \<inter> set (f q) = {}" "distinct ps"
  shows "distinct (concat (map f ps))"
  using assms(3)
proof (induction ps)
  case (Cons p ps)
  have "set (f p) \<inter> set (f q) = {}" if "q \<in> set ps" for q
    by (rule assms(2)) (use that Cons.prems in auto)
  then have "set (f p) \<inter> set (concat (map f ps)) = {}" by auto
  with Cons assms(1) [of p] show ?case by simp
qed simp

text \<open>The lease keys of a gateway are distinct, and each belongs to one of the gateway's ports: cutting the session slot
  out of the key gives the address of that port, and the port is what the runtime reads back from the key.\<close>

theorem endpoint_keys_name_ports:
  assumes "leaseEndpointKeys sha pool host mode session = Inr keys" "distinct (pp_endpointPorts pool)"
    and "set (pp_endpointPorts pool) \<subseteq> {1..65535}" "CHR ''~'' \<notin> set host" "list_all slot_char (pp_poolId pool)" "pp_poolId pool \<noteq> []"
  shows "distinct keys \<and> (\<forall>k\<in>set keys. \<exists>port\<in>set (pp_endpointPorts pool).
      physicalEndpointKey k = plain_key host port \<and> endpointPort k = Some port)"
proof (cases "keys = map (plain_key host) (pp_endpointPorts pool)")
  case True
  with assms(2-4) show ?thesis by (fastforce simp: distinct_map inj_on_def plain_key_inject physical_plain_key endpointPort_key)
next
  case False
  with assms(1) obtain slots where k: "keys = concat (map (\<lambda>port. map (\<lambda>index. slot_key host (pp_poolId pool)
      ((index + sha session mod slots) mod slots) port) [0..<slots]) (pp_endpointPorts pool))"
    by (auto simp: leaseEndpointKeys_def Let_def split: if_splits option.splits)
  let ?row = "\<lambda>port. map (\<lambda>index. slot_key host (pp_poolId pool) ((index + sha session mod slots) mod slots) port) [0..<slots]"
  have rows: "distinct (?row port)" for port
    by (auto simp: distinct_map inj_on_def dest!: slot_key_inject intro: rotation_inject)
  have apart: "set (?row p) \<inter> set (?row q) = {}" if "p \<noteq> q" for p q
    using that by (auto dest: slot_key_inject)
  have "distinct keys" unfolding k using distinct_concat_map [of ?row] rows apart assms(2) by blast
  moreover have "\<exists>port\<in>set (pp_endpointPorts pool). physicalEndpointKey x = plain_key host port \<and> endpointPort x = Some port" if x: "x \<in> set keys" for x
  proof -
    from x k obtain port s where port: "port \<in> set (pp_endpointPorts pool)" "x = slot_key host (pp_poolId pool) s port" by auto
    moreover have "1 \<le> port" "port \<le> 65535" using port(1) assms(3) by auto
    ultimately show ?thesis using physical_slot_key [OF assms(4-6)] endpointPort_key(2) by blast
  qed
  ultimately show ?thesis by blast
qed

section \<open>The circuit breaker\<close>

text \<open>\<open>n\<close> failed journeys in a row, at the given times.\<close>

definition failures :: "time list \<Rightarrow> circuit \<Rightarrow> circuit" where
  "failures ts c = fold after_failure ts c"

lemma failures_count:
  "cb_consecutiveFailures (failures ts c) = cb_consecutiveFailures c + int (length ts)"
  by (induction ts arbitrary: c) (simp_all add: failures_def after_failure_def Let_def)

text \<open>Failures in a row, starting from a closed circuit without failures, open it exactly from the fifth on, and from
  the last failure it then blocks the endpoint for a minute and no longer.\<close>

theorem circuit_opens_on_fifth_failure:
  assumes "cb_state c = Closed" "cb_consecutiveFailures c = 0"
  shows "circuitBlocks (Some (failures (ts @ [now]) c)) t \<longleftrightarrow> 4 \<le> length ts \<and> t < now + 60000"
proof -
  have s: "failures (ts @ [now]) c = after_failure now (failures ts c)" by (simp add: failures_def)
  show ?thesis
    using failures_count [of ts c] assms(2)
    by (auto simp: s after_failure_def circuitBlocks_def Let_def FAILURE_THRESHOLD_def OPEN_DURATION_MS_def)
qed

text \<open>A breaker on probation is half-open after one success; a failure in that state does not open it again but closes
  it, so the endpoint is not blocked at any time after the failed probe.\<close>

theorem failed_probe_closes_circuit:
  assumes "cb_state c = Open" "cb_consecutiveSuccesses c = 0"
  shows "cb_state (after_success c) = HalfOpen \<and> cb_state (after_failure now (after_success c)) = Closed
    \<and> \<not> circuitBlocks (Some (after_failure now (after_success c))) t"
  using assms by (simp add: after_success_def after_failure_def circuitBlocks_def Let_def FAILURE_THRESHOLD_def RECOVERY_SUCCESSES_def)

section \<open>No lease is left behind\<close>
















definition granted :: "lease_error + lease \<Rightarrow> lease option" where
  "granted res = (case res of Inl _ \<Rightarrow> None | Inr l \<Rightarrow> Some l)"





lemma acquire_lease:
  "acquire_from table_repository lock ids clock i n es (t, k) = (Inr l, st') \<Longrightarrow>
    \<exists>now e x token. e \<in> set es \<and> l = new_lease now (i\<lparr>li_endpointKey := e, li_leaseId := x\<rparr>) token"
proof (induction es arbitrary: n t k)
  case (Cons e es)
  obtain o1 r1 where res: "table_reserve (clock (3 * n)) (i\<lparr>li_endpointKey := e, li_leaseId := ids n\<rparr>) t = (o1, r1)" by fastforce
  show ?case
  proof (cases o1)
    case None
    with Cons.prems res have "acquire_from table_repository lock ids clock i (Suc n) es (r1, k) = (Inr l, st')"
      by (simp add: table_repository_def)
    from Cons.IH [OF this] show ?thesis by auto
  next
    case (Some l1)
    then have l1: "\<exists>token. l1 = new_lease (clock (3 * n)) (i\<lparr>li_endpointKey := e, li_leaseId := ids n\<rparr>) token"
      using res by (auto simp: table_reserve_def Let_def split: if_splits)
    obtain b k1 where acq: "lock_acquire lock (clock (3 * n + 1)) (lock_key l1) (lockValue l1) (li_ttlMs i) k = (b, k1)" by fastforce
    show ?thesis
    proof (cases b)
      case True
      with Cons.prems res Some acq have "l = l1" by (simp add: table_repository_def)
      with l1 show ?thesis by auto
    next
      case False
      obtain b2 r2 where rel: "table_release (clock (3 * n + 2)) (ref_of (li_ownerId i) l1) LReleased r1 = (b2, r2)" by fastforce
      with Cons.prems res Some acq False have "acquire_from table_repository lock ids clock i (Suc n) es (r2, k1) = (Inr l, st')"
        by (simp add: table_repository_def)
      from Cons.IH [OF this] show ?thesis by auto
    qed
  qed
qed simp

lemma set_first_occurrences [simp]: "set (first_occurrences xs) = set xs"
  by (simp add: first_occurrences_def)

lemma coordinator_acquire_cases:
  assumes "coordinator_acquire repo lock ids clock owner ttl es i st = (res, st')"
  obtains "res = Inl NoEndpoints" "st' = st"
  | "acquire_from repo lock ids clock (i\<lparr>li_ownerId := owner, li_ttlMs := boundedTtl ttl\<rparr>) 0 (first_occurrences es) st = (res, st')"
proof (cases "first_occurrences es = []")
  case True
  with assms have "(Inl NoEndpoints, st) = (res, st')" by (simp add: coordinator_acquire_def Let_def)
  then show ?thesis by (intro that(1)) simp_all
next
  case False
  with assms have "acquire_from repo lock ids clock (i\<lparr>li_ownerId := owner, li_ttlMs := boundedTtl ttl\<rparr>) 0 (first_occurrences es) st = (res, st')"
    by (simp add: coordinator_acquire_def Let_def)
  then show ?thesis by (rule that(2))
qed



lemma coordinator_acquire_lease:
  assumes "coordinator_acquire table_repository lock ids clock owner ttl es i (t, k) = (Inr l, st')"
  shows "\<exists>now e x token. e \<in> set es \<and> l = new_lease now (i\<lparr>li_ownerId := owner, li_ttlMs := boundedTtl ttl, li_endpointKey := e, li_leaseId := x\<rparr>) token"
  using assms(1)
proof (cases rule: coordinator_acquire_cases)
  case 2
  from acquire_lease [OF 2] show ?thesis by simp
qed simp



lemma try_provider_cases:
  assumes "try_provider repo lock ad reg policy env c providerId st = (g, st')"
  obtains "candidate_endpoints ad reg policy (rs_session env) (rs_checkedAt env c) providerId = None" "g = None" "st' = st"
  | provider pool keys res st1 where
      "candidate_endpoints ad reg policy (rs_session env) (rs_checkedAt env c) providerId = Some (provider, pool, keys)"
      "coordinator_acquire repo lock (rs_ids env c) (rs_clock env c) (rs_owner env) (lease_ttl (rs_ttl env)) keys
         (lease_request env policy providerId pool) st = (res, st1)"
      "case granted res of None \<Rightarrow> g = None \<and> st' = st1
       | Some l \<Rightarrow> (case endpoint_address ad provider l of
            None \<Rightarrow> g = None \<and> st' = snd (coordinator_release repo lock (rs_after env c) (rs_owner env) l LReleased st1)
          | Some u \<Rightarrow> st' = st1 \<and> g = Some \<lparr>pg_lease = l, pg_url = u, pg_rotationMode = py_rotationMode policy,
                      pg_leaseTtlMs = max 30000 (pl_expiresAt l - rs_after env c 0),
                      pg_fallbackUsed = (providerId \<noteq> py_primaryProviderId policy)\<rparr>)"
proof (cases "candidate_endpoints ad reg policy (rs_session env) (rs_checkedAt env c) providerId")
  case None
  with assms that(1) show ?thesis by (simp add: try_provider_def)
next
  case (Some x)
  then obtain provider pool keys where x: "x = (provider, pool, keys)" by (metis prod_cases3)
  obtain res st1 where a: "coordinator_acquire repo lock (rs_ids env c) (rs_clock env c) (rs_owner env) (lease_ttl (rs_ttl env)) keys
         (lease_request env policy providerId pool) st = (res, st1)" by (metis surj_pair)
  show ?thesis
    by (rule that(2) [OF Some [unfolded x] a])
      (use assms Some x a in \<open>auto simp: try_provider_def granted_def split: sum.splits option.splits\<close>)
qed










section \<open>What a resolved proxy is\<close>

definition grant_ok :: "('s, 'u) proxy_adapters \<Rightarrow> proxy_registry \<Rightarrow> proxy_policy \<Rightarrow> string \<Rightarrow> string \<Rightarrow> time \<Rightarrow> 'u proxy_grant \<Rightarrow> bool" where
  "grant_ok ad reg policy campaign session checkedAt g \<longleftrightarrow>
     (\<exists>provider\<in>set (pr_providers reg). \<exists>pool\<in>set (pr_pools reg). \<exists>keys.
        pv_enabled provider \<and> pp_enabled pool \<and> pp_providerId pool = pv_providerId provider
        \<and> pv_providerId provider \<in> set (py_primaryProviderId policy # py_fallbackProviderIds policy)
        \<and> (pv_providerId provider = py_primaryProviderId policy \<longrightarrow> pp_poolId pool = py_primaryPoolId policy)
        \<and> pg_fallbackUsed g = (pv_providerId provider \<noteq> py_primaryProviderId policy)
        \<and> pl_providerId (pg_lease g) = pv_providerId provider \<and> pl_poolId (pg_lease g) = pp_poolId pool
        \<and> pl_campaignId (pg_lease g) = campaign \<and> pl_sessionId (pg_lease g) = Some session
        \<and> leaseEndpointKeys (pa_sha32 ad) pool (pv_gatewayHost provider) (py_rotationMode policy) session = Inr keys
        \<and> pl_endpointKey (pg_lease g) \<in> set keys
        \<and> \<not> circuitBlocks (pool_circuit (pv_providerId provider) (pp_poolId pool) (pr_circuits reg)) checkedAt
        \<and> \<not> circuitBlocks (endpoint_circuit (pv_providerId provider) (pp_poolId pool)
              (physicalEndpointKey (pl_endpointKey (pg_lease g))) (pr_circuits reg)) checkedAt
        \<and> endpoint_address ad provider (pg_lease g) = Some (pg_url g))"

lemma pool_for_SomeD:
  "pool_for reg policy p = Some pool \<Longrightarrow> pool \<in> set (pr_pools reg) \<and> pp_enabled pool \<and> pp_providerId pool = p
    \<and> (p = py_primaryProviderId policy \<longrightarrow> pp_poolId pool = py_primaryPoolId policy)"
  by (auto simp: pool_for_def Let_def filter_eq_Cons_iff dest: find_SomeD split: if_splits list.splits)

lemma provider_entry_SomeD: "provider_entry reg p = Some v \<Longrightarrow> v \<in> set (pr_providers reg) \<and> pv_providerId v = p"
  unfolding provider_entry_def using lookup_by_SomeD [of pv_providerId p "rev (pr_providers reg)" v] by simp

lemma candidate_endpoints_SomeD:
  assumes "candidate_endpoints ad reg policy session now p = Some (provider, pool, es)"
  shows "provider_entry reg p = Some provider \<and> pv_enabled provider \<and> pool_for reg policy p = Some pool
    \<and> \<not> circuitBlocks (pool_circuit p (pp_poolId pool) (pr_circuits reg)) now
    \<and> (\<exists>keys. leaseEndpointKeys (pa_sha32 ad) pool (pv_gatewayHost provider) (py_rotationMode policy) session = Inr keys
        \<and> es = open_endpoints reg p (pp_poolId pool) now keys)"
  using assms by (auto simp: candidate_endpoints_def split: option.splits if_splits sum.splits list.splits)

lemma try_provider_grant:
  assumes "try_provider table_repository lock ad reg policy env c p (t, k) = (Some g, st')"
    and "p \<in> set (py_primaryProviderId policy # py_fallbackProviderIds policy)"
  shows "grant_ok ad reg policy (rs_campaign env) (rs_session env) (rs_checkedAt env c) g"
  using assms(1)
proof (cases rule: try_provider_cases)
  case (2 provider pool es res st1)
  from 2(3) obtain l u where g: "granted res = Some l" "endpoint_address ad provider l = Some u"
    "pg_lease g = l" "pg_url g = u" "pg_fallbackUsed g = (p \<noteq> py_primaryProviderId policy)"
    by (auto split: option.splits)
  then have res: "res = Inr l" by (simp add: granted_def split: sum.splits)
  from coordinator_acquire_lease [OF 2(2) [unfolded res]] obtain e where
    e: "e \<in> set es" "pl_endpointKey l = e" "pl_providerId l = p" "pl_poolId l = pp_poolId pool"
      "pl_campaignId l = rs_campaign env" "pl_sessionId l = Some (rs_session env)"
    by (auto simp: new_lease_def lease_request_def)
  from candidate_endpoints_SomeD [OF 2(1)] obtain keys where c:
    "provider_entry reg p = Some provider" "pv_enabled provider" "pool_for reg policy p = Some pool"
    "\<not> circuitBlocks (pool_circuit p (pp_poolId pool) (pr_circuits reg)) (rs_checkedAt env c)"
    "leaseEndpointKeys (pa_sha32 ad) pool (pv_gatewayHost provider) (py_rotationMode policy) (rs_session env) = Inr keys"
    "es = open_endpoints reg p (pp_poolId pool) (rs_checkedAt env c) keys" by blast
  have e2: "e \<in> set keys" "\<not> circuitBlocks (endpoint_circuit p (pp_poolId pool) (physicalEndpointKey e) (pr_circuits reg)) (rs_checkedAt env c)"
    using e(1) unfolding c(6) open_endpoints_def by simp_all
  note pr = provider_entry_SomeD [OF c(1)] and po = pool_for_SomeD [OF c(3)]
  show ?thesis
    unfolding grant_ok_def
    by (rule bexI [of _ provider], rule bexI [of _ pool], rule exI [of _ keys])
      (use pr po c(2,4,5) e e2 g assms(2) in simp_all)
qed simp

lemma try_providers_grant:
  "try_providers table_repository lock ad reg policy env c ps (t, k) = (Inr g, st')
    \<Longrightarrow> set ps \<subseteq> set (py_primaryProviderId policy # py_fallbackProviderIds policy)
    \<Longrightarrow> \<exists>d. grant_ok ad reg policy (rs_campaign env) (rs_session env) (rs_checkedAt env d) g"
proof (induction ps arbitrary: c t k)
  case (Cons p ps)
  obtain h u k1 where tp: "try_provider table_repository lock ad reg policy env c p (t, k) = (h, u, k1)" by (metis prod_cases3)
  show ?case
  proof (cases h)
    case None
    with Cons.prems(1) tp have "try_providers table_repository lock ad reg policy env (Suc c) ps (u, k1) = (Inr g, st')" by simp
    from Cons.IH [OF this] Cons.prems(2) show ?thesis by simp
  next
    case (Some a)
    with Cons.prems(1) tp have "a = g" by simp
    with try_provider_grant [OF tp [unfolded Some]] Cons.prems(2) show ?thesis by auto
  qed
qed simp

text \<open>C23: a resolved proxy obeys the campaign's policy: it comes from the enabled primary provider and pool or from an enabled
  fallback, is leased for this campaign and session on an endpoint whose circuit and whose pool's circuit did not
  block at the check, and its address is the one the adapter built for exactly this lease.\<close>

theorem resolve_obeys_policy:
  assumes "resolve table_repository lock ad reg env (t, k) = (Inr g, st')"
  shows "\<exists>policy c. pr_policy reg (js_trim (rs_campaign env)) = Some policy \<and> py_enabled policy \<and> valid_session (rs_session env)
    \<and> grant_ok ad reg policy (js_trim (rs_campaign env)) (rs_session env) (rs_checkedAt env c) g"
proof -
  let ?env = "env\<lparr>rs_campaign := js_trim (rs_campaign env)\<rparr>"
  from assms obtain policy where p: "pr_policy reg (js_trim (rs_campaign env)) = Some policy" "py_enabled policy" "valid_session (rs_session env)"
    "try_providers table_repository lock ad reg policy ?env 0 (py_primaryProviderId policy # py_fallbackProviderIds policy) (t, k) = (Inr g, st')"
    unfolding resolve_def Let_def by (auto simp del: try_providers.simps split: if_splits option.splits)
  from try_providers_grant [OF p(4)] p(1-3) show ?thesis by auto
qed

section \<open>Witnesses\<close>

definition demo_provider :: provider where
  "demo_provider = \<lparr>pv_providerId = ''p1'', pv_enabled = True, pv_gatewayHost = ''gw'', pv_ipAllowlist = True\<rparr>"

definition demo_pool :: proxy_pool where
  "demo_pool = \<lparr>pp_poolId = ''pool'', pp_providerId = ''p1'', pp_enabled = True, pp_endpointPorts = [7, 8],
     pp_sessionSharedGateway = False, pp_sessionCapacity = NaN\<rparr>"

definition demo_policy :: proxy_policy where
  "demo_policy = \<lparr>py_enabled = True, py_primaryProviderId = ''p1'', py_primaryPoolId = ''pool'', py_fallbackProviderIds = [],
     py_rotationMode = ''port-pool''\<rparr>"

definition demo_registry :: "circuit list \<Rightarrow> proxy_registry" where
  "demo_registry cs = \<lparr>pr_policy = (\<lambda>c. if c = ''c1'' then Some demo_policy else None), pr_providers = [demo_provider],
     pr_pools = [demo_pool], pr_circuits = cs\<rparr>"

definition demo_adapters :: "bool \<Rightarrow> (unit, nat) proxy_adapters" where
  "demo_adapters works = \<lparr>pa_sha32 = (\<lambda>_. 0), pa_secret = (\<lambda>_. Some ()), pa_build = (\<lambda>_ _ _ port. if works then Some port else None)\<rparr>"

definition demo_ids_of :: "nat \<Rightarrow> nat \<Rightarrow> string" where
  "demo_ids_of c a = nat_digits c @ CHR '':'' # nat_digits a"

definition demo_env :: resolve_env where
  "demo_env = \<lparr>rs_owner = ''worker-a'', rs_campaign = ''c1'', rs_session = ''s1'', rs_ttl = NaN, rs_ids = demo_ids_of,
     rs_checkedAt = (\<lambda>_. 1000), rs_clock = (\<lambda>_ _. 1000), rs_after = (\<lambda>_ _. 1000)\<rparr>"

definition empty_table :: lease_table where "empty_table = \<lparr>lt_rows = [], lt_sequence = 0\<rparr>"

abbreviation demo_resolve :: "bool \<Rightarrow> circuit list \<Rightarrow> (resolve_error + nat proxy_grant) \<times> (lease_table \<times> lock_entries)" where
  "demo_resolve works cs \<equiv> resolve table_repository (redis_lock ''tah'') (demo_adapters works) (demo_registry cs) demo_env (empty_table, Map.empty)"



definition broken_first :: circuit where
  "broken_first = after_failure 500 ((closed_circuit ''p1'' ''pool'' ''gw:7'')\<lparr>cb_consecutiveFailures := 4\<rparr>)"

theorem resolve_obeys_policy_witness:
  "\<exists>g st'. demo_resolve True [broken_first] = (Inr g, st') \<and> pg_url g = 8 \<and> valid_session (rs_session demo_env)"
proof -
  have "(case demo_resolve True [broken_first] of (Inr g, _) \<Rightarrow> pg_url g = 8 | _ \<Rightarrow> False)" by code_simp
  then obtain g st' where r: "demo_resolve True [broken_first] = (Inr g, st')" "pg_url g = 8"
    by (auto split: prod.splits sum.splits)
  from resolve_obeys_policy [OF r(1)] r show ?thesis by blast
qed

theorem failed_probe_closes_circuit_witness: "\<not> circuitBlocks (Some (after_failure 900 (after_success broken_first))) 901"
proof -
  have "cb_state broken_first = Open" "cb_consecutiveSuccesses broken_first = 0"
    by (simp_all add: broken_first_def after_failure_def closed_circuit_def FAILURE_THRESHOLD_def Let_def)
  from failed_probe_closes_circuit [OF this] show ?thesis by blast
qed

theorem endpoint_keys_name_ports_witness:
  "(let p = demo_pool\<lparr>pp_sessionSharedGateway := True, pp_sessionCapacity := Num 2\<rparr>
    in \<exists>keys. leaseEndpointKeys (\<lambda>_. 1) p ''rp.evomi.com'' ''sticky-session'' ''s'' = Inr keys \<and> length keys = 4 \<and> distinct keys)"
proof -
  let ?p = "demo_pool\<lparr>pp_sessionSharedGateway := True, pp_sessionCapacity := Num 2\<rparr>"
  have "(case leaseEndpointKeys (\<lambda>_. 1) ?p ''rp.evomi.com'' ''sticky-session'' ''s'' of Inr keys \<Rightarrow> length keys = 4 | _ \<Rightarrow> False)" by code_simp
  then obtain keys where k: "leaseEndpointKeys (\<lambda>_. 1) ?p ''rp.evomi.com'' ''sticky-session'' ''s'' = Inr keys" "length keys = 4"
    by (auto split: sum.splits)
  have "distinct (pp_endpointPorts ?p)" "set (pp_endpointPorts ?p) \<subseteq> {1..65535}" "CHR ''~'' \<notin> set ''rp.evomi.com''" "list_all slot_char (pp_poolId ?p)" "pp_poolId ?p \<noteq> []"
    by (simp_all add: demo_pool_def slot_char_def is_lower_def)
  from endpoint_keys_name_ports [OF k(1) this] k show ?thesis by (auto simp: Let_def)
qed

end
