(* ===== verification/Campaign_Schedule.thy ===== *)
theory Campaign_Schedule
  imports Js_Value
begin

text \<open>
  Daily schedules of campaigns: the schedule functions of \<open>web/server/control.mjs\<close>. The clock of a time zone
  (\<open>Intl.DateTimeFormat\<close>) is a parameter; a local date is given as the number of its day since 1970-01-01, so the date
  before it is the day number minus one.
\<close>

record local_clock =
  lc_day :: int
  lc_weekday :: int
  lc_minutes :: int

text \<open>\<open>localScheduleClock\<close>: the clock at a local minute, counted from the beginning of 1970-01-01, a Thursday.\<close>

definition localScheduleClock :: "int \<Rightarrow> local_clock" where
  "localScheduleClock t = \<lparr>lc_day = t div 1440, lc_weekday = (t div 1440 + 4) mod 7, lc_minutes = t mod 1440\<rparr>"

record schedule =
  sd_timezone :: string
  sd_startTime :: string
  sd_stopTime :: string
  sd_days :: "json list option"

text \<open>\<open>/^([01]\d|2[0-3]):[0-5]\d$/\<close>\<close>

definition validClockTime :: "string \<Rightarrow> bool" where
  "validClockTime s =
     (case s of
        [a, b, c, d, e] \<Rightarrow> c = CHR '':'' \<and> is_digit b \<and> (a = CHR ''0'' \<or> a = CHR ''1'' \<or> (a = CHR ''2'' \<and> b \<in> {CHR ''0'', CHR ''1'', CHR ''2'', CHR ''3''}))
          \<and> d \<in> {CHR ''0'', CHR ''1'', CHR ''2'', CHR ''3'', CHR ''4'', CHR ''5''} \<and> is_digit e
      | _ \<Rightarrow> False)"

definition timeMinutes :: "string \<Rightarrow> int" where
  "timeMinutes s = (case split_char (CHR '':'') s of
     h # m # _ \<Rightarrow> int (digits_value h 0) * 60 + int (digits_value m 0) | _ \<Rightarrow> 0)"

definition previousDate :: "int \<Rightarrow> int" where "previousDate d = d - 1"

record schedule_window =
  sw_active :: bool
  sw_windowKey :: int

definition schedule_days :: "schedule \<Rightarrow> json list" where
  "schedule_days s = (case sd_days s of Some ds \<Rightarrow> ds | None \<Rightarrow> map JNum [0, 1, 2, 3, 4, 5, 6])"

definition window_of :: "json list \<Rightarrow> int \<Rightarrow> int \<Rightarrow> local_clock \<Rightarrow> schedule_window" where
  "window_of days start stop clock =
     (let overnight = (stop \<le> start);
          carried = (overnight \<and> lc_minutes clock < stop);
          effectiveWeekday = (if carried then (lc_weekday clock + 6) mod 7 else lc_weekday clock);
          activeTime = (if overnight then start \<le> lc_minutes clock \<or> lc_minutes clock < stop
                        else start \<le> lc_minutes clock \<and> lc_minutes clock < stop)
      in \<lparr>sw_active = (JNum (of_int effectiveWeekday) \<in> set days \<and> activeTime),
          sw_windowKey = (if carried then previousDate (lc_day clock) else lc_day clock)\<rparr>)"

definition scheduleWindow :: "schedule \<Rightarrow> local_clock \<Rightarrow> schedule_window" where
  "scheduleWindow s clock = window_of (schedule_days s) (timeMinutes (sd_startTime s)) (timeMinutes (sd_stopTime s)) clock"

section \<open>Saving a schedule\<close>

datatype schedule_error = BadTimezone | BadTimes | BadWeekdays

definition weekday_number :: "(rat \<Rightarrow> string) \<Rightarrow> json \<Rightarrow> int option" where
  "weekday_number prt v =
     (case js_to_number prt (Some v) of Num r \<Rightarrow> if r = of_int \<lfloor>r\<rfloor> \<and> 0 \<le> r \<and> r \<le> 6 then Some \<lfloor>r\<rfloor> else None | _ \<Rightarrow> None)"

definition checked_times :: "(string \<Rightarrow> bool) \<Rightarrow> string \<Rightarrow> string \<Rightarrow> string \<Rightarrow> schedule_error + unit" where
  "checked_times validTimezone timezone startTime stopTime =
     (if \<not> validTimezone timezone then Inl BadTimezone
      else if \<not> validClockTime startTime \<or> \<not> validClockTime stopTime \<or> startTime = stopTime then Inl BadTimes
      else Inr ())"

text \<open>A stand-alone schedule keeps the numbers of its weekdays, sorted and without repetition.\<close>

definition saveSchedule :: "(string \<Rightarrow> bool) \<Rightarrow> (rat \<Rightarrow> string) \<Rightarrow> string \<Rightarrow> string \<Rightarrow> string \<Rightarrow> json option \<Rightarrow> schedule_error + schedule" where
  "saveSchedule validTimezone prt timezone startTime stopTime days =
     bindE (checked_times validTimezone timezone startTime stopTime) (\<lambda>_.
       let ds = array_or_empty days; ns = map (weekday_number prt) ds
       in if ds = [] \<or> None \<in> set ns then Inl BadWeekdays
          else Inr \<lparr>sd_timezone = timezone, sd_startTime = startTime, sd_stopTime = stopTime,
                    sd_days = Some (map (JNum \<circ> of_int) (sort (remdups (map the ns))))\<rparr>)"

text \<open>The check on the schedule of a campaign; the weekdays stay as they came.\<close>

definition check_campaign_schedule :: "(string \<Rightarrow> bool) \<Rightarrow> (rat \<Rightarrow> string) \<Rightarrow> schedule \<Rightarrow> schedule_error + unit" where
  "check_campaign_schedule validTimezone prt s =
     bindE (checked_times validTimezone (sd_timezone s) (sd_startTime s) (sd_stopTime s)) (\<lambda>_.
       case sd_days s of
         None \<Rightarrow> Inl BadWeekdays
       | Some ds \<Rightarrow> if ds = [] \<or> None \<in> weekday_number prt ` set ds then Inl BadWeekdays else Inr ())"

text \<open>One tick of \<open>runScheduleTick\<close> for a stand-alone schedule.\<close>

datatype tick_action = TickNothing | TickTerminate | TickStart int

definition schedule_tick :: "bool \<Rightarrow> schedule_window \<Rightarrow> bool \<Rightarrow> int option \<Rightarrow> tick_action" where
  "schedule_tick enabled window running lastStartedWindow =
     (if \<not> enabled then TickNothing
      else if \<not> sw_active window then (if running then TickTerminate else TickNothing)
      else if running \<or> lastStartedWindow = Some (sw_windowKey window) then TickNothing
      else TickStart (sw_windowKey window))"

section \<open>The window\<close>

text \<open>The intended meaning: on each selected weekday the window opens at the start time and stays open until the next time
  the clock shows the stop time.\<close>

definition opens :: "int \<Rightarrow> int \<Rightarrow> int" where "opens start d = 1440 * d + start"
definition stays :: "int \<Rightarrow> int \<Rightarrow> int" where "stays start stop = (stop - start) mod 1440"
definition weekday_of :: "int \<Rightarrow> int" where "weekday_of d = (d + 4) mod 7"

definition in_window :: "json list \<Rightarrow> int \<Rightarrow> int \<Rightarrow> int \<Rightarrow> int \<Rightarrow> bool" where
  "in_window days start stop d t \<longleftrightarrow> JNum (of_int (weekday_of d)) \<in> set days \<and> opens start d \<le> t \<and> t < opens start d + stays start stop"

lemma validClockTime_minutes:
  assumes "validClockTime s"
  shows "0 \<le> timeMinutes s \<and> timeMinutes s < 1440"
proof -
  obtain a b c d e where s: "s = [a, b, c, d, e]"
    using assms by (auto simp: validClockTime_def split: list.splits)
  have c: "c = CHR '':''" and b: "is_digit b" and e: "is_digit e"
    and a: "a = CHR ''0'' \<or> a = CHR ''1'' \<or> (a = CHR ''2'' \<and> b \<in> {CHR ''0'', CHR ''1'', CHR ''2'', CHR ''3''})"
    and d: "d \<in> {CHR ''0'', CHR ''1'', CHR ''2'', CHR ''3'', CHR ''4'', CHR ''5''}"
    using assms unfolding s validClockTime_def by simp_all
  have ne: "a \<noteq> CHR '':''" "b \<noteq> CHR '':''" "d \<noteq> CHR '':''" "e \<noteq> CHR '':''"
    using a b d e by (auto simp: is_digit_def)
  have m: "timeMinutes s = int (digits_value [a, b] 0) * 60 + int (digits_value [d, e] 0)"
    by (simp add: timeMinutes_def s c ne)
  have "digits_value [a, b] 0 \<le> 23" using a b by (auto simp: is_digit_def)
  moreover have "digits_value [d, e] 0 \<le> 59" using d e by (auto simp: is_digit_def)
  ultimately show ?thesis by (simp add: m)
qed

lemma window_core:
  fixes start stop t :: int
  assumes "0 \<le> start" "start < 1440" "0 \<le> stop" "stop < 1440" "start \<noteq> stop"
  shows "in_window days start stop d t \<longleftrightarrow> sw_active (window_of days start stop (localScheduleClock t))
    \<and> d = sw_windowKey (window_of days start stop (localScheduleClock t))"
proof -
  obtain q m where q: "q = t div 1440" and m: "m = t mod 1440" by blast
  then have t: "t = 1440 * q + m" "0 \<le> m" "m < 1440" by simp_all
  have "(weekday_of q + 6) mod 7 = ((q - 1 + 4) + 7) mod 7"
    unfolding weekday_of_def by (simp only: mod_add_left_eq) (simp add: algebra_simps)
  then have wd: "(weekday_of q + 6) mod 7 = weekday_of (q - 1)" by (simp only: weekday_of_def mod_add_self2)
  have clock: "localScheduleClock t = \<lparr>lc_day = q, lc_weekday = weekday_of q, lc_minutes = m\<rparr>"
    by (simp add: localScheduleClock_def q m weekday_of_def)
  show ?thesis
  proof (cases "start < stop")
    case True
    then have s: "stays start stop = stop - start" using assms by (simp add: stays_def)
    have "opens start d \<le> t \<and> t < opens start d + stays start stop \<longleftrightarrow> d = q \<and> start \<le> m \<and> m < stop"
    proof
      assume "opens start d \<le> t \<and> t < opens start d + stays start stop"
      then have o: "1440 * d + start \<le> 1440 * q + m" "1440 * q + m < 1440 * d + stop" by (simp_all add: s opens_def t(1))
      then have "d < q + 1" "q - 1 < d" using t(2,3) assms by linarith+
      then have "d = q" by linarith
      with o show "d = q \<and> start \<le> m \<and> m < stop" by simp
    qed (simp add: s opens_def t(1))
    with True show ?thesis unfolding in_window_def clock window_of_def Let_def by auto
  next
    case False
    then have "(stop - start + 1440) mod 1440 = stop - start + 1440" using assms by (intro mod_pos_pos_trivial) simp_all
    moreover have "(stop - start + 1440) mod 1440 = (stop - start) mod 1440" by (rule mod_add_self2)
    ultimately have s: "stays start stop = stop - start + 1440" by (simp only: stays_def)
    have "opens start d \<le> t \<and> t < opens start d + stays start stop \<longleftrightarrow> (d = q \<and> start \<le> m) \<or> (d = q - 1 \<and> m < stop)"
    proof
      assume "opens start d \<le> t \<and> t < opens start d + stays start stop"
      then have o: "1440 * d + start \<le> 1440 * q + m" "1440 * q + m < 1440 * d + stop + 1440" by (simp_all add: s opens_def t(1))
      then have "d < q + 1" "q - 2 < d" using t(2,3) assms by linarith+
      then have "d = q \<or> d = q - 1" by linarith
      with o show "(d = q \<and> start \<le> m) \<or> (d = q - 1 \<and> m < stop)" by auto
    next
      assume "(d = q \<and> start \<le> m) \<or> (d = q - 1 \<and> m < stop)"
      then show "opens start d \<le> t \<and> t < opens start d + stays start stop"
        using t(2,3) assms by (auto simp: s opens_def t(1))
    qed
    with False assms show ?thesis
      unfolding in_window_def clock window_of_def Let_def previousDate_def by (auto simp: wd)
  qed
qed

text \<open>C36: the schedule window is exactly the intended one, overnight windows included: at any local minute it is active iff the
  window of some selected day is open, and its key is the number of that one day.\<close>

theorem schedule_window_exact:
  assumes "validClockTime (sd_startTime s)" "validClockTime (sd_stopTime s)" "timeMinutes (sd_startTime s) \<noteq> timeMinutes (sd_stopTime s)"
  shows "{d. in_window (schedule_days s) (timeMinutes (sd_startTime s)) (timeMinutes (sd_stopTime s)) d t}
    = (if sw_active (scheduleWindow s (localScheduleClock t)) then {sw_windowKey (scheduleWindow s (localScheduleClock t))} else {})"
proof -
  note b = validClockTime_minutes [OF assms(1)] validClockTime_minutes [OF assms(2)]
  show ?thesis
    using window_core [of "timeMinutes (sd_startTime s)" "timeMinutes (sd_stopTime s)" "schedule_days s" _ t] b assms(3)
    by (auto simp: scheduleWindow_def)
qed

definition demo_schedule :: schedule where
  "demo_schedule = \<lparr>sd_timezone = ''UTC'', sd_startTime = ''22:00'', sd_stopTime = ''06:30'', sd_days = Some [JNum 5]\<rparr>"

theorem schedule_window_exact_witness:
  "{d. in_window (schedule_days demo_schedule) 1320 390 d (1440 * 2 + 60)} = {1}"
proof -
  have v: "validClockTime (sd_startTime demo_schedule)" "validClockTime (sd_stopTime demo_schedule)"
    by (simp_all add: demo_schedule_def validClockTime_def is_digit_def)
  have m: "timeMinutes (sd_startTime demo_schedule) = 1320" "timeMinutes (sd_stopTime demo_schedule) = 390"
    by (simp_all add: demo_schedule_def timeMinutes_def)
  have w: "scheduleWindow demo_schedule (localScheduleClock (1440 * 2 + 60)) = \<lparr>sw_active = True, sw_windowKey = 1\<rparr>"
    unfolding scheduleWindow_def m
    by (simp add: window_of_def schedule_days_def demo_schedule_def localScheduleClock_def previousDate_def Let_def)
  show ?thesis
    using schedule_window_exact [OF v, of "1440 * 2 + 60"] unfolding m w by simp
qed

end
