(* ===== verification/Campaign_Payload.thy ===== *)
theory Campaign_Payload
  imports Campaign_Schedule
begin

text \<open>
  What a launch or a saved campaign may ask for: the payload checks of \<open>web/server/control.mjs\<close> (\<open>validate\<close>, the checks of
  \<open>saveCampaignInternal\<close> and of \<open>startRun\<close>) and of \<open>web/server/campaign-proxy-admission.mjs\<close>. A payload field of the
  wrong type is read as the value the checks treat it as: a number field that is no number is \<open>NaN\<close>, a flag is whether it
  is \<open>true\<close>. The URL parser, the parser of redirect policies and the time zone database are parameters.
\<close>

record load_profile =
  lp_mode :: string
  lp_targetRps :: js_number
  lp_durationSeconds :: js_number
  lp_rampSeconds :: js_number
  lp_maxRequests :: js_number

record run_payload =
  rp_scenarioId :: string
  rp_seedUrl :: string
  rp_tier :: string
  rp_proxyMode :: string
  rp_expectedVerdict :: string
  rp_country :: string
  rp_repeats :: js_number
  rp_concurrent :: js_number
  rp_loadProfile :: "load_profile option"
  rp_devices :: nat
  rp_pagesMin :: js_number
  rp_pagesMax :: js_number
  rp_challengeEnabled :: bool
  rp_challengeTimeout :: js_number
  rp_continuous :: bool
  rp_mitm :: bool
  rp_naturalClick :: bool
  rp_authorized :: bool
  rp_syncGoogleAds :: bool
  rp_useScriptMesh :: bool
  rp_staging :: bool
  rp_draftOnly :: bool
  rp_redirectCapture :: "string option"
  rp_proxyPort :: "js_number option"
  rp_customerId :: string
  rp_googleCampaignId :: string
  rp_loginCustomerId :: string
  rp_schedule :: "schedule option"

record parsed_url =
  pu_protocol :: string
  pu_hostname :: string
  pu_credentials :: bool

record payload_env =
  pe_url :: "string \<Rightarrow> parsed_url option"
  pe_redirect :: "string \<Rightarrow> string \<Rightarrow> bool"
  pe_timezone :: "string \<Rightarrow> bool"
  pe_print :: "rat \<Rightarrow> string"
  pe_noProxy :: bool
  pe_runtimeEnabled :: bool
  pe_sharedEnabled :: bool

datatype launch_error =
    SelectionPending | RuntimeDisabled | DirectNetworking | SharedModeRequired
  | BadRedirectPolicy | RedirectNeedsBrowser | InvalidTarget | TargetProtocol | InvalidTier | InvalidProxyMode | InvalidVerdict
  | InvalidCountry | InvalidRepeats | InvalidConcurrency | BurstNeedsHttp | InvalidRps | InvalidDuration | InvalidRamp
  | InvalidCeiling | NoIdentity | InvalidPages | ContinuousNeedsHuman | InvalidChallengeTimeout | MitmNeedsHttp | ProxyNotVerified
  | NotAuthorized | ConflictingDelivery | NeedsCustomerId | NeedsCampaignId | NeedsManagerId | TargetRefused | StagingNotAllowed
  | AlreadyRunning | InvalidGatewayPort | PortLeased | WorkerLimit | ConcurrencyLimit | BrowserLimit | RpsLimit | PoolError
  | DeliveryIds | SavedPolicyMode | InvalidSchedule schedule_error | CampaignNotFound | TooManyCampaigns | TargetOwned string
  | RunStillActive

text \<open>A sequence of guards: the first that applies is thrown.\<close>

fun check_all :: "(bool \<times> 'e) list \<Rightarrow> 'e + unit" where
  "check_all [] = Inr ()"
| "check_all ((b, e) # cs) = (if b then Inl e else check_all cs)"

lemma check_all_Inr: "check_all cs = Inr u \<longleftrightarrow> (\<forall>(b, e)\<in>set cs. \<not> b)"
  by (induction cs rule: check_all.induct) auto

text \<open>\<open>Number.isInteger(v) && lo <= v && v <= hi\<close>\<close>

definition js_int :: "js_number \<Rightarrow> int option" where
  "js_int v = (case v of Num r \<Rightarrow> if r = of_int \<lfloor>r\<rfloor> then Some \<lfloor>r\<rfloor> else None | _ \<Rightarrow> None)"

definition int_within :: "int \<Rightarrow> int \<Rightarrow> js_number \<Rightarrow> bool" where
  "int_within lo hi v \<longleftrightarrow> (case js_int v of Some n \<Rightarrow> lo \<le> n \<and> n \<le> hi | None \<Rightarrow> False)"

definition js_less :: "js_number \<Rightarrow> js_number \<Rightarrow> bool" where
  "js_less a b \<longleftrightarrow> (case (a, b) of (Num x, Num y) \<Rightarrow> x < y | (NegInf, Num _) \<Rightarrow> True | (Num _, PosInf) \<Rightarrow> True
     | (NegInf, PosInf) \<Rightarrow> True | _ \<Rightarrow> False)"

section \<open>\<open>validate\<close>\<close>

definition country_ok :: "string \<Rightarrow> bool" where
  "country_ok c \<longleftrightarrow> length c = 2 \<and> list_all is_upper c"

definition load_profile_checks :: "run_payload \<Rightarrow> (bool \<times> launch_error) list" where
  "load_profile_checks p =
     (case rp_loadProfile p of
        None \<Rightarrow> []
      | Some l \<Rightarrow>
          [(rp_tier p \<noteq> ''trivial-http'' \<or> lp_mode l \<noteq> ''burst'', BurstNeedsHttp),
           (\<not> int_within 1 500 (lp_targetRps l), InvalidRps),
           (\<not> int_within 1 60 (lp_durationSeconds l), InvalidDuration),
           (js_int (lp_rampSeconds l) = None \<or> js_less (lp_rampSeconds l) (Num 0) \<or> js_less (lp_durationSeconds l) (lp_rampSeconds l), InvalidRamp),
           (\<not> int_within 1 10000 (lp_maxRequests l), InvalidCeiling)])"

definition validate_checks :: "payload_env \<Rightarrow> bool \<Rightarrow> bool \<Rightarrow> run_payload \<Rightarrow> (bool \<times> launch_error) list" where
  "validate_checks env proxyVerified registry p =
     [(rp_redirectCapture p \<noteq> None \<and> \<not> pe_redirect env (the (rp_redirectCapture p)) (rp_seedUrl p), BadRedirectPolicy),
      (rp_redirectCapture p \<noteq> None \<and> (rp_tier p \<noteq> ''human'' \<or> rp_naturalClick p \<or> rp_mitm p), RedirectNeedsBrowser),
      (pe_url env (rp_seedUrl p) = None, InvalidTarget),
      (map_option pu_protocol (pe_url env (rp_seedUrl p)) \<notin> {Some ''http:'', Some ''https:''}, TargetProtocol),
      (rp_tier p \<notin> {''trivial-http'', ''headless'', ''stealth'', ''human''}, InvalidTier),
      (rp_proxyMode p \<notin> {''rotating-residential'', ''sticky-residential''}, InvalidProxyMode),
      (rp_expectedVerdict p \<notin> {''allow'', ''challenge'', ''block''}, InvalidVerdict),
      (\<not> country_ok (rp_country p), InvalidCountry),
      (\<not> int_within 1 10000 (rp_repeats p), InvalidRepeats),
      (\<not> int_within 1 100 (rp_concurrent p), InvalidConcurrency)]
     @ load_profile_checks p @
     [(rp_tier p \<noteq> ''trivial-http'' \<and> rp_devices p = 0, NoIdentity),
      (rp_tier p = ''human'' \<and> js_less (rp_pagesMax p) (rp_pagesMin p), InvalidPages),
      (rp_continuous p \<and> rp_tier p \<noteq> ''human'', ContinuousNeedsHuman),
      (rp_tier p = ''human'' \<and> rp_challengeEnabled p \<and> \<not> int_within 30 3600 (rp_challengeTimeout p), InvalidChallengeTimeout),
      (rp_mitm p \<and> rp_tier p \<noteq> ''trivial-http'', MitmNeedsHttp),
      (\<not> registry \<and> \<not> pe_noProxy env \<and> \<not> proxyVerified, ProxyNotVerified)]"

definition validate :: "payload_env \<Rightarrow> bool \<Rightarrow> bool \<Rightarrow> run_payload \<Rightarrow> launch_error + unit" where
  "validate env proxyVerified registry p = check_all (validate_checks env proxyVerified registry p)"

section \<open>Delivery targets and gateways\<close>

definition normalizedGoogleAdsId :: "string \<Rightarrow> string" where
  "normalizedGoogleAdsId v = filter is_digit v"

definition fleet_target_checks :: "run_payload \<Rightarrow> (bool \<times> launch_error) list" where
  "fleet_target_checks p =
     [(length (normalizedGoogleAdsId (rp_customerId p)) \<noteq> 10, NeedsCustomerId),
      (normalizedGoogleAdsId (rp_googleCampaignId p) = [] \<or> 20 < length (normalizedGoogleAdsId (rp_googleCampaignId p)), NeedsCampaignId)]"

definition assertScriptFleetTarget :: "run_payload \<Rightarrow> launch_error + string \<times> string" where
  "assertScriptFleetTarget p =
     bindE (check_all (fleet_target_checks p)) (\<lambda>_.
       Inr (normalizedGoogleAdsId (rp_customerId p), normalizedGoogleAdsId (rp_googleCampaignId p)))"

text \<open>\<open>registryRunRequired\<close>, for whether the campaign has an enabled policy\<close>

definition registryRunRequired :: "payload_env \<Rightarrow> bool \<Rightarrow> run_payload \<Rightarrow> launch_error + bool" where
  "registryRunRequired env policyEnabled p =
     (if \<not> policyEnabled then Inr False
      else bindE (check_all [(\<not> pe_runtimeEnabled env, RuntimeDisabled), (pe_noProxy env, DirectNetworking),
             (\<not> pe_sharedEnabled env \<or> rp_tier p \<noteq> ''human'' \<or> \<not> rp_continuous p \<or> rp_mitm p, SharedModeRequired)]) (\<lambda>_. Inr True))"

text \<open>\<open>legacyRunPort\<close>: \<open>None\<close> is \<open>null\<close>. The port is read by \<open>Number\<close> from the payload or else from the gateway.\<close>

definition legacyRunPort :: "run_payload \<Rightarrow> bool \<Rightarrow> bool \<Rightarrow> js_number option \<Rightarrow> launch_error + int option" where
  "legacyRunPort p registry direct fallbackPort =
     (if registry \<or> direct then Inr None
      else (let v = (case rp_proxyPort p of Some n \<Rightarrow> n | None \<Rightarrow> (case fallbackPort of Some n \<Rightarrow> n | None \<Rightarrow> NaN))
            in if int_within 1 65535 v then Inr (js_int v) else Inl InvalidGatewayPort))"

text \<open>Phase B of \<open>startRun\<close>: what is decided once the campaign's policy is known, before the target is looked up.\<close>

definition launch_checks :: "run_payload \<Rightarrow> (bool \<times> launch_error) list" where
  "launch_checks p =
     [(\<not> rp_authorized p, NotAuthorized), (rp_syncGoogleAds p \<and> rp_useScriptMesh p, ConflictingDelivery)]
     @ (if rp_useScriptMesh p then fleet_target_checks p else [])"

definition prepare_launch :: "payload_env \<Rightarrow> bool \<Rightarrow> bool \<Rightarrow> run_payload \<Rightarrow> launch_error + bool" where
  "prepare_launch env proxyVerified policyEnabled p =
     bindE (registryRunRequired env policyEnabled p) (\<lambda>registry.
       bindE (validate env proxyVerified registry p) (\<lambda>_.
         bindE (check_all (launch_checks p)) (\<lambda>_. Inr registry)))"

text \<open>The numbers admission control works with.\<close>

definition requestedConcurrency :: "run_payload \<Rightarrow> int" where
  "requestedConcurrency p = (case js_int (rp_concurrent p) of Some n \<Rightarrow> n | None \<Rightarrow> 1)"

definition requestedRps :: "run_payload \<Rightarrow> int" where
  "requestedRps p = (case rp_loadProfile p of
     Some l \<Rightarrow> if lp_mode l = ''burst'' then (case js_int (lp_targetRps l) of Some n \<Rightarrow> n | None \<Rightarrow> 0) else 0 | None \<Rightarrow> 0)"

definition usesPermits :: "run_payload \<Rightarrow> bool" where
  "usesPermits p \<longleftrightarrow> rp_tier p = ''human'' \<and> rp_continuous p"

text \<open>A validated payload asks for at least one browser or client and for a bounded rate.\<close>

lemma validate_bounds:
  assumes "validate env v r p = Inr u"
  shows "1 \<le> requestedConcurrency p \<and> requestedConcurrency p \<le> 100 \<and> 0 \<le> requestedRps p \<and> requestedRps p \<le> 500"
proof -
  have all: "\<not> b" if "(b, e) \<in> set (validate_checks env v r p)" for b e
    using assms that unfolding validate_def check_all_Inr by blast
  have c: "int_within 1 100 (rp_concurrent p)"
    using all [of "\<not> int_within 1 100 (rp_concurrent p)" InvalidConcurrency] by (simp add: validate_checks_def)
  have l: "\<not> b" if "(b, e) \<in> set (load_profile_checks p)" for b e
    using all [of b e] that by (simp add: validate_checks_def)
  have "1 \<le> requestedConcurrency p \<and> requestedConcurrency p \<le> 100"
    using c by (auto simp: int_within_def requestedConcurrency_def split: option.splits)
  moreover have "0 \<le> requestedRps p \<and> requestedRps p \<le> 500"
  proof (cases "rp_loadProfile p")
    case (Some l)
    then have "int_within 1 500 (lp_targetRps l)"
      using l [of "\<not> int_within 1 500 (lp_targetRps l)" InvalidRps] by (simp add: load_profile_checks_def)
    with Some show ?thesis by (auto simp: int_within_def requestedRps_def split: option.splits)
  qed (simp add: requestedRps_def)
  ultimately show ?thesis by simp
qed

lemma prepare_launch_Inr:
  assumes "prepare_launch env v policy p = Inr registry"
  shows "registryRunRequired env policy p = Inr registry" "validate env v registry p = Inr ()"
    "\<forall>(b, e)\<in>set (launch_checks p). \<not> b"
  using assms unfolding prepare_launch_def bindE_Inr_conv check_all_Inr by auto

lemma registry_needs_shared:
  assumes "registryRunRequired env policy p = Inr True"
  shows "usesPermits p \<and> pe_sharedEnabled env \<and> \<not> rp_mitm p"
  using assms by (auto simp: registryRunRequired_def bindE_Inr_conv usesPermits_def split: if_splits)

end
