(* ===== verification/Worker_Pool.thy ===== *)
theory Worker_Pool
  imports Fleet_Prelude
begin

text \<open>
  The pool of shared orchestrator processes: \<open>web/server/orchestrator-worker-pool.mjs\<close>. A worker process runs up to
  \<open>slotsPerProcess\<close> campaign tasks; processes are forked on demand. Handlers are callbacks of the caller: what the
  pool returns here is the list of runs whose \<open>onExit\<close> it calls. Messages that only pass through (captures, route
  decisions, logs) leave the pool as it is.
\<close>

record pool_options =
  po_processCount :: nat
  po_slotsPerProcess :: nat

record pool_worker =
  pw_id :: string
  pw_tasks :: "string list"
  pw_exited :: bool
  pw_ready :: bool
  pw_browserInstances :: nat
  pw_activeContexts :: nat

text \<open>\<open>workers\<close> and \<open>taskOwners\<close> are maps in insertion order.\<close>

record worker_pool =
  wp_workers :: "pool_worker list"
  wp_taskOwners :: "string \<rightharpoonup> string"
  wp_workerSequence :: nat
  wp_closing :: bool

definition new_pool :: worker_pool where
  "new_pool = \<lparr>wp_workers = [], wp_taskOwners = Map.empty, wp_workerSequence = 0, wp_closing = False\<rparr>"

text \<open>\<open>`shared-$\{String(n).padStart(2, "0")\}`\<close>\<close>

definition pad2 :: "nat \<Rightarrow> string" where
  "pad2 n = (let d = nat_digits n in if length d < 2 then CHR ''0'' # d else d)"

definition worker_id :: "nat \<Rightarrow> string" where
  "worker_id n = ''shared-'' @ pad2 n"

section \<open>Operations\<close>

definition spawned :: "nat \<Rightarrow> pool_worker" where
  "spawned n = \<lparr>pw_id = worker_id n, pw_tasks = [], pw_exited = False, pw_ready = False, pw_browserInstances = 0,
     pw_activeContexts = 0\<rparr>"

definition spawnWorker :: "worker_pool \<Rightarrow> pool_worker \<times> worker_pool" where
  "spawnWorker p =
     (let n = wp_workerSequence p + 1; w = spawned n
      in (w, p\<lparr>wp_workers := wp_workers p @ [w], wp_workerSequence := n\<rparr>))"

definition has_room :: "pool_options \<Rightarrow> pool_worker \<Rightarrow> bool" where
  "has_room opts w \<longleftrightarrow> \<not> pw_exited w \<and> length (pw_tasks w) < po_slotsPerProcess opts"

text \<open>The least loaded worker with room; sorting is stable.\<close>

definition available :: "pool_options \<Rightarrow> worker_pool \<Rightarrow> pool_worker list" where
  "available opts p = sort_key (\<lambda>w. length (pw_tasks w)) (filter (has_room opts) (wp_workers p))"

definition selectWorker :: "pool_options \<Rightarrow> worker_pool \<Rightarrow> pool_worker option \<times> worker_pool" where
  "selectWorker opts p =
     (case available opts p of
        w # _ \<Rightarrow> (Some w, p)
      | [] \<Rightarrow> if length (wp_workers p) < po_processCount opts
              then (let (w, p') = spawnWorker p in (Some w, p')) else (None, p))"

datatype pool_error = ShuttingDown | AlreadyAssigned | CapacityReached | SendFailed

definition assign_task :: "string \<Rightarrow> string \<Rightarrow> worker_pool \<Rightarrow> worker_pool" where
  "assign_task runId wid p =
     p\<lparr>wp_workers := update_where (\<lambda>w. pw_id w = wid) (\<lambda>w. w\<lparr>pw_tasks := pw_tasks w @ [runId]\<rparr>) (wp_workers p),
       wp_taskOwners := (wp_taskOwners p)(runId \<mapsto> wid)\<rparr>"

text \<open>\<open>sent\<close> tells whether the message reaches the child process; the task stays recorded either way.\<close>

definition pool_start :: "pool_options \<Rightarrow> string \<Rightarrow> bool \<Rightarrow> worker_pool \<Rightarrow> (pool_error + string) \<times> worker_pool" where
  "pool_start opts runId sent p =
     (if wp_closing p then (Inl ShuttingDown, p)
      else if wp_taskOwners p runId \<noteq> None then (Inl AlreadyAssigned, p)
      else case selectWorker opts p of
        (None, p') \<Rightarrow> (Inl CapacityReached, p')
      | (Some w, p') \<Rightarrow>
          (let p'' = assign_task runId (pw_id w) p'
           in (if sent then Inr (pw_id w) else Inl SendFailed, p'')))"

text \<open>Whether a stop message is sent; the task ends when the worker reports its exit.\<close>

definition pool_stop :: "string \<Rightarrow> worker_pool \<Rightarrow> bool" where
  "pool_stop runId p =
     (case wp_taskOwners p runId of
        None \<Rightarrow> False
      | Some wid \<Rightarrow> (case lookup_by pw_id wid (wp_workers p) of None \<Rightarrow> False | Some w \<Rightarrow> \<not> pw_exited w))"

definition pool_has :: "string \<Rightarrow> worker_pool \<Rightarrow> bool" where
  "pool_has runId p \<longleftrightarrow> wp_taskOwners p runId \<noteq> None"

definition pool_capacity :: "pool_options \<Rightarrow> nat" where
  "pool_capacity opts = po_processCount opts * po_slotsPerProcess opts"

text \<open>Messages of a worker.\<close>

datatype worker_message = Ready | PoolStats "nat option" "nat option" | TaskExit string

definition read_stats :: "nat option \<Rightarrow> nat option \<Rightarrow> pool_worker \<Rightarrow> pool_worker" where
  "read_stats browsers contexts w =
     w\<lparr>pw_browserInstances := (case browsers of Some n \<Rightarrow> n | None \<Rightarrow> pw_browserInstances w),
       pw_activeContexts := (case contexts of Some n \<Rightarrow> n | None \<Rightarrow> pw_activeContexts w)\<rparr>"

definition drop_task :: "string \<Rightarrow> string \<Rightarrow> worker_pool \<Rightarrow> worker_pool" where
  "drop_task runId wid p =
     p\<lparr>wp_workers := update_where (\<lambda>w. pw_id w = wid) (\<lambda>w. w\<lparr>pw_tasks := removeAll runId (pw_tasks w)\<rparr>) (wp_workers p),
       wp_taskOwners := (wp_taskOwners p)(runId := None)\<rparr>"

definition on_message :: "string \<Rightarrow> worker_message \<Rightarrow> worker_pool \<Rightarrow> string list \<times> worker_pool" where
  "on_message wid m p =
     (case lookup_by pw_id wid (wp_workers p) of
        None \<Rightarrow> ([], p)
      | Some w \<Rightarrow>
         (case m of
            Ready \<Rightarrow> ([], p\<lparr>wp_workers := update_where (\<lambda>w. pw_id w = wid) (\<lambda>w. w\<lparr>pw_ready := True\<rparr>) (wp_workers p)\<rparr>)
          | PoolStats b c \<Rightarrow> ([], p\<lparr>wp_workers := update_where (\<lambda>w. pw_id w = wid) (read_stats b c) (wp_workers p)\<rparr>)
          | TaskExit runId \<Rightarrow> if runId \<in> set (pw_tasks w) then ([runId], drop_task runId wid p) else ([], p)))"

text \<open>The exit of a worker process ends all its tasks.\<close>

definition on_worker_exit :: "string \<Rightarrow> worker_pool \<Rightarrow> string list \<times> worker_pool" where
  "on_worker_exit wid p =
     (case lookup_by pw_id wid (wp_workers p) of
        None \<Rightarrow> ([], p)
      | Some w \<Rightarrow>
          (pw_tasks w,
           p\<lparr>wp_workers := filter (\<lambda>w. pw_id w \<noteq> wid) (wp_workers p),
             wp_taskOwners := (\<lambda>r. if r \<in> set (pw_tasks w) then None else wp_taskOwners p r)\<rparr>))"

definition pool_shutdown :: "worker_pool \<Rightarrow> worker_pool" where
  "pool_shutdown p = p\<lparr>wp_closing := True\<rparr>"

record pool_snapshot =
  sn_taskCapacity :: nat
  sn_liveProcesses :: nat
  sn_activeTasks :: nat
  sn_browserInstances :: nat
  sn_activeBrowserContexts :: nat
  sn_workers :: "(string \<times> nat \<times> bool) list"

definition snapshot :: "pool_options \<Rightarrow> worker_pool \<Rightarrow> pool_snapshot" where
  "snapshot opts p =
     \<lparr>sn_taskCapacity = pool_capacity opts, sn_liveProcesses = length (wp_workers p), sn_activeTasks = card (dom (wp_taskOwners p)),
      sn_browserInstances = sum_list (map pw_browserInstances (wp_workers p)),
      sn_activeBrowserContexts = sum_list (map pw_activeContexts (wp_workers p)),
      sn_workers = map (\<lambda>w. (pw_id w, length (pw_tasks w), pw_ready w)) (wp_workers p)\<rparr>"

section \<open>The pool's invariant\<close>

definition worker_ok :: "pool_options \<Rightarrow> worker_pool \<Rightarrow> pool_worker \<Rightarrow> bool" where
  "worker_ok opts p w \<longleftrightarrow> length (pw_tasks w) \<le> po_slotsPerProcess opts \<and> distinct (pw_tasks w)
     \<and> (\<exists>n. 1 \<le> n \<and> n \<le> wp_workerSequence p \<and> pw_id w = worker_id n)"

definition tasks_at :: "worker_pool \<Rightarrow> string \<Rightarrow> string set" where
  "tasks_at p wid = (case lookup_by pw_id wid (wp_workers p) of None \<Rightarrow> {} | Some w \<Rightarrow> set (pw_tasks w))"

definition owners_ok :: "worker_pool \<Rightarrow> bool" where
  "owners_ok p \<longleftrightarrow> (\<forall>r wid. wp_taskOwners p r = Some wid \<longleftrightarrow> r \<in> tasks_at p wid)"

definition pool_ok :: "pool_options \<Rightarrow> worker_pool \<Rightarrow> bool" where
  "pool_ok opts p \<longleftrightarrow> distinct (map pw_id (wp_workers p)) \<and> length (wp_workers p) \<le> po_processCount opts
     \<and> (\<forall>w\<in>set (wp_workers p). worker_ok opts p w) \<and> owners_ok p"

lemma digits_value_pad2: "digits_value (pad2 n) 0 = n"
  by (simp add: pad2_def Let_def digits_value_nat_digits)

lemma worker_id_inject [simp]: "worker_id m = worker_id n \<longleftrightarrow> m = n"
  by (auto simp: worker_id_def) (metis digits_value_pad2)

lemma pool_ok_new: "pool_ok opts new_pool"
  by (simp add: pool_ok_def new_pool_def owners_ok_def tasks_at_def)

lemma fresh_worker_id: "pool_ok opts p \<Longrightarrow> worker_id (Suc (wp_workerSequence p)) \<notin> pw_id ` set (wp_workers p)"
  by (force simp: pool_ok_def worker_ok_def)

lemma selectWorker_cases:
  assumes "selectWorker opts p = (r, p')"
  obtains (found) w where "r = Some w" "p' = p" "w \<in> set (wp_workers p)" "has_room opts w"
      "\<And>v. v \<in> set (wp_workers p) \<Longrightarrow> has_room opts v \<Longrightarrow> length (pw_tasks w) \<le> length (pw_tasks v)"
  | (forked) "r = Some (spawned (Suc (wp_workerSequence p)))" "length (wp_workers p) < po_processCount opts"
      "p' = p\<lparr>wp_workers := wp_workers p @ [spawned (Suc (wp_workerSequence p))], wp_workerSequence := Suc (wp_workerSequence p)\<rparr>"
      "filter (has_room opts) (wp_workers p) = []"
  | (full) "r = None" "p' = p" "po_processCount opts \<le> length (wp_workers p)" "filter (has_room opts) (wp_workers p) = []"
proof (cases "available opts p")
  case Nil
  then have none: "filter (has_room opts) (wp_workers p) = []"
    by (metis available_def set_empty set_sort)
  show ?thesis
  proof (cases "length (wp_workers p) < po_processCount opts")
    case True
    with assms Nil have "r = Some (spawned (Suc (wp_workerSequence p)))"
      "p' = p\<lparr>wp_workers := wp_workers p @ [spawned (Suc (wp_workerSequence p))], wp_workerSequence := Suc (wp_workerSequence p)\<rparr>"
      by (simp_all add: selectWorker_def spawnWorker_def Let_def)
    from forked [OF this(1) True this(2) none] show ?thesis .
  next
    case False
    with assms Nil have "r = None" "p' = p" by (simp_all add: selectWorker_def)
    from full [OF this _ none] False show ?thesis by simp
  qed
next
  case (Cons w ws)
  have s: "set (available opts p) = {v \<in> set (wp_workers p). has_room opts v}" by (simp add: available_def)
  have "sorted (map (\<lambda>w. length (pw_tasks w)) (available opts p))" by (simp add: available_def)
  then have least: "length (pw_tasks w) \<le> length (pw_tasks v)" if "v \<in> set (available opts p)" for v
    using that by (auto simp: Cons)
  have w: "w \<in> set (wp_workers p)" "has_room opts w" using s Cons by auto
  have r: "r = Some w" "p' = p" using assms Cons by (simp_all add: selectWorker_def)
  show ?thesis by (rule found [OF r w]) (use least s in blast)
qed

lemma tasks_at_update:
  assumes "\<And>w. pw_id (f w) = pw_id w" "wp_workers q = update_where (\<lambda>w. pw_id w = wid) f (wp_workers p)"
  shows "tasks_at q v = (case lookup_by pw_id v (wp_workers p) of None \<Rightarrow> {}
    | Some w \<Rightarrow> set (pw_tasks (if v = wid then f w else w)))"
  using assms lookup_by_SomeD [of pw_id v "wp_workers p"]
  by (auto simp: tasks_at_def lookup_update_rows split: option.splits)

lemma worker_ok_update:
  assumes "\<forall>w\<in>set (wp_workers p). worker_ok opts p w" "wp_workers q = update_where (\<lambda>w. pw_id w = wid) f (wp_workers p)"
    and "wp_workerSequence q = wp_workerSequence p"
    and "\<And>w. w \<in> set (wp_workers p) \<Longrightarrow> pw_id w = wid \<Longrightarrow> worker_ok opts p w \<Longrightarrow> worker_ok opts p (f w)"
  shows "\<forall>w\<in>set (wp_workers q). worker_ok opts q w"
proof -
  have "\<forall>w\<in>set (wp_workers q). worker_ok opts p w"
    unfolding assms(2) by (rule ball_update_where) (use assms in blast)+
  then show ?thesis by (simp add: worker_ok_def assms(3))
qed

text \<open>An update of one worker's row that keeps its key keeps the invariant, if the owners follow.\<close>

lemma pool_ok_update:
  assumes "pool_ok opts p" "\<And>w. pw_id (f w) = pw_id w"
    and "wp_workers q = update_where (\<lambda>w. pw_id w = wid) f (wp_workers p)" "wp_workerSequence q = wp_workerSequence p"
    and "\<And>w. w \<in> set (wp_workers p) \<Longrightarrow> pw_id w = wid \<Longrightarrow> worker_ok opts p w \<Longrightarrow> worker_ok opts p (f w)" "owners_ok q"
  shows "pool_ok opts q"
proof -
  have "map pw_id (wp_workers q) = map pw_id (wp_workers p)" using assms(2,3) by (simp add: map_update_where)
  moreover have "length (wp_workers q) = length (wp_workers p)" using assms(3) by simp
  moreover have "\<forall>w\<in>set (wp_workers q). worker_ok opts q w"
    by (rule worker_ok_update [OF _ assms(3,4,5)]) (use assms(1) in \<open>simp add: pool_ok_def\<close>)
  ultimately show ?thesis using assms(1,6) by (simp add: pool_ok_def)
qed

lemma assign_ok:
  assumes "pool_ok opts p" "wp_taskOwners p r = None" "w \<in> set (wp_workers p)" "has_room opts w"
  shows "pool_ok opts (assign_task r (pw_id w) p)"
proof (rule pool_ok_update [where f = "\<lambda>w. w\<lparr>pw_tasks := pw_tasks w @ [r]\<rparr>", OF assms(1)])
  have d: "distinct (map pw_id (wp_workers p))" and own: "owners_ok p" using assms(1) by (simp_all add: pool_ok_def)
  have free: "r \<notin> tasks_at p v" for v using own assms(2) by (metis option.distinct(1) owners_ok_def)
  have found: "lookup_by pw_id (pw_id w) (wp_workers p) = Some w" by (rule lookup_by_mem [OF d assms(3)])
  show "worker_ok opts p (v\<lparr>pw_tasks := pw_tasks v @ [r]\<rparr>)"
    if "v \<in> set (wp_workers p)" "pw_id v = pw_id w" "worker_ok opts p v" for v
  proof -
    have "v = w" by (rule distinct_key_eq [OF d that(1) assms(3) that(2)])
    with that(3) assms(4) free [of "pw_id w"] found show ?thesis by (auto simp: worker_ok_def has_room_def tasks_at_def)
  qed
  show "owners_ok (assign_task r (pw_id w) p)"
    unfolding owners_ok_def
  proof (intro allI)
    fix r' wid
    have "tasks_at (assign_task r (pw_id w) p) wid = tasks_at p wid \<union> (if wid = pw_id w then {r} else {})"
      by (subst tasks_at_update [where f = "\<lambda>w. w\<lparr>pw_tasks := pw_tasks w @ [r]\<rparr>" and p = p and wid = "pw_id w"])
        (auto simp: assign_task_def tasks_at_def found split: option.splits)
    with own free [of wid] show "wp_taskOwners (assign_task r (pw_id w) p) r' = Some wid \<longleftrightarrow> r' \<in> tasks_at (assign_task r (pw_id w) p) wid"
      by (auto simp: owners_ok_def assign_task_def)
  qed
qed (simp_all add: assign_task_def)

lemma spawn_ok:
  assumes "pool_ok opts p" "length (wp_workers p) < po_processCount opts"
    and "q = p\<lparr>wp_workers := wp_workers p @ [spawned (Suc (wp_workerSequence p))], wp_workerSequence := Suc (wp_workerSequence p)\<rparr>"
  shows "pool_ok opts q"
proof -
  let ?w = "spawned (Suc (wp_workerSequence p))"
  have id: "pw_id ?w = worker_id (Suc (wp_workerSequence p))" "pw_tasks ?w = []" by (simp_all add: spawned_def)
  have "tasks_at q v = tasks_at p v" for v
    by (simp add: tasks_at_def assms(3) lookup_append id split: option.split)
  then have "owners_ok q" using assms(1) by (simp add: pool_ok_def owners_ok_def assms(3))
  moreover have "\<forall>w\<in>set (wp_workers q). worker_ok opts q w"
    using assms(1) by (auto simp: assms(3) pool_ok_def worker_ok_def id intro: le_SucI)
  ultimately show ?thesis
    using assms(1,2) fresh_worker_id [OF assms(1)] by (simp add: pool_ok_def assms(3) id)
qed

lemma drop_ok:
  assumes "pool_ok opts p" "r \<in> tasks_at p wid"
  shows "pool_ok opts (drop_task r wid p)"
proof (rule pool_ok_update [where f = "\<lambda>w. w\<lparr>pw_tasks := removeAll r (pw_tasks w)\<rparr>", OF assms(1)])
  have own: "owners_ok p" using assms(1) by (simp add: pool_ok_def)
  show "owners_ok (drop_task r wid p)"
    unfolding owners_ok_def
  proof (intro allI)
    fix r' v
    have "tasks_at (drop_task r wid p) v = (if v = wid then tasks_at p v - {r} else tasks_at p v)"
      by (subst tasks_at_update [where f = "\<lambda>w. w\<lparr>pw_tasks := removeAll r (pw_tasks w)\<rparr>" and p = p and wid = wid])
        (auto simp: drop_task_def tasks_at_def split: option.splits)
    moreover have "r \<in> tasks_at p v \<longleftrightarrow> v = wid" using own assms(2) by (metis option.inject owners_ok_def)
    ultimately show "wp_taskOwners (drop_task r wid p) r' = Some v \<longleftrightarrow> r' \<in> tasks_at (drop_task r wid p) v"
      using own by (auto simp: owners_ok_def drop_task_def)
  qed
qed (auto simp: drop_task_def worker_ok_def distinct_removeAll intro: le_trans [OF length_removeAll_less_eq])

lemma lookup_filter_ne: "lookup_by key v (filter (\<lambda>x. key x \<noteq> k) xs) = (if v = k then None else lookup_by key v xs)"
  by (induction xs) auto

lemma exit_ok:
  assumes "pool_ok opts p" "on_worker_exit wid p = (rs, q)"
  shows "pool_ok opts q \<and> dom (wp_taskOwners q) = dom (wp_taskOwners p) - set rs \<and> set rs \<subseteq> dom (wp_taskOwners p)"
proof (cases "lookup_by pw_id wid (wp_workers p)")
  case None
  with assms show ?thesis by (auto simp: on_worker_exit_def)
next
  case (Some w)
  with assms(2) have rs: "rs = pw_tasks w" and q: "wp_workers q = filter (\<lambda>w. pw_id w \<noteq> wid) (wp_workers p)"
    "wp_taskOwners q = (\<lambda>r. if r \<in> set (pw_tasks w) then None else wp_taskOwners p r)" "wp_workerSequence q = wp_workerSequence p"
    by (auto simp: on_worker_exit_def)
  have t: "tasks_at p wid = set (pw_tasks w)" using Some by (simp add: tasks_at_def)
  have own: "wp_taskOwners p r = Some v \<longleftrightarrow> r \<in> tasks_at p v" for r v using assms(1) by (simp add: pool_ok_def owners_ok_def)
  have tq: "tasks_at q v = (if v = wid then {} else tasks_at p v)" for v
    by (simp add: tasks_at_def q lookup_filter_ne)
  have "owners_ok q"
    unfolding owners_ok_def q(2) tq using own t by (metis empty_iff option.distinct(1) option.inject)
  moreover have "length (filter (\<lambda>w. pw_id w \<noteq> wid) (wp_workers p)) \<le> po_processCount opts"
    using assms(1) by (metis le_trans length_filter_le pool_ok_def)
  moreover have "distinct (map pw_id (filter (\<lambda>w. pw_id w \<noteq> wid) (wp_workers p)))"
    using assms(1) by (simp add: pool_ok_def distinct_map_filter)
  ultimately have "pool_ok opts q" using assms(1) by (auto simp: pool_ok_def worker_ok_def q)
  moreover have "set rs \<subseteq> dom (wp_taskOwners p)" using own t rs by blast
  ultimately show ?thesis by (auto simp: q(2) rs split: if_splits)
qed

lemma stats_ok:
  assumes "pool_ok opts p" "\<And>w. pw_id (f w) = pw_id w" "\<And>w. pw_tasks (f w) = pw_tasks w"
  shows "pool_ok opts (p\<lparr>wp_workers := update_where (\<lambda>w. pw_id w = wid) f (wp_workers p)\<rparr>)"
proof (rule pool_ok_update [where f = f, OF assms(1,2)])
  show "owners_ok (p\<lparr>wp_workers := update_where (\<lambda>w. pw_id w = wid) f (wp_workers p)\<rparr>)"
    unfolding owners_ok_def
  proof (intro allI)
    fix r v
    have "tasks_at (p\<lparr>wp_workers := update_where (\<lambda>w. pw_id w = wid) f (wp_workers p)\<rparr>) v = tasks_at p v"
      by (subst tasks_at_update [where f = f and p = p and wid = wid]) (auto simp: assms(2,3) tasks_at_def split: option.split)
    then show "wp_taskOwners (p\<lparr>wp_workers := update_where (\<lambda>w. pw_id w = wid) f (wp_workers p)\<rparr>) r = Some v
        \<longleftrightarrow> r \<in> tasks_at (p\<lparr>wp_workers := update_where (\<lambda>w. pw_id w = wid) f (wp_workers p)\<rparr>) v"
      using assms(1) by (simp add: pool_ok_def owners_ok_def)
  qed
qed (simp_all add: worker_ok_def assms(2,3))

lemma message_ok:
  assumes "pool_ok opts p" "on_message wid m p = (rs, q)"
  shows "pool_ok opts q \<and> dom (wp_taskOwners q) = dom (wp_taskOwners p) - set rs \<and> set rs \<subseteq> dom (wp_taskOwners p)"
proof (cases "lookup_by pw_id wid (wp_workers p)")
  case None
  with assms show ?thesis by (auto simp: on_message_def)
next
  case (Some w)
  show ?thesis
  proof (cases m)
    case Ready
    with assms Some stats_ok [OF assms(1), of "\<lambda>w. w\<lparr>pw_ready := True\<rparr>" wid] show ?thesis by (auto simp: on_message_def)
  next
    case (PoolStats b c)
    with assms Some stats_ok [OF assms(1), of "read_stats b c" wid] show ?thesis by (auto simp: on_message_def read_stats_def)
  next
    case (TaskExit r)
    show ?thesis
    proof (cases "r \<in> set (pw_tasks w)")
      case True
      with assms Some TaskExit have q: "rs = [r]" "q = drop_task r wid p" by (simp_all add: on_message_def)
      have at: "r \<in> tasks_at p wid" using Some True by (simp add: tasks_at_def)
      then have "r \<in> dom (wp_taskOwners p)" using assms(1) by (auto simp: pool_ok_def owners_ok_def)
      with drop_ok [OF assms(1) at] q show ?thesis by (auto simp: drop_task_def)
    next
      case False
      with assms Some TaskExit show ?thesis by (simp add: on_message_def)
    qed
  qed
qed

lemma start_ok:
  assumes "pool_ok opts p" "pool_start opts r sent p = (res, q)" "0 < po_slotsPerProcess opts"
  shows "pool_ok opts q \<and> (q = p \<or> (wp_taskOwners p r = None \<and> dom (wp_taskOwners q) = insert r (dom (wp_taskOwners p))))
    \<and> (\<forall>wid. res = Inr wid \<longrightarrow> wp_taskOwners p r = None \<and> wp_taskOwners q r = Some wid)"
proof (cases "wp_closing p \<or> wp_taskOwners p r \<noteq> None")
  case True
  have "q = p \<and> (\<forall>wid. res \<noteq> Inr wid)"
  proof (cases "wp_closing p")
    case False
    with True have "wp_taskOwners p r \<noteq> None" by simp
    with assms(2) False show ?thesis by (auto simp: pool_start_def)
  qed (use assms(2) in \<open>auto simp: pool_start_def\<close>)
  with assms(1) show ?thesis by simp
next
  case False
  then have free: "wp_taskOwners p r = None" "\<not> wp_closing p" by auto
  obtain o1 p' where sel: "selectWorker opts p = (o1, p')" by fastforce
  note res = assms(2) [unfolded pool_start_def, simplified free sel, simplified]
  from sel show ?thesis
  proof (cases rule: selectWorker_cases)
    case (found w)
    with res assign_ok [OF assms(1) free(1), of w] free(1) show ?thesis
      by (auto simp: assign_task_def Let_def split: if_splits)
  next
    case forked
    let ?w = "spawned (Suc (wp_workerSequence p))"
    have ok: "pool_ok opts p'" by (rule spawn_ok [OF assms(1) forked(2,3)])
    have "?w \<in> set (wp_workers p')" "has_room opts ?w" "wp_taskOwners p' r = None"
      using assms(3) free by (simp_all add: forked(3) has_room_def spawned_def)
    from assign_ok [OF ok this(3,1,2)] res forked(1,3) free(1) show ?thesis
      by (auto simp: assign_task_def Let_def split: if_splits)
  next
    case full
    with res assms(1) show ?thesis by auto
  qed
qed

section \<open>What the pool promises\<close>

text \<open>The client's view of a pool of tasks: starting, events that end tasks, and a bound on their number.\<close>

datatype pool_event = Says string worker_message | Exits string

fun handle_event :: "pool_event \<Rightarrow> worker_pool \<Rightarrow> string list \<times> worker_pool" where
  "handle_event (Says wid m) p = on_message wid m p"
| "handle_event (Exits wid) p = on_worker_exit wid p"

locale task_pool =
  fixes ok :: "'p \<Rightarrow> bool" and tasks :: "'p \<Rightarrow> string set" and start :: "string \<Rightarrow> bool \<Rightarrow> 'p \<Rightarrow> ('e + string) \<times> 'p"
    and event :: "'v \<Rightarrow> 'p \<Rightarrow> string list \<times> 'p" and cap :: nat
  assumes bounded: "ok p \<Longrightarrow> finite (tasks p) \<and> card (tasks p) \<le> cap"
    and started: "ok p \<Longrightarrow> start r sent p = (res, q) \<Longrightarrow> ok q \<and> (tasks q = tasks p \<or> (r \<notin> tasks p \<and> tasks q = insert r (tasks p)))"
    and running: "ok p \<Longrightarrow> start r sent p = (Inr w, q) \<Longrightarrow> r \<notin> tasks p \<and> r \<in> tasks q"
    and ended: "ok p \<Longrightarrow> event v p = (rs, q) \<Longrightarrow> ok q \<and> tasks q = tasks p - set rs \<and> set rs \<subseteq> tasks p"
begin

lemma others_kept: "ok p \<Longrightarrow> start r sent p = (res, q) \<Longrightarrow> x \<noteq> r \<Longrightarrow> x \<in> tasks q \<longleftrightarrow> x \<in> tasks p"
  using started by blast

lemma never_full_again: "ok p \<Longrightarrow> start r sent p = (Inr w, q) \<Longrightarrow> card (tasks p) < cap"
  using running [of p r sent w q] started [of p r sent "Inr w" q] bounded [of q] bounded [of p]
  by (metis card_insert_disjoint less_eq_Suc_le)

end

text \<open>The number of tasks is what the workers hold together.\<close>

lemma sum_lengths_le: "(\<And>x. x \<in> set xs \<Longrightarrow> length (f x) \<le> k) \<Longrightarrow> length (concat (map f xs)) \<le> length xs * k"
  by (induction xs) (auto simp: add_mono)

lemma owned_tasks:
  assumes "pool_ok opts p"
  shows "dom (wp_taskOwners p) = set (concat (map pw_tasks (wp_workers p)))"
proof -
  have d: "distinct (map pw_id (wp_workers p))" and own: "owners_ok p" using assms by (simp_all add: pool_ok_def)
  have "r \<in> dom (wp_taskOwners p) \<longleftrightarrow> (\<exists>wid. r \<in> tasks_at p wid)" for r
    using own by (auto simp: owners_ok_def)
  moreover have "(\<exists>wid. r \<in> tasks_at p wid) \<longleftrightarrow> (\<exists>w\<in>set (wp_workers p). r \<in> set (pw_tasks w))" for r
  proof (rule iffI)
    assume "\<exists>wid. r \<in> tasks_at p wid"
    then obtain wid w where "lookup_by pw_id wid (wp_workers p) = Some w" "r \<in> set (pw_tasks w)"
      by (auto simp: tasks_at_def split: option.splits)
    then show "\<exists>w\<in>set (wp_workers p). r \<in> set (pw_tasks w)" using lookup_by_SomeD by metis
  next
    assume "\<exists>w\<in>set (wp_workers p). r \<in> set (pw_tasks w)"
    then obtain w where w: "w \<in> set (wp_workers p)" "r \<in> set (pw_tasks w)" by blast
    then have "r \<in> tasks_at p (pw_id w)" using lookup_by_mem [OF d w(1)] by (simp add: tasks_at_def)
    then show "\<exists>wid. r \<in> tasks_at p wid" by blast
  qed
  ultimately have "r \<in> dom (wp_taskOwners p) \<longleftrightarrow> (\<exists>w\<in>set (wp_workers p). r \<in> set (pw_tasks w))" for r by (simp only:)
  then show ?thesis by (intro set_eqI) simp
qed

lemma concat_tasks_distinct:
  assumes "pool_ok opts p"
  shows "distinct (concat (map pw_tasks (wp_workers p)))"
proof -
  have d: "distinct (map pw_id (wp_workers p))" and own: "owners_ok p" using assms by (simp_all add: pool_ok_def)
  have at: "tasks_at p (pw_id w) = set (pw_tasks w)" if "w \<in> set (wp_workers p)" for w
    using lookup_by_mem [OF d that] by (simp add: tasks_at_def)
  have one: "pw_id v = pw_id w" if "v \<in> set (wp_workers p)" "w \<in> set (wp_workers p)" "r \<in> set (pw_tasks v)" "r \<in> set (pw_tasks w)" for v w r
    using own that at by (metis option.inject owners_ok_def)
  have "distinct (concat (map pw_tasks ws))" if "set ws \<subseteq> set (wp_workers p)" "distinct (map pw_id ws)" for ws
    using that
  proof (induction ws)
    case (Cons w ws)
    have "r \<notin> set (pw_tasks v)" if "v \<in> set ws" "r \<in> set (pw_tasks w)" for v r
      using one [of w v r] that Cons.prems by auto
    moreover have "distinct (pw_tasks w)" using assms Cons.prems(1) by (auto simp: pool_ok_def worker_ok_def)
    ultimately show ?case using Cons by auto
  qed simp
  from this [OF subset_refl d] show ?thesis .
qed

lemma card_tasks: "pool_ok opts p \<Longrightarrow> card (dom (wp_taskOwners p)) = sum_list (map (\<lambda>w. length (pw_tasks w)) (wp_workers p))"
  by (simp only: owned_tasks distinct_card [OF concat_tasks_distinct] length_concat map_map comp_def)

lemma tasks_bounded: "pool_ok opts p \<Longrightarrow> finite (dom (wp_taskOwners p)) \<and> card (dom (wp_taskOwners p)) \<le> pool_capacity opts"
proof -
  assume ok: "pool_ok opts p"
  have "length (concat (map pw_tasks (wp_workers p))) \<le> length (wp_workers p) * po_slotsPerProcess opts"
    by (rule sum_lengths_le) (use ok in \<open>auto simp: pool_ok_def worker_ok_def\<close>)
  also have "\<dots> \<le> pool_capacity opts" using ok by (simp add: pool_ok_def pool_capacity_def)
  finally show ?thesis
    unfolding owned_tasks [OF ok] distinct_card [OF concat_tasks_distinct [OF ok]] by simp
qed

definition sane_pool :: "pool_options \<Rightarrow> bool" where
  "sane_pool opts \<longleftrightarrow> 0 < po_processCount opts \<and> 0 < po_slotsPerProcess opts"

lemma event_ok:
  assumes "pool_ok opts p" "handle_event v p = (rs, q)"
  shows "pool_ok opts q \<and> dom (wp_taskOwners q) = dom (wp_taskOwners p) - set rs \<and> set rs \<subseteq> dom (wp_taskOwners p)"
proof (cases v)
  case (Says wid m)
  with assms(2) have "on_message wid m p = (rs, q)" by simp
  from message_ok [OF assms(1) this] show ?thesis .
next
  case (Exits wid)
  with assms(2) have "on_worker_exit wid p = (rs, q)" by simp
  from exit_ok [OF assms(1) this] show ?thesis .
qed

lemma start_tasks:
  assumes "sane_pool opts \<and> pool_ok opts p" "pool_start opts r sent p = (res, q)"
  shows "pool_ok opts q" "dom (wp_taskOwners q) = dom (wp_taskOwners p)
      \<or> (r \<notin> dom (wp_taskOwners p) \<and> dom (wp_taskOwners q) = insert r (dom (wp_taskOwners p)))"
    "res = Inr wid \<Longrightarrow> r \<notin> dom (wp_taskOwners p) \<and> r \<in> dom (wp_taskOwners q)"
proof -
  from assms(1) have ok: "pool_ok opts p" "0 < po_slotsPerProcess opts" by (simp_all add: sane_pool_def)
  note st = start_ok [OF ok(1) assms(2) ok(2)]
  show "pool_ok opts q" using st by blast
  show "dom (wp_taskOwners q) = dom (wp_taskOwners p)
      \<or> (r \<notin> dom (wp_taskOwners p) \<and> dom (wp_taskOwners q) = insert r (dom (wp_taskOwners p)))"
    using st by (elim conjE disjE) (simp_all add: domIff)
  show "r \<notin> dom (wp_taskOwners p) \<and> r \<in> dom (wp_taskOwners q)" if "res = Inr wid"
    using st that by (simp add: domIff)
qed

interpretation shared: task_pool "\<lambda>p. sane_pool opts \<and> pool_ok opts p" "\<lambda>p. dom (wp_taskOwners p)" "pool_start opts"
    handle_event "pool_capacity opts" for opts
proof
  fix p q :: worker_pool and r and sent and res :: "pool_error + string" and w and v and rs
  show "sane_pool opts \<and> pool_ok opts p \<Longrightarrow> finite (dom (wp_taskOwners p)) \<and> card (dom (wp_taskOwners p)) \<le> pool_capacity opts"
    using tasks_bounded by blast
  show "(sane_pool opts \<and> pool_ok opts q)
      \<and> (dom (wp_taskOwners q) = dom (wp_taskOwners p) \<or> (r \<notin> dom (wp_taskOwners p) \<and> dom (wp_taskOwners q) = insert r (dom (wp_taskOwners p))))"
    if "sane_pool opts \<and> pool_ok opts p" "pool_start opts r sent p = (res, q)"
    using start_tasks [OF _ that(2)] that(1) by blast
  show "r \<notin> dom (wp_taskOwners p) \<and> r \<in> dom (wp_taskOwners q)"
    if "sane_pool opts \<and> pool_ok opts p" "pool_start opts r sent p = (Inr w, q)"
    using start_tasks [OF _ that(2)] that(1) by blast
  show "(sane_pool opts \<and> pool_ok opts q) \<and> dom (wp_taskOwners q) = dom (wp_taskOwners p) - set rs \<and> set rs \<subseteq> dom (wp_taskOwners p)"
    if "sane_pool opts \<and> pool_ok opts p" "handle_event v p = (rs, q)"
    using event_ok [OF _ that(2)] that(1) by blast
qed

inductive pool_step :: "pool_options \<Rightarrow> worker_pool \<Rightarrow> worker_pool \<Rightarrow> bool" for opts where
  starts: "pool_step opts p (snd (pool_start opts r sent p))"
| happens: "pool_step opts p (snd (handle_event v p))"
| closes: "pool_step opts p (pool_shutdown p)"

interpretation pools: step_invariant "\<lambda>p. p = new_pool" "pool_step opts" "\<lambda>p. sane_pool opts \<longrightarrow> pool_ok opts p" for opts
proof
  show "sane_pool opts \<longrightarrow> pool_ok opts q" if "sane_pool opts \<longrightarrow> pool_ok opts p" "pool_step opts p q" for p q
    using that(2)
  proof cases
    case (starts r sent)
    with that(1) shared.started [of opts p r sent "fst (pool_start opts r sent p)" q] show ?thesis by auto
  next
    case (happens v)
    with that(1) shared.ended [of opts p v "fst (handle_event v p)" q] show ?thesis by auto
  next
    case closes
    with that(1) show ?thesis by (auto simp: pool_shutdown_def pool_ok_def worker_ok_def owners_ok_def tasks_at_def)
  qed
qed (simp add: pool_ok_new)

abbreviation pool_reachable :: "pool_options \<Rightarrow> worker_pool \<Rightarrow> bool" where
  "pool_reachable opts \<equiv> reachable_from (\<lambda>p. p = new_pool) (pool_step opts)"

lemma reachable_ok: "sane_pool opts \<Longrightarrow> pool_reachable opts p \<Longrightarrow> pool_ok opts p"
  using pools.reachable_inv by blast

text \<open>The shared pool keeps its bounds whatever its workers report and however tasks start and fail to start: no process
  holds more than its slots, no task is held twice, the tasks recorded are exactly those of the processes, and there are
  never more than \<open>processCount * slotsPerProcess\<close> of them.\<close>

theorem shared_pool_bounded:
  assumes "sane_pool opts" "pool_reachable opts p"
  shows "card (dom (wp_taskOwners p)) \<le> po_processCount opts * po_slotsPerProcess opts
    \<and> (\<forall>w\<in>set (wp_workers p). length (pw_tasks w) \<le> po_slotsPerProcess opts)
    \<and> distinct (concat (map pw_tasks (wp_workers p))) \<and> set (concat (map pw_tasks (wp_workers p))) = dom (wp_taskOwners p)"
proof -
  note ok = reachable_ok [OF assms]
  then have "\<forall>w\<in>set (wp_workers p). length (pw_tasks w) \<le> po_slotsPerProcess opts" by (simp add: pool_ok_def worker_ok_def)
  with tasks_bounded [OF ok] concat_tasks_distinct [OF ok] owned_tasks [OF ok] show ?thesis by (simp add: pool_capacity_def)
qed

lemma squeeze: "(s::nat) \<le> a \<Longrightarrow> a \<le> b \<Longrightarrow> s = b \<longleftrightarrow> s = a \<and> a = b"
  by auto

lemma full_workers:
  assumes "pool_ok opts p" "0 < po_slotsPerProcess opts" "\<And>w. w \<in> set (wp_workers p) \<Longrightarrow> \<not> pw_exited w"
  shows "(po_processCount opts \<le> length (wp_workers p) \<and> filter (has_room opts) (wp_workers p) = [])
    \<longleftrightarrow> card (dom (wp_taskOwners p)) = pool_capacity opts"
proof -
  let ?n = "\<lambda>w. length (pw_tasks w)" and ?k = "po_slotsPerProcess opts"
  have le: "?n w \<le> ?k" if "w \<in> set (wp_workers p)" for w using assms(1) that by (simp add: pool_ok_def worker_ok_def)
  have len: "length (wp_workers p) \<le> po_processCount opts" using assms(1) by (simp add: pool_ok_def)
  have full: "filter (has_room opts) (wp_workers p) = [] \<longleftrightarrow> (\<forall>w\<in>set (wp_workers p). ?n w = ?k)"
    using le assms(3) by (fastforce simp: filter_empty_conv has_room_def)
  have sum: "sum_list (map ?n ws) \<le> length ws * ?k \<and> (sum_list (map ?n ws) = length ws * ?k \<longleftrightarrow> (\<forall>w\<in>set ws. ?n w = ?k))"
    if "set ws \<subseteq> set (wp_workers p)" for ws
    using that
  proof (induction ws)
    case (Cons w ws)
    then have "?n w \<le> ?k" using le by simp
    with Cons show ?case by auto
  qed simp
  have "length (wp_workers p) * ?k \<le> po_processCount opts * ?k" using len by simp
  moreover have "length (wp_workers p) * ?k = po_processCount opts * ?k \<longleftrightarrow> length (wp_workers p) = po_processCount opts"
    using assms(2) by simp
  ultimately have "sum_list (map ?n (wp_workers p)) = po_processCount opts * ?k
      \<longleftrightarrow> sum_list (map ?n (wp_workers p)) = length (wp_workers p) * ?k \<and> length (wp_workers p) = po_processCount opts"
    using squeeze sum [OF subset_refl] by metis
  also have "\<dots> \<longleftrightarrow> filter (has_room opts) (wp_workers p) = [] \<and> po_processCount opts \<le> length (wp_workers p)"
    using sum [OF subset_refl] full len by (metis antisym order_refl)
  finally show ?thesis unfolding card_tasks [OF assms(1)] pool_capacity_def by blast
qed

text \<open>A new task is refused for lack of capacity exactly when every slot of every process is taken.\<close>

lemma refused_iff_full:
  assumes "sane_pool opts" "pool_reachable opts p" "\<And>w. w \<in> set (wp_workers p) \<Longrightarrow> \<not> pw_exited w"
    and "\<not> wp_closing p" "\<not> pool_has r p"
  shows "fst (pool_start opts r sent p) = Inl CapacityReached \<longleftrightarrow> card (dom (wp_taskOwners p)) = pool_capacity opts"
proof -
  have slots: "0 < po_slotsPerProcess opts" using assms(1) by (simp add: sane_pool_def)
  note full = full_workers [OF reachable_ok [OF assms(1,2)] slots assms(3)]
  obtain o1 p' where sel: "selectWorker opts p = (o1, p')" by fastforce
  have st: "fst (pool_start opts r sent p) = Inl CapacityReached \<longleftrightarrow> o1 = None"
    using assms(4,5) sel by (auto simp: pool_start_def pool_has_def Let_def split: option.splits)
  from sel show ?thesis
  proof (cases rule: selectWorker_cases)
    case (found w)
    then have "filter (has_room opts) (wp_workers p) \<noteq> []" by (auto simp: filter_empty_conv)
    with found(1) full st show ?thesis by simp
  next
    case forked
    with full st show ?thesis by simp
  next
    case full': full
    with full st show ?thesis by simp
  qed
qed

text \<open>The pool as a bounded set of tasks, without processes and slots.\<close>

definition spec_start :: "nat \<Rightarrow> bool \<Rightarrow> string \<Rightarrow> bool \<Rightarrow> string set \<Rightarrow> (pool_error + unit) \<times> string set" where
  "spec_start cap closing r sent tasks =
     (if closing then (Inl ShuttingDown, tasks) else if r \<in> tasks then (Inl AlreadyAssigned, tasks)
      else if cap \<le> card tasks then (Inl CapacityReached, tasks)
      else (if sent then Inr () else Inl SendFailed, insert r tasks))"

text \<open>C27: as long as its processes are alive the pool is a bounded set of tasks: starting a task has the result and the effect
  it has on the set, so no slot is wasted by the choice of the process, and what a worker reports takes out
  exactly the tasks whose exit is passed on.\<close>

theorem pool_refines_bounded_set:
  assumes "sane_pool opts" "pool_reachable opts p" "\<And>w. w \<in> set (wp_workers p) \<Longrightarrow> \<not> pw_exited w"
  shows "(map_sum id (\<lambda>_. ()) (fst (pool_start opts r sent p)), dom (wp_taskOwners (snd (pool_start opts r sent p))))
      = spec_start (pool_capacity opts) (wp_closing p) r sent (dom (wp_taskOwners p))
    \<and> dom (wp_taskOwners (snd (handle_event v p))) = dom (wp_taskOwners p) - set (fst (handle_event v p))"
proof -
  note ok = reachable_ok [OF assms(1,2)]
  have slots: "0 < po_slotsPerProcess opts" using assms(1) by (simp add: sane_pool_def)
  obtain res q where st: "pool_start opts r sent p = (res, q)" by fastforce
  note started = start_ok [OF ok st slots]
  have "(map_sum id (\<lambda>_. ()) (fst (pool_start opts r sent p)), dom (wp_taskOwners (snd (pool_start opts r sent p))))
      = spec_start (pool_capacity opts) (wp_closing p) r sent (dom (wp_taskOwners p))"
  proof (cases "wp_closing p \<or> pool_has r p")
    case True
    then show ?thesis by (auto simp: spec_start_def pool_start_def pool_has_def)
  next
    case False
    then have free: "\<not> wp_closing p" "\<not> pool_has r p" "r \<notin> dom (wp_taskOwners p)" by (auto simp: pool_has_def)
    have full: "res = Inl CapacityReached \<longleftrightarrow> pool_capacity opts \<le> card (dom (wp_taskOwners p))"
      using refused_iff_full [OF assms free(1,2), of sent] tasks_bounded [OF ok] st by auto
    show ?thesis
    proof (cases "res = Inl CapacityReached")
      case True
      have "q = p \<or> r \<in> dom (wp_taskOwners q)" using started by blast
      moreover have "wp_taskOwners q = wp_taskOwners p"
        using True st free by (auto simp: pool_start_def pool_has_def Let_def selectWorker_def spawnWorker_def split: option.splits list.splits if_splits)
      ultimately show ?thesis using True full free st by (simp add: spec_start_def)
    next
      case False
      then obtain w p' where w: "selectWorker opts p = (Some w, p')" "q = assign_task r (pw_id w) p'"
        "res = (if sent then Inr (pw_id w) else Inl SendFailed)"
        using st free by (auto simp: pool_start_def pool_has_def Let_def split: option.splits prod.splits)
      then have "q \<noteq> p" using free(2) by (auto simp: assign_task_def pool_has_def)
      then have "dom (wp_taskOwners q) = insert r (dom (wp_taskOwners p))" using started by blast
      with False full free st w show ?thesis by (simp add: spec_start_def)
    qed
  qed
  moreover obtain rs p' where "handle_event v p = (rs, p')" by fastforce
  with event_ok [OF ok this] have "dom (wp_taskOwners (snd (handle_event v p))) = dom (wp_taskOwners p) - set (fst (handle_event v p))"
    by simp
  ultimately show ?thesis by blast
qed

text \<open>A task whose start message cannot be sent is reported as failed and yet stays in its slot: the pool counts it, and
  the same run can not be started again.\<close>

theorem unsent_task_keeps_slot:
  assumes "sane_pool opts" "pool_reachable opts p" "pool_start opts r False p = (Inl SendFailed, q)"
  shows "card (dom (wp_taskOwners q)) = Suc (card (dom (wp_taskOwners p))) \<and> pool_has r q
    \<and> fst (pool_start opts r True q) = Inl AlreadyAssigned"
proof -
  have slots: "0 < po_slotsPerProcess opts" using assms(1) by (simp add: sane_pool_def)
  note ok = reachable_ok [OF assms(1,2)]
  have opened: "\<not> wp_closing p" "wp_taskOwners p r = None"
    using assms(3) by (auto simp: pool_start_def split: if_splits)
  obtain o1 p' where sel: "selectWorker opts p = (o1, p')" by fastforce
  with assms(3) opened obtain w where w: "o1 = Some w" "q = assign_task r (pw_id w) p'"
    by (auto simp: pool_start_def Let_def split: option.splits)
  have "wp_closing p' = wp_closing p" using sel by (cases rule: selectWorker_cases) simp_all
  then have q: "\<not> wp_closing q" "pool_has r q" using opened(1) w(2) by (simp_all add: assign_task_def pool_has_def)
  then have "q \<noteq> p" using opened(2) by (auto simp: pool_has_def)
  with start_ok [OF ok assms(3) slots] have "dom (wp_taskOwners q) = insert r (dom (wp_taskOwners p))" by simp
  then have "card (dom (wp_taskOwners q)) = Suc (card (dom (wp_taskOwners p)))"
    using opened(2) tasks_bounded [OF ok] by (simp add: domIff)
  with q show ?thesis by (auto simp: pool_start_def pool_has_def)
qed

section \<open>Witnesses\<close>

definition demo_options :: pool_options where "demo_options = \<lparr>po_processCount = 1, po_slotsPerProcess = 1\<rparr>"

definition pool_one :: worker_pool where "pool_one = snd (pool_start demo_options ''r1'' True new_pool)"

lemma pool_one_reachable: "pool_reachable demo_options pool_one" "sane_pool demo_options" "pool_reachable demo_options new_pool"
proof -
  show n: "pool_reachable demo_options new_pool" by (rule reachable_from.init) simp
  show "pool_reachable demo_options pool_one"
    unfolding pool_one_def by (rule reachable_from.step) (rule n, rule pool_step.starts)
qed (simp add: sane_pool_def demo_options_def)

theorem shared_pool_bounded_witness: "card (dom (wp_taskOwners pool_one)) \<le> 1 \<and> pool_has ''r1'' pool_one"
proof -
  have "pool_has ''r1'' pool_one" by code_simp
  with shared_pool_bounded [OF pool_one_reachable(2,1)] show ?thesis by (simp add: demo_options_def)
qed

theorem pool_refines_bounded_set_witness:
  "fst (spec_start (pool_capacity demo_options) False ''r2'' True (dom (wp_taskOwners pool_one))) = Inl CapacityReached
    \<and> dom (wp_taskOwners (snd (handle_event (Exits ''shared-01'') pool_one))) = {}"
proof -
  have "list_all (\<lambda>w. \<not> pw_exited w) (wp_workers pool_one)" by code_simp
  then have alive: "\<not> pw_exited w" if "w \<in> set (wp_workers pool_one)" for w using that by (auto simp: list_all_iff)
  have c: "\<not> wp_closing pool_one" "fst (pool_start demo_options ''r2'' True pool_one) = Inl CapacityReached" by code_simp+
  have "fst (handle_event (Exits ''shared-01'') pool_one) = [''r1'']" by code_simp
  moreover have "dom (wp_taskOwners pool_one) = {''r1''}"
    by (auto simp: pool_one_def pool_start_def new_pool_def selectWorker_def available_def spawnWorker_def spawned_def assign_task_def
        demo_options_def Let_def split: if_splits)
  ultimately have gone: "dom (wp_taskOwners (snd (handle_event (Exits ''shared-01'') pool_one))) = {}"
    using pool_refines_bounded_set [OF pool_one_reachable(2,1) alive, of _ _ "Exits ''shared-01''"] by simp
  have "spec_start (pool_capacity demo_options) (wp_closing pool_one) ''r2'' True (dom (wp_taskOwners pool_one))
      = (map_sum id (\<lambda>_. ()) (Inl CapacityReached), dom (wp_taskOwners (snd (pool_start demo_options ''r2'' True pool_one))))"
    using pool_refines_bounded_set [OF pool_one_reachable(2,1) alive, of "''r2''" True] unfolding c(2) by simp
  with c(1) gone show ?thesis by simp
qed

theorem unsent_task_keeps_slot_witness:
  "\<exists>q. pool_start demo_options ''r1'' False new_pool = (Inl SendFailed, q) \<and> pool_has ''r1'' q
    \<and> fst (pool_start demo_options ''r1'' True q) = Inl AlreadyAssigned"
proof -
  have "fst (pool_start demo_options ''r1'' False new_pool) = Inl SendFailed" by code_simp
  then obtain q where q: "pool_start demo_options ''r1'' False new_pool = (Inl SendFailed, q)" by (metis prod.collapse)
  with unsent_task_keeps_slot [OF pool_one_reachable(2,3) q] show ?thesis by blast
qed

end
