(* ===== verification/Campaign_Control.thy ===== *)
theory Campaign_Control
  imports Campaign_Payload Worker_Pool
begin

text \<open>
  The campaign controller: the queue, the launches and the operator commands of \<open>web/server/control.mjs\<close>, with
  \<open>web/server/campaign-proxy-selection.mjs\<close> and \<open>web/server/resource-admission.mjs\<close>. The program is one JavaScript process:
  code between two \<open>await\<close>s runs without interruption and is one function here; what happens between them is any other
  step. A campaign object that an operation holds across an \<open>await\<close> may have been replaced or deleted in the map
  meanwhile, so campaigns carry an object number, and an operation updates the object it holds.

  Left out: persisting and broadcasting, captures and their delivery, the challenge queue and log texts. Timers only
  start the pump, the watchdog and the schedules, which may start at any time here.
\<close>

section \<open>State\<close>

datatype campaign_status = Scheduled | Queued | Running | Stopped | Completed

record campaign =
  cp_object :: nat
  cp_id :: string
  cp_number :: nat
  cp_status :: campaign_status
  cp_desiredRunning :: bool
  cp_activeRunId :: "string option"
  cp_restartPending :: bool
  cp_lastError :: bool
  cp_proxySelectionPending :: bool
  cp_lastStartedWindow :: "int option"
  cp_retryCount :: nat
  cp_nextRetryAt :: "time option"
  cp_config :: run_payload

text \<open>The retry advice of a rejected capture: when it was rejected, when to try again and after which delay.\<close>

record capture_retry =
  cr_rejectionAt :: time
  cr_notBefore :: time
  cr_delayMs :: ms

text \<open>A run object; \<open>rn_listed\<close> tells whether the map of runs still has it, \<open>rn_finalized\<close> whether \<open>finalizeRun\<close> is through.\<close>

record run =
  rn_id :: string
  rn_campaignRecordId :: "string option"
  rn_tier :: string
  rn_continuous :: bool
  rn_proxyPort :: "int option"
  rn_concurrent :: int
  rn_targetRps :: int
  rn_shared :: bool
  rn_alive :: bool
  rn_exitCode :: "int option"
  rn_listed :: bool
  rn_finalized :: bool
  rn_startedAt :: time
  rn_lastProgressAt :: time
  rn_watchdogTriggeredAt :: "time option"
  rn_captureRetry :: "capture_retry option"

datatype launch_origin = FromPump campaign | FromOperator
datatype launch_stage = AwaitPolicy | AwaitTarget bool | AwaitSend string

record launch =
  la_key :: nat
  la_origin :: launch_origin
  la_campaignRecordId :: "string option"
  la_payload :: run_payload
  la_stage :: launch_stage

text \<open>Where \<open>pumpCampaignQueue\<close> stands: not running, reading the registry, at the head of its loop, waiting for the fleet or
  for a launch. It holds the registry's campaigns, the number of fleet checks and the time of the turn.\<close>

datatype pump_phase =
    PumpIdle
  | PumpReading
  | PumpTurn "string set" nat
  | PumpFleet "string set" nat time campaign
  | PumpLaunch "string set" nat

text \<open>A campaign being saved, after its object is in the map.\<close>

record save =
  sv_campaign :: campaign
  sv_changed :: bool
  sv_create :: bool

record control_world =
  cw_now :: time
  cw_campaigns :: "campaign list"
  cw_runs :: "run list"
  cw_launches :: "launch list"
  cw_pump :: pump_phase
  cw_pool :: worker_pool
  cw_saves :: "save list"
  cw_deleting :: "string list"
  cw_stopping :: "string set"
  cw_sequence :: nat
  cw_objects :: nat
  cw_campaignSequence :: nat
  cw_activeLimit :: nat
  cw_proxy :: "js_number option"
  cw_nextCampaignStartAt :: time

record control_settings =
  cs_env :: payload_env
  cs_pool :: pool_options
  cs_maxLocalWorkers :: nat
  cs_maxTotalConcurrency :: int
  cs_maxBrowserConcurrency :: int
  cs_maxTotalRps :: int
  cs_startGap :: ms
  cs_fleetChecks :: nat
  cs_fleetRetryMs :: ms
  cs_progressStaleMs :: ms
  cs_stagingAllowed :: "string \<Rightarrow> bool"

section \<open>Runs\<close>

definition is_active :: "worker_pool \<Rightarrow> run \<Rightarrow> bool" where
  "is_active pool r \<longleftrightarrow> rn_listed r \<and> rn_exitCode r = None \<and> (if rn_shared r then pool_has (rn_id r) pool else rn_alive r)"

definition activeRuns :: "control_world \<Rightarrow> run list" where
  "activeRuns w = filter (is_active (cw_pool w)) (cw_runs w)"

definition lockedPorts :: "control_world \<Rightarrow> int set" where
  "lockedPorts w = set (filter (\<lambda>p. 0 < p) (List.map_filter rn_proxyPort (activeRuns w)))"

definition get_campaign :: "string \<Rightarrow> control_world \<Rightarrow> campaign option" where
  "get_campaign k w = lookup_by cp_id k (cw_campaigns w)"

definition run_of_campaign :: "string \<Rightarrow> control_world \<Rightarrow> run option" where
  "run_of_campaign k w = find (\<lambda>r. rn_campaignRecordId r = Some k) (activeRuns w)"

text \<open>Updating the object an operation holds: nothing is seen of it when the map has another object by now.\<close>

definition update_object :: "nat \<Rightarrow> (campaign \<Rightarrow> campaign) \<Rightarrow> control_world \<Rightarrow> control_world" where
  "update_object k f w = w\<lparr>cw_campaigns := update_where (\<lambda>c. cp_object c = k) f (cw_campaigns w)\<rparr>"

definition held_campaign :: "campaign \<Rightarrow> control_world \<Rightarrow> campaign" where
  "held_campaign c w = (case find (\<lambda>d. cp_object d = cp_object c) (cw_campaigns w) of Some d \<Rightarrow> d | None \<Rightarrow> c)"

definition update_campaign_row :: "string \<Rightarrow> (campaign \<Rightarrow> campaign) \<Rightarrow> control_world \<Rightarrow> control_world" where
  "update_campaign_row k f w = w\<lparr>cw_campaigns := update_where (\<lambda>c. cp_id c = k) f (cw_campaigns w)\<rparr>"

text \<open>\<open>terminateRun\<close> sends a signal or a message; the run ends when its exit is reported.\<close>

definition terminateRun :: "run option \<Rightarrow> control_world \<Rightarrow> control_world" where
  "terminateRun r w = (case r of None \<Rightarrow> w | Some x \<Rightarrow> w\<lparr>cw_stopping := insert (rn_id x) (cw_stopping w)\<rparr>)"

section \<open>Admission\<close>

text \<open>Resource figures are exact rationals; \<open>None\<close> for a load that is not finite.\<close>

datatype admission_reason = MemoryReason | LoadReason

definition memory_ratio :: "rat \<Rightarrow> rat \<Rightarrow> rat" where
  "memory_ratio availableBytes totalBytes = (if 0 < totalBytes then availableBytes / totalBytes else 1)"

definition normalized_load :: "rat option \<Rightarrow> rat \<Rightarrow> rat" where
  "normalized_load load cpuCount = (case load of Some l \<Rightarrow> if 0 < cpuCount then l / cpuCount else 0 | None \<Rightarrow> 0)"

definition evaluateResourceAdmission :: "rat \<Rightarrow> rat \<Rightarrow> rat option \<Rightarrow> rat \<Rightarrow> rat \<Rightarrow> rat \<Rightarrow> admission_reason list" where
  "evaluateResourceAdmission availableBytes totalBytes load cpuCount minRatio maxLoad =
     (if memory_ratio availableBytes totalBytes < minRatio then [MemoryReason] else [])
     @ (if maxLoad < normalized_load load cpuCount then [LoadReason] else [])"

definition computeCampaignLaunchGapMs :: "int \<Rightarrow> int \<Rightarrow> int" where
  "computeCampaignLaunchGapMs workerCount spreadMs =
     (let workers = max 1 (if workerCount = 0 then 1 else workerCount); spread = max 0 spreadMs
      in if spread = 0 then 0 else max 100 (\<lceil>of_int spread / (of_int workers :: rat)\<rceil>))"

definition permit_managed :: "run \<Rightarrow> bool" where
  "permit_managed r \<longleftrightarrow> rn_tier r = ''human'' \<and> rn_continuous r"

definition browser_load :: "run list \<Rightarrow> int" where
  "browser_load rs = sum_list (map rn_concurrent (filter (\<lambda>r. rn_tier r \<noteq> ''trivial-http'' \<and> \<not> permit_managed r) rs))"

definition effective_limit :: "control_settings \<Rightarrow> control_world \<Rightarrow> nat" where
  "effective_limit s w = min (cw_activeLimit w) (min (cs_maxLocalWorkers s)
     (if pe_sharedEnabled (cs_env s) then pool_capacity (cs_pool s) else cs_maxLocalWorkers s))"

definition identity_checks :: "control_settings \<Rightarrow> run list \<Rightarrow> string option \<Rightarrow> run_payload \<Rightarrow> (bool \<times> launch_error) list" where
  "identity_checks s live k p =
     [(rp_staging p \<and> \<not> cs_stagingAllowed s (rp_seedUrl p), StagingNotAllowed),
      (k \<noteq> None \<and> list_ex (\<lambda>r. rn_campaignRecordId r = k) live, AlreadyRunning)]"

definition limit_checks :: "control_settings \<Rightarrow> nat \<Rightarrow> run list \<Rightarrow> int option \<Rightarrow> run_payload \<Rightarrow> (bool \<times> launch_error) list" where
  "limit_checks s limit live port p =
     [(port \<noteq> None \<and> list_ex (\<lambda>r. rn_proxyPort r = port) live, PortLeased),
      (limit \<le> length live, WorkerLimit),
      (\<not> usesPermits p \<and> cs_maxTotalConcurrency s < sum_list (map rn_concurrent live) + requestedConcurrency p, ConcurrencyLimit),
      (cs_maxBrowserConcurrency s < browser_load live
         + (if rp_tier p = ''trivial-http'' \<or> usesPermits p then 0 else requestedConcurrency p), BrowserLimit),
      (cs_maxTotalRps s < sum_list (map rn_targetRps live) + requestedRps p, RpsLimit)]"

definition admit :: "control_settings \<Rightarrow> control_world \<Rightarrow> string option \<Rightarrow> bool \<Rightarrow> run_payload \<Rightarrow> launch_error + int option" where
  "admit s w k registry p =
     bindE (check_all (identity_checks s (activeRuns w) k p)) (\<lambda>_.
       bindE (legacyRunPort p registry (pe_noProxy (cs_env s)) (cw_proxy w)) (\<lambda>port.
         bindE (check_all (limit_checks s (effective_limit s w) (activeRuns w) port p)) (\<lambda>_. Inr port)))"

section \<open>Launches\<close>

definition run_id :: "string \<Rightarrow> nat \<Rightarrow> string" where
  "run_id stamp n = (''run-'' @ stamp) @ CHR ''-'' # nat_digits n"

definition shared_run :: "control_settings \<Rightarrow> run_payload \<Rightarrow> bool" where
  "shared_run s p \<longleftrightarrow> pe_sharedEnabled (cs_env s) \<and> rp_tier p = ''human'' \<and> rp_continuous p \<and> \<not> rp_mitm p"

definition new_run :: "control_settings \<Rightarrow> time \<Rightarrow> string \<Rightarrow> string option \<Rightarrow> int option \<Rightarrow> run_payload \<Rightarrow> run" where
  "new_run s now rid k port p =
     \<lparr>rn_id = rid, rn_campaignRecordId = k, rn_tier = rp_tier p, rn_continuous = usesPermits p, rn_proxyPort = port,
      rn_concurrent = requestedConcurrency p, rn_targetRps = requestedRps p, rn_shared = shared_run s p, rn_alive = True,
      rn_exitCode = None, rn_listed = True, rn_finalized = False, rn_startedAt = now, rn_lastProgressAt = now,
      rn_watchdogTriggeredAt = None, rn_captureRetry = None\<rparr>"

definition unlist_run :: "string \<Rightarrow> control_world \<Rightarrow> control_world" where
  "unlist_run rid w = w\<lparr>cw_runs := update_where (\<lambda>r. rn_id r = rid) (\<lambda>r. r\<lparr>rn_listed := False\<rparr>) (cw_runs w)\<rparr>"

definition drop_launch :: "launch \<Rightarrow> control_world \<Rightarrow> control_world" where
  "drop_launch l w = w\<lparr>cw_launches := filter (\<lambda>x. la_key x \<noteq> la_key l) (cw_launches w)\<rparr>"

definition set_stage :: "launch \<Rightarrow> launch_stage \<Rightarrow> control_world \<Rightarrow> control_world" where
  "set_stage l st w = w\<lparr>cw_launches := update_where (\<lambda>x. la_key x = la_key l) (\<lambda>x. x\<lparr>la_stage := st\<rparr>) (cw_launches w)\<rparr>"

text \<open>The pump after a launch: the next start waits for the gap.\<close>

definition after_attempt :: "control_settings \<Rightarrow> control_world \<Rightarrow> control_world" where
  "after_attempt s w =
     w\<lparr>cw_nextCampaignStartAt := cw_now w + cs_startGap s,
       cw_pump := (case cw_pump w of PumpLaunch ids n \<Rightarrow> if 0 < cs_startGap s then PumpIdle else PumpTurn ids n | ph \<Rightarrow> ph)\<rparr>"

definition retry_delay :: "nat \<Rightarrow> ms" where
  "retry_delay n = min 300000 (5000 * 2 ^ (n - 1))"

definition note_failure :: "time \<Rightarrow> campaign \<Rightarrow> campaign" where
  "note_failure now c =
     (let n = min 10 (cp_retryCount c + 1)
      in c\<lparr>cp_retryCount := n, cp_nextRetryAt := Some (now + retry_delay n), cp_status := Queued, cp_lastError := True\<rparr>)"

definition note_running :: "string \<Rightarrow> campaign \<Rightarrow> campaign" where
  "note_running rid c = c\<lparr>cp_activeRunId := Some rid, cp_status := Running, cp_lastError := False, cp_retryCount := 0, cp_nextRetryAt := None\<rparr>"

definition launch_failed :: "control_settings \<Rightarrow> launch \<Rightarrow> control_world \<Rightarrow> control_world" where
  "launch_failed s l w =
     (case la_origin l of
        FromOperator \<Rightarrow> drop_launch l w
      | FromPump c \<Rightarrow> after_attempt s (update_object (cp_object c) (note_failure (cw_now w)) (drop_launch l w)))"

definition launch_done :: "control_settings \<Rightarrow> launch \<Rightarrow> string \<Rightarrow> control_world \<Rightarrow> control_world" where
  "launch_done s l rid w =
     (case la_origin l of
        FromOperator \<Rightarrow> drop_launch l w
      | FromPump c \<Rightarrow> after_attempt s (update_object (cp_object c) (note_running rid) (drop_launch l w)))"

text \<open>\<open>startRun\<close> up to its first \<open>await\<close>.\<close>

definition begin_launch :: "control_settings \<Rightarrow> launch_origin \<Rightarrow> string option \<Rightarrow> run_payload \<Rightarrow> control_world \<Rightarrow> control_world" where
  "begin_launch s origin k p w =
     (let l = \<lparr>la_key = cw_objects w, la_origin = origin, la_campaignRecordId = k, la_payload = p, la_stage = AwaitPolicy\<rparr>;
          w1 = w\<lparr>cw_objects := cw_objects w + 1, cw_launches := cw_launches w @ [l]\<rparr>;
          pending = (case k of None \<Rightarrow> False | Some i \<Rightarrow> (case get_campaign i w of None \<Rightarrow> False | Some c \<Rightarrow> cp_proxySelectionPending c))
      in if pending then launch_failed s l w1 else w1)"

text \<open>After the campaign's policy is read: the checks that need no other state.\<close>

definition policy_read :: "control_settings \<Rightarrow> launch \<Rightarrow> bool \<Rightarrow> control_world \<Rightarrow> control_world" where
  "policy_read s l policyEnabled w =
     (case prepare_launch (cs_env s) (cw_proxy w \<noteq> None) policyEnabled (la_payload l) of
        Inl _ \<Rightarrow> launch_failed s l w
      | Inr registry \<Rightarrow> set_stage l (AwaitTarget registry) w)"

text \<open>After the target is looked up: admission, then the run is created and handed to the pool or to a process of its own.\<close>

definition create_run :: "control_settings \<Rightarrow> launch \<Rightarrow> string \<Rightarrow> int option \<Rightarrow> control_world \<Rightarrow> control_world" where
  "create_run s l stamp port w =
     (let p = la_payload l; n = cw_sequence w + 1; rid = run_id stamp n;
          r = new_run s (cw_now w) rid (la_campaignRecordId l) port p;
          w1 = w\<lparr>cw_runs := cw_runs w @ [r], cw_sequence := n\<rparr>
      in if shared_run s p
         then (case pool_start (cs_pool s) rid True (cw_pool w) of
             (Inl _, pool) \<Rightarrow> launch_failed s l (unlist_run rid (w1\<lparr>cw_pool := pool\<rparr>))
           | (Inr _, pool) \<Rightarrow> set_stage l (AwaitSend rid) (w1\<lparr>cw_pool := pool\<rparr>))
         else launch_done s l rid w1)"

definition target_allowed :: "control_settings \<Rightarrow> launch \<Rightarrow> bool \<Rightarrow> string \<Rightarrow> control_world \<Rightarrow> control_world" where
  "target_allowed s l registry stamp w =
     (case admit s w (la_campaignRecordId l) registry (la_payload l) of
        Inl _ \<Rightarrow> launch_failed s l w
      | Inr port \<Rightarrow> create_run s l stamp port w)"

text \<open>The start message was sent or could not be sent.\<close>

definition message_sent :: "control_settings \<Rightarrow> launch \<Rightarrow> string \<Rightarrow> bool \<Rightarrow> control_world \<Rightarrow> control_world" where
  "message_sent s l rid sent w = (if sent then launch_done s l rid w else launch_failed s l (unlist_run rid w))"

section \<open>The pump\<close>

definition port_free :: "int set \<Rightarrow> campaign \<Rightarrow> bool" where
  "port_free leased c \<longleftrightarrow>
     (case rp_proxyPort (cp_config c) of None \<Rightarrow> True | Some v \<Rightarrow> (case js_int v of None \<Rightarrow> True | Some n \<Rightarrow> n \<notin> leased))"

definition startable :: "int set \<Rightarrow> string set \<Rightarrow> time \<Rightarrow> campaign \<Rightarrow> bool" where
  "startable leased registryIds now c \<longleftrightarrow> cp_status c = Queued \<and> cp_desiredRunning c
     \<and> (case cp_nextRetryAt c of None \<Rightarrow> True | Some t \<Rightarrow> t \<le> now) \<and> (cp_id c \<in> registryIds \<or> port_free leased c)"

definition selectQueuedCampaign :: "campaign list \<Rightarrow> int set \<Rightarrow> string set \<Rightarrow> time \<Rightarrow> campaign option" where
  "selectQueuedCampaign cs leased registryIds now = find (startable leased registryIds now) (sort_key cp_number cs)"

definition next_campaign :: "control_world \<Rightarrow> string set \<Rightarrow> campaign option" where
  "next_campaign w registryIds =
     selectQueuedCampaign (filter (\<lambda>c. \<not> cp_proxySelectionPending c) (cw_campaigns w)) (lockedPorts w) registryIds (cw_now w)"

definition pump_begin :: "control_world \<Rightarrow> control_world" where
  "pump_begin w =
     (if list_ex (\<lambda>c. cp_status c = Queued \<and> cp_desiredRunning c) (cw_campaigns w) then w\<lparr>cw_pump := PumpReading\<rparr> else w)"

text \<open>The last part of a turn: the gap between starts, the resources of the host, and then the launch. \<open>c\<close> is the campaign
  object the turn holds, \<open>start\<close> the time at which the turn began.\<close>

definition pump_launch :: "control_settings \<Rightarrow> bool \<Rightarrow> time \<Rightarrow> string set \<Rightarrow> nat \<Rightarrow> campaign \<Rightarrow> control_world \<Rightarrow> control_world" where
  "pump_launch s resourcesAllowed start registryIds checks c w =
     (if start < cw_nextCampaignStartAt w \<or> \<not> resourcesAllowed then w\<lparr>cw_pump := PumpIdle\<rparr>
      else begin_launch s (FromPump c) (Some (cp_id c)) (cp_config c) (w\<lparr>cw_pump := PumpLaunch registryIds checks\<rparr>))"

definition pump_turn :: "control_settings \<Rightarrow> bool \<Rightarrow> string set \<Rightarrow> nat \<Rightarrow> control_world \<Rightarrow> control_world" where
  "pump_turn s resourcesAllowed registryIds checks w =
     (if min (cw_activeLimit w) (cs_maxLocalWorkers s) \<le> length (activeRuns w) then w\<lparr>cw_pump := PumpIdle\<rparr>
      else case next_campaign w registryIds of
        None \<Rightarrow> w\<lparr>cw_pump := PumpIdle\<rparr>
      | Some c \<Rightarrow>
          if rp_useScriptMesh (cp_config c)
          then if cs_fleetChecks s \<le> checks then w\<lparr>cw_pump := PumpIdle\<rparr>
               else w\<lparr>cw_pump := PumpFleet registryIds (checks + 1) (cw_now w) c\<rparr>
          else pump_launch s resourcesAllowed (cw_now w) registryIds checks c w)"

text \<open>\<open>ensureCampaignFleetReadyForFirstJourney\<close> has answered whether the fleet is ready; the pump goes on either way.\<close>

definition fleet_answered :: "control_settings \<Rightarrow> bool \<Rightarrow> bool \<Rightarrow> string set \<Rightarrow> nat \<Rightarrow> time \<Rightarrow> campaign \<Rightarrow> control_world \<Rightarrow> control_world" where
  "fleet_answered s ready resourcesAllowed registryIds checks start c w =
     (let note = (\<lambda>d. if ready then d\<lparr>cp_nextRetryAt := None\<rparr>
                      else d\<lparr>cp_nextRetryAt := Some (cw_now w + cs_fleetRetryMs s), cp_lastError := False\<rparr>);
          w1 = update_object (cp_object c) note w
      in pump_launch s resourcesAllowed start registryIds checks (note (held_campaign c w)) w1)"

definition fleet_failed :: "string set \<Rightarrow> nat \<Rightarrow> campaign \<Rightarrow> control_world \<Rightarrow> control_world" where
  "fleet_failed registryIds checks c w =
     (update_object (cp_object c) (note_failure (cw_now w)) w)\<lparr>cw_pump := PumpTurn registryIds checks\<rparr>"

section \<open>The end of a run\<close>

text \<open>The first part of \<open>finalizeRun\<close>, for the runs whose exit is reported.\<close>

definition exits_reported :: "string list \<Rightarrow> int \<Rightarrow> control_world \<Rightarrow> control_world" where
  "exits_reported rids code w =
     w\<lparr>cw_runs := update_where (\<lambda>r. rn_id r \<in> set rids \<and> rn_exitCode r = None) (\<lambda>r. r\<lparr>rn_exitCode := Some code, rn_alive := False\<rparr>) (cw_runs w)\<rparr>"

definition finalize_campaign :: "run \<Rightarrow> int \<Rightarrow> campaign \<Rightarrow> campaign" where
  "finalize_campaign r code c =
     (let c1 = c\<lparr>cp_activeRunId := None, cp_lastError := (code \<noteq> 0 \<and> code \<noteq> 143)\<rparr>
      in if cp_restartPending c then c1\<lparr>cp_restartPending := False, cp_desiredRunning := True, cp_status := Queued\<rparr>
         else if cp_desiredRunning c \<and> rn_continuous r then c1\<lparr>cp_status := Queued\<rparr>
         else c1\<lparr>cp_desiredRunning := False,
                 cp_status := (if rp_schedule (cp_config c) \<noteq> None then Scheduled else if code = 0 then Completed else Stopped)\<rparr>)"

text \<open>The rest of it, after the captures of the run are through.\<close>

definition finalizeRun :: "run \<Rightarrow> int \<Rightarrow> control_world \<Rightarrow> control_world" where
  "finalizeRun r code w =
     (let w1 = (case rn_campaignRecordId r of None \<Rightarrow> w | Some k \<Rightarrow> update_campaign_row k (finalize_campaign r code) w)
      in w1\<lparr>cw_runs := update_where (\<lambda>x. rn_id x = rn_id r) (\<lambda>x. x\<lparr>rn_listed := False, rn_finalized := True\<rparr>) (cw_runs w1)\<rparr>)"

section \<open>Operator commands\<close>

definition start_campaign :: "string \<Rightarrow> control_world \<Rightarrow> launch_error + control_world" where
  "start_campaign k w =
     (case get_campaign k w of
        None \<Rightarrow> Inl CampaignNotFound
      | Some c \<Rightarrow>
          if cp_proxySelectionPending c then Inl SelectionPending
          else if cp_activeRunId c \<noteq> None then Inr w
          else Inr (update_campaign_row k (\<lambda>c. c\<lparr>cp_desiredRunning := True, cp_status := Queued, cp_lastError := False,
                 cp_retryCount := 0, cp_nextRetryAt := None\<rparr>) w))"

definition stop_campaign :: "string \<Rightarrow> control_world \<Rightarrow> launch_error + control_world" where
  "stop_campaign k w =
     (case get_campaign k w of
        None \<Rightarrow> Inl CampaignNotFound
      | Some _ \<Rightarrow> Inr (terminateRun (run_of_campaign k w)
          (update_campaign_row k (\<lambda>c. c\<lparr>cp_desiredRunning := False, cp_restartPending := False, cp_status := Stopped\<rparr>) w)))"

definition restart_campaign :: "string \<Rightarrow> control_world \<Rightarrow> launch_error + control_world" where
  "restart_campaign k w =
     (case get_campaign k w of
        None \<Rightarrow> Inl CampaignNotFound
      | Some c \<Rightarrow>
          if cp_proxySelectionPending c then Inl SelectionPending
          else Inr (terminateRun (run_of_campaign k w)
            (update_campaign_row k (\<lambda>c. c\<lparr>cp_desiredRunning := True, cp_status := Queued, cp_restartPending := (run_of_campaign k w \<noteq> None),
               cp_lastError := False, cp_retryCount := 0, cp_nextRetryAt := None\<rparr>) w)))"

text \<open>Deleting asks the bridge first; the campaign goes when the bridge has answered.\<close>

definition delete_campaign :: "string \<Rightarrow> control_world \<Rightarrow> launch_error + control_world" where
  "delete_campaign k w =
     (case get_campaign k w of
        None \<Rightarrow> Inl CampaignNotFound
      | Some _ \<Rightarrow> Inr ((terminateRun (run_of_campaign k w) w)\<lparr>cw_deleting := cw_deleting w @ [k]\<rparr>))"

definition bridge_deleted :: "string \<Rightarrow> bool \<Rightarrow> control_world \<Rightarrow> control_world" where
  "bridge_deleted k answered w =
     (if answered then w\<lparr>cw_deleting := remove1 k (cw_deleting w), cw_campaigns := filter (\<lambda>c. cp_id c \<noteq> k) (cw_campaigns w)\<rparr>
      else w\<lparr>cw_deleting := remove1 k (cw_deleting w)\<rparr>)"

definition set_active_limit :: "js_number \<Rightarrow> control_world \<Rightarrow> control_world" where
  "set_active_limit v w =
     w\<lparr>cw_activeLimit := (case v of
         Num r \<Rightarrow> nat (min 5000 (max 1 (if r = 0 then 1 else if 0 \<le> r then \<lfloor>r\<rfloor> else - \<lfloor>- r\<rfloor>)))
       | PosInf \<Rightarrow> 5000 | _ \<Rightarrow> 1)\<rparr>"

text \<open>\<open>cancel_run\<close> and \<open>remove_run\<close>; \<open>pidLives\<close> says whether the recorded process of a shared run, its worker, is alive.\<close>

definition listed_run :: "string \<Rightarrow> control_world \<Rightarrow> run option" where
  "listed_run rid w = find (\<lambda>r. rn_listed r \<and> rn_id r = rid) (cw_runs w)"

definition cancel_run :: "string \<Rightarrow> control_world \<Rightarrow> control_world" where
  "cancel_run rid w = terminateRun (listed_run rid w) w"

definition remove_run :: "string \<Rightarrow> bool \<Rightarrow> control_world \<Rightarrow> launch_error + control_world" where
  "remove_run rid pidLives w =
     (case listed_run rid w of
        None \<Rightarrow> Inr w
      | Some r \<Rightarrow> if (if rn_shared r then pidLives else rn_alive r) then Inl RunStillActive else Inr (unlist_run rid w))"

section \<open>Schedules and the watchdog\<close>

text \<open>\<open>reconcileCampaignSchedules\<close> for one campaign, with the window of its schedule.\<close>

definition reconcile_campaign :: "(schedule \<Rightarrow> schedule_window) \<Rightarrow> control_world \<Rightarrow> campaign \<Rightarrow> campaign" where
  "reconcile_campaign windows w c =
     (case rp_schedule (cp_config c) of
        None \<Rightarrow> c
      | Some sd \<Rightarrow>
         if cp_proxySelectionPending c \<or> rp_draftOnly (cp_config c) then c
         else (let window = windows sd; active = (run_of_campaign (cp_id c) w \<noteq> None)
           in if \<not> sw_active window
              then c\<lparr>cp_status := (if \<not> active \<and> cp_status c \<noteq> Queued \<and> cp_status c \<noteq> Scheduled then Scheduled else cp_status c),
                     cp_desiredRunning := False\<rparr>
              else if \<not> active \<and> cp_lastStartedWindow c \<noteq> Some (sw_windowKey window)
              then c\<lparr>cp_lastStartedWindow := Some (sw_windowKey window), cp_desiredRunning := True, cp_status := Queued\<rparr>
              else c))"

definition closes_window :: "(schedule \<Rightarrow> schedule_window) \<Rightarrow> campaign \<Rightarrow> bool" where
  "closes_window windows c \<longleftrightarrow> (case rp_schedule (cp_config c) of None \<Rightarrow> False
     | Some sd \<Rightarrow> \<not> cp_proxySelectionPending c \<and> \<not> rp_draftOnly (cp_config c) \<and> \<not> sw_active (windows sd))"

definition reconcileCampaignSchedules :: "(schedule \<Rightarrow> schedule_window) \<Rightarrow> control_world \<Rightarrow> control_world" where
  "reconcileCampaignSchedules windows w =
     w\<lparr>cw_campaigns := map (reconcile_campaign windows w) (cw_campaigns w),
       cw_stopping := cw_stopping w \<union> set (List.map_filter (\<lambda>c.
          if closes_window windows c then map_option rn_id (run_of_campaign (cp_id c) w) else None) (cw_campaigns w))\<rparr>"

text \<open>Whether the watchdog restarts a run. A valid retry advice postpones it; the largest date is 8640000000000000.\<close>

definition retry_holds :: "ms \<Rightarrow> time \<Rightarrow> run \<Rightarrow> bool" where
  "retry_holds staleMs now r \<longleftrightarrow>
     (case rn_captureRetry r of
        None \<Rightarrow> False
      | Some a \<Rightarrow> 60000 \<le> cr_delayMs a \<and> cr_rejectionAt a \<le> cr_notBefore a \<and> cr_notBefore a \<le> 8640000000000000
          \<and> cr_notBefore a - cr_rejectionAt a \<le> cr_delayMs a \<and> now < cr_notBefore a + staleMs)"

definition stalled :: "control_settings \<Rightarrow> control_world \<Rightarrow> run \<Rightarrow> bool" where
  "stalled s w r \<longleftrightarrow> is_active (cw_pool w) r \<and> rn_continuous r \<and> rn_watchdogTriggeredAt r = None
     \<and> (case rn_campaignRecordId r of None \<Rightarrow> False
        | Some k \<Rightarrow> (case get_campaign k w of None \<Rightarrow> False | Some c \<Rightarrow> cp_desiredRunning c))
     \<and> \<not> retry_holds (cs_progressStaleMs s) (cw_now w) r \<and> cs_progressStaleMs s \<le> cw_now w - rn_lastProgressAt r"

definition recoverStalledContinuousRuns :: "control_settings \<Rightarrow> control_world \<Rightarrow> control_world" where
  "recoverStalledContinuousRuns s w =
     w\<lparr>cw_runs := update_where (stalled s w) (\<lambda>r. r\<lparr>rn_watchdogTriggeredAt := Some (cw_now w)\<rparr>) (cw_runs w),
       cw_stopping := cw_stopping w \<union> rn_id ` set (filter (stalled s w) (cw_runs w))\<rparr>"

text \<open>Progress of a run: a route decision, an accepted capture, or a rejected one with its retry advice.\<close>

datatype progress = RouteDecided | Captured | Rejected "capture_retry option"

definition accepts_rejection :: "control_world \<Rightarrow> run \<Rightarrow> bool" where
  "accepts_rejection w r \<longleftrightarrow> rn_exitCode r = None
     \<and> (case rn_campaignRecordId r of None \<Rightarrow> True
        | Some k \<Rightarrow> (case get_campaign k w of None \<Rightarrow> False | Some c \<Rightarrow> cp_activeRunId c = Some (rn_id r) \<and> cp_desiredRunning c))"

definition with_progress :: "control_world \<Rightarrow> progress \<Rightarrow> run \<Rightarrow> run" where
  "with_progress w p r =
     (case p of
        RouteDecided \<Rightarrow> r\<lparr>rn_lastProgressAt := cw_now w\<rparr>
      | Captured \<Rightarrow> r\<lparr>rn_lastProgressAt := cw_now w, rn_captureRetry := None\<rparr>
      | Rejected a \<Rightarrow> if accepts_rejection w r then r\<lparr>rn_lastProgressAt := cw_now w, rn_captureRetry := a\<rparr> else r)"

definition note_progress :: "string \<Rightarrow> progress \<Rightarrow> control_world \<Rightarrow> control_world" where
  "note_progress rid p w = w\<lparr>cw_runs := update_where (\<lambda>r. rn_id r = rid) (with_progress w p) (cw_runs w)\<rparr>"

section \<open>Saving campaigns\<close>

text \<open>\<open>saveCampaignInternal\<close> between its awaits. \<open>selection\<close> is the proxy selection of the payload: whether it names a pool of
  the registry, and whether it differs from the campaign's present one; without a selection, \<open>policyEnabled\<close> is what the
  policy of the campaign says.\<close>

definition selection_allowed :: "campaign option \<Rightarrow> (bool \<times> bool) option \<Rightarrow> bool" where
  "selection_allowed existing selection \<longleftrightarrow>
     (case (existing, selection) of
        (Some c, Some (_, True)) \<Rightarrow> cp_status c = Stopped \<and> \<not> cp_desiredRunning c \<and> cp_activeRunId c = None
      | _ \<Rightarrow> True)"

definition uses_registry :: "(bool \<times> bool) option \<Rightarrow> bool \<Rightarrow> bool" where
  "uses_registry selection policyEnabled = (case selection of Some (registry, _) \<Rightarrow> registry | None \<Rightarrow> policyEnabled)"

definition saved_port :: "run_payload \<Rightarrow> bool \<Rightarrow> js_number option \<Rightarrow> launch_error + int" where
  "saved_port p registry fallback =
     (if registry then Inr 0
      else (let v = (case rp_proxyPort p of Some n \<Rightarrow> n | None \<Rightarrow> (case fallback of Some n \<Rightarrow> n | None \<Rightarrow> NaN))
            in if int_within 1 65535 v then Inr (the (js_int v)) else Inl InvalidGatewayPort))"

definition delivery_checks :: "bool \<Rightarrow> run_payload \<Rightarrow> (bool \<times> launch_error) list" where
  "delivery_checks registry p =
     [(registry \<and> (rp_tier p \<noteq> ''human'' \<or> rp_mitm p), SavedPolicyMode),
      (rp_syncGoogleAds p \<and> rp_useScriptMesh p, ConflictingDelivery),
      (rp_useScriptMesh p \<and> (rp_customerId p = [] \<or> rp_googleCampaignId p = []), DeliveryIds),
      (rp_useScriptMesh p \<and> length (normalizedGoogleAdsId (rp_loginCustomerId p)) \<noteq> 10, NeedsManagerId)]
     @ (if rp_useScriptMesh p then fleet_target_checks p else [])"

definition MAX_SAVED_CAMPAIGNS :: nat where "MAX_SAVED_CAMPAIGNS = 5000"

definition same_target :: "run_payload \<Rightarrow> string \<Rightarrow> campaign \<Rightarrow> bool" where
  "same_target p k c \<longleftrightarrow> cp_id c \<noteq> k
     \<and> normalizedGoogleAdsId (rp_customerId (cp_config c)) = normalizedGoogleAdsId (rp_customerId p)
     \<and> normalizedGoogleAdsId (rp_googleCampaignId (cp_config c)) = normalizedGoogleAdsId (rp_googleCampaignId p)"

definition owner_checks :: "run_payload \<Rightarrow> string \<Rightarrow> campaign list \<Rightarrow> (bool \<times> launch_error) list" where
  "owner_checks p k cs =
     (if rp_syncGoogleAds p \<or> rp_useScriptMesh p
      then [(normalizedGoogleAdsId (rp_customerId p) = [] \<or> normalizedGoogleAdsId (rp_googleCampaignId p) = [], DeliveryIds),
            (list_ex (same_target p k) cs, TargetOwned (case find (same_target p k) cs of Some c \<Rightarrow> cp_id c | None \<Rightarrow> []))]
      else [])"

definition pad6 :: "nat \<Rightarrow> string" where
  "pad6 n = (let d = nat_digits n in replicate (6 - length d) (CHR ''0'') @ d)"

definition clean_text :: "nat \<Rightarrow> string \<Rightarrow> string" where
  "clean_text n s = take n (js_trim s)"

text \<open>The configuration that is stored: one repetition, one browser, and continuous exactly for browser journeys.\<close>

definition stored_config :: "run_payload \<Rightarrow> int \<Rightarrow> run_payload" where
  "stored_config p port =
     p\<lparr>rp_proxyPort := Some (Num (of_int port)), rp_customerId := clean_text 40 (rp_customerId p),
       rp_googleCampaignId := clean_text 80 (rp_googleCampaignId p), rp_loginCustomerId := clean_text 40 (rp_loginCustomerId p),
       rp_repeats := Num 1, rp_concurrent := Num 1, rp_continuous := (rp_tier p = ''human'')\<rparr>"

definition saved_campaign :: "control_world \<Rightarrow> campaign option \<Rightarrow> run_payload \<Rightarrow> int \<Rightarrow> campaign" where
  "saved_campaign w existing p port =
     (case existing of
        Some c \<Rightarrow> c\<lparr>cp_object := cw_objects w, cp_config := stored_config p port, cp_retryCount := 0, cp_nextRetryAt := None\<rparr>
      | None \<Rightarrow>
          \<lparr>cp_object = cw_objects w, cp_id = ''campaign-'' @ pad6 (cw_campaignSequence w + 1), cp_number = cw_campaignSequence w + 1,
           cp_status = (if rp_schedule p \<noteq> None then Scheduled else Stopped), cp_desiredRunning = False, cp_activeRunId = None,
           cp_restartPending = False, cp_lastError = False, cp_proxySelectionPending = False, cp_lastStartedWindow = None,
           cp_retryCount = 0, cp_nextRetryAt = None, cp_config = stored_config p port\<rparr>)"

definition put_campaign :: "campaign \<Rightarrow> control_world \<Rightarrow> control_world" where
  "put_campaign c w =
     w\<lparr>cw_objects := cw_objects w + 1, cw_campaignSequence := max (cw_campaignSequence w) (cp_number c),
       cw_campaigns := (if list_ex (\<lambda>d. cp_id d = cp_id c) (cw_campaigns w)
         then update_where (\<lambda>d. cp_id d = cp_id c) (\<lambda>_. c) (cw_campaigns w) else cw_campaigns w @ [c])\<rparr>"

text \<open>The first part of \<open>settleCampaignProxySelection\<close> makes a campaign with a new selection one that cannot be started.\<close>

definition draft :: "campaign \<Rightarrow> campaign" where
  "draft c = c\<lparr>cp_proxySelectionPending := True, cp_status := Stopped, cp_desiredRunning := False\<rparr>"

definition selection_changed :: "(bool \<times> bool) option \<Rightarrow> bool" where
  "selection_changed selection = (case selection of Some (_, changed) \<Rightarrow> changed | None \<Rightarrow> False)"

definition commit_save :: "control_settings \<Rightarrow> string option \<Rightarrow> run_payload \<Rightarrow> (bool \<times> bool) option \<Rightarrow> bool \<Rightarrow> control_world \<Rightarrow> launch_error + control_world" where
  "commit_save s k p selection policyEnabled w =
     (let existing = (case k of None \<Rightarrow> None | Some i \<Rightarrow> get_campaign i w); registry = uses_registry selection policyEnabled;
          key = (case k of Some i \<Rightarrow> i | None \<Rightarrow> [])
      in bindE (check_all [(\<not> selection_allowed existing selection, AlreadyRunning)]) (\<lambda>_.
         bindE (validate (cs_env s) (cw_proxy w \<noteq> None) registry p) (\<lambda>_.
         bindE (check_all (delivery_checks registry p)) (\<lambda>_.
         bindE (saved_port p registry (cw_proxy w)) (\<lambda>port.
         bindE (case rp_schedule p of None \<Rightarrow> Inr () | Some sd \<Rightarrow>
                  (case check_campaign_schedule (pe_timezone (cs_env s)) (pe_print (cs_env s)) sd of Inl e \<Rightarrow> Inl (InvalidSchedule e) | Inr _ \<Rightarrow> Inr ())) (\<lambda>_.
         bindE (check_all ([(k \<noteq> None \<and> existing = None, CampaignNotFound),
                  (existing = None \<and> MAX_SAVED_CAMPAIGNS \<le> length (cw_campaigns w), TooManyCampaigns)] @ owner_checks p key (cw_campaigns w))) (\<lambda>_.
           let c = saved_campaign w existing p port; changed = selection_changed selection
           in Inr ((put_campaign (if changed then draft c else c) w)
                \<lparr>cw_saves := cw_saves w @ [\<lparr>sv_campaign = c, sv_changed = changed, sv_create = (existing = None)\<rparr>]\<rparr>))))))))"

text \<open>The assignment of the provider has succeeded or failed.\<close>

definition save_settled :: "save \<Rightarrow> bool \<Rightarrow> control_world \<Rightarrow> control_world" where
  "save_settled v assigned w =
     (if assigned
      then (update_object (cp_object (sv_campaign v)) (\<lambda>c. c\<lparr>cp_proxySelectionPending := False, cp_status := cp_status (sv_campaign v), cp_lastError := False\<rparr>) w)
             \<lparr>cw_saves := v\<lparr>sv_changed := False\<rparr> # remove1 v (cw_saves w)\<rparr>
      else (update_object (cp_object (sv_campaign v)) (\<lambda>c. (draft c)\<lparr>cp_lastError := True\<rparr>) w)\<lparr>cw_saves := remove1 v (cw_saves w)\<rparr>)"

text \<open>The end of \<open>create_campaign\<close> and \<open>update_campaign\<close>, after the fleet target is registered: a new campaign without a schedule
  is queued. If the registration fails, the command ends without it.\<close>

definition save_finished :: "save \<Rightarrow> bool \<Rightarrow> control_world \<Rightarrow> control_world" where
  "save_finished v registered w =
     (let c = sv_campaign v; w1 = w\<lparr>cw_saves := remove1 v (cw_saves w)\<rparr>
      in if registered \<and> sv_create v \<and> rp_schedule (cp_config c) = None \<and> \<not> rp_draftOnly (cp_config c)
         then update_object (cp_object c) (\<lambda>c. c\<lparr>cp_desiredRunning := True, cp_status := Queued\<rparr>) w1 else w1)"

text \<open>A campaign read back when the process starts: from the file or from the database.\<close>

definition restored_campaign :: "bool \<Rightarrow> campaign \<Rightarrow> campaign" where
  "restored_campaign database c =
     c\<lparr>cp_activeRunId := None, cp_status := (if cp_status c = Running then (if database then Queued else Stopped) else cp_status c)\<rparr>"

section \<open>Steps\<close>

inductive control_step :: "control_settings \<Rightarrow> control_world \<Rightarrow> control_world \<Rightarrow> bool" for s where
  clock: "cw_now w \<le> t \<Longrightarrow> control_step s w (w\<lparr>cw_now := t\<rparr>)"
| gateway: "control_step s w (w\<lparr>cw_proxy := v\<rparr>)"
| pump_starts: "cw_pump w = PumpIdle \<Longrightarrow> control_step s w (pump_begin w)"
| registry_read: "cw_pump w = PumpReading \<Longrightarrow> control_step s w (w\<lparr>cw_pump := PumpTurn ids 0\<rparr>)"
| registry_fails: "cw_pump w = PumpReading \<Longrightarrow> control_step s w (w\<lparr>cw_pump := PumpIdle\<rparr>)"
| pump_turns: "cw_pump w = PumpTurn ids n \<Longrightarrow> control_step s w (pump_turn s resources ids n w)"
| fleet_answers: "cw_pump w = PumpFleet ids n t c \<Longrightarrow> control_step s w (fleet_answered s ready resources ids n t c w)"
| fleet_fails: "cw_pump w = PumpFleet ids n t c \<Longrightarrow> control_step s w (fleet_failed ids n c w)"
| operator_launch: "control_step s w (begin_launch s FromOperator k p w)"
| policy_known: "l \<in> set (cw_launches w) \<Longrightarrow> la_stage l = AwaitPolicy \<Longrightarrow> control_step s w (policy_read s l policyEnabled w)"
| target_known: "l \<in> set (cw_launches w) \<Longrightarrow> la_stage l = AwaitTarget registry \<Longrightarrow> CHR ''-'' \<notin> set stamp
    \<Longrightarrow> control_step s w (target_allowed s l registry stamp w)"
| await_fails: "l \<in> set (cw_launches w) \<Longrightarrow> la_stage l = AwaitPolicy \<or> la_stage l = AwaitTarget registry
    \<Longrightarrow> control_step s w (launch_failed s l w)"
| message: "l \<in> set (cw_launches w) \<Longrightarrow> la_stage l = AwaitSend rid \<Longrightarrow> control_step s w (message_sent s l rid sent w)"
| run_dies: "control_step s w (w\<lparr>cw_runs := update_where (\<lambda>r. rn_id r = rid) (\<lambda>r. r\<lparr>rn_alive := False\<rparr>) (cw_runs w)\<rparr>)"
| run_exits: "r \<in> set (cw_runs w) \<Longrightarrow> \<not> rn_shared r \<Longrightarrow> control_step s w (exits_reported [rn_id r] code w)"
| pool_reports: "handle_event v (cw_pool w) = (rids, pool) \<Longrightarrow> control_step s w (exits_reported rids code (w\<lparr>cw_pool := pool\<rparr>))"
| finalizes: "r \<in> set (cw_runs w) \<Longrightarrow> rn_exitCode r = Some code \<Longrightarrow> \<not> rn_finalized r \<Longrightarrow> control_step s w (finalizeRun r code w)"
| starts: "start_campaign k w = Inr w' \<Longrightarrow> control_step s w w'"
| stops: "stop_campaign k w = Inr w' \<Longrightarrow> control_step s w w'"
| restarts: "restart_campaign k w = Inr w' \<Longrightarrow> control_step s w w'"
| deletes: "delete_campaign k w = Inr w' \<Longrightarrow> control_step s w w'"
| bridge: "k \<in> set (cw_deleting w) \<Longrightarrow> control_step s w (bridge_deleted k answered w)"
| saves: "commit_save s k p selection policyEnabled w = Inr w' \<Longrightarrow> control_step s w w'"
| settles: "v \<in> set (cw_saves w) \<Longrightarrow> sv_changed v \<Longrightarrow> control_step s w (save_settled v assigned w)"
| finishes: "v \<in> set (cw_saves w) \<Longrightarrow> \<not> sv_changed v \<Longrightarrow> control_step s w (save_finished v registered w)"
| cancels: "control_step s w (cancel_run rid w)"
| removes: "remove_run rid pidLives w = Inr w' \<Longrightarrow> control_step s w w'"
| limit: "control_step s w (set_active_limit n w)"
| schedules: "control_step s w (reconcileCampaignSchedules windows w)"
| watchdog: "control_step s w (recoverStalledContinuousRuns s w)"
| progresses: "control_step s w (note_progress rid p w)"

end
