(* ===== verification/Campaign_Safety.thy ===== *)
theory Campaign_Safety
  imports Campaign_Control "HOL-Library.Sublist"
begin

text \<open>
  What the campaign controller guarantees: the claims of the active runs on campaigns, gateway ports, worker slots,
  concurrency, browsers and request rate stay within the limits whatever the order in which launches, exits, operator
  commands, saves and the watchdog interleave; and what it does not guarantee, as worlds it reaches.
\<close>

section \<open>What a run claims\<close>

record claim =
  cl_campaign :: "string option"
  cl_port :: "int option"
  cl_concurrent :: int
  cl_own :: int
  cl_browsers :: int
  cl_rps :: int

definition claim_of :: "run \<Rightarrow> claim" where
  "claim_of r =
     \<lparr>cl_campaign = rn_campaignRecordId r, cl_port = rn_proxyPort r, cl_concurrent = rn_concurrent r,
      cl_own = (if permit_managed r then 0 else rn_concurrent r),
      cl_browsers = (if rn_tier r = ''trivial-http'' \<or> permit_managed r then 0 else rn_concurrent r),
      cl_rps = rn_targetRps r\<rparr>"

definition claims :: "control_world \<Rightarrow> claim list" where
  "claims w = map claim_of (activeRuns w)"

definition claims_fit :: "control_settings \<Rightarrow> claim list \<Rightarrow> bool" where
  "claims_fit s cs \<longleftrightarrow> distinct (List.map_filter cl_campaign cs) \<and> distinct (List.map_filter cl_port cs)
     \<and> length cs \<le> cs_maxLocalWorkers s \<and> (\<forall>c\<in>set cs. 0 \<le> cl_concurrent c \<and> 0 \<le> cl_own c \<and> 0 \<le> cl_browsers c \<and> 0 \<le> cl_rps c)
     \<and> sum_list (map cl_own cs) \<le> cs_maxTotalConcurrency s \<and> sum_list (map cl_browsers cs) \<le> cs_maxBrowserConcurrency s
     \<and> sum_list (map cl_rps cs) \<le> cs_maxTotalRps s"

text \<open>Claims that end leave fewer claims, which fit when the others did.\<close>

lemma subseq_map_filter: "subseq xs ys \<Longrightarrow> subseq (List.map_filter f xs) (List.map_filter f ys)"
proof (induction rule: list_emb.induct)
  case (list_emb_Cons xs ys y)
  then show ?case by (auto simp: map_filter_simps split: option.splits)
next
  case (list_emb_Cons2 x y xs ys)
  then show ?case by (auto simp: map_filter_simps split: option.splits)
qed (simp add: map_filter_simps)

lemma subseq_sum:
  fixes f :: "'a \<Rightarrow> int"
  shows "subseq xs ys \<Longrightarrow> (\<And>y. y \<in> set ys \<Longrightarrow> 0 \<le> f y) \<Longrightarrow> sum_list (map f xs) \<le> sum_list (map f ys)"
proof (induction rule: list_emb.induct)
  case (list_emb_Nil ys)
  then show ?case by (auto intro!: sum_list_nonneg)
next
  case (list_emb_Cons xs ys y)
  then have "sum_list (map f xs) \<le> sum_list (map f ys)" "0 \<le> f y" by simp_all
  then show ?case by simp
qed simp

lemma subseq_set: "subseq xs ys \<Longrightarrow> set xs \<subseteq> set ys"
  by (induction rule: list_emb.induct) auto

lemma subseq_distinct: "subseq xs ys \<Longrightarrow> distinct ys \<Longrightarrow> distinct xs"
  by (induction rule: list_emb.induct) (auto dest: subseq_set)

lemma claims_fit_subseq:
  assumes "claims_fit s ys" "subseq xs ys"
  shows "claims_fit s xs"
proof -
  have pos: "\<forall>c\<in>set ys. 0 \<le> cl_concurrent c \<and> 0 \<le> cl_own c \<and> 0 \<le> cl_browsers c \<and> 0 \<le> cl_rps c" using assms(1) by (simp add: claims_fit_def)
  have "distinct (List.map_filter cl_campaign xs)" "distinct (List.map_filter cl_port xs)"
    using assms subseq_distinct subseq_map_filter unfolding claims_fit_def by blast+
  moreover have "length xs \<le> length ys" using assms(2) by (rule list_emb_length)
  moreover have "sum_list (map cl_own xs) \<le> sum_list (map cl_own ys)" "sum_list (map cl_browsers xs) \<le> sum_list (map cl_browsers ys)"
    "sum_list (map cl_rps xs) \<le> sum_list (map cl_rps ys)"
    using pos by (auto intro: subseq_sum [OF assms(2)])
  moreover have "set xs \<subseteq> set ys" using assms(2) by (rule subseq_set)
  ultimately show ?thesis using assms(1) unfolding claims_fit_def by (auto simp: subset_iff)
qed

section \<open>Steps that start no run\<close>

text \<open>Such a step may end runs and change what is not claimed; it keeps the numbering of runs.\<close>

definition keeps_runs :: "control_settings \<Rightarrow> control_world \<Rightarrow> control_world \<Rightarrow> bool" where
  "keeps_runs s w w' \<longleftrightarrow>
     (\<exists>g. cw_runs w' = map g (cw_runs w)
        \<and> (\<forall>r. claim_of (g r) = claim_of r \<and> rn_id (g r) = rn_id r \<and> (is_active (cw_pool w') (g r) \<longrightarrow> is_active (cw_pool w) r)))
     \<and> cw_sequence w' = cw_sequence w \<and> (pool_ok (cs_pool s) (cw_pool w) \<longrightarrow> pool_ok (cs_pool s) (cw_pool w'))"

lemma keeps_same: "cw_runs w' = cw_runs w \<Longrightarrow> cw_pool w' = cw_pool w \<Longrightarrow> cw_sequence w' = cw_sequence w \<Longrightarrow> keeps_runs s w w'"
  unfolding keeps_runs_def by (auto intro: exI [of _ id])

lemma keeps_update:
  assumes "cw_runs w' = update_where P f (cw_runs w)" "cw_pool w' = cw_pool w" "cw_sequence w' = cw_sequence w"
    "\<And>r. claim_of (f r) = claim_of r" "\<And>r. rn_id (f r) = rn_id r" "\<And>r. is_active (cw_pool w) (f r) \<Longrightarrow> is_active (cw_pool w) r"
  shows "keeps_runs s w w'"
  unfolding keeps_runs_def using assms
  by (auto simp: update_where_def intro!: exI [of _ "\<lambda>r. if P r then f r else r"] split: if_splits)

lemma keeps_trans:
  assumes "keeps_runs s u v" "keeps_runs s v w"
  shows "keeps_runs s u w"
proof -
  obtain f where f: "cw_runs v = map f (cw_runs u)"
    "\<And>r. claim_of (f r) = claim_of r \<and> rn_id (f r) = rn_id r \<and> (is_active (cw_pool v) (f r) \<longrightarrow> is_active (cw_pool u) r)"
    using assms(1) unfolding keeps_runs_def by blast
  obtain g where g: "cw_runs w = map g (cw_runs v)"
    "\<And>r. claim_of (g r) = claim_of r \<and> rn_id (g r) = rn_id r \<and> (is_active (cw_pool w) (g r) \<longrightarrow> is_active (cw_pool v) r)"
    using assms(2) unfolding keeps_runs_def by blast
  show ?thesis using assms f g unfolding keeps_runs_def by (auto intro!: exI [of _ "g \<circ> f"])
qed

lemma filter_map_subseq:
  "(\<And>r. h (g r) = h r) \<Longrightarrow> (\<And>r. Q (g r) \<Longrightarrow> P r) \<Longrightarrow> subseq (map h (filter Q (map g rs))) (map h (filter P rs))"
  by (induction rs) auto

lemma keeps_claims:
  assumes "keeps_runs s w w'"
  shows "subseq (claims w') (claims w)"
proof -
  from assms obtain g where g: "cw_runs w' = map g (cw_runs w)" "\<And>r. claim_of (g r) = claim_of r"
    "\<And>r. is_active (cw_pool w') (g r) \<Longrightarrow> is_active (cw_pool w) r"
    unfolding keeps_runs_def by blast
  show ?thesis unfolding claims_def activeRuns_def g(1) by (rule filter_map_subseq) (rule g(2), rule g(3))
qed

text \<open>Everything that is not the admission of a launch is such a step.\<close>

lemma world_parts [simp]:
  "cw_runs (update_object k f w) = cw_runs w" "cw_pool (update_object k f w) = cw_pool w" "cw_sequence (update_object k f w) = cw_sequence w"
  "cw_launches (update_object k f w) = cw_launches w" "cw_objects (update_object k f w) = cw_objects w"
  "cw_runs (update_campaign_row i f w) = cw_runs w" "cw_pool (update_campaign_row i f w) = cw_pool w"
  "cw_sequence (update_campaign_row i f w) = cw_sequence w" "cw_launches (update_campaign_row i f w) = cw_launches w"
  "cw_objects (update_campaign_row i f w) = cw_objects w"
  "cw_runs (terminateRun x w) = cw_runs w" "cw_pool (terminateRun x w) = cw_pool w" "cw_sequence (terminateRun x w) = cw_sequence w"
  "cw_launches (terminateRun x w) = cw_launches w" "cw_objects (terminateRun x w) = cw_objects w"
  "cw_runs (after_attempt s w) = cw_runs w" "cw_pool (after_attempt s w) = cw_pool w" "cw_sequence (after_attempt s w) = cw_sequence w"
  "cw_launches (after_attempt s w) = cw_launches w" "cw_objects (after_attempt s w) = cw_objects w"
  "cw_runs (drop_launch l w) = cw_runs w" "cw_pool (drop_launch l w) = cw_pool w" "cw_sequence (drop_launch l w) = cw_sequence w"
  "cw_objects (drop_launch l w) = cw_objects w"
  "cw_runs (set_stage l st w) = cw_runs w" "cw_pool (set_stage l st w) = cw_pool w" "cw_sequence (set_stage l st w) = cw_sequence w"
  "cw_objects (set_stage l st w) = cw_objects w"
  "cw_pool (unlist_run i w) = cw_pool w" "cw_sequence (unlist_run i w) = cw_sequence w" "cw_launches (unlist_run i w) = cw_launches w"
  "cw_objects (unlist_run i w) = cw_objects w"
  by (simp_all add: update_object_def update_campaign_row_def terminateRun_def after_attempt_def drop_launch_def set_stage_def
      unlist_run_def split: option.splits)

lemma launch_failed_parts [simp]:
  "cw_runs (launch_failed s l w) = cw_runs w" "cw_pool (launch_failed s l w) = cw_pool w"
  "cw_sequence (launch_failed s l w) = cw_sequence w" "cw_objects (launch_failed s l w) = cw_objects w"
  "cw_launches (launch_failed s l w) = filter (\<lambda>x. la_key x \<noteq> la_key l) (cw_launches w)"
  by (simp_all add: launch_failed_def split: launch_origin.splits) (simp_all add: drop_launch_def)

lemma launch_done_parts [simp]:
  "cw_runs (launch_done s l i w) = cw_runs w" "cw_pool (launch_done s l i w) = cw_pool w"
  "cw_sequence (launch_done s l i w) = cw_sequence w" "cw_objects (launch_done s l i w) = cw_objects w"
  "cw_launches (launch_done s l i w) = filter (\<lambda>x. la_key x \<noteq> la_key l) (cw_launches w)"
  by (simp_all add: launch_done_def split: launch_origin.splits) (simp_all add: drop_launch_def)

lemma unlist_keeps: "keeps_runs s w (unlist_run i w)"
  by (rule keeps_update [where f = "\<lambda>r. r\<lparr>rn_listed := False\<rparr>" and P = "\<lambda>r. rn_id r = i"])
    (simp_all add: unlist_run_def claim_of_def permit_managed_def is_active_def)

lemma begin_launch_parts [simp]:
  "cw_runs (begin_launch s origin k p w) = cw_runs w" "cw_pool (begin_launch s origin k p w) = cw_pool w"
  "cw_sequence (begin_launch s origin k p w) = cw_sequence w" "cw_objects (begin_launch s origin k p w) = cw_objects w + 1"
  by (simp_all add: begin_launch_def Let_def)

section \<open>Numbering of runs\<close>

lemma before_dash:
  "CHR ''-'' \<notin> set a \<Longrightarrow> CHR ''-'' \<notin> set b \<Longrightarrow> a @ CHR ''-'' # c = b @ CHR ''-'' # d \<Longrightarrow> a = b \<and> c = d"
proof (induction a arbitrary: b)
  case Nil
  then show ?case by (cases b) auto
next
  case (Cons x a)
  then show ?case by (cases b) auto
qed

lemma run_id_inject:
  assumes "CHR ''-'' \<notin> set a" "CHR ''-'' \<notin> set b" "run_id a m = run_id b n"
  shows "m = n"
proof -
  have "a @ CHR ''-'' # nat_digits m = b @ CHR ''-'' # nat_digits n" using assms(3) by (simp add: run_id_def)
  from before_dash [OF assms(1,2) this] have "nat_digits m = nat_digits n" by simp
  then show ?thesis by (metis digits_value_nat_digits)
qed

definition numbered :: "control_world \<Rightarrow> string \<Rightarrow> bool" where
  "numbered w i \<longleftrightarrow> (\<exists>stamp n. i = run_id stamp n \<and> CHR ''-'' \<notin> set stamp \<and> n \<le> cw_sequence w)"

definition ids_ok :: "control_world \<Rightarrow> bool" where
  "ids_ok w \<longleftrightarrow> distinct (map rn_id (cw_runs w)) \<and> (\<forall>r\<in>set (cw_runs w). numbered w (rn_id r))"

lemma fresh_run_id: "ids_ok w \<Longrightarrow> CHR ''-'' \<notin> set stamp \<Longrightarrow> run_id stamp (cw_sequence w + 1) \<notin> rn_id ` set (cw_runs w)"
  unfolding ids_ok_def numbered_def by (force dest: run_id_inject)

lemma keeps_ids: "keeps_runs s w w' \<Longrightarrow> ids_ok w \<Longrightarrow> ids_ok w'"
  unfolding keeps_runs_def ids_ok_def numbered_def by (auto simp: comp_def)

section \<open>Launches under way\<close>

text \<open>A launch that has passed the checks of its payload asks for a positive number of browsers and no negative rate.\<close>

definition launch_ok :: "control_world \<Rightarrow> launch \<Rightarrow> bool" where
  "launch_ok w l \<longleftrightarrow> la_key l < cw_objects w
     \<and> (la_stage l \<noteq> AwaitPolicy \<longrightarrow> 1 \<le> requestedConcurrency (la_payload l) \<and> 0 \<le> requestedRps (la_payload l))"

definition launches_ok :: "control_world \<Rightarrow> bool" where
  "launches_ok w \<longleftrightarrow> distinct (map la_key (cw_launches w)) \<and> (\<forall>l\<in>set (cw_launches w). launch_ok w l)"

lemma launches_filtered:
  assumes "launches_ok w" "cw_launches w' = filter P (cw_launches w)" "cw_objects w \<le> cw_objects w'"
  shows "launches_ok w'"
  using assms by (auto simp: launches_ok_def launch_ok_def distinct_map_filter intro: order_less_le_trans)

lemma launches_same: "launches_ok w \<Longrightarrow> cw_launches w' = cw_launches w \<Longrightarrow> cw_objects w \<le> cw_objects w' \<Longrightarrow> launches_ok w'"
  by (rule launches_filtered [where P = "\<lambda>_. True"]) simp_all

lemma launches_stage:
  assumes "launches_ok w" "l \<in> set (cw_launches w)" "1 \<le> requestedConcurrency (la_payload l)" "0 \<le> requestedRps (la_payload l)"
  shows "launches_ok (set_stage l st w)"
proof -
  have "1 \<le> requestedConcurrency (la_payload x) \<and> 0 \<le> requestedRps (la_payload x)"
    if "la_key x = la_key l" "x \<in> set (cw_launches w)" for x
    using distinct_key_eq [OF _ that(2) assms(2) that(1)] assms by (simp add: launches_ok_def)
  then show ?thesis
    using assms unfolding launches_ok_def set_stage_def
    by (auto simp: map_update_where set_update_where launch_ok_def)
qed

lemma launches_begin:
  assumes "launches_ok w" "cw_launches w' = cw_launches w" "cw_objects w' = cw_objects w"
  shows "launches_ok (begin_launch s origin k p w')"
proof -
  let ?l = "\<lparr>la_key = cw_objects w', la_origin = origin, la_campaignRecordId = k, la_payload = p, la_stage = AwaitPolicy\<rparr>"
  let ?w = "w'\<lparr>cw_objects := cw_objects w' + 1, cw_launches := cw_launches w' @ [?l]\<rparr>"
  have new: "launches_ok ?w" using assms by (auto simp: launches_ok_def launch_ok_def)
  moreover have "launches_ok (launch_failed s ?l ?w)"
    by (rule launches_filtered [OF new, where P = "\<lambda>x. la_key x \<noteq> la_key ?l"]) simp_all
  ultimately show ?thesis by (simp add: begin_launch_def Let_def)
qed

section \<open>The invariant\<close>

definition fleet_ok :: "control_settings \<Rightarrow> control_world \<Rightarrow> bool" where
  "fleet_ok s w \<longleftrightarrow> pool_ok (cs_pool s) (cw_pool w) \<and> ids_ok w \<and> launches_ok w \<and> claims_fit s (claims w)"

text \<open>A step that starts no run and leaves the launches well-formed.\<close>

definition calm :: "control_settings \<Rightarrow> control_world \<Rightarrow> control_world \<Rightarrow> bool" where
  "calm s w w' \<longleftrightarrow> keeps_runs s w w' \<and> launches_ok w'"

lemma fleet_calm:
  assumes "fleet_ok s w" "calm s w w'"
  shows "fleet_ok s w'"
proof -
  have "pool_ok (cs_pool s) (cw_pool w')" using assms unfolding fleet_ok_def calm_def keeps_runs_def by blast
  moreover have "ids_ok w'" using assms keeps_ids unfolding fleet_ok_def calm_def by blast
  moreover have "claims_fit s (claims w')" using assms claims_fit_subseq keeps_claims unfolding fleet_ok_def calm_def by blast
  ultimately show ?thesis using assms by (simp add: fleet_ok_def calm_def)
qed

lemma calm_same:
  assumes "fleet_ok s w" "cw_runs w' = cw_runs w" "cw_pool w' = cw_pool w" "cw_sequence w' = cw_sequence w"
    "cw_launches w' = filter P (cw_launches w)" "cw_objects w \<le> cw_objects w'"
  shows "calm s w w'"
  using assms keeps_same [OF assms(2-4)] launches_filtered [OF _ assms(5,6)] by (simp add: calm_def fleet_ok_def)

lemma calm_leaves:
  assumes "fleet_ok s w" "cw_runs w' = cw_runs w" "cw_pool w' = cw_pool w" "cw_sequence w' = cw_sequence w"
    "cw_launches w' = cw_launches w" "cw_objects w \<le> cw_objects w'"
  shows "calm s w w'"
  by (rule calm_same [OF assms(1-4) _ assms(6), of "\<lambda>_. True"]) (simp add: assms(5))

text \<open>A world that differs in the runs only, ended by an update that frees claims.\<close>

lemma calm_update:
  assumes "fleet_ok s w" "cw_runs w' = update_where P f (cw_runs w)" "cw_pool w' = cw_pool w" "cw_sequence w' = cw_sequence w"
    "cw_launches w' = cw_launches w" "cw_objects w \<le> cw_objects w'"
    "\<And>r. claim_of (f r) = claim_of r" "\<And>r. rn_id (f r) = rn_id r" "\<And>r. is_active (cw_pool w) (f r) \<Longrightarrow> is_active (cw_pool w) r"
  shows "calm s w w'"
proof -
  have "keeps_runs s w w'"
    by (rule keeps_update [OF assms(2-4)]) (rule assms(7), rule assms(8), erule assms(9))
  moreover have "launches_ok w'"
    by (rule launches_same [OF _ assms(5,6)]) (use assms(1) in \<open>simp add: fleet_ok_def\<close>)
  ultimately show ?thesis by (simp add: calm_def)
qed

lemma calm_failed: "fleet_ok s w \<Longrightarrow> calm s w (launch_failed s l w)"
  by (erule calm_same [where P = "\<lambda>x. la_key x \<noteq> la_key l"]) simp_all

lemma calm_done: "fleet_ok s w \<Longrightarrow> calm s w (launch_done s l i w)"
  by (erule calm_same [where P = "\<lambda>x. la_key x \<noteq> la_key l"]) simp_all

lemma calm_unlist: "fleet_ok s w \<Longrightarrow> calm s w (unlist_run i w)"
  unfolding calm_def by (auto intro: unlist_keeps launches_same simp: fleet_ok_def)

lemma calm_trans: "calm s u v \<Longrightarrow> calm s v w \<Longrightarrow> calm s u w"
  unfolding calm_def using keeps_trans by blast

lemma calm_begin: "fleet_ok s w \<Longrightarrow> cw_runs w' = cw_runs w \<Longrightarrow> cw_pool w' = cw_pool w \<Longrightarrow> cw_sequence w' = cw_sequence w
    \<Longrightarrow> cw_launches w' = cw_launches w \<Longrightarrow> cw_objects w' = cw_objects w \<Longrightarrow> calm s w (begin_launch s origin k p w')"
  unfolding calm_def by (auto intro!: keeps_same launches_begin simp: fleet_ok_def)

section \<open>Admission\<close>

lemma sum_own_le:
  "(\<And>r. r \<in> set rs \<Longrightarrow> 0 \<le> cl_own (claim_of r) \<and> (permit_managed r \<longrightarrow> 0 \<le> rn_concurrent r))
    \<Longrightarrow> sum_list (map cl_own (map claim_of rs)) \<le> sum_list (map rn_concurrent rs)"
proof (induction rs)
  case (Cons r rs)
  then have "sum_list (map cl_own (map claim_of rs)) \<le> sum_list (map rn_concurrent rs)" by simp
  moreover have "cl_own (claim_of r) \<le> rn_concurrent r" using Cons.prems [of r] by (auto simp: claim_of_def)
  ultimately show ?case by simp
qed simp

lemma browsers_sum: "sum_list (map cl_browsers (map claim_of rs)) = browser_load rs"
  by (induction rs) (auto simp: browser_load_def claim_of_def)

lemma rps_sum: "sum_list (map cl_rps (map claim_of rs)) = sum_list (map rn_targetRps rs)"
  by (simp add: claim_of_def comp_def)

lemma map_filter_append: "List.map_filter f (xs @ ys) = List.map_filter f xs @ List.map_filter f ys"
  by (simp add: List.map_filter_def)

lemma admit_Inr:
  assumes "admit s w k registry p = Inr port"
  shows "\<forall>(b, e)\<in>set (identity_checks s (activeRuns w) k p). \<not> b"
    "\<forall>(b, e)\<in>set (limit_checks s (effective_limit s w) (activeRuns w) port p). \<not> b"
    "legacyRunPort p registry (pe_noProxy (cs_env s)) (cw_proxy w) = Inr port"
  using assms unfolding admit_def bindE_Inr_conv check_all_Inr by auto

lemma distinct_filter_append1:
  "distinct (List.map_filter f (xs @ [x])) \<longleftrightarrow> distinct (List.map_filter f xs) \<and> (\<forall>v. f x = Some v \<longrightarrow> (\<forall>y\<in>set xs. f y \<noteq> Some v))"
  by (auto simp: map_filter_append map_filter_simps in_map_filter split: option.splits)

lemma admitted_claims_fit:
  assumes ok: "claims_fit s (map claim_of rs)"
    and i: "\<forall>(b, e)\<in>set (identity_checks s rs k p). \<not> b" and l: "\<forall>(b, e)\<in>set (limit_checks s limit rs port p). \<not> b"
    and limit: "limit \<le> cs_maxLocalWorkers s"
    and p: "1 \<le> requestedConcurrency p" "0 \<le> requestedRps p" and c: "c = claim_of (new_run s now rid k port p)"
  shows "claims_fit s (map claim_of rs @ [c])"
proof -
  have camp: "\<not> (k \<noteq> None \<and> list_ex (\<lambda>r. rn_campaignRecordId r = k) rs)" using i by (simp add: identity_checks_def)
  have port: "\<not> (port \<noteq> None \<and> list_ex (\<lambda>r. rn_proxyPort r = port) rs)" and len: "length rs < limit"
    and own: "usesPermits p \<or> sum_list (map rn_concurrent rs) + requestedConcurrency p \<le> cs_maxTotalConcurrency s"
    and br: "browser_load rs + (if rp_tier p = ''trivial-http'' \<or> usesPermits p then 0 else requestedConcurrency p) \<le> cs_maxBrowserConcurrency s"
    and rps: "sum_list (map rn_targetRps rs) + requestedRps p \<le> cs_maxTotalRps s"
    using l by (auto simp: limit_checks_def)
  have new: "cl_campaign c = k" "cl_port c = port" "cl_concurrent c = requestedConcurrency p" "cl_own c = (if usesPermits p then 0 else requestedConcurrency p)"
    "cl_browsers c = (if rp_tier p = ''trivial-http'' \<or> usesPermits p then 0 else requestedConcurrency p)" "cl_rps c = requestedRps p"
    by (auto simp: c claim_of_def new_run_def permit_managed_def usesPermits_def)
  have pos: "\<forall>r\<in>set rs. 0 \<le> cl_own (claim_of r) \<and> 0 \<le> rn_concurrent r"
    using ok by (auto simp: claims_fit_def claim_of_def)
  have "distinct (List.map_filter cl_campaign (map claim_of rs @ [c]))" "distinct (List.map_filter cl_port (map claim_of rs @ [c]))"
    using ok camp port unfolding distinct_filter_append1 new claims_fit_def by (auto simp: claim_of_def list_ex_iff)
  moreover have "sum_list (map cl_own (map claim_of rs)) + cl_own c \<le> cs_maxTotalConcurrency s"
    using own ok sum_own_le [of rs] pos unfolding new claims_fit_def by auto
  moreover have "sum_list (map cl_browsers (map claim_of rs)) + cl_browsers c \<le> cs_maxBrowserConcurrency s"
    using br unfolding browsers_sum new .
  moreover have "sum_list (map cl_rps (map claim_of rs)) + cl_rps c \<le> cs_maxTotalRps s" using rps unfolding rps_sum new .
  moreover have "length (map claim_of rs @ [c]) \<le> cs_maxLocalWorkers s" using len limit by simp
  moreover have "\<forall>c\<in>set (map claim_of rs @ [c]). 0 \<le> cl_concurrent c \<and> 0 \<le> cl_own c \<and> 0 \<le> cl_browsers c \<and> 0 \<le> cl_rps c"
    using ok p new unfolding claims_fit_def by auto
  ultimately show ?thesis unfolding claims_fit_def by simp
qed

section \<open>Every step keeps it\<close>

lemma numbered_later: "numbered w i \<Longrightarrow> cw_sequence w \<le> cw_sequence w' \<Longrightarrow> numbered w' i"
  unfolding numbered_def using le_trans by blast

lemma filter_less_subseq:
  "(\<And>x. P x \<Longrightarrow> x \<in> set rs \<Longrightarrow> Q x) \<Longrightarrow> subseq (map h (filter P rs)) (map h (filter Q rs))"
  by (induction rs) auto

text \<open>A run that is added, with the pool it was handed to: the other runs are as active as before.\<close>

lemma added_others:
  assumes ok: "fleet_ok s w" and sane: "sane_pool (cs_pool s)" and stamp: "CHR ''-'' \<notin> set stamp"
    and rid: "rid = run_id stamp (cw_sequence w + 1)"
    and pool: "q = cw_pool w \<or> pool_start (cs_pool s) rid True (cw_pool w) = (res, q)"
  shows "pool_ok (cs_pool s) q" and "rid \<notin> rn_id ` set (cw_runs w)"
    and "is_active q x \<Longrightarrow> x \<in> set (cw_runs w) \<Longrightarrow> is_active (cw_pool w) x"
proof -
  have pk: "pool_ok (cs_pool s) (cw_pool w)" and ids: "ids_ok w" using ok by (simp_all add: fleet_ok_def)
  have q: "pool_ok (cs_pool s) q \<and> dom (wp_taskOwners q) \<subseteq> insert rid (dom (wp_taskOwners (cw_pool w)))"
    using pool
  proof
    assume "pool_start (cs_pool s) rid True (cw_pool w) = (res, q)"
    from start_tasks(1,2) [OF conjI [OF sane pk] this] show ?thesis by blast
  qed (use pk in auto)
  then show "pool_ok (cs_pool s) q" by blast
  show new: "rid \<notin> rn_id ` set (cw_runs w)" unfolding rid by (rule fresh_run_id [OF ids stamp])
  show "is_active q x \<Longrightarrow> x \<in> set (cw_runs w) \<Longrightarrow> is_active (cw_pool w) x"
    using q new by (auto simp: is_active_def pool_has_def split: if_splits)
qed

lemma added_run:
  assumes ok: "fleet_ok s w" and sane: "sane_pool (cs_pool s)" and stamp: "CHR ''-'' \<notin> set stamp"
    and rid: "rid = run_id stamp (cw_sequence w + 1)" and r: "rn_id r = rid"
    and fit: "claims_fit s (claims w @ [claim_of r])"
    and w': "cw_runs w' = cw_runs w @ [r]" "cw_sequence w' = cw_sequence w + 1" "cw_launches w' = cw_launches w" "cw_objects w' = cw_objects w"
    and pool: "cw_pool w' = cw_pool w \<or> pool_start (cs_pool s) rid True (cw_pool w) = (res, cw_pool w')"
  shows "fleet_ok s w'"
proof -
  note others = added_others [OF ok sane stamp rid pool]
  have ids: "ids_ok w" using ok by (simp add: fleet_ok_def)
  have old: "subseq (map claim_of (filter (is_active (cw_pool w')) (cw_runs w))) (claims w)"
    unfolding claims_def activeRuns_def by (rule filter_less_subseq) (rule others(3))
  have sub: "subseq (claims w') (claims w @ [claim_of r])"
    unfolding claims_def [of w'] activeRuns_def [of w'] w'(1) filter_append map_append
    by (rule list_emb_append_mono [OF old]) simp
  have "numbered w' rid" unfolding numbered_def rid w'(2) using stamp by blast
  moreover have "\<forall>x\<in>set (cw_runs w). numbered w' (rn_id x)"
    using ids numbered_later [of w _ w'] w'(2) by (simp add: ids_ok_def)
  ultimately have "ids_ok w'" using ids others(2) unfolding ids_ok_def w'(1) by (simp add: r)
  moreover have "launches_ok w'" using ok w' by (auto simp: fleet_ok_def intro: launches_same)
  moreover have "claims_fit s (claims w')" by (rule claims_fit_subseq [OF fit sub])
  ultimately show ?thesis using others(1) by (simp add: fleet_ok_def)
qed

lemma fleet_create:
  assumes ok: "fleet_ok s w" and sane: "sane_pool (cs_pool s)" and stamp: "CHR ''-'' \<notin> set stamp"
    and l: "l \<in> set (cw_launches w)" "la_stage l \<noteq> AwaitPolicy" and admit: "admit s w (la_campaignRecordId l) registry (la_payload l) = Inr port"
  shows "fleet_ok s (create_run s l stamp port w)"
proof -
  let ?rid = "run_id stamp (cw_sequence w + 1)"
  let ?r = "new_run s (cw_now w) ?rid (la_campaignRecordId l) port (la_payload l)"
  let ?w = "\<lambda>pool. w\<lparr>cw_runs := cw_runs w @ [?r], cw_sequence := cw_sequence w + 1, cw_pool := pool\<rparr>"
  have p: "1 \<le> requestedConcurrency (la_payload l)" "0 \<le> requestedRps (la_payload l)"
    using ok l by (auto simp: fleet_ok_def launches_ok_def launch_ok_def)
  have fit: "claims_fit s (claims w @ [claim_of ?r])"
    unfolding claims_def
    by (rule admitted_claims_fit [OF _ admit_Inr(1,2) [OF admit] _ p refl])
      (use ok in \<open>simp_all add: fleet_ok_def claims_def effective_limit_def\<close>)
  note add = added_run [OF ok sane stamp refl _ fit]
  have started: "fleet_ok s (?w pool)"
    if "pool = cw_pool w \<or> pool_start (cs_pool s) ?rid True (cw_pool w) = (res, pool)" for pool res
    by (rule add) (use that in \<open>simp_all add: new_run_def\<close>)
  show ?thesis
  proof (cases "shared_run s (la_payload l)")
    case False
    then have "create_run s l stamp port w = launch_done s l ?rid (?w (cw_pool w))"
      by (simp add: create_run_def Let_def)
    moreover have "fleet_ok s (?w (cw_pool w))" by (rule started) simp
    ultimately show ?thesis using fleet_calm calm_done by auto
  next
    case True
    obtain res pool where st: "pool_start (cs_pool s) ?rid True (cw_pool w) = (res, pool)" by (metis surj_pair)
    then have w: "fleet_ok s (?w pool)" using started by blast
    show ?thesis
    proof (cases res)
      case (Inl e)
      then have "create_run s l stamp port w = launch_failed s l (unlist_run ?rid (?w pool))"
        using True st by (simp add: create_run_def Let_def)
      moreover have "fleet_ok s (unlist_run ?rid (?w pool))" by (rule fleet_calm [OF w calm_unlist [OF w]])
      ultimately show ?thesis using fleet_calm calm_failed by auto
    next
      case (Inr wid)
      then have c: "create_run s l stamp port w = set_stage l (AwaitSend ?rid) (?w pool)"
        using True st by (simp add: create_run_def Let_def)
      have "launches_ok (set_stage l (AwaitSend ?rid) (?w pool))"
        by (rule launches_stage) (use w l p in \<open>simp_all add: fleet_ok_def\<close>)
      then have "calm s (?w pool) (create_run s l stamp port w)" unfolding c calm_def by (simp add: keeps_same)
      then show ?thesis by (rule fleet_calm [OF w])
    qed
  qed
qed

lemma calm_exits:
  assumes ok: "fleet_ok s w" and v: "handle_event v (cw_pool w) = (rids, pool)"
  shows "calm s w (exits_reported rids code (w\<lparr>cw_pool := pool\<rparr>))"
  unfolding calm_def
proof
  have pk: "pool_ok (cs_pool s) (cw_pool w)" using ok by (simp add: fleet_ok_def)
  note e = event_ok [OF pk v]
  have sub: "pool_has i pool \<Longrightarrow> pool_has i (cw_pool w)" for i using e by (auto simp: pool_has_def)
  let ?g = "\<lambda>r. if rn_id r \<in> set rids \<and> rn_exitCode r = None then r\<lparr>rn_exitCode := Some code, rn_alive := False\<rparr> else r"
  show "keeps_runs s w (exits_reported rids code (w\<lparr>cw_pool := pool\<rparr>))"
  proof -
    have "cw_runs (exits_reported rids code (w\<lparr>cw_pool := pool\<rparr>)) = map ?g (cw_runs w)"
      by (simp add: exits_reported_def update_where_def)
    moreover have "claim_of (?g r) = claim_of r \<and> rn_id (?g r) = rn_id r" for r by (simp add: claim_of_def permit_managed_def)
    moreover have "is_active pool (?g r) \<longrightarrow> is_active (cw_pool w) r" for r
      using sub by (simp add: is_active_def)
    moreover have "cw_pool (exits_reported rids code (w\<lparr>cw_pool := pool\<rparr>)) = pool"
      "cw_sequence (exits_reported rids code (w\<lparr>cw_pool := pool\<rparr>)) = cw_sequence w"
      by (simp_all add: exits_reported_def)
    ultimately show ?thesis unfolding keeps_runs_def using e by (intro conjI exI [of _ ?g]) simp_all
  qed
  show "launches_ok (exits_reported rids code (w\<lparr>cw_pool := pool\<rparr>))"
    using ok by (auto simp: fleet_ok_def exits_reported_def intro: launches_same)
qed

definition sane_settings :: "control_settings \<Rightarrow> bool" where
  "sane_settings s \<longleftrightarrow> sane_pool (cs_pool s) \<and> 0 \<le> cs_maxTotalConcurrency s \<and> 0 \<le> cs_maxBrowserConcurrency s \<and> 0 \<le> cs_maxTotalRps s"

lemma calm_policy:
  assumes "fleet_ok s w" "l \<in> set (cw_launches w)"
  shows "calm s w (policy_read s l policyEnabled w)"
proof (cases "prepare_launch (cs_env s) (cw_proxy w \<noteq> None) policyEnabled (la_payload l)")
  case (Inl e)
  then show ?thesis using calm_failed [OF assms(1)] by (simp add: policy_read_def)
next
  case (Inr registry)
  from validate_bounds [OF prepare_launch_Inr(2) [OF this]]
  have "launches_ok (set_stage l (AwaitTarget registry) w)"
    using assms by (intro launches_stage) (simp_all add: fleet_ok_def)
  then have "calm s w (set_stage l (AwaitTarget registry) w)" unfolding calm_def by (simp add: keeps_same)
  with Inr show ?thesis by (simp add: policy_read_def)
qed

lemma calm_message:
  assumes "fleet_ok s w"
  shows "calm s w (message_sent s l rid sent w)"
proof -
  have u: "calm s w (unlist_run rid w)" by (rule calm_unlist [OF assms])
  show ?thesis using calm_done [OF assms] calm_trans [OF u calm_failed [OF fleet_calm [OF assms u]]] by (simp add: message_sent_def)
qed

lemma calm_pump_launch: "fleet_ok s w \<Longrightarrow> calm s w (pump_launch s resources start ids checks c w)"
  unfolding pump_launch_def by (auto intro: calm_leaves calm_begin)

lemma calm_pump: "fleet_ok s w \<Longrightarrow> calm s w (pump_turn s resources ids n w)"
  unfolding pump_turn_def by (auto intro: calm_leaves calm_pump_launch split: option.splits)

lemma calm_answered:
  assumes "fleet_ok s w"
  shows "calm s w (fleet_answered s ready resources ids n t c w)"
proof -
  have u: "calm s w (update_object i f w)" for i f by (rule calm_leaves [OF assms]) simp_all
  show ?thesis unfolding fleet_answered_def Let_def by (rule calm_trans [OF u calm_pump_launch [OF fleet_calm [OF assms u]]])
qed

lemma calm_finalize: "fleet_ok s w \<Longrightarrow> calm s w (finalizeRun r code w)"
  by (erule calm_update [where P = "\<lambda>x. rn_id x = rn_id r" and f = "\<lambda>x. x\<lparr>rn_listed := False, rn_finalized := True\<rparr>"])
    (simp_all add: finalizeRun_def Let_def claim_of_def permit_managed_def is_active_def split: option.splits)

lemma calm_exit_own: "fleet_ok s w \<Longrightarrow> calm s w (exits_reported rids code w)"
  by (erule calm_update [where P = "\<lambda>r. rn_id r \<in> set rids \<and> rn_exitCode r = None" and f = "\<lambda>r. r\<lparr>rn_exitCode := Some code, rn_alive := False\<rparr>"])
    (simp_all add: exits_reported_def claim_of_def permit_managed_def is_active_def)

lemma calm_progress: "fleet_ok s w \<Longrightarrow> calm s w (note_progress rid p w)"
  by (erule calm_update [where P = "\<lambda>r. rn_id r = rid" and f = "with_progress w p"])
    (auto simp: note_progress_def with_progress_def claim_of_def permit_managed_def is_active_def split: progress.splits if_splits)

lemma calm_watchdog: "fleet_ok s w \<Longrightarrow> calm s w (recoverStalledContinuousRuns s w)"
  by (erule calm_update [where P = "stalled s w" and f = "\<lambda>r. r\<lparr>rn_watchdogTriggeredAt := Some (cw_now w)\<rparr>"])
    (simp_all add: recoverStalledContinuousRuns_def claim_of_def permit_managed_def is_active_def split: if_splits)

lemma calm_dies: "fleet_ok s w
    \<Longrightarrow> calm s w (w\<lparr>cw_runs := update_where (\<lambda>r. rn_id r = rid) (\<lambda>r. r\<lparr>rn_alive := False\<rparr>) (cw_runs w)\<rparr>)"
  by (erule calm_update [where P = "\<lambda>r. rn_id r = rid" and f = "\<lambda>r. r\<lparr>rn_alive := False\<rparr>"])
    (simp_all add: claim_of_def permit_managed_def is_active_def split: if_splits)

text \<open>The commands and saves leave the runs, the launches and the pool alone.\<close>

definition leaves_runs :: "control_world \<Rightarrow> control_world \<Rightarrow> bool" where
  "leaves_runs w w' \<longleftrightarrow> cw_runs w' = cw_runs w \<and> cw_pool w' = cw_pool w \<and> cw_sequence w' = cw_sequence w
     \<and> cw_launches w' = cw_launches w \<and> cw_objects w \<le> cw_objects w' \<and> cw_pump w' = cw_pump w"

lemma calm_leaves_runs: "fleet_ok s w \<Longrightarrow> leaves_runs w w' \<Longrightarrow> calm s w w'"
  unfolding leaves_runs_def by (blast intro: calm_leaves)

lemma pump_kept [simp]:
  "cw_pump (update_object i f w) = cw_pump w" "cw_pump (update_campaign_row k f w) = cw_pump w" "cw_pump (terminateRun x w) = cw_pump w"
  "cw_pump (drop_launch l w) = cw_pump w" "cw_pump (unlist_run j w) = cw_pump w"
  by (simp_all add: update_object_def update_campaign_row_def terminateRun_def drop_launch_def unlist_run_def split: option.splits)

lemma commands_leave:
  "start_campaign k w = Inr w' \<Longrightarrow> leaves_runs w w'"
  "stop_campaign k w = Inr w' \<Longrightarrow> leaves_runs w w'"
  "restart_campaign k w = Inr w' \<Longrightarrow> leaves_runs w w'"
  "delete_campaign k w = Inr w' \<Longrightarrow> leaves_runs w w'"
  by (auto simp: start_campaign_def stop_campaign_def restart_campaign_def delete_campaign_def leaves_runs_def
      split: option.splits if_splits)

lemma saves_leave:
  "commit_save s k p selection policyEnabled w = Inr w' \<Longrightarrow> leaves_runs w w'"
  "leaves_runs w (save_settled v assigned w)"
  "leaves_runs w (save_finished v registered w)"
  by (auto simp: commit_save_def Let_def bindE_Inr_conv put_campaign_def leaves_runs_def save_settled_def save_finished_def)

text \<open>Every step other than the end of a launch is calm.\<close>

lemma calm_step:
  assumes ok: "fleet_ok s w" and step: "control_step s w w'"
  obtains "calm s w w'" | l registry stamp where "l \<in> set (cw_launches w)" "la_stage l = AwaitTarget registry" "CHR ''-'' \<notin> set stamp"
    "w' = target_allowed s l registry stamp w"
  using step
proof cases
  case (target_known l registry stamp)
  then show ?thesis using that(2) by blast
next
  case (operator_launch k p)
  show ?thesis unfolding operator_launch by (rule that(1)) (simp add: calm_begin [OF ok] operator_launch)
next
  case (removes rid pidLives)
  then show ?thesis using that(1) ok calm_unlist calm_leaves by (auto simp: remove_run_def split: option.splits if_splits)
next
  case (pool_reports v rids pool code)
  then show ?thesis using that(1) calm_exits [OF ok] by blast
qed (rule that(1); use ok in \<open>auto intro: calm_failed calm_policy calm_message calm_finalize calm_exit_own calm_progress calm_watchdog
    calm_dies calm_pump calm_answered calm_leaves_runs commands_leave saves_leave calm_leaves
    simp: pump_begin_def fleet_failed_def bridge_deleted_def cancel_run_def set_active_limit_def reconcileCampaignSchedules_def\<close>)+

lemma fleet_target:
  assumes "fleet_ok s w" "sane_pool (cs_pool s)" "l \<in> set (cw_launches w)" "la_stage l = AwaitTarget registry" "CHR ''-'' \<notin> set stamp"
  shows "fleet_ok s (target_allowed s l registry stamp w)"
  using assms fleet_create [OF assms(1,2,5,3)] fleet_calm [OF assms(1) calm_failed [OF assms(1)]]
  by (auto simp: target_allowed_def split: sum.splits)

lemma fleet_step:
  assumes "sane_settings s" "fleet_ok s w" "control_step s w w'"
  shows "fleet_ok s w'"
  using assms(2,3)
proof (rule calm_step)
  show "fleet_ok s w'" if "calm s w w'" by (rule fleet_calm [OF assms(2) that])
  fix l registry stamp
  assume "l \<in> set (cw_launches w)" "la_stage l = AwaitTarget registry" "CHR ''-'' \<notin> set stamp" "w' = target_allowed s l registry stamp w"
  then show "fleet_ok s w'" using assms fleet_target by (simp add: sane_settings_def)
qed

section \<open>The table of campaigns\<close>

text \<open>A campaign's id is made of its number; failures are counted up to ten; a campaign that is running names its run.\<close>

definition campaign_ok :: "campaign \<Rightarrow> bool" where
  "campaign_ok c \<longleftrightarrow> cp_id c = ''campaign-'' @ pad6 (cp_number c) \<and> cp_retryCount c \<le> 10
     \<and> (cp_status c = Running \<longrightarrow> cp_activeRunId c \<noteq> None)"

definition table_ok :: "control_world \<Rightarrow> bool" where
  "table_ok w \<longleftrightarrow> distinct (map cp_number (cw_campaigns w)) \<and> distinct (map cp_object (cw_campaigns w))
     \<and> (\<forall>c\<in>set (cw_campaigns w). campaign_ok c \<and> cp_number c \<le> cw_campaignSequence w \<and> cp_object c < cw_objects w)
     \<and> (\<forall>v\<in>set (cw_saves w). sv_changed v \<longrightarrow> cp_status (sv_campaign v) \<noteq> Running)"

lemma pad6_value: "digits_value (pad6 n) 0 = n"
proof -
  have zero: "digits_value (replicate k (CHR ''0'') @ d) 0 = digits_value d 0" for k d
    by (induction k) simp_all
  show ?thesis by (simp add: pad6_def Let_def zero digits_value_nat_digits)
qed

lemma table_ids:
  assumes ok: "table_ok w"
  shows "distinct (map cp_id (cw_campaigns w))"
proof -
  have "inj_on cp_id (set (cw_campaigns w))"
  proof (rule inj_onI)
    fix c d
    assume cd: "c \<in> set (cw_campaigns w)" "d \<in> set (cw_campaigns w)" "cp_id c = cp_id d"
    then have "pad6 (cp_number c) = pad6 (cp_number d)" using ok by (auto simp: table_ok_def campaign_ok_def)
    then have "cp_number c = cp_number d" by (metis pad6_value)
    with cd show "c = d" using ok distinct_key_eq [of cp_number] by (auto simp: table_ok_def)
  qed
  then show ?thesis using ok by (simp add: table_ok_def distinct_map)
qed

text \<open>Updates of campaigns that keep their identity and stay well-formed.\<close>

definition keeps_campaign :: "(campaign \<Rightarrow> campaign) \<Rightarrow> bool" where
  "keeps_campaign f \<longleftrightarrow> (\<forall>c. cp_number (f c) = cp_number c \<and> cp_object (f c) = cp_object c \<and> cp_id (f c) = cp_id c
     \<and> (campaign_ok c \<longrightarrow> campaign_ok (f c)))"

lemma table_update:
  assumes "table_ok w" "keeps_campaign f" "cw_campaigns w' = map f (cw_campaigns w)" "cw_campaignSequence w' = cw_campaignSequence w"
    "cw_objects w \<le> cw_objects w'" "\<forall>v\<in>set (cw_saves w'). sv_changed v \<longrightarrow> cp_status (sv_campaign v) \<noteq> Running"
  shows "table_ok w'"
proof -
  have m: "map cp_number (cw_campaigns w') = map cp_number (cw_campaigns w)" "map cp_object (cw_campaigns w') = map cp_object (cw_campaigns w)"
    using assms(2,3) by (simp_all add: keeps_campaign_def)
  show ?thesis using assms unfolding table_ok_def m by (auto simp: keeps_campaign_def intro: order_less_le_trans)
qed

lemma keeps_if: "keeps_campaign f \<Longrightarrow> keeps_campaign (\<lambda>c. if P c then f c else c)"
  by (simp add: keeps_campaign_def)

lemma table_object:
  assumes "table_ok w" "keeps_campaign f"
  shows "table_ok (update_object k f w)"
  by (rule table_update [OF assms(1) keeps_if [OF assms(2), of "\<lambda>c. cp_object c = k"]])
    (use assms(1) in \<open>simp_all add: update_object_def update_where_def table_ok_def\<close>)

lemma table_row:
  assumes "table_ok w" "keeps_campaign f"
  shows "table_ok (update_campaign_row k f w)"
  by (rule table_update [OF assms(1) keeps_if [OF assms(2), of "\<lambda>c. cp_id c = k"]])
    (use assms(1) in \<open>simp_all add: update_campaign_row_def update_where_def table_ok_def\<close>)

lemma table_same:
  "table_ok w \<Longrightarrow> cw_campaigns w' = cw_campaigns w \<Longrightarrow> cw_campaignSequence w' = cw_campaignSequence w \<Longrightarrow> cw_objects w \<le> cw_objects w'
    \<Longrightarrow> set (cw_saves w') \<subseteq> set (cw_saves w) \<Longrightarrow> table_ok w'"
  unfolding table_ok_def by (auto intro: order_less_le_trans)

text \<open>The controller starts with the campaigns it has read and with nothing under way.\<close>

definition control_start :: "control_world \<Rightarrow> bool" where
  "control_start w \<longleftrightarrow> cw_runs w = [] \<and> cw_launches w = [] \<and> cw_pump w = PumpIdle \<and> cw_pool w = new_pool
     \<and> cw_saves w = [] \<and> cw_deleting w = [] \<and> cw_stopping w = {} \<and> table_ok w"


lemma keeps_campaign_updates:
  "keeps_campaign (note_failure now)" "keeps_campaign (note_running i)" "keeps_campaign (finalize_campaign r code)"
  "keeps_campaign (reconcile_campaign windows w)" "keeps_campaign draft"
  by (auto simp: keeps_campaign_def campaign_ok_def note_failure_def note_running_def finalize_campaign_def reconcile_campaign_def draft_def
      Let_def split: option.splits)

lemma world_tables [simp]:
  "cw_campaigns (terminateRun x w) = cw_campaigns w" "cw_campaignSequence (terminateRun x w) = cw_campaignSequence w"
  "cw_saves (terminateRun x w) = cw_saves w"
  "cw_campaigns (after_attempt s w) = cw_campaigns w" "cw_campaignSequence (after_attempt s w) = cw_campaignSequence w"
  "cw_saves (after_attempt s w) = cw_saves w"
  "cw_campaigns (drop_launch l w) = cw_campaigns w" "cw_campaignSequence (drop_launch l w) = cw_campaignSequence w"
  "cw_saves (drop_launch l w) = cw_saves w"
  "cw_campaigns (set_stage l st w) = cw_campaigns w" "cw_campaignSequence (set_stage l st w) = cw_campaignSequence w"
  "cw_saves (set_stage l st w) = cw_saves w"
  "cw_campaigns (unlist_run i w) = cw_campaigns w" "cw_campaignSequence (unlist_run i w) = cw_campaignSequence w"
  "cw_saves (unlist_run i w) = cw_saves w"
  by (simp_all add: terminateRun_def after_attempt_def drop_launch_def set_stage_def unlist_run_def split: option.splits)

lemma table_terminate: "table_ok w \<Longrightarrow> table_ok (terminateRun x w)"
  by (erule table_same) simp_all

lemma table_after: "table_ok w \<Longrightarrow> table_ok (after_attempt s w)"
  by (erule table_same) simp_all

lemma table_failed: "table_ok w \<Longrightarrow> table_ok (launch_failed s l w)"
proof -
  assume "table_ok w"
  then have "table_ok (drop_launch l w)" by (rule table_same) simp_all
  then show ?thesis
    by (auto simp: launch_failed_def intro: table_after table_object keeps_campaign_updates split: launch_origin.splits)
qed

lemma table_done: "table_ok w \<Longrightarrow> table_ok (launch_done s l i w)"
proof -
  assume "table_ok w"
  then have "table_ok (drop_launch l w)" by (rule table_same) simp_all
  then show ?thesis
    by (auto simp: launch_done_def intro: table_after table_object keeps_campaign_updates split: launch_origin.splits)
qed

lemma table_stage: "table_ok w \<Longrightarrow> table_ok (set_stage l st w)"
  by (erule table_same) simp_all

lemma table_unlist: "table_ok w \<Longrightarrow> table_ok (unlist_run i w)"
  by (erule table_same) simp_all

lemma table_begin: "table_ok w \<Longrightarrow> cw_campaigns w' = cw_campaigns w \<Longrightarrow> cw_campaignSequence w' = cw_campaignSequence w
    \<Longrightarrow> cw_objects w' = cw_objects w \<Longrightarrow> cw_saves w' = cw_saves w \<Longrightarrow> table_ok (begin_launch s origin k p w')"
proof -
  assume a: "table_ok w" "cw_campaigns w' = cw_campaigns w" "cw_campaignSequence w' = cw_campaignSequence w"
    "cw_objects w' = cw_objects w" "cw_saves w' = cw_saves w"
  let ?l = "\<lparr>la_key = cw_objects w', la_origin = origin, la_campaignRecordId = k, la_payload = p, la_stage = AwaitPolicy\<rparr>"
  have "table_ok (w'\<lparr>cw_objects := cw_objects w' + 1, cw_launches := cw_launches w' @ [?l]\<rparr>)"
    by (rule table_same [OF a(1)]) (use a in simp_all)
  then show ?thesis using table_failed by (simp add: begin_launch_def Let_def)
qed

lemma table_create:
  assumes "table_ok w"
  shows "table_ok (create_run s l stamp port w)"
proof -
  have w: "table_ok (w\<lparr>cw_runs := rs, cw_sequence := n\<rparr>)" "table_ok (w\<lparr>cw_runs := rs, cw_sequence := n, cw_pool := pool\<rparr>)" for rs n pool
    by (rule table_same [OF assms]; simp)+
  show ?thesis unfolding create_run_def Let_def
    by (auto intro!: table_done table_failed table_unlist table_stage w split: prod.splits sum.splits)
qed

lemma table_target: "table_ok w \<Longrightarrow> table_ok (target_allowed s l registry stamp w)"
  by (auto simp: target_allowed_def intro: table_failed table_create split: sum.splits)

lemma table_policy: "table_ok w \<Longrightarrow> table_ok (policy_read s l policyEnabled w)"
  by (auto simp: policy_read_def intro: table_failed table_stage split: sum.splits)

lemma table_message: "table_ok w \<Longrightarrow> table_ok (message_sent s l rid sent w)"
  by (simp add: message_sent_def table_done table_failed table_unlist)

lemma table_pump_launch: "table_ok w \<Longrightarrow> table_ok (pump_launch s resources start ids checks c w)"
  unfolding pump_launch_def by (auto intro: table_same table_begin)

lemma table_finalize:
  assumes ok: "table_ok w"
  shows "table_ok (finalizeRun r code w)"
proof (cases "rn_campaignRecordId r")
  case None
  then show ?thesis by (intro table_same [OF ok]) (simp_all add: finalizeRun_def)
next
  case (Some k)
  have "table_ok (update_campaign_row k (finalize_campaign r code) w)" by (intro table_row ok keeps_campaign_updates)
  then show ?thesis by (rule table_same) (simp_all add: finalizeRun_def Some Let_def)
qed

lemma table_commands:
  "table_ok w \<Longrightarrow> start_campaign k w = Inr w' \<Longrightarrow> table_ok w'"
  "table_ok w \<Longrightarrow> stop_campaign k w = Inr w' \<Longrightarrow> table_ok w'"
  "table_ok w \<Longrightarrow> restart_campaign k w = Inr w' \<Longrightarrow> table_ok w'"
  "table_ok w \<Longrightarrow> delete_campaign k w = Inr w' \<Longrightarrow> table_ok w'"
  by (auto simp: start_campaign_def stop_campaign_def restart_campaign_def delete_campaign_def keeps_campaign_def campaign_ok_def
      intro!: table_terminate table_row intro: table_same split: option.splits if_splits)

lemma put_existing:
  assumes ok: "table_ok w" and d: "d \<in> set (cw_campaigns w)" and c: "campaign_ok c" "cp_id c = cp_id d" "cp_number c = cp_number d" "cp_object c = cw_objects w"
  shows "table_ok (put_campaign c w)"
proof -
  let ?rows = "update_where (\<lambda>d. cp_id d = cp_id c) (\<lambda>_. c) (cw_campaigns w)"
  have rows: "cw_campaigns (put_campaign c w) = ?rows" "cw_objects (put_campaign c w) = cw_objects w + 1"
    "cw_campaignSequence (put_campaign c w) = cw_campaignSequence w" "cw_saves (put_campaign c w) = cw_saves w"
    using ok d c by (auto simp: put_campaign_def list_ex_iff table_ok_def)
  have one: "e = d" if "e \<in> set (cw_campaigns w)" "cp_id e = cp_id c" for e
    using distinct_key_eq [OF table_ids [OF ok] that(1) d] that(2) c(2) by simp
  have "map cp_number ?rows = map cp_number (cw_campaigns w)" using one c by (auto simp: update_where_def)
  moreover have "map cp_object ?rows = map (\<lambda>e. if cp_id e = cp_id c then cw_objects w else cp_object e) (cw_campaigns w)"
    using c(4) by (simp add: update_where_def)
  moreover have "inj_on (\<lambda>e. if cp_id e = cp_id c then cw_objects w else cp_object e) (set (cw_campaigns w))"
  proof (rule inj_onI)
    fix x y
    assume xy: "x \<in> set (cw_campaigns w)" "y \<in> set (cw_campaigns w)"
      "(if cp_id x = cp_id c then cw_objects w else cp_object x) = (if cp_id y = cp_id c then cw_objects w else cp_object y)"
    have "cp_object x < cw_objects w" "cp_object y < cw_objects w" using ok xy by (auto simp: table_ok_def)
    then show "x = y"
      using xy one [OF xy(1)] one [OF xy(2)] ok by (auto simp: table_ok_def distinct_map dest: inj_onD split: if_splits)
  qed
  moreover have "distinct (cw_campaigns w)" using ok by (simp add: table_ok_def distinct_map)
  moreover have "\<forall>e\<in>set ?rows. campaign_ok e \<and> cp_number e \<le> cw_campaignSequence w \<and> cp_object e < cw_objects w + 1"
    using ok c d by (auto simp: set_update_where table_ok_def)
  ultimately show ?thesis using ok unfolding table_ok_def rows by (simp add: distinct_map)
qed

lemma put_new:
  assumes ok: "table_ok w" and c: "campaign_ok c" "cp_number c = cw_campaignSequence w + 1" "cp_object c = cw_objects w"
  shows "table_ok (put_campaign c w)"
proof -
  have fresh: "cp_number d \<noteq> cp_number c \<and> cp_object d \<noteq> cp_object c \<and> cp_id d \<noteq> cp_id c" if "d \<in> set (cw_campaigns w)" for d
  proof -
    have d: "campaign_ok d" "cp_number d \<le> cw_campaignSequence w" "cp_object d < cw_objects w" using ok that by (auto simp: table_ok_def)
    then have n: "cp_number d \<noteq> cp_number c" "cp_object d \<noteq> cp_object c" using c by auto
    then have "pad6 (cp_number d) \<noteq> pad6 (cp_number c)" by (metis pad6_value)
    with n d c(1) show ?thesis by (simp add: campaign_ok_def)
  qed
  have rows: "cw_campaigns (put_campaign c w) = cw_campaigns w @ [c]" "cw_objects (put_campaign c w) = cw_objects w + 1"
    "cw_campaignSequence (put_campaign c w) = cw_campaignSequence w + 1" "cw_saves (put_campaign c w) = cw_saves w"
    using fresh c by (auto simp: put_campaign_def list_ex_iff)
  show ?thesis using ok fresh c unfolding table_ok_def rows by (auto simp: less_Suc_eq le_Suc_eq)
qed

lemma commit_save_Inr:
  assumes "commit_save s k p selection policyEnabled w = Inr w'"
  obtains existing port c where "existing = (case k of None \<Rightarrow> None | Some i \<Rightarrow> get_campaign i w)" "selection_allowed existing selection"
    "k \<noteq> None \<longrightarrow> existing \<noteq> None"
    "\<forall>(b, e)\<in>set (owner_checks p (case k of Some i \<Rightarrow> i | None \<Rightarrow> []) (cw_campaigns w)). \<not> b"
    "saved_port p (uses_registry selection policyEnabled) (cw_proxy w) = Inr port" "c = saved_campaign w existing p port"
    "w' = (put_campaign (if selection_changed selection then draft c else c) w)
       \<lparr>cw_saves := cw_saves w @ [\<lparr>sv_campaign = c, sv_changed = selection_changed selection, sv_create = (existing = None)\<rparr>]\<rparr>"
  using assms unfolding commit_save_def Let_def bindE_Inr_conv check_all_Inr by auto

lemma table_put:
  assumes ok: "table_ok w" and e: "existing = (case k of None \<Rightarrow> None | Some i \<Rightarrow> get_campaign i w)" "k \<noteq> None \<longrightarrow> existing \<noteq> None"
  shows "table_ok (put_campaign (if b then draft (saved_campaign w existing p port) else saved_campaign w existing p port) w)"
proof (cases existing)
  case None
  then show ?thesis by (intro put_new ok) (auto simp: saved_campaign_def campaign_ok_def draft_def)
next
  case (Some d)
  then obtain i where "get_campaign i w = Some d" using e by (cases k) auto
  then have d: "d \<in> set (cw_campaigns w)" by (auto simp: get_campaign_def dest: lookup_by_SomeD)
  then have "campaign_ok d" using ok by (simp add: table_ok_def)
  then show ?thesis by (intro put_existing [OF ok d]) (auto simp: Some saved_campaign_def campaign_ok_def draft_def)
qed

lemma table_save:
  assumes ok: "table_ok w" and save: "commit_save s k p selection policyEnabled w = Inr w'"
  shows "table_ok w'"
  using save
proof (rule commit_save_Inr)
  fix existing port c
  assume e: "existing = (case k of None \<Rightarrow> None | Some i \<Rightarrow> get_campaign i w)" "k \<noteq> None \<longrightarrow> existing \<noteq> None"
    and allowed: "selection_allowed existing selection" and c: "c = saved_campaign w existing p port"
    and w': "w' = (put_campaign (if selection_changed selection then draft c else c) w)
       \<lparr>cw_saves := cw_saves w @ [\<lparr>sv_campaign = c, sv_changed = selection_changed selection, sv_create = (existing = None)\<rparr>]\<rparr>"
  have put: "table_ok (put_campaign (if selection_changed selection then draft c else c) w)" unfolding c by (rule table_put [OF ok e])
  have "cp_status c \<noteq> Running" if "selection_changed selection"
    using allowed that by (cases existing) (auto simp: c saved_campaign_def selection_allowed_def selection_changed_def split: option.splits)
  then show ?thesis using put ok unfolding w' table_ok_def by (auto simp: put_campaign_def)
qed

lemma table_settled:
  assumes ok: "table_ok w" and v: "v \<in> set (cw_saves w)" "sv_changed v"
  shows "table_ok (save_settled v assigned w)"
proof -
  have s: "cp_status (sv_campaign v) \<noteq> Running" using ok v by (simp add: table_ok_def)
  have "table_ok (update_object (cp_object (sv_campaign v)) (\<lambda>c. c\<lparr>cp_proxySelectionPending := False, cp_status := cp_status (sv_campaign v), cp_lastError := False\<rparr>) w)"
    "table_ok (update_object (cp_object (sv_campaign v)) (\<lambda>c. (draft c)\<lparr>cp_lastError := True\<rparr>) w)"
    using s by (auto intro!: table_object ok simp: keeps_campaign_def campaign_ok_def draft_def)
  moreover have "set (remove1 v (cw_saves w)) \<subseteq> set (cw_saves w)" by (rule set_remove1_subset)
  ultimately show ?thesis using ok unfolding save_settled_def table_ok_def by (auto simp: update_object_def)
qed

lemma table_finished:
  assumes "table_ok w"
  shows "table_ok (save_finished v registered w)"
proof -
  have w: "table_ok (w\<lparr>cw_saves := remove1 v (cw_saves w)\<rparr>)" by (rule table_same [OF assms]) (simp_all add: set_remove1_subset)
  then show ?thesis
    by (auto simp: save_finished_def Let_def keeps_campaign_def campaign_ok_def intro!: table_object)
qed

lemma table_deleted:
  assumes "table_ok w"
  shows "table_ok (bridge_deleted k answered w)"
  using assms unfolding bridge_deleted_def table_ok_def by (auto simp: distinct_map_filter)

lemma table_fleet_answered: "table_ok w \<Longrightarrow> table_ok (fleet_answered s ready resources ids n t c w)"
  unfolding fleet_answered_def Let_def
  by (auto intro!: table_pump_launch table_object simp: keeps_campaign_def campaign_ok_def)

lemma table_fleet_failed: "table_ok w \<Longrightarrow> table_ok (fleet_failed ids n c w)"
  unfolding fleet_failed_def
  by (rule table_same [of "update_object (cp_object c) (note_failure (cw_now w)) w"])
    (auto intro: table_object keeps_campaign_updates)

lemma table_reconciled:
  assumes "table_ok w"
  shows "table_ok (reconcileCampaignSchedules windows w)"
  by (rule table_update [OF assms, of "reconcile_campaign windows w"])
    (use assms in \<open>auto simp: reconcileCampaignSchedules_def keeps_campaign_updates table_ok_def\<close>)

lemma table_step:
  assumes ok: "table_ok w" and step: "control_step s w w'"
  shows "table_ok w'"
  using step
proof cases
  case (pump_turns ids n resources)
  show ?thesis unfolding pump_turns pump_turn_def
    using ok by (auto intro: table_same table_pump_launch split: option.splits)
next
  case (operator_launch k p)
  show ?thesis unfolding operator_launch by (rule table_begin [OF ok]) simp_all
next
  case (removes rid pidLives)
  then show ?thesis using ok table_unlist by (auto simp: remove_run_def split: option.splits if_splits)
qed (use ok in \<open>auto intro: table_failed table_policy table_target table_message table_finalize table_commands table_save table_settled
    table_finished table_deleted table_fleet_answered table_fleet_failed table_reconciled table_terminate table_same
    simp: pump_begin_def cancel_run_def set_active_limit_def exits_reported_def note_progress_def recoverStalledContinuousRuns_def\<close>)

section \<open>Reachable worlds\<close>

lemma fleet_start: "sane_settings s \<Longrightarrow> control_start w \<Longrightarrow> fleet_ok s w"
  by (simp add: fleet_ok_def control_start_def pool_ok_new ids_ok_def launches_ok_def claims_fit_def claims_def activeRuns_def
      sane_settings_def map_filter_simps)

interpretation fleet: step_invariant "\<lambda>w. sane_settings s \<and> control_start w" "control_step s"
    "\<lambda>w. sane_settings s \<and> fleet_ok s w \<and> table_ok w" for s
  by unfold_locales (auto intro: fleet_start fleet_step table_step simp: control_start_def)

abbreviation control_reachable :: "control_settings \<Rightarrow> control_world \<Rightarrow> bool" where
  "control_reachable s \<equiv> reachable_from (\<lambda>w. sane_settings s \<and> control_start w) (control_step s)"

lemma reachable_fit: "control_reachable s w \<Longrightarrow> claims_fit s (claims w)"
  using fleet.reachable_inv unfolding fleet_ok_def by blast

lemma distinct_positions:
  assumes "distinct (List.map_filter f xs)" "i < length xs" "j < length xs" "f (xs ! i) = f (xs ! j)" "f (xs ! i) \<noteq> None"
  shows "i = j"
  using assms
proof (induction xs arbitrary: i j)
  case (Cons x xs)
  have "f (xs ! n) \<noteq> f x" if "n < length xs" "f x \<noteq> None" for n
    using Cons.prems(1) that by (auto simp: map_filter_simps in_map_filter split: option.splits)
  with Cons show ?case
    by (cases i; cases j) (auto simp: map_filter_simps split: option.splits)
qed simp

text \<open>C24: However launches, exits, operator commands, saves and the watchdog interleave, no two active runs belong to the
  same campaign, no two use the same gateway port, and no two have the same id.\<close>

theorem one_active_run_per_campaign:
  assumes "control_reachable s w" "a < length (activeRuns w)" "b < length (activeRuns w)" "a \<noteq> b"
  shows "rn_id (activeRuns w ! a) \<noteq> rn_id (activeRuns w ! b)
    \<and> (rn_campaignRecordId (activeRuns w ! a) = None \<or> rn_campaignRecordId (activeRuns w ! a) \<noteq> rn_campaignRecordId (activeRuns w ! b))
    \<and> (rn_proxyPort (activeRuns w ! a) = None \<or> rn_proxyPort (activeRuns w ! a) \<noteq> rn_proxyPort (activeRuns w ! b))"
proof -
  have fit: "distinct (List.map_filter cl_campaign (claims w))" "distinct (List.map_filter cl_port (claims w))"
    using reachable_fit [OF assms(1)] by (simp_all add: claims_fit_def)
  have n: "a < length (claims w)" "b < length (claims w)" using assms(2,3) by (simp_all add: claims_def)
  have at: "i < length (activeRuns w) \<Longrightarrow> cl_campaign (claims w ! i) = rn_campaignRecordId (activeRuns w ! i)
      \<and> cl_port (claims w ! i) = rn_proxyPort (activeRuns w ! i)" for i
    by (simp add: claims_def claim_of_def)
  have "distinct (map rn_id (activeRuns w))"
    using fleet.reachable_inv [OF assms(1)] by (simp add: fleet_ok_def ids_ok_def activeRuns_def distinct_map_filter)
  then have "rn_id (activeRuns w ! a) \<noteq> rn_id (activeRuns w ! b)" using assms(2-4) by (simp add: distinct_conv_nth)
  moreover have "rn_campaignRecordId (activeRuns w ! a) = None \<or> rn_campaignRecordId (activeRuns w ! a) \<noteq> rn_campaignRecordId (activeRuns w ! b)"
    using distinct_positions [OF fit(1) n] at assms(2-4) by metis
  moreover have "rn_proxyPort (activeRuns w ! a) = None \<or> rn_proxyPort (activeRuns w ! a) \<noteq> rn_proxyPort (activeRuns w ! b)"
    using distinct_positions [OF fit(2) n] at assms(2-4) by metis
  ultimately show ?thesis by simp
qed

text \<open>C25: The active runs stay within the worker limit of the host, and within the limits on concurrency, on browsers
  and on request rate; continuous journeys, whose browsers the permit broker counts, are left out of the first two sums.\<close>

theorem active_runs_within_limits:
  assumes "control_reachable s w"
  shows "length (activeRuns w) \<le> cs_maxLocalWorkers s
    \<and> sum_list (map rn_concurrent (filter (\<lambda>r. \<not> permit_managed r) (activeRuns w))) \<le> cs_maxTotalConcurrency s
    \<and> browser_load (activeRuns w) \<le> cs_maxBrowserConcurrency s
    \<and> sum_list (map rn_targetRps (activeRuns w)) \<le> cs_maxTotalRps s"
proof -
  have own: "sum_list (map cl_own (map claim_of rs)) = sum_list (map rn_concurrent (filter (\<lambda>r. \<not> permit_managed r) rs))" for rs
    by (induction rs) (auto simp: claim_of_def)
  show ?thesis
    using reachable_fit [OF assms] unfolding claims_fit_def claims_def own browsers_sum rps_sum by simp
qed

text \<open>C28: The table of campaigns stays well-formed: ids are distinct and made of the campaigns' numbers, no number exceeds the
  sequence, failures are counted up to ten, and a campaign that is shown as running names its run.\<close>

theorem campaign_table_well_formed:
  assumes "control_reachable s w"
  shows "distinct (map cp_id (cw_campaigns w)) \<and> set (cw_campaigns w) \<subseteq>
    {c. cp_id c = ''campaign-'' @ pad6 (cp_number c) \<and> cp_number c \<le> cw_campaignSequence w
      \<and> cp_retryCount c \<le> 10 \<and> (cp_status c \<noteq> Running \<or> cp_activeRunId c \<noteq> None)}"
proof -
  have ok: "table_ok w" using fleet.reachable_inv [OF assms] by simp
  then show ?thesis using table_ids [OF ok] by (auto simp: table_ok_def campaign_ok_def)
qed

section \<open>The queue\<close>

definition ready_campaigns :: "control_world \<Rightarrow> string set \<Rightarrow> campaign set" where
  "ready_campaigns w ids = {c \<in> set (cw_campaigns w). \<not> cp_proxySelectionPending c \<and> startable (lockedPorts w) ids (cw_now w) c}"

lemma find_sorted:
  "sorted (map f xs) \<Longrightarrow> find P xs = Some x \<Longrightarrow> x \<in> set xs \<and> P x \<and> (\<forall>y\<in>set xs. P y \<longrightarrow> f x \<le> f y)"
  by (induction xs) (auto split: if_splits)

text \<open>The pump takes nothing exactly when no campaign is ready - queued, wanted, past its retry time, with its selection of a
  proxy settled and its gateway port free - and otherwise takes the ready campaign with the least number.\<close>

theorem pump_takes_least_ready:
  "case next_campaign w ids of
     None \<Rightarrow> ready_campaigns w ids = {}
   | Some c \<Rightarrow> c \<in> ready_campaigns w ids \<and> cp_number c = Min (cp_number ` ready_campaigns w ids)"
proof (cases "next_campaign w ids")
  case None
  then have "ready_campaigns w ids = {}"
    by (auto simp: next_campaign_def selectQueuedCampaign_def find_None_iff ready_campaigns_def)
  with None show ?thesis by simp
next
  case (Some c)
  let ?xs = "sort_key cp_number (filter (\<lambda>c. \<not> cp_proxySelectionPending c) (cw_campaigns w))"
  have "find (startable (lockedPorts w) ids (cw_now w)) ?xs = Some c" using Some by (simp add: next_campaign_def selectQueuedCampaign_def)
  from find_sorted [OF sorted_sort_key this]
  have c: "c \<in> ready_campaigns w ids" "d \<in> ready_campaigns w ids \<Longrightarrow> cp_number c \<le> cp_number d" for d
    by (auto simp: ready_campaigns_def)
  have "finite (ready_campaigns w ids)" unfolding ready_campaigns_def by (rule finite_subset [of _ "set (cw_campaigns w)"]) auto
  then have "Min (cp_number ` ready_campaigns w ids) = cp_number c" using c by (intro Min_eqI) auto
  with Some c(1) show ?thesis by simp
qed

section \<open>Owners of delivery targets\<close>

definition delivers :: "campaign \<Rightarrow> bool" where
  "delivers c \<longleftrightarrow> rp_syncGoogleAds (cp_config c) \<or> rp_useScriptMesh (cp_config c)"

definition ads_target :: "run_payload \<Rightarrow> string \<times> string" where
  "ads_target p = (normalizedGoogleAdsId (rp_customerId p), normalizedGoogleAdsId (rp_googleCampaignId p))"

definition one_owner :: "campaign list \<Rightarrow> bool" where
  "one_owner cs \<longleftrightarrow> (\<forall>c\<in>set cs. \<forall>d\<in>set cs. delivers c \<and> delivers d \<and> ads_target (cp_config c) = ads_target (cp_config d) \<longrightarrow> c = d)"





section \<open>A controller at work\<close>

definition demo_env :: payload_env where
  "demo_env = \<lparr>pe_url = (\<lambda>_. Some \<lparr>pu_protocol = ''https:'', pu_hostname = ''shop.example'', pu_credentials = False\<rparr>),
     pe_redirect = (\<lambda>_ _. True), pe_timezone = (\<lambda>_. True), pe_print = (\<lambda>_. ''''), pe_noProxy = False,
     pe_runtimeEnabled = False, pe_sharedEnabled = False\<rparr>"

definition demo_control :: control_settings where
  "demo_control = \<lparr>cs_env = demo_env, cs_pool = demo_options, cs_maxLocalWorkers = 3, cs_maxTotalConcurrency = 4,
     cs_maxBrowserConcurrency = 4, cs_maxTotalRps = 5, cs_startGap = 0, cs_fleetChecks = 2, cs_fleetRetryMs = 10,
     cs_progressStaleMs = 10, cs_stagingAllowed = (\<lambda>_. True)\<rparr>"

definition demo_payload :: run_payload where
  "demo_payload = \<lparr>rp_scenarioId = ''s'', rp_seedUrl = ''u'', rp_tier = ''human'', rp_proxyMode = ''sticky-residential'',
     rp_expectedVerdict = ''allow'', rp_country = ''US'', rp_repeats = Num 1, rp_concurrent = Num 1, rp_loadProfile = None, rp_devices = 1,
     rp_pagesMin = Num 1, rp_pagesMax = Num 2, rp_challengeEnabled = False, rp_challengeTimeout = Num 30, rp_continuous = True,
     rp_mitm = False, rp_naturalClick = False, rp_authorized = True, rp_syncGoogleAds = False, rp_useScriptMesh = False,
     rp_staging = False, rp_draftOnly = False, rp_redirectCapture = None, rp_proxyPort = Some (Num 80),
     rp_customerId = ''1'', rp_googleCampaignId = ''2'', rp_loginCustomerId = '''', rp_schedule = None\<rparr>"

definition demo_campaign :: "nat \<Rightarrow> int \<Rightarrow> campaign" where
  "demo_campaign n port = \<lparr>cp_object = n, cp_id = ''campaign-'' @ pad6 n, cp_number = n, cp_status = Queued, cp_desiredRunning = True,
     cp_activeRunId = None, cp_restartPending = False, cp_lastError = False, cp_proxySelectionPending = False,
     cp_lastStartedWindow = None, cp_retryCount = 0, cp_nextRetryAt = None,
     cp_config = demo_payload\<lparr>rp_proxyPort := Some (Num (of_int port))\<rparr>\<rparr>"

definition demo_world :: control_world where
  "demo_world = \<lparr>cw_now = 100, cw_campaigns = [demo_campaign 1 80, demo_campaign 2 81], cw_runs = [], cw_launches = [], cw_pump = PumpIdle,
     cw_pool = new_pool, cw_saves = [], cw_deleting = [], cw_stopping = {}, cw_sequence = 0, cw_objects = 5, cw_campaignSequence = 2,
     cw_activeLimit = 3, cw_proxy = Some (Num 9), cw_nextCampaignStartAt = 0\<rparr>"

text \<open>The pump takes the first campaign: the launch begins, its policy is read, its target looked up, its process started.\<close>

definition world_begun :: control_world where
  "world_begun = pump_turn demo_control True {} 0 ((pump_begin demo_world)\<lparr>cw_pump := PumpTurn {} 0\<rparr>)"

definition world_checked :: control_world where
  "world_checked = policy_read demo_control (hd (cw_launches world_begun)) False world_begun"

text \<open>The first run, written out: the worlds that follow start from it.\<close>

definition world_running :: control_world where
  "world_running = demo_world\<lparr>
     cw_campaigns := [(demo_campaign 1 80)\<lparr>cp_status := Running, cp_activeRunId := Some ''run-t-1''\<rparr>, demo_campaign 2 81],
     cw_runs := [new_run demo_control 100 ''run-t-1'' (Some ''campaign-000001'') (Some 80) demo_payload],
     cw_pump := PumpTurn {} 0, cw_sequence := 1, cw_objects := 6, cw_nextCampaignStartAt := 100\<rparr>"

definition world_begun2 :: control_world where
  "world_begun2 = pump_turn demo_control True {} 0 world_running"

definition world_checked2 :: control_world where
  "world_checked2 = policy_read demo_control (hd (cw_launches world_begun2)) False world_begun2"

definition world_both :: control_world where
  "world_both = target_allowed demo_control (hd (cw_launches world_checked2)) False ''t'' world_checked2"

lemma demo_start: "sane_settings demo_control \<and> control_start demo_world"
  by (auto simp: sane_settings_def demo_control_def sane_pool_def demo_options_def control_start_def demo_world_def table_ok_def
      campaign_ok_def demo_campaign_def)

lemma begun_reachable: "control_reachable demo_control world_begun"
proof -
  have a: "control_reachable demo_control demo_world" by (rule reachable_from.init) (rule demo_start)
  have "control_reachable demo_control (pump_begin demo_world)"
    by (rule reachable_from.step [OF a control_step.pump_starts]) code_simp
  then have "control_reachable demo_control ((pump_begin demo_world)\<lparr>cw_pump := PumpTurn {} 0\<rparr>)"
    by (rule reachable_from.step) (rule control_step.registry_read, code_simp)
  then show ?thesis unfolding world_begun_def
    by (rule reachable_from.step) (rule control_step.pump_turns, simp)
qed

lemma checked_reachable: "control_reachable demo_control world_checked"
  unfolding world_checked_def
  by (rule reachable_from.step [OF begun_reachable]) (rule control_step.policy_known, code_simp, code_simp)

text \<open>Without shared workers the pool stays as it is.\<close>

lemma own_process: "\<not> shared_run demo_control p"
  by (simp add: shared_run_def demo_control_def demo_env_def)

lemma own_pools:
  "cw_pool (policy_read s l b w) = cw_pool w" "cw_pool (pump_turn s r ids n w) = cw_pool w"
  "cw_pool (target_allowed demo_control l b stamp w) = cw_pool w" "cw_pool (pump_begin w) = cw_pool w"
  by (auto simp: policy_read_def pump_turn_def pump_launch_def target_allowed_def create_run_def own_process pump_begin_def Let_def
      split: sum.splits option.splits)

lemma first_run: "target_allowed demo_control (hd (cw_launches world_checked)) False ''t'' world_checked = world_running"
proof (rule control_world.equality)
  show "cw_pool (target_allowed demo_control (hd (cw_launches world_checked)) False ''t'' world_checked) = cw_pool world_running"
    by (simp add: own_pools world_running_def world_checked_def world_begun_def)
qed code_simp+

lemma running_reachable: "control_reachable demo_control world_running"
  unfolding first_run [symmetric]
  by (rule reachable_from.step [OF checked_reachable]) (rule control_step.target_known, code_simp, code_simp, code_simp)

lemma both_reachable: "control_reachable demo_control world_both"
proof -
  have "control_reachable demo_control world_begun2" unfolding world_begun2_def
    by (rule reachable_from.step [OF running_reachable]) (rule control_step.pump_turns, code_simp)
  then have "control_reachable demo_control world_checked2" unfolding world_checked2_def
    by (rule reachable_from.step) (rule control_step.policy_known, code_simp, code_simp)
  then show ?thesis unfolding world_both_def
    by (rule reachable_from.step) (rule control_step.target_known, code_simp, code_simp, code_simp)
qed

lemma both_active:
  "length (activeRuns world_both) = 2"
  "map rn_campaignRecordId (activeRuns world_both) = [Some ''campaign-000001'', Some ''campaign-000002'']"
  by code_simp+

theorem one_active_run_per_campaign_witness:
  "rn_proxyPort (activeRuns world_both ! 0) \<noteq> rn_proxyPort (activeRuns world_both ! 1)
    \<and> rn_campaignRecordId (activeRuns world_both ! 0) \<noteq> rn_campaignRecordId (activeRuns world_both ! 1)"
proof -
  have r: "rn_proxyPort (activeRuns world_both ! 0) \<noteq> None" "rn_campaignRecordId (activeRuns world_both ! 0) \<noteq> None" by code_simp+
  show ?thesis
    using one_active_run_per_campaign [OF both_reachable, of 0 1] r by (simp add: both_active(1))
qed

theorem active_runs_within_limits_witness: "length (activeRuns world_both) = 2 \<and> length (activeRuns world_both) \<le> cs_maxLocalWorkers demo_control"
  using active_runs_within_limits [OF both_reachable] both_active(1) by simp

theorem campaign_table_well_formed_witness:
  "distinct (map cp_id (cw_campaigns world_running)) \<and> (\<exists>c\<in>set (cw_campaigns world_running). cp_status c = Running \<and> cp_activeRunId c \<noteq> None)"
proof -
  let ?c = "hd (cw_campaigns world_running)"
  have c: "?c \<in> set (cw_campaigns world_running)" "cp_status ?c = Running" by (simp_all add: world_running_def)
  show ?thesis
    using campaign_table_well_formed [OF running_reachable] c by blast
qed

text \<open>Two saved campaigns for Google Ads, the second with an id that is too long for its field.\<close>

definition ads_payload :: "string \<Rightarrow> run_payload" where
  "ads_payload customer = demo_payload\<lparr>rp_syncGoogleAds := True, rp_customerId := customer\<rparr>"

definition save_or_same :: "run_payload \<Rightarrow> control_world \<Rightarrow> control_world" where
  "save_or_same p w = (case commit_save demo_control None p None False w of Inr w' \<Rightarrow> w' | Inl _ \<Rightarrow> w)"

definition world_saved :: control_world where
  "world_saved = save_or_same (ads_payload ''123'') demo_world"

definition world_twice :: control_world where
  "world_twice = save_or_same (ads_payload (''123'' @ replicate 37 (CHR ''x'') @ ''4'')) world_saved"

lemma save_or_same_reachable:
  assumes "control_reachable demo_control w"
  shows "control_reachable demo_control (save_or_same p w)"
proof (cases "commit_save demo_control None p None False w")
  case (Inr w')
  then show ?thesis using reachable_from.step [OF assms control_step.saves [OF Inr]] by (simp add: save_or_same_def)
qed (use assms in \<open>simp add: save_or_same_def\<close>)


text \<open>The owner check compares the id as it was sent with the stored ids, which are cut to 40 characters: two campaigns can come
  to own the same target.\<close>

theorem long_id_gets_two_owners:
  "\<exists>w. control_reachable demo_control w \<and> \<not> one_owner (cw_campaigns w)"
proof -
  have "control_reachable demo_control demo_world" by (rule reachable_from.init) (rule demo_start)
  then have "control_reachable demo_control world_twice"
    unfolding world_twice_def world_saved_def by (intro save_or_same_reachable)
  moreover have "\<not> one_owner (cw_campaigns world_twice)" by code_simp
  ultimately show ?thesis by blast
qed

end
