(* ===== verification/Campaign_Rest.thy ===== *)
theory Campaign_Rest
  imports Campaign_Safety
begin

text \<open>
  Stopping a campaign: what keeps a stopped campaign at rest, and the ways in which the controller fails to.
\<close>

section \<open>Stopped campaigns\<close>

text \<open>A campaign that was stopped while nothing was being launched for it: it is not wanted, and its run, if any, is told to end.\<close>

definition held_by_pump :: "control_world \<Rightarrow> campaign option" where
  "held_by_pump w = (case cw_pump w of PumpFleet ids n t c \<Rightarrow> Some c | _ \<Rightarrow> None)"



definition held_ok :: "control_world \<Rightarrow> bool" where
  "held_ok w \<longleftrightarrow> (\<forall>c. held_by_pump w = Some c \<longrightarrow>
     cp_object c < cw_objects w \<and> (\<forall>d\<in>set (cw_campaigns w). cp_object d = cp_object c \<longrightarrow> cp_id d = cp_id c))"

text \<open>The campaigns after a step: old objects under their old ids, or new objects.\<close>

definition derives :: "control_world \<Rightarrow> control_world \<Rightarrow> bool" where
  "derives w w' \<longleftrightarrow> cw_objects w \<le> cw_objects w' \<and> (\<forall>d\<in>set (cw_campaigns w'). cw_objects w \<le> cp_object d
     \<or> (\<exists>c\<in>set (cw_campaigns w). cp_object c = cp_object d \<and> cp_id c = cp_id d))"

lemma derives_same: "cw_campaigns w' = cw_campaigns w \<Longrightarrow> cw_objects w \<le> cw_objects w' \<Longrightarrow> derives w w'"
  by (auto simp: derives_def)

lemma derives_map:
  assumes "keeps_campaign f" "cw_campaigns w' = map f (cw_campaigns w)" "cw_objects w \<le> cw_objects w'"
  shows "derives w w'"
  using assms by (auto simp: derives_def keeps_campaign_def)

lemma held_derives:
  assumes "held_ok w" "derives w w'" "held_by_pump w' = None \<or> held_by_pump w' = held_by_pump w"
  shows "held_ok w'"
  unfolding held_ok_def
proof (intro allI impI conjI ballI)
  fix c
  assume "held_by_pump w' = Some c"
  then have c: "cp_object c < cw_objects w" "\<forall>d\<in>set (cw_campaigns w). cp_object d = cp_object c \<longrightarrow> cp_id d = cp_id c"
    using assms(1,3) by (auto simp: held_ok_def)
  show "cp_object c < cw_objects w'" using c(1) assms(2) by (simp add: derives_def)
  fix d
  assume "d \<in> set (cw_campaigns w')" "cp_object d = cp_object c"
  then show "cp_id d = cp_id c" using c assms(2) unfolding derives_def by (metis linorder_not_less)
qed

lemma derives_trans:
  assumes "derives u v" "derives v w"
  shows "derives u w"
  using assms unfolding derives_def by (metis le_trans)

lemma derives_object: "keeps_campaign f \<Longrightarrow> derives w (update_object k f w)"
  by (rule derives_map [of "\<lambda>c. if cp_object c = k then f c else c"]) (simp_all add: keeps_if update_object_def update_where_def)

lemma derives_row: "keeps_campaign f \<Longrightarrow> derives w (update_campaign_row k f w)"
  by (rule derives_map [of "\<lambda>c. if cp_id c = k then f c else c"]) (simp_all add: keeps_if update_campaign_row_def update_where_def)

lemma derives_failed: "derives w (launch_failed s l w)"
proof (cases "la_origin l")
  case (FromPump c)
  have "derives w (update_object (cp_object c) (note_failure (cw_now w)) (drop_launch l w))"
    by (rule derives_trans [OF derives_same derives_object [OF keeps_campaign_updates(1)]]) simp_all
  then show ?thesis by (simp add: launch_failed_def FromPump derives_def)
qed (simp add: launch_failed_def derives_same)

lemma derives_done: "derives w (launch_done s l i w)"
proof (cases "la_origin l")
  case (FromPump c)
  have "derives w (update_object (cp_object c) (note_running i) (drop_launch l w))"
    by (rule derives_trans [OF derives_same derives_object [OF keeps_campaign_updates(2)]]) simp_all
  then show ?thesis by (simp add: launch_done_def FromPump derives_def)
qed (simp add: launch_done_def derives_same)

text \<open>A step that begins no launch and no fleet check, takes back no stop and keeps the ids of campaigns.\<close>

definition aside :: "control_world \<Rightarrow> control_world \<Rightarrow> bool" where
  "aside w w' \<longleftrightarrow> derives w w' \<and> la_campaignRecordId ` set (cw_launches w') \<subseteq> la_campaignRecordId ` set (cw_launches w)
     \<and> (held_by_pump w' = None \<or> held_by_pump w' = held_by_pump w) \<and> cw_stopping w \<subseteq> cw_stopping w'"

lemma aside_pump: "derives w w' \<Longrightarrow> set (cw_launches w') \<subseteq> set (cw_launches w) \<Longrightarrow> cw_pump w' = cw_pump w
    \<Longrightarrow> cw_stopping w \<subseteq> cw_stopping w' \<Longrightarrow> aside w w'"
  by (auto simp: aside_def held_by_pump_def)

lemma aside_trans:
  assumes "aside u v" "aside v w"
  shows "aside u w"
proof -
  note uv = assms(1) [unfolded aside_def] and vw = assms(2) [unfolded aside_def]
  have 1: "derives u w" by (rule derives_trans [OF conjunct1 [OF uv] conjunct1 [OF vw]])
  have 2: "la_campaignRecordId ` set (cw_launches w) \<subseteq> la_campaignRecordId ` set (cw_launches u)" "cw_stopping u \<subseteq> cw_stopping w"
    using uv vw by (meson order_trans)+
  have 3: "held_by_pump w = None \<or> held_by_pump w = held_by_pump u" using uv vw by argo
  show ?thesis unfolding aside_def using 1 2 3 by (intro conjI)
qed

lemma stopping_kept [simp]:
  "cw_stopping (update_object i f w) = cw_stopping w" "cw_stopping (update_campaign_row k f w) = cw_stopping w"
  "cw_stopping (drop_launch l w) = cw_stopping w" "cw_stopping (set_stage l st w) = cw_stopping w"
  "cw_stopping (unlist_run j w) = cw_stopping w" "cw_stopping (after_attempt s w) = cw_stopping w"
  "cw_stopping (launch_failed s l w) = cw_stopping w" "cw_stopping (launch_done s l j w) = cw_stopping w"
  "cw_stopping w \<subseteq> cw_stopping (terminateRun x w)"
  by (auto simp: update_object_def update_campaign_row_def drop_launch_def set_stage_def unlist_run_def after_attempt_def
      launch_failed_def launch_done_def terminateRun_def split: option.splits launch_origin.splits)

lemma held_after [simp]: "held_by_pump (launch_failed s l w) = held_by_pump w" "held_by_pump (launch_done s l i w) = held_by_pump w"
  by (simp_all add: launch_failed_def launch_done_def held_by_pump_def after_attempt_def split: launch_origin.splits pump_phase.splits)

lemma aside_failed: "aside w (launch_failed s l w)" and aside_done: "aside w (launch_done s l i w)"
  by (auto simp: aside_def derives_failed derives_done)

lemma aside_stage: "aside w (set_stage l st w)"
proof -
  have "derives w (set_stage l st w)" by (rule derives_same) simp_all
  moreover have "la_campaignRecordId ` set (cw_launches (set_stage l st w)) \<subseteq> la_campaignRecordId ` set (cw_launches w)"
    by (auto simp: set_stage_def set_update_where)
  ultimately show ?thesis by (simp add: aside_def held_by_pump_def set_stage_def)
qed

lemma aside_unlist: "aside w (unlist_run i w)"
  by (rule aside_pump) (simp_all add: derives_same)

lemma aside_policy: "aside w (policy_read s l policyEnabled w)"
  by (simp add: policy_read_def aside_failed aside_stage split: sum.splits)

lemma aside_message: "aside w (message_sent s l rid sent w)"
  using aside_done aside_trans [OF aside_unlist aside_failed] by (simp add: message_sent_def)

lemma aside_finalize: "aside w (finalizeRun r code w)"
proof (rule aside_pump)
  show "derives w (finalizeRun r code w)"
  proof (cases "rn_campaignRecordId r")
    case (Some k)
    have "derives w (update_campaign_row k (finalize_campaign r code) w)" by (rule derives_row [OF keeps_campaign_updates(3)])
    then show ?thesis by (simp add: finalizeRun_def Some derives_def Let_def)
  qed (simp add: finalizeRun_def derives_same)
qed (simp_all add: finalizeRun_def Let_def split: option.splits)

lemma aside_commands:
  "start_campaign k w = Inr w' \<Longrightarrow> aside w w'"
  "stop_campaign k w = Inr w' \<Longrightarrow> aside w w'"
  "restart_campaign k w = Inr w' \<Longrightarrow> aside w w'"
  "delete_campaign k w = Inr w' \<Longrightarrow> aside w w'"
proof -
  have row: "aside w (update_campaign_row k f w)" if "keeps_campaign f" for f
    by (rule aside_pump) (simp_all add: derives_row that)
  have end_run: "aside v (terminateRun x v)" for x v
    by (rule aside_pump) (simp_all add: derives_same)
  have del: "aside v (v\<lparr>cw_deleting := d\<rparr>)" for v d by (rule aside_pump) (simp_all add: derives_same)
  show "aside w w'" if "start_campaign k w = Inr w'"
    using that row aside_pump [of w w] by (auto simp: start_campaign_def keeps_campaign_def campaign_ok_def derives_same split: option.splits if_splits)
  show "aside w w'" if "stop_campaign k w = Inr w'"
    using that by (auto simp: stop_campaign_def keeps_campaign_def campaign_ok_def intro!: aside_trans [OF row end_run] split: option.splits)
  show "aside w w'" if "restart_campaign k w = Inr w'"
    using that by (auto simp: restart_campaign_def keeps_campaign_def campaign_ok_def intro!: aside_trans [OF row end_run] split: option.splits if_splits)
  show "aside w w'" if "delete_campaign k w = Inr w'"
    using that by (auto simp: delete_campaign_def intro!: aside_trans [OF end_run del] split: option.splits)
qed

lemma derives_put: "cp_object c = cw_objects w \<Longrightarrow> derives w (put_campaign c w)"
  by (auto simp: derives_def put_campaign_def set_update_where)

lemma aside_saves:
  "commit_save s k p selection policyEnabled w = Inr w' \<Longrightarrow> aside w w'"
  "sv_changed v \<Longrightarrow> cp_status (sv_campaign v) \<noteq> Running \<Longrightarrow> aside w (save_settled v assigned w)"
  "aside w (save_finished v registered w)"
proof -
  have obj: "aside w (update_object i f w)" if "keeps_campaign f" for i f
    by (rule aside_pump) (simp_all add: derives_object that)
  have sv: "aside v (v\<lparr>cw_saves := x\<rparr>)" for v x by (rule aside_pump) (simp_all add: derives_same)
  show "aside w w'" if "commit_save s k p selection policyEnabled w = Inr w'"
    using that
  proof (rule commit_save_Inr)
    fix existing port c
    assume c: "c = saved_campaign w existing p port" and w': "w' = (put_campaign (if selection_changed selection then draft c else c) w)
       \<lparr>cw_saves := cw_saves w @ [\<lparr>sv_campaign = c, sv_changed = selection_changed selection, sv_create = (existing = None)\<rparr>]\<rparr>"
    have "cp_object c = cw_objects w" by (simp add: c saved_campaign_def split: option.splits)
    then have "derives w (put_campaign (if selection_changed selection then draft c else c) w)"
      by (intro derives_put) (simp add: draft_def)
    then have "aside w (put_campaign (if selection_changed selection then draft c else c) w)"
      by (rule aside_pump) (simp_all add: put_campaign_def)
    then show ?thesis unfolding w' by (rule aside_trans [OF _ sv])
  qed
  show "aside w (save_settled v assigned w)" if "sv_changed v" "cp_status (sv_campaign v) \<noteq> Running"
    using that by (auto simp: save_settled_def keeps_campaign_def campaign_ok_def draft_def intro!: aside_trans [OF obj sv])
  have "aside w (update_object i (\<lambda>c. c\<lparr>cp_desiredRunning := True, cp_status := Queued\<rparr>) (w\<lparr>cw_saves := x\<rparr>))" for i x
  proof -
    have "keeps_campaign (\<lambda>c. c\<lparr>cp_desiredRunning := True, cp_status := Queued\<rparr>)" by (simp add: keeps_campaign_def campaign_ok_def)
    then have "aside v (update_object i (\<lambda>c. c\<lparr>cp_desiredRunning := True, cp_status := Queued\<rparr>) v)" for v
      by (intro aside_pump derives_object) simp_all
    then show ?thesis by (rule aside_trans [OF sv])
  qed
  then show "aside w (save_finished v registered w)" using sv by (simp add: save_finished_def Let_def)
qed

lemma aside_unheld: "aside w (w\<lparr>cw_pump := PumpIdle\<rparr>)" "aside w (w\<lparr>cw_pump := PumpReading\<rparr>)" "aside w (w\<lparr>cw_pump := PumpTurn ids n\<rparr>)"
  by (auto simp: aside_def held_by_pump_def derives_def)

lemma aside_same: "cw_campaigns w' = cw_campaigns w \<Longrightarrow> cw_objects w' = cw_objects w \<Longrightarrow> cw_launches w' = cw_launches w
    \<Longrightarrow> cw_pump w' = cw_pump w \<Longrightarrow> cw_stopping w \<subseteq> cw_stopping w' \<Longrightarrow> aside w w'"
  by (rule aside_pump) (simp_all add: derives_same)

lemma aside_minor: "aside w (cancel_run i w)" "aside w (set_active_limit n w)" "aside w (note_progress i p w)"
  "aside w (recoverStalledContinuousRuns s w)" "aside w (exits_reported is code w)" "aside w (exits_reported is code (w\<lparr>cw_pool := q\<rparr>))"
  by (rule aside_same; auto simp: cancel_run_def set_active_limit_def note_progress_def recoverStalledContinuousRuns_def exits_reported_def)+

lemma aside_step:
  assumes ok: "table_ok w" and step: "control_step s w w'"
  obtains "aside w w'"
  | ids n resources where "cw_pump w = PumpTurn ids n" "w' = pump_turn s resources ids n w"
  | ids n t c ready resources where "cw_pump w = PumpFleet ids n t c" "w' = fleet_answered s ready resources ids n t c w"
  | k p where "w' = begin_launch s FromOperator k p w"
  | l registry stamp where "l \<in> set (cw_launches w)" "CHR ''-'' \<notin> set stamp" "w' = target_allowed s l registry stamp w"
  using step
proof cases
  case (pump_turns ids n resources) then show ?thesis using that(2) by blast
next
  case (fleet_answers ids n t c ready resources) then show ?thesis using that(3) by blast
next
  case (fleet_fails ids n t c)
  have "derives w (update_object (cp_object c) (note_failure (cw_now w)) w)" by (rule derives_object [OF keeps_campaign_updates(1)])
  then have "aside w w'" by (simp add: fleet_fails fleet_failed_def aside_def derives_def held_by_pump_def)
  then show ?thesis by (rule that(1))
next
  case (operator_launch k p) then show ?thesis using that(4) by blast
next
  case (target_known l registry stamp) then show ?thesis using that(5) by blast
next
  case (removes rid pidLives)
  have "aside w w" by (rule aside_pump) (simp_all add: derives_same)
  then show ?thesis using that(1) removes aside_unlist by (auto simp: remove_run_def split: option.splits if_splits)
next
  case (bridge k answered)
  have "aside w w'" by (rule aside_pump) (auto simp: bridge bridge_deleted_def derives_def)
  then show ?thesis by (rule that(1))
next
  case (settles v assigned)
  then have "cp_status (sv_campaign v) \<noteq> Running" using ok by (simp add: table_ok_def)
  then show ?thesis using that(1) settles aside_saves(2) by blast
next
  case (schedules windows)
  have "derives w (reconcileCampaignSchedules windows w)"
    by (rule derives_map [OF keeps_campaign_updates(4)]) (auto simp: reconcileCampaignSchedules_def)
  then have "aside w w'" by (intro aside_pump) (auto simp: schedules reconcileCampaignSchedules_def)
  then show ?thesis by (rule that(1))
qed (rule that(1); auto intro: aside_failed aside_policy aside_message aside_finalize aside_commands aside_saves aside_unheld aside_minor aside_same
    simp: pump_begin_def)+




lemma begin_launch_others [simp]:
  "held_by_pump (begin_launch s origin k p w) = held_by_pump w" "cw_stopping (begin_launch s origin k p w) = cw_stopping w"
  by (simp_all add: begin_launch_def Let_def) (simp_all add: held_by_pump_def)



lemma next_campaign_ready: "next_campaign w ids = Some c \<Longrightarrow> c \<in> set (cw_campaigns w) \<and> cp_desiredRunning c"
  by (auto simp: next_campaign_def selectQueuedCampaign_def startable_def dest!: find_SomeD)





lemma aside_target: "aside w (target_allowed s l registry stamp w)"
proof -
  have run: "aside w (w\<lparr>cw_runs := rs, cw_sequence := n\<rparr>)" "aside w (w\<lparr>cw_runs := rs, cw_sequence := n, cw_pool := q\<rparr>)" for rs n q
    by (rule aside_same; simp)+
  have "aside w (create_run s l stamp port w)" for port
    unfolding create_run_def Let_def
    by (auto intro: aside_trans [OF run(1) aside_done] aside_trans [OF run(2) aside_stage]
        aside_trans [OF aside_trans [OF run(2) aside_unlist] aside_failed] split: prod.splits sum.splits)
  then show ?thesis by (simp add: target_allowed_def aside_failed split: sum.splits)
qed

lemma derives_begin: "cw_campaigns v = cw_campaigns w \<Longrightarrow> cw_objects v = cw_objects w \<Longrightarrow> derives w (begin_launch s origin k p v)"
  unfolding begin_launch_def Let_def
  by (auto intro: derives_same derives_trans [OF derives_same derives_failed])

lemma held_pump_launch [simp]: "held_by_pump (pump_launch s resources start ids n c w) = None"
  by (simp add: pump_launch_def) (simp add: held_by_pump_def)

lemma derives_pump_launch: "derives w (pump_launch s resources start ids n c w)"
  unfolding pump_launch_def by (auto intro: derives_same derives_begin)

lemma held_step:
  assumes ok: "table_ok w" and held: "held_ok w" and step: "control_step s w w'"
  shows "held_ok w'"
  using ok step
proof (cases rule: aside_step)
  case 1
  then show ?thesis using held_derives [OF held] by (simp add: aside_def)
next
  case (2 ids n resources)
  show ?thesis
  proof (cases "held_by_pump w'")
    case None
    then show ?thesis by (simp add: held_ok_def)
  next
    case (Some c)
    then have c: "next_campaign w ids = Some c" and w': "cw_campaigns w' = cw_campaigns w" "cw_objects w' = cw_objects w"
      unfolding 2 pump_turn_def by (auto split: if_splits option.splits) (auto simp: held_by_pump_def)
    from next_campaign_ready [OF c(1)] have "c \<in> set (cw_campaigns w)" by simp
    then show ?thesis using ok Some w' distinct_key_eq [of cp_object "cw_campaigns w" _ c]
      by (auto simp: held_ok_def table_ok_def)
  qed
next
  case (3 ids n t c ready resources)
  show ?thesis unfolding 3 fleet_answered_def Let_def by (simp add: held_ok_def)
next
  case (4 k p)
  then show ?thesis using held_derives [OF held derives_begin, of w] by simp
next
  case (5 l registry stamp)
  then show ?thesis using held_derives [OF held] aside_target by (simp add: aside_def)
qed

interpretation held: step_invariant "\<lambda>w. sane_settings s \<and> control_start w" "control_step s"
    "\<lambda>w. sane_settings s \<and> fleet_ok s w \<and> table_ok w \<and> held_ok w" for s
proof
  show "sane_settings s \<and> fleet_ok s w \<and> table_ok w \<and> held_ok w" if "sane_settings s \<and> control_start w" for w
    using that fleet_start by (simp add: control_start_def held_ok_def held_by_pump_def)
  show "sane_settings s \<and> fleet_ok s w' \<and> table_ok w' \<and> held_ok w'"
    if "sane_settings s \<and> fleet_ok s w \<and> table_ok w \<and> held_ok w" "control_step s w w'" for w w'
    using that fleet_step table_step held_step by blast
qed


section \<open>What a launch under way undoes\<close>

















end
