(* ===== verification/Leader_Store.thy ===== *)
theory Leader_Store
  imports Js_Value
begin

text \<open>
  Which control process leads, and whose writes of the control state count: \<open>web/server/distributed-store.mjs\<close>, with the
  PostgreSQL table of leases and the table of states, and the in-memory store that replaces it in development.

  The database has one clock, every process another: acquiring compares the expiry with the clock of the process, all
  else with that of the database. Saving is one SQL statement, but PostgreSQL reads the lease in the snapshot the statement
  starts with and writes the state row later: these are two steps here, between which anything may happen. A call
  may fail with its transaction done or not done. Pool and Redis handling, events and figures are left out.
\<close>

section \<open>Tables\<close>

record lease_row =
  lr_owner :: string
  lr_token :: int
  lr_expires :: time

record state_row =
  sr_payload :: string
  sr_version :: nat
  sr_updatedBy :: string
  sr_token :: int

record control_db =
  cd_lease :: "lease_row option"
  cd_states :: "string \<rightharpoonup> state_row"

text \<open>What a process remembers: the fencing token of its lease, and whether it is closed.\<close>

record store_client =
  sc_token :: "int option"
  sc_closed :: bool

definition boundedLeaseMs :: "js_number \<Rightarrow> ms" where
  "boundedLeaseMs v = (case v of Num r \<Rightarrow> clamp 5000 120000 (if 0 \<le> r then \<lfloor>r\<rfloor> else \<lceil>r\<rceil>) | _ \<Rightarrow> 15000)"

section \<open>Operations\<close>

definition current_lease :: "time \<Rightarrow> control_db \<Rightarrow> lease_row" where
  "current_lease now db = (case cd_lease db of Some r \<Rightarrow> r | None \<Rightarrow> \<lparr>lr_owner = '''', lr_token = 0, lr_expires = now\<rparr>)"

definition acquireLeader :: "string \<Rightarrow> js_number \<Rightarrow> time \<Rightarrow> time \<Rightarrow> control_db \<Rightarrow> store_client \<Rightarrow> bool \<times> control_db \<times> store_client" where
  "acquireLeader me ttl localNow now db c =
     (if sc_closed c then (False, db, c)
      else let row = current_lease now db; expired = (lr_expires row \<le> localNow)
        in if lr_owner row \<noteq> '''' \<and> lr_owner row \<noteq> me \<and> \<not> expired then (False, db, c\<lparr>sc_token := None\<rparr>)
           else let next = (if lr_owner row = me \<and> \<not> expired then lr_token row else lr_token row + 1)
             in (True, db\<lparr>cd_lease := Some \<lparr>lr_owner = me, lr_token = next, lr_expires = now + boundedLeaseMs ttl\<rparr>\<rparr>,
                 c\<lparr>sc_token := Some next\<rparr>))"

text \<open>The condition of the UPDATE and INSERT statements: the lease is still the caller's and has not expired.\<close>

definition holds_lease :: "string \<Rightarrow> int \<Rightarrow> time \<Rightarrow> control_db \<Rightarrow> bool" where
  "holds_lease me t now db \<longleftrightarrow> (case cd_lease db of None \<Rightarrow> False | Some r \<Rightarrow> lr_owner r = me \<and> lr_token r = t \<and> now < lr_expires r)"

definition renewLeader :: "string \<Rightarrow> js_number \<Rightarrow> time \<Rightarrow> control_db \<Rightarrow> store_client \<Rightarrow> bool \<times> control_db \<times> store_client" where
  "renewLeader me ttl now db c =
     (case (sc_closed c, sc_token c) of
        (False, Some t) \<Rightarrow>
          if holds_lease me t now db
          then (True, db\<lparr>cd_lease := map_option (\<lambda>r. r\<lparr>lr_expires := now + boundedLeaseMs ttl\<rparr>) (cd_lease db)\<rparr>, c)
          else (False, db, c\<lparr>sc_token := None\<rparr>)
      | _ \<Rightarrow> (False, db, c))"

definition releaseLeader :: "string \<Rightarrow> time \<Rightarrow> control_db \<Rightarrow> store_client \<Rightarrow> control_db \<times> store_client" where
  "releaseLeader me now db c =
     (case (sc_closed c, sc_token c) of
        (False, Some t) \<Rightarrow>
          (db\<lparr>cd_lease := map_option (\<lambda>r. if lr_owner r = me \<and> lr_token r = t then r\<lparr>lr_owner := '''', lr_expires := now\<rparr> else r) (cd_lease db)\<rparr>,
           c\<lparr>sc_token := None\<rparr>)
      | _ \<Rightarrow> (db, c))"

definition loadState :: "string \<Rightarrow> control_db \<Rightarrow> string option" where
  "loadState name db = map_option sr_payload (cd_states db name)"

datatype store_error = NoLease | PayloadTooLarge | LeadershipLost

text \<open>\<open>saveState\<close> up to the snapshot of its statement: the token it writes with, or \<open>None\<close> in it when no lease row matches.\<close>

definition save_begins :: "nat \<Rightarrow> string \<Rightarrow> string \<Rightarrow> time \<Rightarrow> control_db \<Rightarrow> store_client \<Rightarrow> store_error + int option" where
  "save_begins maxBytes me payload now db c =
     (case (sc_closed c, sc_token c) of
        (False, Some t) \<Rightarrow>
          if maxBytes < length payload then Inl PayloadTooLarge else Inr (if holds_lease me t now db then Some t else None)
      | _ \<Rightarrow> Inl NoLease)"

text \<open>The upsert of the state row; \<open>None\<close> when the row has a later token.\<close>

definition upsert_state :: "string \<Rightarrow> string \<Rightarrow> string \<Rightarrow> int \<Rightarrow> control_db \<Rightarrow> control_db option" where
  "upsert_state me name payload t db =
     (case cd_states db name of
        None \<Rightarrow> Some (db\<lparr>cd_states := (cd_states db)(name \<mapsto> \<lparr>sr_payload = payload, sr_version = 1, sr_updatedBy = me, sr_token = t\<rparr>)\<rparr>)
      | Some r \<Rightarrow>
          if sr_token r \<le> t
          then Some (db\<lparr>cd_states := (cd_states db)(name \<mapsto> \<lparr>sr_payload = payload, sr_version = sr_version r + 1, sr_updatedBy = me, sr_token = t\<rparr>)\<rparr>)
          else None)"

definition save_ends :: "string \<Rightarrow> string \<Rightarrow> string \<Rightarrow> int option \<Rightarrow> control_db \<Rightarrow> store_client \<Rightarrow> (store_error + nat \<times> int) \<times> control_db \<times> store_client" where
  "save_ends me name payload seen db c =
     (case (case seen of None \<Rightarrow> None | Some t \<Rightarrow> upsert_state me name payload t db) of
        None \<Rightarrow> (Inl LeadershipLost, db, c\<lparr>sc_token := None\<rparr>)
      | Some db' \<Rightarrow> (Inr (sr_version (the (cd_states db' name)), sr_token (the (cd_states db' name))), db', c))"

text \<open>The whole of \<open>saveState\<close> when nothing comes between.\<close>

definition saveState :: "nat \<Rightarrow> string \<Rightarrow> string \<Rightarrow> string \<Rightarrow> time \<Rightarrow> control_db \<Rightarrow> store_client \<Rightarrow> (store_error + nat \<times> int) \<times> control_db \<times> store_client" where
  "saveState maxBytes me name payload now db c =
     (case save_begins maxBytes me payload now db c of Inl e \<Rightarrow> (Inl e, db, c) | Inr seen \<Rightarrow> save_ends me name payload seen db c)"

definition close_store :: "string \<Rightarrow> time \<Rightarrow> control_db \<Rightarrow> store_client \<Rightarrow> control_db \<times> store_client" where
  "close_store me now db c = (let (db', c') = releaseLeader me now db c in (db', c'\<lparr>sc_closed := True\<rparr>))"

record lease_health =
  lh_leader :: bool
  lh_leaderOwner :: "string option"
  lh_fencingToken :: "int option"
  lh_thisInstanceIsLeader :: bool

definition lease_health_of :: "string \<Rightarrow> time \<Rightarrow> control_db \<Rightarrow> store_client \<Rightarrow> lease_health" where
  "lease_health_of me now db c =
     (case cd_lease db of
        None \<Rightarrow> \<lparr>lh_leader = False, lh_leaderOwner = None, lh_fencingToken = None, lh_thisInstanceIsLeader = False\<rparr>
      | Some r \<Rightarrow> \<lparr>lh_leader = (now < lr_expires r), lh_leaderOwner = (if lr_owner r = '''' then None else Some (lr_owner r)),
          lh_fencingToken = Some (lr_token r),
          lh_thisInstanceIsLeader = (now < lr_expires r \<and> lr_owner r = me \<and> sc_token c = Some (lr_token r))\<rparr>)"

section \<open>The in-memory store\<close>

record memory_control =
  mc_states :: "string \<rightharpoonup> string"
  mc_leader :: bool

definition memory_acquire :: "memory_control \<Rightarrow> bool \<times> memory_control" where
  "memory_acquire m = (True, m\<lparr>mc_leader := True\<rparr>)"

definition memory_release :: "memory_control \<Rightarrow> memory_control" where
  "memory_release m = m\<lparr>mc_leader := False\<rparr>"

definition memory_save :: "string \<Rightarrow> string \<Rightarrow> memory_control \<Rightarrow> (store_error + nat \<times> int) \<times> memory_control" where
  "memory_save name payload m =
     (if mc_leader m then (Inr (1, 1), m\<lparr>mc_states := (mc_states m)(name \<mapsto> payload)\<rparr>) else (Inl NoLease, m))"

definition memory_load :: "string \<Rightarrow> memory_control \<Rightarrow> string option" where
  "memory_load name m = mc_states m name"

section \<open>What the control service relies on\<close>

text \<open>The interface of both stores: without leadership nothing is saved, and what is saved is what is loaded next.\<close>

locale control_store =
  fixes leads :: "'s \<Rightarrow> bool" and acquire :: "'s \<Rightarrow> bool \<times> 's" and save :: "string \<Rightarrow> string \<Rightarrow> 's \<Rightarrow> (store_error + nat \<times> int) \<times> 's"
    and load :: "string \<Rightarrow> 's \<Rightarrow> string option"
  assumes acquired: "acquire s = (True, s') \<Longrightarrow> leads s'"
    and acquire_keeps: "acquire s = (b, s') \<Longrightarrow> load n s' = load n s"
    and saved: "save n p s = (Inr v, s') \<Longrightarrow> leads s \<and> leads s' \<and> load n s' = Some p"
    and save_other: "save n p s = (r, s') \<Longrightarrow> m \<noteq> n \<Longrightarrow> load m s' = load m s"
    and refused: "save n p s = (Inl e, s') \<Longrightarrow> load n s' = load n s"
begin

text \<open>A state is what the last successful save left, whatever failed saves and elections follow.\<close>

lemma load_after_failures:
  "save n p s = (Inr v, s1) \<Longrightarrow> save m q s1 = (Inl e, s2) \<Longrightarrow> acquire s2 = (b, s3) \<Longrightarrow> load n s3 = Some p"
  using saved acquire_keeps save_other [of m q s1 "Inl e" s2 n] refused [of m q s1 e s2] by (cases "n = m") metis+

lemma saves_commute_on_load:
  "save n p s = (Inr v, s1) \<Longrightarrow> save m q s1 = (Inr v', s2) \<Longrightarrow> n \<noteq> m \<Longrightarrow> load n s2 = Some p \<and> load m s2 = Some q"
  using saved save_other by metis

end

interpretation memory: control_store mc_leader memory_acquire memory_save memory_load
  by unfold_locales (auto simp: memory_acquire_def memory_save_def memory_load_def split: if_splits)

text \<open>PostgreSQL as one process sees it when nobody interferes: its own token and the tables.\<close>

definition db_acquire :: "string \<Rightarrow> js_number \<Rightarrow> time \<Rightarrow> time \<Rightarrow> control_db \<times> store_client \<Rightarrow> bool \<times> control_db \<times> store_client" where
  "db_acquire me ttl localNow now s = acquireLeader me ttl localNow now (fst s) (snd s)"

definition db_save :: "nat \<Rightarrow> string \<Rightarrow> time \<Rightarrow> string \<Rightarrow> string \<Rightarrow> control_db \<times> store_client \<Rightarrow> (store_error + nat \<times> int) \<times> control_db \<times> store_client" where
  "db_save maxBytes me now name payload s = saveState maxBytes me name payload now (fst s) (snd s)"

definition db_leads :: "control_db \<times> store_client \<Rightarrow> bool" where
  "db_leads s \<longleftrightarrow> \<not> sc_closed (snd s) \<and> sc_token (snd s) \<noteq> None"

lemma upsert_Some:
  assumes "upsert_state me name payload t db = Some db'"
  obtains r where "cd_states db' = (cd_states db)(name \<mapsto> r)" "cd_lease db' = cd_lease db" "sr_payload r = payload" "sr_updatedBy r = me" "sr_token r = t"
    "\<And>old. cd_states db name = Some old \<Longrightarrow> sr_token old \<le> t \<and> sr_version r = sr_version old + 1"
  using assms by (auto simp: upsert_state_def split: option.splits if_splits)

lemma save_ends_cases:
  assumes "save_ends me name payload seen db c = (res, db', c')"
  obtains (kept) "db' = db" "c' = c\<lparr>sc_token := None\<rparr>" "res = Inl LeadershipLost"
  | (written) t v where "seen = Some t" "upsert_state me name payload t db = Some db'" "c' = c" "res = Inr v"
  using assms by (auto simp: save_ends_def split: option.splits)

lemma saveState_cases:
  assumes "saveState maxBytes me name payload now db c = (res, db', c')"
  obtains (kept) e where "db' = db" "res = Inl e"
  | (written) t v where "sc_token c = Some t" "\<not> sc_closed c" "upsert_state me name payload t db = Some db'" "c' = c" "res = Inr v"
proof (cases "save_begins maxBytes me payload now db c")
  case (Inl e)
  then show ?thesis using assms kept by (auto simp: saveState_def)
next
  case (Inr seen)
  then have "save_ends me name payload seen db c = (res, db', c')" using assms by (simp add: saveState_def)
  then show ?thesis
  proof (cases rule: save_ends_cases)
    case (written t v)
    then have "sc_token c = Some t" "\<not> sc_closed c" using Inr by (auto simp: save_begins_def split: bool.splits option.splits if_splits)
    then show ?thesis using written that(2) by blast
  qed (use kept in blast)
qed

interpretation postgres: control_store db_leads "db_acquire me ttl localNow now" "db_save maxBytes me now" "\<lambda>n s. loadState n (fst s)"
  for me ttl localNow now maxBytes
proof
  fix s s' :: "control_db \<times> store_client" and b n m p r v e
  show "db_leads s'" if "db_acquire me ttl localNow now s = (True, s')"
    using that by (auto simp: db_acquire_def acquireLeader_def db_leads_def Let_def split: if_splits)
  show "loadState n (fst s') = loadState n (fst s)" if "db_acquire me ttl localNow now s = (b, s')"
    using that by (auto simp: db_acquire_def acquireLeader_def loadState_def Let_def split: if_splits)
  obtain db c db' c' where s: "s = (db, c)" "s' = (db', c')" by (cases s; cases s') auto
  show "db_leads s \<and> db_leads s' \<and> loadState n (fst s') = Some p" if "db_save maxBytes me now n p s = (Inr v, s')"
  proof -
    from that have "saveState maxBytes me n p now db c = (Inr v, db', c')" by (simp add: db_save_def s)
    then show ?thesis
    proof (cases rule: saveState_cases)
      case (written t v)
      then show ?thesis by (auto simp: s db_leads_def loadState_def elim!: upsert_Some)
    qed simp
  qed
  show "loadState m (fst s') = loadState m (fst s)" if "db_save maxBytes me now n p s = (r, s')" "m \<noteq> n"
  proof -
    from that have "saveState maxBytes me n p now db c = (r, db', c')" by (simp add: db_save_def s)
    then show ?thesis
    proof (cases rule: saveState_cases)
      case (written t v)
      then show ?thesis using that(2) by (auto simp: s loadState_def elim!: upsert_Some)
    qed (simp add: s)
  qed
  show "loadState n (fst s') = loadState n (fst s)" if "db_save maxBytes me now n p s = (Inl e, s')"
  proof -
    from that have "saveState maxBytes me n p now db c = (Inl e, db', c')" by (simp add: db_save_def s)
    then show ?thesis by (cases rule: saveState_cases) (simp_all add: s)
  qed
qed

section \<open>Processes that compete\<close>

record pending_write =
  pd_me :: string
  pd_name :: string
  pd_payload :: string
  pd_seen :: "int option"

record store_world =
  sw_db :: control_db
  sw_now :: time
  sw_clients :: "string \<Rightarrow> store_client"
  sw_writes :: "pending_write list"

definition put_client :: "string \<Rightarrow> control_db \<Rightarrow> store_client \<Rightarrow> store_world \<Rightarrow> store_world" where
  "put_client me db c w = w\<lparr>sw_db := db, sw_clients := (sw_clients w)(me := c)\<rparr>"

text \<open>Any process, with any clock and any lifetime. \<open>NOW()\<close> is the time a transaction began, which may have waited for the row since.
  A call of which the transaction is done but the answer is lost keeps what the process remembers.\<close>

inductive store_step :: "store_world \<Rightarrow> store_world \<Rightarrow> bool" where
  ticks: "sw_now w \<le> t \<Longrightarrow> store_step w (w\<lparr>sw_now := t\<rparr>)"
| acquires: "me \<noteq> '''' \<Longrightarrow> began \<le> sw_now w \<Longrightarrow> acquireLeader me ttl localNow began (sw_db w) (sw_clients w me) = (b, db, c)
    \<Longrightarrow> c' \<in> {c, sw_clients w me} \<Longrightarrow> store_step w (put_client me db c' w)"
| renews: "began \<le> sw_now w \<Longrightarrow> renewLeader me ttl began (sw_db w) (sw_clients w me) = (b, db, c)
    \<Longrightarrow> c' \<in> {c, sw_clients w me} \<Longrightarrow> store_step w (put_client me db c' w)"
| releases: "began \<le> sw_now w \<Longrightarrow> releaseLeader me began (sw_db w) (sw_clients w me) = (db, c)
    \<Longrightarrow> c' \<in> {c, sw_clients w me} \<Longrightarrow> store_step w (put_client me db c' w)"
| closes: "began \<le> sw_now w \<Longrightarrow> close_store me began (sw_db w) (sw_clients w me) = (db, c) \<Longrightarrow> store_step w (put_client me db c w)"
| closes_failing: "store_step w (put_client me (sw_db w) ((sw_clients w me)\<lparr>sc_closed := True\<rparr>) w)"
| save_starts: "save_begins maxBytes me payload (sw_now w) (sw_db w) (sw_clients w me) = Inr seen
    \<Longrightarrow> store_step w (w\<lparr>sw_writes := sw_writes w @ [\<lparr>pd_me = me, pd_name = name, pd_payload = payload, pd_seen = seen\<rparr>]\<rparr>)"
| save_finishes: "p \<in> set (sw_writes w)
    \<Longrightarrow> save_ends (pd_me p) (pd_name p) (pd_payload p) (pd_seen p) (sw_db w) (sw_clients w (pd_me p)) = (res, db, c)
    \<Longrightarrow> c' \<in> {c, sw_clients w (pd_me p)} \<Longrightarrow> store_step w ((put_client (pd_me p) db c' w)\<lparr>sw_writes := remove1 p (sw_writes w)\<rparr>)"

definition store_start :: "store_world \<Rightarrow> bool" where
  "store_start w \<longleftrightarrow> cd_lease (sw_db w) = None \<and> cd_states (sw_db w) = Map.empty \<and> sw_writes w = [] \<and> (\<forall>i. sc_token (sw_clients w i) = None)"

abbreviation store_reachable :: "store_world \<Rightarrow> bool" where
  "store_reachable \<equiv> reachable_from store_start store_step"

section \<open>Fencing\<close>

text \<open>Who has a token: the process that remembers it, that has a write with it under way, or whose state row carries it.\<close>

definition has_token :: "store_world \<Rightarrow> string \<Rightarrow> int \<Rightarrow> bool" where
  "has_token w i t \<longleftrightarrow> sc_token (sw_clients w i) = Some t \<or> (\<exists>p\<in>set (sw_writes w). pd_me p = i \<and> pd_seen p = Some t)
     \<or> (\<exists>n r. cd_states (sw_db w) n = Some r \<and> sr_updatedBy r = i \<and> sr_token r = t)"

definition lease_token :: "store_world \<Rightarrow> int" where
  "lease_token w = (case cd_lease (sw_db w) of None \<Rightarrow> 0 | Some r \<Rightarrow> lr_token r)"

definition lease_owner :: "store_world \<Rightarrow> string" where
  "lease_owner w = (case cd_lease (sw_db w) of None \<Rightarrow> '''' | Some r \<Rightarrow> lr_owner r)"

definition fenced :: "store_world \<Rightarrow> bool" where
  "fenced w \<longleftrightarrow> (\<forall>i t. has_token w i t \<longrightarrow> t \<le> lease_token w \<and> (t = lease_token w \<longrightarrow> lease_owner w \<in> {i, ''''}))
     \<and> (\<forall>i j t. has_token w i t \<longrightarrow> has_token w j t \<longrightarrow> i = j)
     \<and> (cd_lease (sw_db w) = None \<longrightarrow> (\<forall>i t. \<not> has_token w i t))"

lemma fenced_start: "store_start w \<Longrightarrow> fenced w"
  by (auto simp: fenced_def store_start_def has_token_def)

text \<open>A step that hands out no token and leaves the lease with the same token, and with the same owner or none.\<close>

lemma fenced_less:
  assumes "fenced w" "\<And>i t. has_token w' i t \<Longrightarrow> has_token w i t" "lease_token w' = lease_token w"
    "lease_owner w' \<in> {lease_owner w, ''''}" "cd_lease (sw_db w') = None \<longleftrightarrow> cd_lease (sw_db w) = None"
  shows "fenced w'"
  using assms unfolding fenced_def by (metis insert_iff singletonD)

lemma has_token_put:
  assumes "cd_states db = cd_states (sw_db w)" "sc_token c \<in> {None, sc_token (sw_clients w me)}"
  shows "has_token (put_client me db c w) i t \<Longrightarrow> has_token w i t"
  using assms by (auto simp: has_token_def put_client_def split: if_splits)

lemma renew_parts:
  assumes "renewLeader me ttl now db c = (b, db', c')"
  shows "cd_states db' = cd_states db" "sc_token c' \<in> {None, sc_token c}" "map_option lr_token (cd_lease db') = map_option lr_token (cd_lease db)"
    "map_option lr_owner (cd_lease db') = map_option lr_owner (cd_lease db)"
  using assms by (auto simp: renewLeader_def option.map_comp comp_def split: bool.splits option.splits if_splits)

lemma release_parts:
  assumes "releaseLeader me now db c = (db', c')"
  shows "cd_states db' = cd_states db" "sc_token c' \<in> {None, sc_token c}" "map_option lr_token (cd_lease db') = map_option lr_token (cd_lease db)"
    "case cd_lease db' of None \<Rightarrow> cd_lease db = None | Some r \<Rightarrow> lr_owner r \<in> {'''', (case cd_lease db of None \<Rightarrow> '''' | Some q \<Rightarrow> lr_owner q)}"
  using assms by (cases "cd_lease db"; auto simp: releaseLeader_def split: bool.splits option.splits if_splits)+

lemma lease_token_eq: "map_option lr_token (cd_lease (sw_db w')) = map_option lr_token (cd_lease (sw_db w)) \<Longrightarrow> lease_token w' = lease_token w"
  by (auto simp: lease_token_def split: option.splits)

lemma none_eq: "map_option f a = map_option f b \<Longrightarrow> a = None \<longleftrightarrow> b = None"
  by (cases a; cases b) auto

lemma fenced_renew:
  assumes "fenced w" "renewLeader me ttl began (sw_db w) (sw_clients w me) = (b, db, c)" "c' \<in> {c, sw_clients w me}"
  shows "fenced (put_client me db c' w)"
proof (rule fenced_less [OF assms(1)])
  note p = renew_parts [OF assms(2)]
  show "has_token (put_client me db c' w) i t \<Longrightarrow> has_token w i t" for i t
    by (rule has_token_put [OF p(1)]) (use p(2) assms(3) in auto)
  show "lease_token (put_client me db c' w) = lease_token w" by (rule lease_token_eq) (simp add: put_client_def p(3))
  show "lease_owner (put_client me db c' w) \<in> {lease_owner w, ''''}"
    using p(4) by (auto simp: lease_owner_def put_client_def split: option.splits)
  show "cd_lease (sw_db (put_client me db c' w)) = None \<longleftrightarrow> cd_lease (sw_db w) = None"
    using none_eq [OF p(3)] by (simp add: put_client_def)
qed

lemma fenced_release:
  assumes "fenced w" "releaseLeader me began (sw_db w) (sw_clients w me) = (db, c)" "sc_token c' \<in> {sc_token c, sc_token (sw_clients w me)}"
  shows "fenced (put_client me db c' w)"
proof (rule fenced_less [OF assms(1)])
  note p = release_parts [OF assms(2)]
  show "has_token (put_client me db c' w) i t \<Longrightarrow> has_token w i t" for i t
    by (rule has_token_put [OF p(1)]) (use p(2) assms(3) in auto)
  show "lease_token (put_client me db c' w) = lease_token w" by (rule lease_token_eq) (simp add: put_client_def p(3))
  show "lease_owner (put_client me db c' w) \<in> {lease_owner w, ''''}"
    using p(4) by (auto simp: lease_owner_def put_client_def split: option.splits)
  show "cd_lease (sw_db (put_client me db c' w)) = None \<longleftrightarrow> cd_lease (sw_db w) = None"
    using none_eq [OF p(3)] by (simp add: put_client_def)
qed

lemma fenced_acquire:
  assumes ok: "fenced w" and me: "me \<noteq> ''''" and acq: "acquireLeader me ttl localNow began (sw_db w) (sw_clients w me) = (b, db, c)"
    and c': "c' \<in> {c, sw_clients w me}"
  shows "fenced (put_client me db c' w)"
proof (cases b)
  case False
  then have same: "db = sw_db w" "sc_token c' \<in> {None, sc_token (sw_clients w me)}"
    using acq c' by (auto simp: acquireLeader_def Let_def split: if_splits)
  show ?thesis
  proof (rule fenced_less [OF ok])
    show "has_token (put_client me db c' w) i t \<Longrightarrow> has_token w i t" for i t by (rule has_token_put) (use same in auto)
  qed (simp_all add: put_client_def same lease_token_def lease_owner_def)
next
  case True
  let ?row = "current_lease began (sw_db w)"
  obtain e where e: "e = (lr_expires ?row \<le> localNow)" by blast
  obtain nx where n: "nx = (if lr_owner ?row = me \<and> \<not> e then lr_token ?row else lr_token ?row + 1)" by blast
  have new: "db = (sw_db w)\<lparr>cd_lease := Some \<lparr>lr_owner = me, lr_token = nx, lr_expires = began + boundedLeaseMs ttl\<rparr>\<rparr>"
      "sc_token c = Some nx"
    using acq True by (auto simp: acquireLeader_def Let_def n e split: if_splits)
  have row: "lr_token ?row = lease_token w" "lr_owner ?row = lease_owner w"
    by (auto simp: current_lease_def lease_token_def lease_owner_def split: option.splits)
  have tok: "has_token (put_client me db c' w) i t \<Longrightarrow> has_token w i t \<or> (i = me \<and> t = nx)" for i t
    using c' new by (auto simp: has_token_def put_client_def split: if_splits)
  have old: "has_token w i t \<Longrightarrow> t \<le> nx \<and> (t = nx \<longrightarrow> i = me)" for i t
  proof -
    assume "has_token w i t"
    then have "t \<le> lease_token w \<and> (t = lease_token w \<longrightarrow> lease_owner w \<in> {i, ''''})" using ok unfolding fenced_def by blast
    then show ?thesis using me n row by (auto split: if_splits)
  qed
  have one: "has_token w i t \<Longrightarrow> has_token w j t \<Longrightarrow> i = j" for i j t using ok unfolding fenced_def by blast
  have lease: "lease_token (put_client me db c' w) = nx" "lease_owner (put_client me db c' w) = me" "cd_lease (sw_db (put_client me db c' w)) \<noteq> None"
    by (simp_all add: lease_token_def lease_owner_def put_client_def new)
  show ?thesis
    unfolding fenced_def lease
  proof (intro conjI allI impI)
    fix i j t
    assume i: "has_token (put_client me db c' w) i t"
    then show "t \<le> nx" "t = nx \<Longrightarrow> me \<in> {i, ''''}" using tok old by blast+
    assume "has_token (put_client me db c' w) j t"
    then show "i = j" using i tok old one by blast
  qed (use lease(3) in simp)
qed

lemma fenced_save:
  assumes ok: "fenced w" and p: "p \<in> set (sw_writes w)"
    and s: "save_ends (pd_me p) (pd_name p) (pd_payload p) (pd_seen p) (sw_db w) (sw_clients w (pd_me p)) = (res, db, c)"
    and c': "c' \<in> {c, sw_clients w (pd_me p)}"
  shows "fenced ((put_client (pd_me p) db c' w)\<lparr>sw_writes := remove1 p (sw_writes w)\<rparr>)" (is "fenced ?w")
proof (rule fenced_less [OF ok])
  have sub: "set (remove1 p (sw_writes w)) \<subseteq> set (sw_writes w)" by (rule set_remove1_subset)
  from s have "cd_lease db = cd_lease (sw_db w) \<and> sc_token c' \<in> {None, sc_token (sw_clients w (pd_me p))}
      \<and> (\<forall>n r. cd_states db n = Some r \<longrightarrow> has_token w (sr_updatedBy r) (sr_token r))"
  proof (cases rule: save_ends_cases)
    case kept
    then show ?thesis using c' by (auto simp: has_token_def)
  next
    case (written t v)
    from written(2) show ?thesis
    proof (rule upsert_Some)
      fix r
      assume "cd_states db = (cd_states (sw_db w))(pd_name p \<mapsto> r)" "cd_lease db = cd_lease (sw_db w)" "sr_updatedBy r = pd_me p" "sr_token r = t"
      then show ?thesis using c' written p by (auto simp: has_token_def)
    qed
  qed
  then have d: "cd_lease db = cd_lease (sw_db w)" "sc_token c' \<in> {None, sc_token (sw_clients w (pd_me p))}"
      "cd_states db n = Some r \<Longrightarrow> has_token w (sr_updatedBy r) (sr_token r)" for n r by blast+
  show "has_token w i t" if "has_token ?w i t" for i t
  proof -
    from that consider "sc_token (sw_clients ?w i) = Some t" | q where "q \<in> set (remove1 p (sw_writes w))" "pd_me q = i" "pd_seen q = Some t"
      | n r where "cd_states db n = Some r" "sr_updatedBy r = i" "sr_token r = t"
      unfolding has_token_def by (auto simp: put_client_def)
    then show ?thesis
    proof cases
      case 1
      then show ?thesis using d(2) by (auto simp: has_token_def put_client_def split: if_splits)
    next
      case 2
      then show ?thesis using sub by (auto simp: has_token_def)
    next
      case 3
      then show ?thesis using d(3) by blast
    qed
  qed
  show "lease_token ?w = lease_token w" "lease_owner ?w \<in> {lease_owner w, ''''}" "cd_lease (sw_db ?w) = None \<longleftrightarrow> cd_lease (sw_db w) = None"
    by (simp_all add: lease_token_def lease_owner_def put_client_def d(1))
qed

lemma fenced_step:
  assumes ok: "fenced w" and step: "store_step w w'"
  shows "fenced w'"
  using step
proof cases
  case (ticks t)
  show ?thesis unfolding ticks by (rule fenced_less [OF ok]) (simp_all add: has_token_def lease_token_def lease_owner_def)
next
  case (closes began me db c)
  then obtain c0 where "releaseLeader me began (sw_db w) (sw_clients w me) = (db, c0)" "c = c0\<lparr>sc_closed := True\<rparr>"
    by (auto simp: close_store_def split: prod.splits)
  then show ?thesis using fenced_release [OF ok, of me began db c0 c] closes by simp
next
  case (closes_failing me)
  show ?thesis unfolding closes_failing
    by (rule fenced_less [OF ok]) (simp_all add: put_client_def has_token_def lease_token_def lease_owner_def split: if_splits)
next
  case (save_starts maxBytes me payload seen name)
  show ?thesis unfolding save_starts
  proof (rule fenced_less [OF ok])
    show "has_token w i t" if "has_token (w\<lparr>sw_writes := sw_writes w @ [\<lparr>pd_me = me, pd_name = name, pd_payload = payload, pd_seen = seen\<rparr>]\<rparr>) i t" for i t
      using that save_starts(2) by (auto simp: has_token_def save_begins_def split: bool.splits option.splits if_splits)
  qed (simp_all add: lease_token_def lease_owner_def)
next
  case (releases began me db c c')
  then show ?thesis using fenced_release [OF ok, of me began db c c'] by auto
next
  case (acquires me began ttl localNow b db c c')
  then show ?thesis using fenced_acquire [OF ok] by simp
next
  case (renews began me ttl b db c c')
  then show ?thesis using fenced_renew [OF ok] by simp
next
  case (save_finishes p res db c c')
  then show ?thesis using fenced_save [OF ok] by simp
qed

interpretation fencing: step_invariant store_start store_step fenced
  by unfold_locales (auto intro: fenced_start fenced_step)

section \<open>What a step writes\<close>

lemma cd_states_step:
  assumes "store_step w w'" "cd_states (sw_db w') n \<noteq> cd_states (sw_db w) n"
  obtains p t where "p \<in> set (sw_writes w)" "pd_name p = n" "pd_seen p = Some t" "upsert_state (pd_me p) n (pd_payload p) t (sw_db w) = Some (sw_db w')"
  using assms(1)
proof cases
  case (renews began me ttl b db c c')
  then show ?thesis using renew_parts(1) [OF renews(3)] assms(2) by (simp add: put_client_def)
next
  case (releases began me db c c')
  then show ?thesis using release_parts(1) [OF releases(3)] assms(2) by (simp add: put_client_def)
next
  case (closes began me db c)
  then obtain c0 where "releaseLeader me began (sw_db w) (sw_clients w me) = (db, c0)"
    by (auto simp: close_store_def split: prod.splits)
  from release_parts(1) [OF this] show ?thesis using closes assms(2) by (simp add: put_client_def)
next
  case (acquires me began ttl localNow b db c c')
  then have "cd_states db = cd_states (sw_db w)" by (auto simp: acquireLeader_def Let_def split: if_splits)
  then show ?thesis using acquires assms(2) by (simp add: put_client_def)
next
  case (save_finishes p res db c c')
  from save_finishes(3) show ?thesis
  proof (cases rule: save_ends_cases)
    case kept
    then show ?thesis using save_finishes assms(2) by (simp add: put_client_def)
  next
    case (written t v)
    have db: "sw_db w' = db" by (simp add: save_finishes(1) put_client_def)
    have "pd_name p = n" using written(2) assms(2) unfolding db by (auto elim!: upsert_Some split: if_splits)
    then show ?thesis using that [OF save_finishes(2) _ written(1)] written(2) by (simp add: db)
  qed
qed (use assms(2) in \<open>simp_all add: put_client_def\<close>)

section \<open>A change of leader, step by step\<close>

definition client0 :: store_client where "client0 = \<lparr>sc_token = None, sc_closed = False\<rparr>"
definition holding :: "int \<Rightarrow> store_client" where "holding t = \<lparr>sc_token = Some t, sc_closed = False\<rparr>"
definition row1 :: state_row where "row1 = \<lparr>sr_payload = ''{}'', sr_version = 1, sr_updatedBy = ''a'', sr_token = 1\<rparr>"
definition write_of :: "string \<Rightarrow> int \<Rightarrow> pending_write" where
  "write_of me t = \<lparr>pd_me = me, pd_name = ''control'', pd_payload = ''{}'', pd_seen = Some t\<rparr>"
definition lease_of :: "string \<Rightarrow> int \<Rightarrow> time \<Rightarrow> lease_row" where "lease_of me t e = \<lparr>lr_owner = me, lr_token = t, lr_expires = e\<rparr>"
definition leaders0 :: "string \<Rightarrow> store_client" where "leaders0 i = client0"
definition leaders1 :: "string \<Rightarrow> store_client" where "leaders1 = leaders0(''a'' := holding 1)"
definition leaders2 :: "string \<Rightarrow> store_client" where "leaders2 = leaders1(''b'' := holding 2)"
definition world_of :: "lease_row option \<Rightarrow> (string \<rightharpoonup> state_row) \<Rightarrow> time \<Rightarrow> (string \<Rightarrow> store_client) \<Rightarrow> pending_write list \<Rightarrow> store_world" where
  "world_of l s n c p = \<lparr>sw_db = \<lparr>cd_lease = l, cd_states = s\<rparr>, sw_now = n, sw_clients = c, sw_writes = p\<rparr>"

lemmas change_defs = client0_def holding_def row1_def write_of_def lease_of_def leaders0_def leaders1_def leaders2_def world_of_def

definition led_by_a :: store_world where "led_by_a = world_of (Some (lease_of ''a'' 1 15000)) Map.empty 0 leaders1 []"
definition a_writes :: store_world where "a_writes = world_of (Some (lease_of ''a'' 1 15000)) Map.empty 0 leaders1 [write_of ''a'' 1]"
definition a_wrote :: store_world where "a_wrote = world_of (Some (lease_of ''a'' 1 15000)) [''control'' \<mapsto> row1] 20000 leaders1 []"
definition led_by_b :: store_world where "led_by_b = world_of (Some (lease_of ''b'' 2 35000)) [''control'' \<mapsto> row1] 20000 leaders2 []"
definition b_writes :: store_world where "b_writes = world_of (Some (lease_of ''b'' 2 35000)) [''control'' \<mapsto> row1] 20000 leaders2 [write_of ''b'' 2]"
definition b_wrote :: store_world where
  "b_wrote = world_of (Some (lease_of ''b'' 2 35000)) [''control'' \<mapsto> row1\<lparr>sr_version := 2, sr_updatedBy := ''b'', sr_token := 2\<rparr>] 20000 leaders2 []"
definition late_write :: store_world where
  "late_write = world_of (Some (lease_of ''b'' 2 35000)) Map.empty 20000 leaders2 [write_of ''a'' 1]"

lemma lease_15: "boundedLeaseMs (Num 15000) = 15000"
  by (simp add: boundedLeaseMs_def clamp_def)

lemma reachable_led_by_a: "store_reachable led_by_a"
proof (rule reachable_from.step)
  show "store_reachable (world_of None Map.empty 0 leaders0 [])"
    by (rule reachable_from.init) (simp add: store_start_def change_defs)
  have "store_step (world_of None Map.empty 0 leaders0 [])
      (put_client ''a'' \<lparr>cd_lease = Some (lease_of ''a'' 1 15000), cd_states = Map.empty\<rparr> (holding 1) (world_of None Map.empty 0 leaders0 []))"
    by (rule acquires [where ttl = "Num 15000" and localNow = 0 and began = 0])
      (simp_all add: acquireLeader_def current_lease_def Let_def change_defs lease_15)
  then show "store_step (world_of None Map.empty 0 leaders0 []) led_by_a"
    by (simp add: led_by_a_def put_client_def change_defs)
qed

lemma reachable_a_writes: "store_reachable a_writes"
proof (rule reachable_from.step [OF reachable_led_by_a])
  have "store_step led_by_a (led_by_a\<lparr>sw_writes := sw_writes led_by_a @ [\<lparr>pd_me = ''a'', pd_name = ''control'', pd_payload = ''{}'', pd_seen = Some 1\<rparr>]\<rparr>)"
    by (rule save_starts [where maxBytes = 10]) (simp add: save_begins_def holds_lease_def led_by_a_def change_defs)
  then show "store_step led_by_a a_writes" by (simp add: led_by_a_def a_writes_def change_defs)
qed

lemma reachable_a_wrote: "store_reachable a_wrote"
proof (rule reachable_from.step)
  let ?w = "world_of (Some (lease_of ''a'' 1 15000)) [''control'' \<mapsto> row1] 0 leaders1 []"
  show "store_reachable ?w"
  proof (rule reachable_from.step [OF reachable_a_writes])
    have "store_step a_writes ((put_client (pd_me (write_of ''a'' 1)) (sw_db ?w) (holding 1) a_writes)\<lparr>sw_writes := remove1 (write_of ''a'' 1) (sw_writes a_writes)\<rparr>)"
      by (rule save_finishes [where res = "Inr (1, 1)" and c = "holding 1"])
        (simp_all add: a_writes_def save_ends_def upsert_state_def change_defs)
    then show "store_step a_writes ?w" by (simp add: a_writes_def put_client_def change_defs)
  qed
  have "store_step ?w (?w\<lparr>sw_now := 20000\<rparr>)" by (rule ticks) (simp add: world_of_def)
  then show "store_step ?w a_wrote" by (simp add: a_wrote_def world_of_def)
qed

lemma b_acquires:
  assumes "store_reachable (world_of (Some (lease_of ''a'' 1 15000)) s 20000 leaders1 p)"
  shows "store_reachable (world_of (Some (lease_of ''b'' 2 35000)) s 20000 leaders2 p)"
proof (rule reachable_from.step [OF assms])
  let ?w = "world_of (Some (lease_of ''a'' 1 15000)) s 20000 leaders1 p"
  have "store_step ?w (put_client ''b'' \<lparr>cd_lease = Some (lease_of ''b'' 2 35000), cd_states = s\<rparr> (holding 2) ?w)"
    by (rule acquires [where ttl = "Num 15000" and localNow = 20000 and began = 20000])
      (simp_all add: acquireLeader_def current_lease_def Let_def change_defs lease_15)
  then show "store_step ?w (world_of (Some (lease_of ''b'' 2 35000)) s 20000 leaders2 p)"
    by (simp add: put_client_def change_defs)
qed

lemma reachable_led_by_b: "store_reachable led_by_b"
  using b_acquires reachable_a_wrote unfolding led_by_b_def a_wrote_def by blast

lemma reachable_late_write: "store_reachable late_write"
proof -
  have "store_step a_writes (a_writes\<lparr>sw_now := 20000\<rparr>)" by (rule ticks) (simp add: a_writes_def world_of_def)
  then have "store_reachable (a_writes\<lparr>sw_now := 20000\<rparr>)" by (rule reachable_from.step [OF reachable_a_writes])
  then show ?thesis using b_acquires [of Map.empty "[write_of ''a'' 1]"] by (simp add: late_write_def a_writes_def world_of_def)
qed

lemma reachable_b_writes: "store_reachable b_writes"
proof (rule reachable_from.step [OF reachable_led_by_b])
  have "store_step led_by_b (led_by_b\<lparr>sw_writes := sw_writes led_by_b @ [\<lparr>pd_me = ''b'', pd_name = ''control'', pd_payload = ''{}'', pd_seen = Some 2\<rparr>]\<rparr>)"
    by (rule save_starts [where maxBytes = 10]) (simp add: save_begins_def holds_lease_def led_by_b_def change_defs)
  then show "store_step led_by_b b_writes" by (simp add: led_by_b_def b_writes_def change_defs)
qed

lemma b_write_step: "store_step b_writes b_wrote"
proof -
  have "store_step b_writes ((put_client (pd_me (write_of ''b'' 2)) (sw_db b_wrote) (holding 2) b_writes)\<lparr>sw_writes := remove1 (write_of ''b'' 2) (sw_writes b_writes)\<rparr>)"
    by (rule save_finishes [where res = "Inr (2, 2)" and c = "holding 2"])
      (simp_all add: b_writes_def b_wrote_def save_ends_def upsert_state_def change_defs numeral_2_eq_2)
  then show ?thesis by (simp add: b_writes_def b_wrote_def put_client_def change_defs)
qed

section \<open>The properties\<close>

text \<open>C12: However processes acquire, lose and renew the lease, whatever their clocks say and whichever answers are lost: a state
  row is only replaced by the next version under the same or a later fencing token, and only one process ever writes under a
  token. So the write of a leader that was superseded never replaces what its successor has written.\<close>

theorem control_state_is_fenced:
  assumes "store_reachable w" "store_step w w'" "cd_states (sw_db w) n = Some r" "cd_states (sw_db w') n \<noteq> Some r"
  shows "case cd_states (sw_db w') n of None \<Rightarrow> False
    | Some r' \<Rightarrow> sr_version r' = sr_version r + 1
        \<and> (sr_token r < sr_token r' \<or> sr_token r' = sr_token r \<and> sr_updatedBy r' = sr_updatedBy r)"
proof -
  have ok: "fenced w" "fenced w'" using fencing.reachable_inv [OF assms(1)] fenced_step assms(2) by blast+
  from assms(3,4) have "cd_states (sw_db w') n \<noteq> cd_states (sw_db w) n" by simp
  with assms(2) obtain p t where p: "p \<in> set (sw_writes w)" "pd_seen p = Some t" "upsert_state (pd_me p) n (pd_payload p) t (sw_db w) = Some (sw_db w')"
    by (rule cd_states_step) blast
  from p(3) obtain r' where r': "cd_states (sw_db w') n = Some r'" "sr_updatedBy r' = pd_me p" "sr_token r' = t"
      "sr_token r \<le> t \<and> sr_version r' = sr_version r + 1"
    using assms(3) by (auto elim!: upsert_Some)
  have "has_token w (pd_me p) t" "has_token w (sr_updatedBy r) (sr_token r)" using p(1,2) assms(3) by (auto simp: has_token_def)
  then have "sr_token r = t \<Longrightarrow> sr_updatedBy r = pd_me p" using ok(1) unfolding fenced_def by blast
  with r' show ?thesis by auto
qed


lemma control_state_is_fenced_witness:
  "sr_version (the (cd_states (sw_db b_wrote) ''control'')) = 2
   \<and> (case cd_states (sw_db b_wrote) ''control'' of None \<Rightarrow> False
      | Some r' \<Rightarrow> sr_version r' = sr_version row1 + 1
        \<and> (sr_token row1 < sr_token r' \<or> sr_token r' = sr_token row1 \<and> sr_updatedBy r' = sr_updatedBy row1))"
proof -
  have "cd_states (sw_db b_writes) ''control'' = Some row1" by (simp add: b_writes_def world_of_def)
  moreover have "cd_states (sw_db b_wrote) ''control'' \<noteq> Some row1" by (simp add: b_wrote_def change_defs)
  ultimately show ?thesis
    using control_state_is_fenced [OF reachable_b_writes b_write_step] by (simp add: b_wrote_def world_of_def row1_def)
qed

text \<open>A leader whose lease another process has taken over is refused: its save changes nothing and makes it forget its
  leadership, and so does its renewal.\<close>

theorem deposed_leader_is_refused:
  assumes "store_reachable w" "sc_token (sw_clients w i) = Some t" "sc_token (sw_clients w j) = Some u" "i \<noteq> j" "t < u" "\<not> sc_closed (sw_clients w i)"
    "length payload \<le> maxBytes"
  shows "saveState maxBytes i name payload (sw_now w) (sw_db w) (sw_clients w i) = (Inl LeadershipLost, sw_db w, (sw_clients w i)\<lparr>sc_token := None\<rparr>)
    \<and> renewLeader i ttl (sw_now w) (sw_db w) (sw_clients w i) = (False, sw_db w, (sw_clients w i)\<lparr>sc_token := None\<rparr>)"
proof -
  have ok: "fenced w" using fencing.reachable_inv [OF assms(1)] .
  have "has_token w j u" using assms(3) by (simp add: has_token_def)
  then have "u \<le> lease_token w" using ok unfolding fenced_def by blast
  then have "\<not> holds_lease i t (sw_now w) (sw_db w)"
    using assms(5) by (auto simp: holds_lease_def lease_token_def split: option.splits)
  then show ?thesis
    using assms(2,6,7) by (simp add: saveState_def save_begins_def save_ends_def renewLeader_def)
qed


lemma deposed_leader_is_refused_witness:
  "saveState 10 ''a'' ''control'' ''{}'' 20000 (sw_db led_by_b) (holding 1) = (Inl LeadershipLost, sw_db led_by_b, client0)
   \<and> renewLeader ''a'' (Num 15000) 20000 (sw_db led_by_b) (holding 1) = (False, sw_db led_by_b, client0)"
  using deposed_leader_is_refused [OF reachable_led_by_b, of "''a''" 1 "''b''" 2 "''{}''" 10 "''control''" "Num 15000"]
  by (simp add: led_by_b_def change_defs)

text \<open>A standby takes over as soon as its own clock has passed the expiry of the lease, with a token no other process has had.\<close>

theorem standby_takes_over:
  assumes "store_reachable w" "cd_lease (sw_db w) = Some r" "lr_expires r \<le> localNow" "\<not> sc_closed (sw_clients w me)"
  shows "case acquireLeader me ttl localNow (sw_now w) (sw_db w) (sw_clients w me) of
    (b, db, c) \<Rightarrow> b \<and> sc_token c = Some (lr_token r + 1) \<and> holds_lease me (lr_token r + 1) (sw_now w) db
      \<and> {i. has_token w i (lr_token r + 1)} = {}"
proof -
  have ok: "fenced w" using fencing.reachable_inv [OF assms(1)] .
  have "lease_token w = lr_token r" using assms(2) by (simp add: lease_token_def)
  then have "\<not> has_token w i (lr_token r + 1)" for i using ok unfolding fenced_def by (metis add_le_same_cancel1 not_one_le_zero)
  moreover have "0 < boundedLeaseMs ttl" by (auto simp: boundedLeaseMs_def clamp_def split: js_number.splits)
  ultimately show ?thesis
    using assms(2-4) by (auto simp: acquireLeader_def current_lease_def holds_lease_def Let_def)
qed

lemma standby_takes_over_witness:
  "case acquireLeader ''b'' (Num 15000) 20000 20000 (sw_db a_wrote) client0 of
     (b, db, c) \<Rightarrow> b \<and> sc_token c = Some 2 \<and> holds_lease ''b'' 2 20000 db \<and> {i. has_token a_wrote i 2} = {}"
  using standby_takes_over [OF reachable_a_wrote, of "lease_of ''a'' 1 15000" 20000 "''b''" "Num 15000"]
  by (simp add: a_wrote_def change_defs)

text \<open>C40: The token does not order a write with the change of leader itself: a write that took its snapshot under the old lease is
  still carried out and acknowledged after another process has taken over and loaded the state, as long as that process has
  not yet saved under the same name.\<close>

theorem late_write_lands:
  assumes "store_reachable w" "p \<in> set (sw_writes w)" "pd_seen p = Some t" "holds_lease j u (sw_now w) (sw_db w)" "j \<notin> {pd_me p, ''''}"
    "case cd_states (sw_db w) (pd_name p) of None \<Rightarrow> True | Some r \<Rightarrow> sr_token r \<le> t"
  shows "\<exists>v w'. store_step w w' \<and> fst (save_ends (pd_me p) (pd_name p) (pd_payload p) (Some t) (sw_db w) (sw_clients w (pd_me p))) = Inr v
    \<and> snd v = t \<and> loadState (pd_name p) (sw_db w') = Some (pd_payload p) \<and> holds_lease j u (sw_now w') (sw_db w') \<and> t < u"
proof -
  let ?name = "pd_name p"
  obtain db where up: "upsert_state (pd_me p) ?name (pd_payload p) t (sw_db w) = Some db"
    using assms(6) by (auto simp: upsert_state_def split: option.splits)
  then obtain r where r: "cd_states db ?name = Some r" "cd_lease db = cd_lease (sw_db w)" "sr_payload r = pd_payload p" "sr_token r = t"
    by (auto elim!: upsert_Some)
  let ?w = "(put_client (pd_me p) db (sw_clients w (pd_me p)) w)\<lparr>sw_writes := remove1 p (sw_writes w)\<rparr>"
  have ends: "save_ends (pd_me p) ?name (pd_payload p) (Some t) (sw_db w) (sw_clients w (pd_me p)) = (Inr (sr_version r, t), db, sw_clients w (pd_me p))"
    by (simp add: save_ends_def up r)
  have "store_step w ?w" by (rule save_finishes [OF assms(2)]) (use ends assms(3) in auto)
  moreover have "t < u"
  proof -
    have "has_token w (pd_me p) t" using assms(2,3) by (auto simp: has_token_def)
    then have "t \<le> lease_token w \<and> (t = lease_token w \<longrightarrow> lease_owner w \<in> {pd_me p, ''''})"
      using fencing.reachable_inv [OF assms(1)] unfolding fenced_def by blast
    then show ?thesis using assms(4,5) by (auto simp: holds_lease_def lease_token_def lease_owner_def split: option.splits)
  qed
  ultimately show ?thesis
    using ends r assms(4) by (intro exI [of _ "(sr_version r, t)"] exI [of _ ?w]) (simp add: loadState_def holds_lease_def put_client_def)
qed

lemma late_write_lands_witness:
  "\<exists>v w'. store_step late_write w' \<and> fst (save_ends ''a'' ''control'' ''{}'' (Some 1) (sw_db late_write) (holding 1)) = Inr v
    \<and> snd v = 1 \<and> loadState ''control'' (sw_db w') = Some ''{}'' \<and> holds_lease ''b'' 2 (sw_now w') (sw_db w')"
  using late_write_lands [OF reachable_late_write, of "write_of ''a'' 1" 1 "''b''" 2]
  by (auto simp: late_write_def holds_lease_def change_defs)

end
