(* ===== verification/Control_Endpoint.thy ===== *)
theory Control_Endpoint
  imports Bridge_Route
begin

text \<open>
  The endpoint through which the dashboard and the control service reach the fleet, \<open>web/app/api/script-bridge/route.ts\<close>,
  behind the request filter \<open>web/proxy.ts\<close>, with its authentication: \<open>web/lib/api-auth-core.ts\<close> and the session tokens of
  \<open>web/lib/session-token.mjs\<close>. HMAC, base64url, JSON, the URL parser and \<open>decodeURIComponent\<close> are parameters. Reply headers,
  the generated worker script and the cookies that are set are left out.
\<close>

section \<open>Session tokens\<close>

record auth_env =
  ae_var :: "string \<Rightarrow> string option"
  ae_now :: time
  ae_hmac :: "string \<Rightarrow> string \<Rightarrow> string"
  ae_encode :: "string \<Rightarrow> string"
  ae_decode :: "string \<Rightarrow> string"
  ae_stringify :: "json \<Rightarrow> string"
  ae_parse :: "string \<Rightarrow> json option"
  ae_uri :: "string \<Rightarrow> string option"
  ae_hostname :: "string \<Rightarrow> string option"

definition first_of_each :: "string list \<Rightarrow> string list" where
  "first_of_each xs = rev (remdups (rev xs))"

text \<open>\<open>Math.floor(Date.now() / 1000) + Math.max(300, Number(ttl) || 0)\<close>; JSON writes an infinite number as null.\<close>

definition session_expiry :: "time \<Rightarrow> js_number \<Rightarrow> json" where
  "session_expiry now ttl =
     (case ttl of PosInf \<Rightarrow> JNull | Num r \<Rightarrow> JNum (of_int (now div 1000) + max 300 r) | _ \<Rightarrow> JNum (of_int (now div 1000) + 300))"

definition session_claims :: "time \<Rightarrow> string list \<Rightarrow> js_number \<Rightarrow> json" where
  "session_claims now scopes ttl =
     JObj [(''exp'', session_expiry now ttl), (''scopes'', JArr (map JStr (first_of_each (filter (\<lambda>s. s \<noteq> '''') scopes)))), (''version'', JNum 1)]"

definition createSessionToken :: "auth_env \<Rightarrow> string list \<Rightarrow> string \<Rightarrow> js_number \<Rightarrow> string option" where
  "createSessionToken env scopes secret ttl =
     (if secret = '''' then None
      else (let payload = ae_encode env (ae_stringify env (session_claims (ae_now env) scopes ttl))
        in Some (payload @ ''.'' @ ae_hmac env payload secret)))"

definition claims_hold :: "time \<Rightarrow> string option \<Rightarrow> json \<Rightarrow> bool" where
  "claims_hold now requiredScope claims \<longleftrightarrow>
     jget (object_of claims) ''version'' = Some (JNum 1)
     \<and> (case jget (object_of claims) ''exp'' of Some (JNum r) \<Rightarrow> of_int (now div 1000) < r | _ \<Rightarrow> False)
     \<and> (case jget (object_of claims) ''scopes'' of
          Some (JArr ss) \<Rightarrow> (case requiredScope of None \<Rightarrow> True | Some s \<Rightarrow> s = '''' \<or> JStr s \<in> set ss \<or> JStr ''admin'' \<in> set ss)
        | _ \<Rightarrow> False)"

definition verifySessionToken :: "auth_env \<Rightarrow> string \<Rightarrow> string \<Rightarrow> string option \<Rightarrow> bool" where
  "verifySessionToken env token secret requiredScope \<longleftrightarrow>
     secret \<noteq> '''' \<and> token \<noteq> '''' \<and> length token \<le> 8192
     \<and> (case split_char CHR ''.'' token of
          [payload, signature] \<Rightarrow> payload \<noteq> '''' \<and> signature \<noteq> '''' \<and> signature = ae_hmac env payload secret
            \<and> (case ae_parse env (ae_decode env payload) of None \<Rightarrow> False | Some claims \<Rightarrow> claims_hold (ae_now env) requiredScope claims)
        | _ \<Rightarrow> False)"

section \<open>Authentication of a request\<close>

record http_request =
  hr_url :: string
  hr_path :: string
  hr_header :: "string \<Rightarrow> string option"

definition var_text :: "auth_env \<Rightarrow> string \<Rightarrow> string" where
  "var_text env name = (case ae_var env name of None \<Rightarrow> '''' | Some v \<Rightarrow> js_trim v)"

definition header_text :: "http_request \<Rightarrow> string \<Rightarrow> string" where
  "header_text req name = (case hr_header req name of None \<Rightarrow> '''' | Some v \<Rightarrow> js_trim v)"

text \<open>\<open>hostname.replace(/^\[|\]$/g, "")\<close>\<close>

definition unbracketed :: "string \<Rightarrow> string" where
  "unbracketed h =
     (let a = (case h of c # r \<Rightarrow> if (of_char c :: nat) = 91 then r else h | [] \<Rightarrow> [])
      in if a \<noteq> [] \<and> (of_char (last a) :: nat) = 93 then butlast a else a)"

definition isLoopback :: "string \<Rightarrow> bool" where
  "isLoopback h \<longleftrightarrow> to_lower (unbracketed h) \<in> {''localhost'', ''127.0.0.1'', ''::1''}"

definition insecureLocalDevAllowed :: "auth_env \<Rightarrow> http_request \<Rightarrow> bool" where
  "insecureLocalDevAllowed env req \<longleftrightarrow>
     to_lower (case ae_var env ''TAH_ALLOW_INSECURE_LOCAL_DEV'' of None \<Rightarrow> '''' | Some v \<Rightarrow> v) \<in> {''1'', ''true''}
     \<and> (case hr_header req ''host'' of
          None \<Rightarrow> False
        | Some host \<Rightarrow> host \<noteq> '''' \<and>
           (case (ae_hostname env (hr_url req), ae_hostname env (''http://'' @ host)) of
              (Some a, Some b) \<Rightarrow> isLoopback a \<and> isLoopback b | _ \<Rightarrow> False))"

definition bearerToken :: "http_request \<Rightarrow> string" where
  "bearerToken req = bearer_value (header_text req ''authorization'')"

text \<open>The value of the first cookie of that name; \<open>None\<close> when \<open>decodeURIComponent\<close> throws.\<close>

fun find_cookie :: "auth_env \<Rightarrow> string \<Rightarrow> string list \<Rightarrow> string option" where
  "find_cookie env name [] = Some ''''"
| "find_cookie env name (part # parts) =
     (case index_of CHR ''='' part of
        None \<Rightarrow> find_cookie env name parts
      | Some i \<Rightarrow> if js_trim (take i part) = name then ae_uri env (js_trim (drop (i + 1) part)) else find_cookie env name parts)"

definition cookieValue :: "auth_env \<Rightarrow> http_request \<Rightarrow> string \<Rightarrow> string option" where
  "cookieValue env req name = find_cookie env name (split_char CHR '';'' (case hr_header req ''cookie'' of None \<Rightarrow> '''' | Some c \<Rightarrow> c))"

definition sessionSecret :: "auth_env \<Rightarrow> string" where
  "sessionSecret env =
     (if var_text env ''TAH_SESSION_SECRET'' \<noteq> '''' then var_text env ''TAH_SESSION_SECRET''
      else if var_text env ''TAH_API_BEARER_TOKEN'' \<noteq> '''' then var_text env ''TAH_API_BEARER_TOKEN''
      else var_text env ''CONTROL_TOKEN'')"

text \<open>\<open>Math.max(300, Number(process.env.TAH_SESSION_TTL_SECONDS) || 8 * 60 * 60)\<close>\<close>

definition session_ttl :: "auth_env \<Rightarrow> js_number" where
  "session_ttl env =
     (case ae_var env ''TAH_SESSION_TTL_SECONDS'' of
        None \<Rightarrow> Num 28800
      | Some v \<Rightarrow> (case js_Number v of Num r \<Rightarrow> if r = 0 then Num 28800 else Num (max 300 r) | PosInf \<Rightarrow> PosInf | NegInf \<Rightarrow> Num 300 | _ \<Rightarrow> Num 28800))"

definition createApiSession :: "auth_env \<Rightarrow> string list \<Rightarrow> string option" where
  "createApiSession env scopes = createSessionToken env scopes (sessionSecret env) (session_ttl env)"

definition verifyApiSession :: "auth_env \<Rightarrow> string \<Rightarrow> string option \<Rightarrow> bool" where
  "verifyApiSession env token scope \<longleftrightarrow> verifySessionToken env token (sessionSecret env) scope"

record auth_options =
  ao_envVarName :: string
  ao_fallback :: "string option"
  ao_scope :: "string option"
  ao_allowSession :: bool

definition expected_tokens :: "auth_env \<Rightarrow> auth_options \<Rightarrow> string list" where
  "expected_tokens env opts =
     filter (\<lambda>v. v \<noteq> '''') [var_text env (ao_envVarName opts), (case ao_fallback opts of None \<Rightarrow> '''' | Some n \<Rightarrow> var_text env n)]"

definition isValidTokenForEnv :: "auth_env \<Rightarrow> string \<Rightarrow> auth_options \<Rightarrow> bool" where
  "isValidTokenForEnv env token opts \<longleftrightarrow> token \<noteq> '''' \<and> token \<in> set (expected_tokens env opts)"

text \<open>\<open>None\<close> is an exception.\<close>

definition hasValidApiAuth :: "auth_env \<Rightarrow> http_request \<Rightarrow> auth_options \<Rightarrow> bool option" where
  "hasValidApiAuth env req opts =
     (if expected_tokens env opts = [] then Some (insecureLocalDevAllowed env req)
      else if list_ex (\<lambda>t. isValidTokenForEnv env t opts) (filter (\<lambda>t. t \<noteq> '''') [bearerToken req, header_text req ''x-api-key'']) then Some True
      else if \<not> ao_allowSession opts then Some False
      else (case cookieValue env req ''tah_session'' of None \<Rightarrow> None | Some token \<Rightarrow> Some (verifyApiSession env token (ao_scope opts))))"

definition control_auth :: auth_options where
  "control_auth = \<lparr>ao_envVarName = ''TAH_API_BEARER_TOKEN'', ao_fallback = None, ao_scope = Some ''control'', ao_allowSession = True\<rparr>"

section \<open>The request filter\<close>

definition ROUTE_SCOPED_PREFIXES :: "string list" where
  "ROUTE_SCOPED_PREFIXES = [''/api/ads'', ''/api/campaign-ads'', ''/api/script-bridge/jobs'', ''/api/auth/session'', ''/api/proxy-runtime'']"

definition isRouteScoped :: "string \<Rightarrow> bool" where
  "isRouteScoped path \<longleftrightarrow> list_ex (\<lambda>p. path = p \<or> starts_with (p @ ''/'') path) ROUTE_SCOPED_PREFIXES"

datatype filtered = PassOn | Unauthenticated | FilterFailed

definition proxy :: "auth_env \<Rightarrow> http_request \<Rightarrow> filtered" where
  "proxy env req =
     (if \<not> starts_with ''/api/'' (hr_path req) \<or> isRouteScoped (hr_path req) then PassOn
      else (case hasValidApiAuth env req control_auth of Some True \<Rightarrow> PassOn | Some False \<Rightarrow> Unauthenticated | None \<Rightarrow> FilterFailed))"


section \<open>The endpoint\<close>

record control_env =
  ce_cfg :: fleet_config
  ce_digest :: "string \<Rightarrow> string"
  ce_configured :: bool
  ce_uuid :: string
  ce_token :: string
  ce_print :: "rat \<Rightarrow> string"
  ce_egress :: "json option \<Rightarrow> string option"
  ce_baseUrl :: "string \<Rightarrow> string option"

datatype control_body =
    CtlError route_error
  | CtlQueued string string int
  | CtlEnrolled string string "int option" readiness
  | CtlReadiness readiness
  | CtlSwitched "int option"
  | CtlRemoved bool
  | CtlShardGone
  | CtlWorker string string string

type_synonym control_reply = "int \<times> control_body"

definition body_text :: "control_env \<Rightarrow> json option list \<Rightarrow> string" where
  "body_text env vs = js_String (ce_print env) (foldr js_or vs (Some (JStr '''')))"

definition part_of :: "json_object \<Rightarrow> string \<Rightarrow> json_object" where
  "part_of body k = (case jget body k of Some (JObj ms) \<Rightarrow> ms | _ \<Rightarrow> [])"

definition or_default :: "control_env \<Rightarrow> json option list \<Rightarrow> string \<Rightarrow> string" where
  "or_default env vs d = js_String (ce_print env) (foldr js_or vs (Some (JStr d)))"

text \<open>\<open>Number(body.version || capture.version || Date.now())\<close>, as far as the store looks at it.\<close>

definition version_of :: "control_env \<Rightarrow> time \<Rightarrow> json option \<Rightarrow> int option" where
  "version_of env now v = (case js_to_number (ce_print env) (js_or v (Some (JNum (of_int now)))) of Num r \<Rightarrow> if r = of_int \<lfloor>r\<rfloor> then Some \<lfloor>r\<rfloor> else None | _ \<Rightarrow> None)"

definition capture_of_body :: "control_env \<Rightarrow> time \<Rightarrow> json_object \<Rightarrow> capture_input" where
  "capture_of_body env now body =
     (let campaign = part_of body ''campaign''; capture = part_of body ''capture'';
          run = body_text env [jget body ''sourceRunId'', jget body ''runId'', jget capture ''runId'']
      in \<lparr>ci_target = \<lparr>
            in_campaignRecordId = body_text env [jget body ''campaignRecordId'', jget campaign ''id'', jget campaign ''campaignRecordId''],
            in_campaignName = or_default env [jget body ''campaignName'', jget campaign ''name'', jget body ''campaignRecordId'', jget campaign ''id''] ''Campaign'',
            in_managerCustomerId = body_text env [jget body ''managerCustomerId'', jget body ''loginCustomerId'', jget campaign ''managerCustomerId'', jget campaign ''loginCustomerId''],
            in_customerId = body_text env [jget body ''customerId'', jget campaign ''customerId''],
            in_googleCampaignId = body_text env [jget body ''googleCampaignId'', jget body ''campaignId'', jget campaign ''googleCampaignId'', jget campaign ''campaignId''],
            in_shardId = or_default env [jget body ''shardId'', jget campaign ''shardId''] ''default''\<rparr>,
          ci_exactSuffix = js_String (ce_print env)
            (foldr js_coalesce [jget body ''exactSuffix'', jget body ''suffix'', jget capture ''exactSuffix'', jget capture ''suffix''] (Some (JStr ''''))),
          ci_version = version_of env now (js_or (jget body ''version'') (jget capture ''version'')),
          ci_sourceRunId = (if run = '''' then None else Some run),
          ci_egress = ce_egress env (js_coalesce (jget body ''captureEgress'') (jget capture ''egress''))\<rparr>)"

definition enroll_of_body :: "control_env \<Rightarrow> json_object \<Rightarrow> target_input" where
  "enroll_of_body env body = \<lparr>
     in_campaignRecordId = body_text env [jget body ''campaignRecordId''],
     in_campaignName = or_default env [jget body ''campaignName'', jget body ''campaignRecordId''] ''Campaign'',
     in_managerCustomerId = body_text env [jget body ''managerCustomerId'', jget body ''loginCustomerId''],
     in_customerId = body_text env [jget body ''customerId''],
     in_googleCampaignId = body_text env [jget body ''googleCampaignId'', jget body ''campaignId''],
     in_shardId = or_default env [jget body ''shardId''] ''default''\<rparr>"

type_synonym control_action = "control_env \<Rightarrow> time \<Rightarrow> json_object \<Rightarrow> fleet_db \<Rightarrow> (route_error + control_reply) \<times> fleet_db"

definition enqueue_action :: control_action where
  "enqueue_action env now body db =
     (case enqueueBridgeCapture (ce_cfg env) (ce_digest env) now (ce_uuid env) (capture_of_body env now body) db of
        (Inl e, db') \<Rightarrow> (Inl (Raised e), db')
      | (Inr (tid, sid, cid), db') \<Rightarrow> (Inr (202, CtlQueued tid sid cid), db'))"

text \<open>Enrolling, queueing what was captured before and reading the readiness are three transactions.\<close>

definition register_action :: control_action where
  "register_action env now body db =
     (let rec = body_text env [jget body ''campaignRecordId'']
      in case upsertBridgeTarget (ce_cfg env) (ce_digest env) now (enroll_of_body env body) db of
           Inl e \<Rightarrow> (Inl (Raised e), db)
         | Inr ((tid, sid), db1) \<Rightarrow>
            (case queueLatestBridgeCapture now (ce_uuid env) rec db1 of
               Inl e \<Rightarrow> (Inl (Raised e), db1)
             | Inr (delivery, db2) \<Rightarrow>
                (case bridgeTargetReadiness (ce_cfg env) now rec db2 of
                   Inl e \<Rightarrow> (Inl (Raised e), db2)
                 | Inr r \<Rightarrow> (Inr (201, CtlEnrolled tid sid delivery r), db2))))"

definition readiness_action :: control_action where
  "readiness_action env now body db =
     (case bridgeTargetReadiness (ce_cfg env) now (body_text env [jget body ''campaignRecordId'']) db of
        Inl e \<Rightarrow> (Inl (Raised e), db) | Inr r \<Rightarrow> (Inr (200, CtlReadiness r), db))"

definition switch_action :: control_action where
  "switch_action env now body db =
     (let rec = body_text env [jget body ''campaignRecordId'']; enabled = (jget body ''enabled'' = Some (JBool True))
      in case setBridgeTargetEnabled now rec enabled db of
           Inl e \<Rightarrow> (Inl (Raised e), db)
         | Inr db1 \<Rightarrow>
            if enabled
            then (case queueLatestBridgeCapture now (ce_uuid env) rec db1 of
                    Inl e \<Rightarrow> (Inl (Raised e), db1) | Inr (delivery, db2) \<Rightarrow> (Inr (200, CtlSwitched delivery), db2))
            else (Inr (200, CtlSwitched None), db1))"

definition delete_target_action :: control_action where
  "delete_target_action env now body db =
     (case deleteBridgeTarget (body_text env [jget body ''targetId'']) (body_text env [jget body ''campaignRecordId'']) db of
        Inl e \<Rightarrow> (Inl (Raised e), db) | Inr (t, db') \<Rightarrow> (Inr (200, CtlRemoved (t \<noteq> None)), db'))"

definition delete_shard_action :: control_action where
  "delete_shard_action env now body db =
     (case deleteBridgeShard (ce_digest env) now (ce_token env) (body_text env [jget body ''shardId'']) (body_text env [jget body ''confirmedShardId'']) db of
        Inl e \<Rightarrow> (Inl (Raised e), db) | Inr (_, db') \<Rightarrow> (Inr (200, CtlShardGone), db'))"

definition worker_action :: control_action where
  "worker_action env now body db =
     (case normalizeFleetShardId (body_text env [jget body ''shardId'']) of
        Inl e \<Rightarrow> (Inl (Raised e), db)
      | Inr sid \<Rightarrow>
         (case normalizeFleetManagerId (body_text env [jget body ''managerCustomerId'']) of
            Inl e \<Rightarrow> (Inl (Raised e), db)
          | Inr manager \<Rightarrow>
             (case ce_baseUrl env (body_text env [jget body ''publicBaseUrl'']) of
                None \<Rightarrow> (Inl (Text ''A public HTTPS base URL is required for Google Ads Scripts''), db)
              | Some _ \<Rightarrow>
                 (case createBridgeShard (ce_digest env) now (ce_token env) sid manager db of
                    Inl e \<Rightarrow> (Inl (Raised e), db)
                  | Inr ((s, m, token), db') \<Rightarrow> (Inr (200, CtlWorker s m token), db')))))"

definition enqueue_names :: "string list" where
  "enqueue_names = [''enqueue'', ''capture'', ''queue'', ''publish'', ''enqueue-suffix'', ''fleet-enqueue'']"

definition control_actions :: "(string \<times> control_action) list" where
  "control_actions = [(''register-target'', register_action), (''target-readiness'', readiness_action), (''set-enabled'', switch_action),
     (''delete-target'', delete_target_action), (''delete-shard'', delete_shard_action), (''generate-worker'', worker_action)]"

text \<open>The actions that change what the fleet holds check the credentials once more; queueing a capture does not.\<close>

definition control_dispatch :: "auth_env \<Rightarrow> control_env \<Rightarrow> http_request \<Rightarrow> json_object \<Rightarrow> fleet_db \<Rightarrow> (route_error + control_reply) \<times> fleet_db" where
  "control_dispatch auth env req body db =
     (let act = body_text env [jget body ''action'']
      in if act \<in> set enqueue_names then enqueue_action env (ae_now auth) body db
         else (case map_of control_actions act of
                 None \<Rightarrow> (Inr (400, CtlError (Text ''Unsupported action'')), db)
               | Some run \<Rightarrow>
                  (case hasValidApiAuth auth req control_auth of
                     None \<Rightarrow> (Inl (Text ''URI malformed''), db)
                   | Some False \<Rightarrow> (Inr (401, CtlError (Text ''Control authentication required'')), db)
                   | Some True \<Rightarrow> run env (ae_now auth) body db)))"

text \<open>\<open>required|invalid|already owns|not found|too large|full|at most 40|MCC|belongs\<close>, on the messages of the store.\<close>

definition control_status :: "route_error \<Rightarrow> int" where
  "control_status e =
     (case e of
        Text s \<Rightarrow> if list_ex (\<lambda>w. contains w (to_lower s)) [''required'', ''invalid'', ''already owns'', ''not found'', ''too large'', ''full'', ''at most 40'', ''mcc'', ''belongs'']
                  then 400 else 500
      | Raised b \<Rightarrow>
         if b \<in> {ShardDeleted, ShardInactive, ShardHasCampaigns, ShardHasActiveLease, ShardExecutionRunning} then 409
         else if b \<in> {RecordAssignedElsewhere, UniqueViolation, CheckViolation, IntegerOutOfRange, NoExecutionWindow} then 500
         else 400)"

definition control_POST :: "auth_env \<Rightarrow> control_env \<Rightarrow> http_request \<Rightarrow> request_body \<Rightarrow> fleet_db \<Rightarrow> control_reply \<times> fleet_db" where
  "control_POST auth env req b db =
     (if \<not> ce_configured env then ((503, CtlError (Text ''DATABASE_URL is required'')), db)
      else (case (case json_body b of Inl e \<Rightarrow> (Inl e, db) | Inr body \<Rightarrow> control_dispatch auth env req body db) of
              (Inl e, db') \<Rightarrow> ((control_status e, CtlError e), db')
            | (Inr reply, db') \<Rightarrow> (reply, db')))"

text \<open>A request as the server handles it: the filter, then the route. An exception in the filter is a 500.\<close>

definition serve_control :: "auth_env \<Rightarrow> control_env \<Rightarrow> http_request \<Rightarrow> request_body \<Rightarrow> fleet_db \<Rightarrow> control_reply \<times> fleet_db" where
  "serve_control auth env req b db =
     (case proxy auth req of
        PassOn \<Rightarrow> control_POST auth env req b db
      | Unauthenticated \<Rightarrow> ((401, CtlError (Text ''Authentication required'')), db)
      | FilterFailed \<Rightarrow> ((500, CtlError (Text ''URI malformed'')), db))"


section \<open>Tokens that verify\<close>

lemma split_char_none: "c \<notin> set s \<Longrightarrow> split_char c s = [s]"
  by (induction s) auto

lemma split_char_at: "c \<notin> set s \<Longrightarrow> split_char c (s @ c # t) = s # split_char c t"
  by (induction s) auto

lemma split_char_two: "split_char c s = [a, b] \<Longrightarrow> s = a @ c # b"
proof (induction s arbitrary: a)
  case (Cons x s)
  have one: "s = b" if "split_char c s = [b]" for s b
    using that by (induction s arbitrary: b) (auto split: if_splits list.splits)
  from Cons.prems show ?case
    by (cases "x = c") (auto split: list.splits dest: Cons.IH one)
qed simp

lemma verified_is_signed:
  assumes "verifySessionToken env token secret scope"
  obtains p claims where "token = p @ ''.'' @ ae_hmac env p secret" "ae_parse env (ae_decode env p) = Some claims"
    "claims_hold (ae_now env) scope claims" "secret \<noteq> ''''"
  using assms by (auto simp: verifySessionToken_def split: list.splits option.splits dest!: split_char_two)

lemma set_first_of_each [simp]: "set (first_of_each xs) = set xs"
  by (simp add: first_of_each_def)

lemma claims_hold_iff:
  "claims_hold later (Some scope) (session_claims now scopes (Num ttl)) \<longleftrightarrow>
     of_int (later div 1000) < of_int (now div 1000) + max 300 ttl \<and> (scope = '''' \<or> scope \<in> set scopes \<or> ''admin'' \<in> set scopes)"
  by (auto simp: claims_hold_def session_claims_def session_expiry_def object_of_def)

section \<open>Who may change the fleet\<close>

lemma bad_session:
  assumes "\<And>p. cookieValue auth req ''tah_session'' \<noteq> Some (p @ ''.'' @ ae_hmac auth p (sessionSecret auth))"
    "cookieValue auth req ''tah_session'' = Some token"
  shows "\<not> verifyApiSession auth token scope"
proof
  assume "verifyApiSession auth token scope"
  then obtain p where "token = p @ ''.'' @ ae_hmac auth p (sessionSecret auth)"
    unfolding verifyApiSession_def by (rule verified_is_signed)
  then show False using assms(1) [of p] assms(2) by simp
qed

lemma no_credentials:
  assumes "var_text auth ''TAH_API_BEARER_TOKEN'' = expected" "expected \<noteq> ''''" "bearerToken req \<noteq> expected" "header_text req ''x-api-key'' \<noteq> expected"
    "\<And>p. cookieValue auth req ''tah_session'' \<noteq> Some (p @ ''.'' @ ae_hmac auth p (sessionSecret auth))"
  shows "hasValidApiAuth auth req control_auth \<noteq> Some True"
proof -
  have "expected_tokens auth control_auth = [expected]" using assms(1,2) by (simp add: expected_tokens_def control_auth_def)
  then show ?thesis
    using assms(3,4) bad_session [OF assms(5)]
    by (auto simp: hasValidApiAuth_def isValidTokenForEnv_def split: option.splits)
qed

section \<open>The properties\<close>

text \<open>C18: A session token that was created verifies until it expires, for the scopes it was created with and, with the scope
  admin, for all, and never afterwards, provided that base64url and JSON read back what they wrote.\<close>

theorem session_token_roundtrip:
  assumes "secret \<noteq> ''''" "claims = session_claims (ae_now env) scopes (Num ttl)" "payload = ae_encode env (ae_stringify env claims)"
    and "payload \<noteq> ''''" "CHR ''.'' \<notin> set payload" "ae_hmac env payload secret \<noteq> ''''" "CHR ''.'' \<notin> set (ae_hmac env payload secret)"
    and "ae_decode env payload = ae_stringify env claims" "ae_parse env (ae_stringify env claims) = Some claims"
    and "length payload + length (ae_hmac env payload secret) < 8192"
  shows "case createSessionToken env scopes secret (Num ttl) of None \<Rightarrow> False
    | Some token \<Rightarrow> verifySessionToken (env\<lparr>ae_now := later\<rparr>) token secret (Some scope)
        = (of_int (later div 1000) < of_int (ae_now env div 1000) + max 300 ttl \<and> (scope = '''' \<or> scope \<in> set scopes \<or> ''admin'' \<in> set scopes))"
proof -
  have "split_char CHR ''.'' (payload @ ''.'' @ ae_hmac env payload secret) = [payload, ae_hmac env payload secret]"
    using split_char_at [OF assms(5)] split_char_none [OF assms(7)] by simp
  then show ?thesis
    using assms by (simp add: createSessionToken_def Let_def verifySessionToken_def claims_hold_iff)
qed

definition demo_auth :: auth_env where
  "demo_auth = \<lparr>ae_var = [''TAH_API_BEARER_TOKEN'' \<mapsto> ''the-token''], ae_now = 5000, ae_hmac = (\<lambda>p s. s @ p), ae_encode = (\<lambda>s. s),
     ae_decode = (\<lambda>s. s), ae_stringify = (\<lambda>j. ''claims''), ae_parse = (\<lambda>s. Some (session_claims 5000 [''read''] (Num 600))), ae_uri = Some,
     ae_hostname = (\<lambda>s. None)\<rparr>"

lemma session_token_roundtrip_witness:
  "createSessionToken demo_auth [''read''] ''s'' (Num 600) = Some ''claims.sclaims''
   \<and> verifySessionToken (demo_auth\<lparr>ae_now := 604000\<rparr>) ''claims.sclaims'' ''s'' (Some ''read'')
   \<and> \<not> verifySessionToken (demo_auth\<lparr>ae_now := 605000\<rparr>) ''claims.sclaims'' ''s'' (Some ''read'')
   \<and> \<not> verifySessionToken (demo_auth\<lparr>ae_now := 604000\<rparr>) ''claims.sclaims'' ''s'' (Some ''control'')"
proof -
  have t: "createSessionToken demo_auth [''read''] ''s'' (Num 600) = Some ''claims.sclaims''"
    by (simp add: createSessionToken_def demo_auth_def)
  have r: "case createSessionToken demo_auth [''read''] ''s'' (Num 600) of None \<Rightarrow> False
    | Some token \<Rightarrow> verifySessionToken (demo_auth\<lparr>ae_now := later\<rparr>) token ''s'' (Some scope)
        = (of_int (later div 1000) < of_int (ae_now demo_auth div 1000) + max 300 (600 :: rat) \<and> (scope = '''' \<or> scope \<in> set [''read''] \<or> ''admin'' \<in> set [''read'']))"
    for later scope
    by (rule session_token_roundtrip [where payload = "''claims''" and claims = "session_claims 5000 [''read''] (Num 600)"])
      (simp_all add: demo_auth_def)
  have now: "ae_now demo_auth = 5000" by (simp add: demo_auth_def)
  have c: "verifySessionToken (demo_auth\<lparr>ae_now := later\<rparr>) ''claims.sclaims'' ''s'' (Some scope)
      = (of_int (later div 1000) < (605 :: rat) \<and> (scope = '''' \<or> scope = ''read''))" for later scope
    using r [of later scope] unfolding t option.case now by simp
  show ?thesis using t by (simp add: c)
qed

text \<open>C16: Without credentials the fleet stays as it is: when the control token is configured, a request that carries neither
  this token nor a session cookie signed with the session secret is refused by the filter, whatever its method body says,
  and no row changes.\<close>

theorem control_needs_credentials:
  assumes "var_text auth ''TAH_API_BEARER_TOKEN'' = expected" "expected \<noteq> ''''" "bearerToken req \<noteq> expected" "header_text req ''x-api-key'' \<noteq> expected"
    "\<And>p. cookieValue auth req ''tah_session'' \<noteq> Some (p @ ''.'' @ ae_hmac auth p (sessionSecret auth))"
    "hr_path req = ''/api/script-bridge''"
  shows "case serve_control auth env req b db of (reply, db') \<Rightarrow> db' = db \<and> fst reply \<in> {401, 500}"
proof -
  have path: "starts_with ''/api/'' (hr_path req)" "\<not> isRouteScoped (hr_path req)"
    unfolding assms(6) by code_simp+
  have "hasValidApiAuth auth req control_auth \<noteq> Some True" by (rule no_credentials [OF assms(1-5)])
  then show ?thesis
    using path by (auto simp: serve_control_def proxy_def split: option.splits bool.splits)
qed

definition stranger_request :: http_request where
  "stranger_request = \<lparr>hr_url = '''', hr_path = ''/api/script-bridge'', hr_header = [''authorization'' \<mapsto> ''Bearer guess'']\<rparr>"

definition demo_control :: control_env where
  "demo_control = \<lparr>ce_cfg = default_cfg, ce_digest = (\<lambda>s. s), ce_configured = True, ce_uuid = ''job'', ce_token = ''0123456789012345678901234567'',
     ce_print = (\<lambda>r. ''''), ce_egress = (\<lambda>v. None), ce_baseUrl = Some\<rparr>"

definition delete_request :: request_body where
  "delete_request = Parsed (JObj [(''action'', JStr ''delete-target''), (''campaignRecordId'', JStr ''rec'')])"

lemma control_needs_credentials_witness:
  "case serve_control demo_auth demo_control stranger_request delete_request demo_queued of (reply, db') \<Rightarrow> db' = demo_queued \<and> fst reply \<in> {401, 500}"
proof -
  have "cookieValue demo_auth stranger_request ''tah_session'' = Some ''''"
    by (simp add: cookieValue_def stranger_request_def)
  moreover have "var_text demo_auth ''TAH_API_BEARER_TOKEN'' = ''the-token''" "bearerToken stranger_request = ''guess''"
    "header_text stranger_request ''x-api-key'' = ''''" "hr_path stranger_request = ''/api/script-bridge''"
    by code_simp+
  ultimately show ?thesis using control_needs_credentials [of demo_auth "''the-token''" stranger_request] by simp
qed

end
