(* ===== verification/Capture_Gate.thy ===== *)
theory Capture_Gate
  imports Capture_Suffix Js_Value
begin

text \<open>
  Which browser results become captures: \<open>packages/contracts/src/captureSafety.ts\<close> (beside its suffix gate in
  \<open>Capture_Suffix\<close>) and the redirect policies of \<open>redirectCapture.ts\<close>. The result of a journey is parsed JSON.
  The URL parser and \<open>Date.parse\<close> are parameters; messages are left out where the code of a rejection names them.
\<close>

section \<open>Addresses\<close>

text \<open>What \<open>new URL(text)\<close> gives; \<open>u_bare\<close> is the address without its fragment.\<close>

record url_parts =
  u_protocol :: string
  u_origin :: string
  u_hostname :: string
  u_username :: string
  u_password :: string
  u_pathname :: string
  u_search :: string
  u_bare :: string

text \<open>The parser, the address of \<open>new URL(location, base)\<close>, \<open>Date.parse\<close> and the printer of numbers.\<close>

record web_env =
  we_url :: "string \<Rightarrow> url_parts option"
  we_resolve :: "string \<Rightarrow> string \<Rightarrow> string option"
  we_date :: "string \<Rightarrow> int option"
  we_print :: "rat \<Rightarrow> string"

datatype url_issue = NotAUrl | BadProtocol | ChallengePage | InSuffix suffix_issue

definition text_of :: "json option \<Rightarrow> string option" where
  "text_of v = (case v of Some (JStr s) \<Rightarrow> Some s | _ \<Rightarrow> None)"

definition members :: "json option \<Rightarrow> json_object" where
  "members v = (case v of Some j \<Rightarrow> object_of j | None \<Rightarrow> [])"

definition challenge_path :: "string \<Rightarrow> bool" where
  "challenge_path p \<longleftrightarrow> to_lower p \<in> {''/cdn-cgi/challenge-platform'', ''/cdn-cgi/challenge''}
     \<or> starts_with ''/cdn-cgi/challenge-platform/'' (to_lower p) \<or> starts_with ''/cdn-cgi/challenge/'' (to_lower p)"

definition captureUrlIssue :: "web_env \<Rightarrow> json option \<Rightarrow> url_issue option" where
  "captureUrlIssue env raw =
     (case text_of raw of
        None \<Rightarrow> Some NotAUrl
      | Some s \<Rightarrow>
         (case we_url env s of
            None \<Rightarrow> Some NotAUrl
          | Some u \<Rightarrow>
             if u_protocol u \<notin> {''http:'', ''https:''} then Some BadProtocol
             else if challenge_path (u_pathname u) then Some ChallengePage
             else map_option InSuffix (deliverySuffixIssue (Some (drop 1 (u_search u))))))"

text \<open>The messages with the word Cloudflare in them.\<close>

definition names_challenge :: "url_issue option \<Rightarrow> bool" where
  "names_challenge i \<longleftrightarrow> i \<in> {Some ChallengePage, Some (InSuffix ChallengeParameter)}"

definition header_of :: "web_env \<Rightarrow> json option \<Rightarrow> string \<Rightarrow> string" where
  "header_of env headers name =
     (case find (\<lambda>(k, v). to_lower k = name) (members headers) of
        None \<Rightarrow> '''' | Some (k, v) \<Rightarrow> js_trim (js_String (we_print env) (Some v)))"

definition documentUrl :: "web_env \<Rightarrow> json option \<Rightarrow> string option" where
  "documentUrl env raw = (case text_of raw of None \<Rightarrow> None | Some s \<Rightarrow> map_option u_bare (we_url env s))"

section \<open>Diagnostics\<close>

record diagnostics =
  dg_hostname :: "string option"
  dg_httpStatus :: "int option"
  dg_rayId :: "string option"
  dg_retryAfterMs :: "int option"

definition is_hex :: "char \<Rightarrow> bool" where
  "is_hex c \<longleftrightarrow> is_digit c \<or> lower_char c \<in> set ''abcdef''"

definition ray_id :: "string \<Rightarrow> bool" where
  "ray_id s =
     (case split_char CHR ''-'' s of
        [h] \<Rightarrow> list_all is_hex h \<and> 16 \<le> length h \<and> length h \<le> 32
      | [h, t] \<Rightarrow> list_all is_hex h \<and> 16 \<le> length h \<and> length h \<le> 32 \<and> list_all is_alnum t \<and> 3 \<le> length t \<and> length t \<le> 10
      | _ \<Rightarrow> False)"

definition http_status :: "web_env \<Rightarrow> json option \<Rightarrow> int option" where
  "http_status env v = (case js_to_number (we_print env) v of Num r \<Rightarrow> if r = of_int \<lfloor>r\<rfloor> then Some \<lfloor>r\<rfloor> else None | _ \<Rightarrow> None)"

definition retry_delay_ms :: "web_env \<Rightarrow> time \<Rightarrow> string \<Rightarrow> int option" where
  "retry_delay_ms env now s =
     (case (if s \<noteq> '''' \<and> list_all is_digit s then Some (int (digits_value s 0) * 1000) else map_option (\<lambda>t. t - now) (we_date env s)) of
        None \<Rightarrow> None
      | Some d \<Rightarrow> if 0 \<le> d \<and> d \<le> 9007199254740991 \<and> now + d \<le> 8640000000000000 then Some d else None)"

definition diagnostic_host :: "web_env \<Rightarrow> json option \<Rightarrow> string option" where
  "diagnostic_host env raw =
     (case text_of raw of
        None \<Rightarrow> None
      | Some s \<Rightarrow> (case we_url env s of None \<Rightarrow> None | Some u \<Rightarrow> if u_protocol u \<in> {''http:'', ''https:''} then Some (take 253 (u_hostname u)) else None))"

definition captureDiagnostics :: "web_env \<Rightarrow> time \<Rightarrow> json_object \<Rightarrow> json option \<Rightarrow> diagnostics" where
  "captureDiagnostics env now main finalUrl =
     (let headers = jget main ''headers''; ray = header_of env headers ''cf-ray''
      in \<lparr>dg_hostname = diagnostic_host env (js_coalesce (jget main ''url'') finalUrl),
          dg_httpStatus = (case http_status env (jget main ''status'') of Some n \<Rightarrow> if 100 \<le> n \<and> n \<le> 599 then Some n else None | None \<Rightarrow> None),
          dg_rayId = (if ray_id ray then Some ray else None),
          dg_retryAfterMs = retry_delay_ms env now (header_of env headers ''retry-after'')\<rparr>)"

section \<open>Rejections\<close>

datatype reject_code =
    CloudflareChallenge | RateLimited | BlockedResponse | BrowserClosed | CaptureError | EmptyTrackingIdentifier | InvalidUrl
  | UnresolvedChallenge | MissingSuffix | UnverifiedDestination | RedirectPolicyMismatch | MissingTrackingIdentifier

datatype evidence = DocumentResponse | RedirectLocation | RedirectOnly

record accepted_capture =
  ac_finalUrl :: string
  ac_suffix :: string
  ac_evidence :: evidence

type_synonym decision = "reject_code \<times> diagnostics + accepted_capture"

definition challenge_location :: "web_env \<Rightarrow> json_object \<Rightarrow> bool" where
  "challenge_location env response =
     (let location = header_of env (jget response ''headers'') ''location''
      in location \<noteq> '''' \<and>
         (case we_resolve env location (js_String (we_print env) (jget response ''url'')) of
            None \<Rightarrow> False | Some href \<Rightarrow> names_challenge (captureUrlIssue env (Some (JStr href)))))"

definition mitigated :: "web_env \<Rightarrow> json_object \<Rightarrow> bool" where
  "mitigated env response \<longleftrightarrow> to_lower (header_of env (jget response ''headers'') ''cf-mitigated'') = ''challenge''"

definition edgeStopForResponse :: "web_env \<Rightarrow> time \<Rightarrow> json_object \<Rightarrow> (reject_code \<times> diagnostics) option" where
  "edgeStopForResponse env now response =
     (let status = http_status env (jget response ''status'');
          cloudflare = (names_challenge (captureUrlIssue env (jget response ''url'')) \<or> challenge_location env response \<or> mitigated env response)
      in if \<not> cloudflare \<and> status \<noteq> Some 403 \<and> status \<noteq> Some 429 then None
         else Some (if cloudflare then CloudflareChallenge else if status = Some 429 then RateLimited else BlockedResponse,
           captureDiagnostics env now response (jget response ''url'')))"

text \<open>\<open>/target (page, context or browser|closed)|(page|context|browser).*(has been closed|was closed|is closed)/i\<close>\<close>

fun closed_later :: "string \<Rightarrow> bool" where
  "closed_later [] = False"
| "closed_later (c # s) =
     (list_ex (\<lambda>w. starts_with w (c # s) \<and>
        (let r = takeWhile (\<lambda>x. (of_char x :: nat) \<noteq> 10 \<and> (of_char x :: nat) \<noteq> 13) (drop (length w) (c # s))
         in list_ex (\<lambda>p. contains p r) [''has been closed'', ''was closed'', ''is closed''])) [''page'', ''context'', ''browser'']
      \<or> closed_later s)"

definition closed_error :: "string \<Rightarrow> bool" where
  "closed_error text \<longleftrightarrow> contains ''target page, context or browser'' (to_lower text) \<or> contains ''target closed'' (to_lower text)
     \<or> closed_later (to_lower text)"


section \<open>Redirect policies: \<open>redirectCapture.ts\<close>\<close>

record redirect_policy =
  rd_issuer :: string
  rd_destination :: string
  rd_parameter :: string
  rd_origins :: "string list"

datatype policy_error = NotAPolicy | BadMode | NotAnOrigin | BadOrigins | IssuerNotExclusive | MerchantReachable | SeedOutside

text \<open>\<open>/^([a-z0-9]([a-z0-9-]*[a-z0-9])?\.)+[a-z]{2,63}$/\<close>\<close>

definition host_label :: "string \<Rightarrow> bool" where
  "host_label l \<longleftrightarrow> l \<noteq> [] \<and> list_all (\<lambda>c. is_digit c \<or> is_lower c \<or> c = CHR ''-'') l \<and> hd l \<noteq> CHR ''-'' \<and> last l \<noteq> CHR ''-''"

definition public_host :: "string \<Rightarrow> bool" where
  "public_host h \<longleftrightarrow>
     (let ls = split_char CHR ''.'' h
      in 2 \<le> length ls \<and> list_all host_label (butlast ls) \<and> list_all is_lower (last ls) \<and> 2 \<le> length (last ls) \<and> length (last ls) \<le> 63)
     \<and> \<not> list_ex (\<lambda>e. ends_with e h) [''.localhost'', ''.local'', ''.internal'']"

definition approvedOrigin :: "web_env \<Rightarrow> bool \<Rightarrow> json option \<Rightarrow> policy_error + string" where
  "approvedOrigin env allowHttp v =
     (case text_of v of
        None \<Rightarrow> Inl NotAnOrigin
      | Some s \<Rightarrow>
          if 300 < length s then Inl NotAnOrigin
          else (case we_url env s of
             None \<Rightarrow> Inl NotAnOrigin
           | Some u \<Rightarrow>
              if u_protocol u \<noteq> ''https:'' \<and> \<not> (allowHttp \<and> u_protocol u = ''http:'') \<or> u_origin u \<noteq> s \<or> u_username u \<noteq> '''' \<or> u_password u \<noteq> ''''
                \<or> \<not> public_host (u_hostname u)
              then Inl NotAnOrigin else Inr s))"

definition host_of :: "web_env \<Rightarrow> string \<Rightarrow> string" where
  "host_of env s = (case we_url env s of None \<Rightarrow> '''' | Some u \<Rightarrow> u_hostname u)"

definition policy_keys :: "string list" where
  "policy_keys = [''mode'', ''issuer_origin'', ''destination_origin'', ''required_parameter'', ''navigation_origins'']"

definition seed_outside :: "web_env \<Rightarrow> string list \<Rightarrow> string option \<Rightarrow> bool" where
  "seed_outside env origins seed =
     (case seed of
        None \<Rightarrow> False
      | Some s \<Rightarrow>
         (case we_url env s of
            None \<Rightarrow> True
          | Some u \<Rightarrow> u_protocol u \<noteq> ''https:'' \<or> u_username u \<noteq> '''' \<or> u_password u \<noteq> '''' \<or> u_origin u \<notin> set origins))"

definition parsePolicyObject :: "web_env \<Rightarrow> json_object \<Rightarrow> string option \<Rightarrow> policy_error + redirect_policy" where
  "parsePolicyObject env p seed =
     bindE (throwIf (list_ex (\<lambda>(k, v). k \<notin> set policy_keys) p \<or> text_of (jget p ''mode'') \<noteq> Some ''redirect_only''
         \<or> js_String (we_print env) (jget p ''required_parameter'') \<notin> {''irclickid'', ''im_ref''}) BadMode) (\<lambda>_.
     bindE (approvedOrigin env False (jget p ''issuer_origin'')) (\<lambda>issuer.
     bindE (approvedOrigin env False (jget p ''destination_origin'')) (\<lambda>destination.
     bindE (throwIf (case jget p ''navigation_origins'' of Some (JArr os) \<Rightarrow> length os < 1 \<or> 16 < length os | _ \<Rightarrow> True) BadOrigins) (\<lambda>_.
     bindE (mapE (\<lambda>v. approvedOrigin env True (Some v)) (array_or_empty (jget p ''navigation_origins''))) (\<lambda>origins.
     bindE (throwIf (list_ex (\<lambda>s. host_of env s = host_of env issuer \<and> s \<noteq> issuer) origins) IssuerNotExclusive) (\<lambda>_.
     bindE (throwIf (\<not> distinct origins \<or> issuer \<notin> set origins \<or> list_ex (\<lambda>s. host_of env s = host_of env destination) origins) MerchantReachable) (\<lambda>_.
     bindE (throwIf (seed_outside env origins seed) SeedOutside) (\<lambda>_.
       Inr \<lparr>rd_issuer = issuer, rd_destination = destination,
            rd_parameter = js_String (we_print env) (jget p ''required_parameter''), rd_origins = origins\<rparr>))))))))"

definition parseRedirectCapturePolicy :: "web_env \<Rightarrow> json option \<Rightarrow> string option \<Rightarrow> policy_error + redirect_policy option" where
  "parseRedirectCapturePolicy env v seed =
     (case v of
        None \<Rightarrow> Inr None
      | Some JNull \<Rightarrow> Inr None
      | Some (JObj p) \<Rightarrow> bindE (parsePolicyObject env p seed) (\<lambda>r. Inr (Some r))
      | _ \<Rightarrow> Inl NotAPolicy)"

definition redirect_statuses :: "int list" where
  "redirect_statuses = [301, 302, 303, 307, 308]"

definition redirectLocationForPolicy :: "web_env \<Rightarrow> redirect_policy \<Rightarrow> json option \<Rightarrow> int option \<Rightarrow> json option \<Rightarrow> string option" where
  "redirectLocationForPolicy env policy url status headers =
     (case (status, we_url env (js_String (we_print env) url), map_option snd (find (\<lambda>(k, v). to_lower k = ''location'') (members headers))) of
        (Some n, Some u, Some (JStr location)) \<Rightarrow>
          if n \<notin> set redirect_statuses \<or> u_origin u \<noteq> rd_issuer policy \<or> location = '''' \<or> 32768 < length location
            \<or> list_ex (\<lambda>c. js_space c \<or> (of_char c :: nat) = 92) location \<or> \<not> starts_with ''https://'' location
          then None
          else (case we_url env location of
             None \<Rightarrow> None
           | Some t \<Rightarrow> if u_origin t \<noteq> rd_destination policy \<or> u_username t \<noteq> '''' \<or> u_password t \<noteq> '''' then None else Some location)
      | _ \<Rightarrow> None)"

section \<open>\<open>evaluateCaptureResult\<close>\<close>

definition signal :: "json_object \<Rightarrow> string \<Rightarrow> string option" where
  "signal event name = text_of (jget (members (jget event ''ta_signal'')) name)"

definition main_documents :: "json_object \<Rightarrow> json_object list" where
  "main_documents result = filter (\<lambda>e. signal e ''main_document'' = Some ''true'') (map object_of (array_or_empty (jget result ''events'')))"

text \<open>The bytes between the first question mark and the fragment.\<close>

definition suffix_of :: "string \<Rightarrow> string option" where
  "suffix_of finalUrl =
     (let fragment = index_of CHR ''#'' finalUrl
      in case index_of CHR ''?'' finalUrl of
           None \<Rightarrow> None
         | Some q \<Rightarrow> if (case fragment of None \<Rightarrow> False | Some f \<Rightarrow> f < q) then None
                   else (let s = drop (q + 1) (case fragment of None \<Rightarrow> finalUrl | Some f \<Rightarrow> take f finalUrl) in if s = '''' then None else Some s))"

text \<open>With a routing policy: only the issuer's own redirect to the merchant counts.\<close>

definition redirect_only :: "web_env \<Rightarrow> json option \<Rightarrow> json_object list \<Rightarrow> json_object \<Rightarrow> string \<Rightarrow> reject_code option" where
  "redirect_only env policySource documents main finalUrl =
     (case parseRedirectCapturePolicy env policySource None of
        Inr (Some policy) \<Rightarrow>
          if signal main ''capture_path'' \<noteq> Some ''browser-redirect-only'' \<or> signal main ''destination_visited'' \<noteq> Some ''false''
            \<or> signal main ''egress_guard'' \<noteq> Some ''origin_allowlist''
            \<or> list_ex (\<lambda>e. (case we_url env (js_String (we_print env) (jget e ''url'')) of None \<Rightarrow> True | Some u \<Rightarrow> u_origin u \<notin> set (rd_origins policy))
                 \<or> captureUrlIssue env (jget e ''url'') \<noteq> None) documents
          then Some RedirectPolicyMismatch
          else if redirectLocationForPolicy env policy (jget main ''url'') (http_status env (jget main ''status'')) (jget main ''headers'') \<noteq> Some finalUrl
          then Some UnverifiedDestination
          else (case filter (\<lambda>(k, v). k = rd_parameter policy) (case we_url env finalUrl of None \<Rightarrow> [] | Some u \<Rightarrow> search_params (u_search u)) of
                  [(k, v)] \<Rightarrow> if blank_utf8 v then Some MissingTrackingIdentifier else None
                | _ \<Rightarrow> Some MissingTrackingIdentifier)
      | _ \<Rightarrow> Some RedirectPolicyMismatch)"

definition nullish :: "json option \<Rightarrow> bool" where
  "nullish v \<longleftrightarrow> v = None \<or> v = Some JNull"

definition loaded_document :: "web_env \<Rightarrow> json_object \<Rightarrow> string \<Rightarrow> bool" where
  "loaded_document env main finalUrl \<longleftrightarrow>
     (case http_status env (jget main ''status'') of None \<Rightarrow> False | Some n \<Rightarrow> 200 \<le> n \<and> n < 300)
     \<and> documentUrl env (jget main ''url'') = documentUrl env (Some (JStr finalUrl))"

definition redirected_to :: "web_env \<Rightarrow> json_object \<Rightarrow> string \<Rightarrow> bool" where
  "redirected_to env main finalUrl \<longleftrightarrow>
     (let location = header_of env (jget main ''headers'') ''location''
      in signal main ''capture_path'' = Some ''redirect-first''
         \<and> (case http_status env (jget main ''status'') of None \<Rightarrow> False | Some n \<Rightarrow> n \<in> set redirect_statuses)
         \<and> location \<noteq> '''' \<and> captureUrlIssue env (jget main ''url'') = None
         \<and> (case we_resolve env location (js_String (we_print env) (jget main ''url'')) of
              None \<Rightarrow> False | Some href \<Rightarrow> documentUrl env (Some (JStr href)) = documentUrl env (Some (JStr finalUrl))))"

text \<open>The last part: which evidence the main document gives for this address. \<open>options\<close> is \<open>None\<close> when no options are passed.\<close>

definition policy_applies :: "json option option \<Rightarrow> json_object \<Rightarrow> json_object \<Rightarrow> bool" where
  "policy_applies options result main \<longleftrightarrow>
     signal main ''capture_path'' = Some ''browser-redirect-only'' \<or> \<not> nullish (jget result ''redirect_capture'')
     \<or> (case options of None \<Rightarrow> False | Some p \<Rightarrow> \<not> nullish p)"

definition judge_evidence :: "web_env \<Rightarrow> json option option \<Rightarrow> json_object \<Rightarrow> json_object list \<Rightarrow> json_object \<Rightarrow> string \<Rightarrow> reject_code + evidence" where
  "judge_evidence env options result documents main finalUrl =
     (if policy_applies options result main
      then (case redirect_only env (case options of Some p \<Rightarrow> p | None \<Rightarrow> jget result ''redirect_capture'') documents main finalUrl of
              Some code \<Rightarrow> Inl code | None \<Rightarrow> Inr RedirectOnly)
      else if loaded_document env main finalUrl then Inr DocumentResponse
      else if redirected_to env main finalUrl then Inr RedirectLocation
      else Inl UnverifiedDestination)"

definition blocked_verdict :: "web_env \<Rightarrow> json_object \<Rightarrow> bool" where
  "blocked_verdict env result \<longleftrightarrow>
     to_lower (js_String (we_print env) (jget result ''final_verdict'')) \<in> set [''block'', ''blocked'', ''challenge'', ''error'', ''deny'', ''denied'']"

text \<open>The checks before the evidence, in the order of the code: the first that holds names the rejection.\<close>

definition early_checks :: "web_env \<Rightarrow> json_object \<Rightarrow> json_object option \<Rightarrow> (bool \<times> reject_code) list" where
  "early_checks env result main =
     (let issue = captureUrlIssue env (jget result ''final_landing_url''); err = truthy (jget result ''error'');
          challenge = jget (members (jget result ''challenge'')) ''status''
      in [(err \<and> \<not> names_challenge issue,
             if closed_error (js_String (we_print env) (jget result ''error'')) then BrowserClosed else CaptureError),
          (issue \<noteq> None, if names_challenge issue then CloudflareChallenge
             else (case issue of Some (InSuffix (EmptyIdentifier _)) \<Rightarrow> EmptyTrackingIdentifier | _ \<Rightarrow> InvalidUrl)),
          ((case main of None \<Rightarrow> False | Some m \<Rightarrow> mitigated env m), CloudflareChallenge),
          (err, CaptureError),
          (truthy challenge \<and> text_of challenge \<noteq> Some ''resolved'', UnresolvedChallenge),
          (blocked_verdict env result, BlockedResponse)])"

definition evaluateCaptureResult :: "web_env \<Rightarrow> time \<Rightarrow> json option \<Rightarrow> json option option \<Rightarrow> decision" where
  "evaluateCaptureResult env now v options =
     (let result = members v; documents = main_documents result; main = (if documents = [] then None else Some (last documents));
          diagnostics = captureDiagnostics env now (case main of None \<Rightarrow> [] | Some m \<Rightarrow> m) (jget result ''final_landing_url'')
      in case List.map_filter (edgeStopForResponse env now) documents of
           stop # _ \<Rightarrow> Inl stop
         | [] \<Rightarrow>
            (case find fst (early_checks env result main) of
               Some (_, code) \<Rightarrow> Inl (code, diagnostics)
             | None \<Rightarrow>
                (case text_of (jget result ''final_landing_url'') of
                   None \<Rightarrow> Inl (InvalidUrl, diagnostics)
                 | Some finalUrl \<Rightarrow>
                    (case (suffix_of finalUrl, main) of
                       (None, _) \<Rightarrow> Inl (MissingSuffix, diagnostics)
                     | (Some _, None) \<Rightarrow> Inl (UnverifiedDestination, diagnostics)
                     | (Some suffix, Some m) \<Rightarrow>
                        (case judge_evidence env options result documents m finalUrl of
                           Inl code \<Rightarrow> Inl (code, diagnostics)
                         | Inr e \<Rightarrow> Inr \<lparr>ac_finalUrl = finalUrl, ac_suffix = suffix, ac_evidence = e\<rparr>)))))"


section \<open>What an accepted capture is\<close>

lemma index_of_Some: "index_of c s = Some i \<Longrightarrow> i < length s \<and> s ! i = c \<and> c \<notin> set (take i s)"
  by (induction s arbitrary: i) (auto split: if_splits)

lemma index_of_None: "index_of c s = None \<longleftrightarrow> c \<notin> set s"
  by (induction s) auto

lemma split_at_index:
  assumes "index_of c s = Some i"
  shows "s = take i s @ c # drop (Suc i) s"
  using index_of_Some [OF assms] by (metis id_take_nth_drop)

lemma suffix_of_Some:
  assumes "suffix_of s = Some x"
  obtains pre frag where "s = pre @ CHR ''?'' # x @ frag" "CHR ''?'' \<notin> set pre" "CHR ''#'' \<notin> set (pre @ x)" "frag = '''' \<or> hd frag = CHR ''#''" "x \<noteq> ''''"
proof -
  from assms obtain q where q: "index_of CHR ''?'' s = Some q"
    by (cases "index_of CHR ''?'' s") (simp_all add: suffix_of_def Let_def)
  note parts = index_of_Some [OF q] split_at_index [OF q]
  show ?thesis
  proof (cases "index_of CHR ''#'' s")
    case None
    then have "x = drop (Suc q) s" "x \<noteq> ''''" using assms q by (auto simp: suffix_of_def Let_def split: if_splits)
    moreover have "CHR ''#'' \<notin> set s" using None by (simp add: index_of_None)
    then have "CHR ''#'' \<notin> set (take q s @ drop (Suc q) s)" by (metis Un_iff in_set_dropD in_set_takeD set_append)
    ultimately show ?thesis using that [of "take q s" "''''"] parts by simp
  next
    case (Some f)
    then have "\<not> f < q" and x: "x = drop (Suc q) (take f s)" "x \<noteq> ''''"
      using assms q by (auto simp: suffix_of_def Let_def split: if_splits)
    note f = index_of_Some [OF Some] split_at_index [OF Some]
    have "q < f" using \<open>\<not> f < q\<close> parts f by (cases "q = f") auto
    then have tk: "take f s = take q s @ CHR ''?'' # x"
    proof -
      have "index_of CHR ''?'' s = Some q \<Longrightarrow> take f s = take q (take f s) @ (take f s) ! q # drop (Suc q) (take f s)"
        using \<open>q < f\<close> f by (intro id_take_nth_drop) simp
      then show ?thesis using q x parts \<open>q < f\<close> by (simp add: min_def)
    qed
    then have "s = take q s @ CHR ''?'' # x @ drop f s" by (metis append.assoc append_Cons append_take_drop_id)
    moreover have "CHR ''#'' \<notin> set (take q s @ x)" using f tk by (metis Un_iff insert_iff list.simps(15) set_append)
    moreover have "hd (drop f s) = CHR ''#''" using f by (simp add: hd_drop_conv_nth)
    ultimately show ?thesis using that [of "take q s" "drop f s"] parts x(2) by simp
  qed
qed

lemma map_filter_Nil: "List.map_filter f xs = [] \<longleftrightarrow> (\<forall>x\<in>set xs. f x = None)"
  by (induction xs) (auto simp: List.map_filter_def split: option.splits)

lemma edge_stop_None:
  "edgeStopForResponse env now d = None \<longleftrightarrow>
     \<not> names_challenge (captureUrlIssue env (jget d ''url'')) \<and> \<not> challenge_location env d \<and> \<not> mitigated env d
     \<and> http_status env (jget d ''status'') \<notin> {Some 403, Some 429}"
  by (simp add: edgeStopForResponse_def Let_def)

text \<open>What an accepted capture has passed.\<close>

lemma evaluate_Inr:
  assumes "evaluateCaptureResult env now v options = Inr a"
  obtains main where "main_documents (members v) \<noteq> []" "main = last (main_documents (members v))"
    "\<forall>d\<in>set (main_documents (members v)). edgeStopForResponse env now d = None"
    "find fst (early_checks env (members v) (Some main)) = None"
    "text_of (jget (members v) ''final_landing_url'') = Some (ac_finalUrl a)"
    "suffix_of (ac_finalUrl a) = Some (ac_suffix a)"
    "judge_evidence env options (members v) (main_documents (members v)) main (ac_finalUrl a) = Inr (ac_evidence a)"
  using assms
  by (auto simp: evaluateCaptureResult_def Let_def map_filter_Nil split: list.splits option.splits sum.splits if_splits)



section \<open>What a parsed policy is\<close>

lemma approvedOrigin_Inr: "approvedOrigin env http v = Inr s \<Longrightarrow> v = Some (JStr s)"
  by (auto simp: approvedOrigin_def text_of_def split: option.splits json.splits if_splits)

lemma mapE_approved: "mapE (\<lambda>v. approvedOrigin env True (Some v)) vs = Inr os \<Longrightarrow> vs = map JStr os"
proof (induction vs arbitrary: os)
  case (Cons v vs)
  then obtain s ss where "approvedOrigin env True (Some v) = Inr s" "mapE (\<lambda>v. approvedOrigin env True (Some v)) vs = Inr ss" "os = s # ss"
    by (auto simp: bindE_Inr_conv)
  then show ?case using Cons.IH approvedOrigin_Inr by fastforce
qed simp

definition policy_json :: "redirect_policy \<Rightarrow> json" where
  "policy_json p = JObj [(''mode'', JStr ''redirect_only''), (''issuer_origin'', JStr (rd_issuer p)), (''destination_origin'', JStr (rd_destination p)),
     (''required_parameter'', JStr (rd_parameter p)), (''navigation_origins'', JArr (map JStr (rd_origins p)))]"

lemma parse_policy_Inr:
  assumes "parseRedirectCapturePolicy env v seed = Inr (Some p)"
  shows "approvedOrigin env False (Some (JStr (rd_issuer p))) = Inr (rd_issuer p)"
    and "approvedOrigin env False (Some (JStr (rd_destination p))) = Inr (rd_destination p)"
    and "mapE (\<lambda>v. approvedOrigin env True (Some v)) (map JStr (rd_origins p)) = Inr (rd_origins p)"
    and "rd_parameter p \<in> {''irclickid'', ''im_ref''}" "distinct (rd_origins p)" "rd_issuer p \<in> set (rd_origins p)"
    and "rd_origins p \<noteq> []" "length (rd_origins p) \<le> 16"
    and "\<not> list_ex (\<lambda>s. host_of env s = host_of env (rd_issuer p) \<and> s \<noteq> rd_issuer p) (rd_origins p)"
    and "\<not> list_ex (\<lambda>s. host_of env s = host_of env (rd_destination p)) (rd_origins p)"
    and "\<not> seed_outside env (rd_origins p) seed"
proof -
  from assms obtain o0 where o0: "v = Some (JObj o0)" "parsePolicyObject env o0 seed = Inr p"
    by (auto simp: parseRedirectCapturePolicy_def bindE_Inr_conv split: option.splits json.splits)
  then obtain os where *: "approvedOrigin env False (jget o0 ''issuer_origin'') = Inr (rd_issuer p)"
    "approvedOrigin env False (jget o0 ''destination_origin'') = Inr (rd_destination p)"
    "jget o0 ''navigation_origins'' = Some (JArr os)" "os \<noteq> []" "length os \<le> 16"
    "mapE (\<lambda>v. approvedOrigin env True (Some v)) os = Inr (rd_origins p)"
    "rd_parameter p \<in> {''irclickid'', ''im_ref''}" "distinct (rd_origins p)" "rd_issuer p \<in> set (rd_origins p)"
    "\<not> list_ex (\<lambda>s. host_of env s = host_of env (rd_issuer p) \<and> s \<noteq> rd_issuer p) (rd_origins p)"
    "\<not> list_ex (\<lambda>s. host_of env s = host_of env (rd_destination p)) (rd_origins p)" "\<not> seed_outside env (rd_origins p) seed"
  proof -
    from o0(2) have nav: "\<not> (case jget o0 ''navigation_origins'' of Some (JArr os) \<Rightarrow> length os < 1 \<or> 16 < length os | _ \<Rightarrow> True)"
      by (simp add: parsePolicyObject_def bindE_Inr_conv) blast
    then obtain os where os: "jget o0 ''navigation_origins'' = Some (JArr os)" "os \<noteq> []" "length os \<le> 16"
      by (simp split: option.splits json.splits)
    show ?thesis
      by (rule that [of os]) (use o0(2) os in \<open>simp_all add: parsePolicyObject_def bindE_Inr_conv array_or_empty_def, auto\<close>)
  qed
  have os: "os = map JStr (rd_origins p)" using mapE_approved [OF *(6)] .
  show "approvedOrigin env False (Some (JStr (rd_issuer p))) = Inr (rd_issuer p)" using *(1) approvedOrigin_Inr [OF *(1)] by simp
  show "approvedOrigin env False (Some (JStr (rd_destination p))) = Inr (rd_destination p)" using *(2) approvedOrigin_Inr [OF *(2)] by simp
  show "mapE (\<lambda>v. approvedOrigin env True (Some v)) (map JStr (rd_origins p)) = Inr (rd_origins p)" using *(6) os by simp
  show "rd_origins p \<noteq> []" "length (rd_origins p) \<le> 16" using *(4,5) os by simp_all
  show "rd_parameter p \<in> {''irclickid'', ''im_ref''}" "distinct (rd_origins p)" "rd_issuer p \<in> set (rd_origins p)"
    "\<not> list_ex (\<lambda>s. host_of env s = host_of env (rd_issuer p) \<and> s \<noteq> rd_issuer p) (rd_origins p)"
    "\<not> list_ex (\<lambda>s. host_of env s = host_of env (rd_destination p)) (rd_origins p)" "\<not> seed_outside env (rd_origins p) seed"
    by (fact *)+
qed

lemma policy_reparsed:
  assumes "parseRedirectCapturePolicy env v seed = Inr (Some p)"
  shows "parseRedirectCapturePolicy env (Some (policy_json p)) seed = Inr (Some p)"
  using parse_policy_Inr [OF assms]
  by (auto simp: parseRedirectCapturePolicy_def policy_json_def parsePolicyObject_def policy_keys_def text_of_def array_or_empty_def)


section \<open>A journey and its routing policy\<close>

definition demo_parts :: "string \<Rightarrow> string \<Rightarrow> string \<Rightarrow> string \<Rightarrow> url_parts" where
  "demo_parts origin host search whole = \<lparr>u_protocol = ''https:'', u_origin = origin, u_hostname = host, u_username = '''', u_password = '''',
     u_pathname = ''/'', u_search = search, u_bare = whole\<rparr>"

definition demo_landing :: string where "demo_landing = ''https://shop.example.org/?irclickid=a1''"

definition demo_env :: web_env where
  "demo_env = \<lparr>we_url = map_of
     [(''https://go.example.com'', demo_parts ''https://go.example.com'' ''go.example.com'' '''' ''https://go.example.com/''),
      (''https://shop.example.org'', demo_parts ''https://shop.example.org'' ''shop.example.org'' '''' ''https://shop.example.org/''),
      (''https://go.example.com/c'', demo_parts ''https://go.example.com'' ''go.example.com'' '''' ''https://go.example.com/c''),
      (demo_landing, demo_parts ''https://shop.example.org'' ''shop.example.org'' ''?irclickid=a1'' demo_landing)],
     we_resolve = (\<lambda>location base. if location = demo_landing then Some demo_landing else None),
     we_date = (\<lambda>s. None), we_print = (\<lambda>r. '''')\<rparr>"




text \<open>The merchant's page is loaded.\<close>

definition demo_visit :: json where
  "demo_visit = JObj [(''final_landing_url'', JStr demo_landing),
     (''events'', JArr [JObj [(''url'', JStr demo_landing), (''status'', JNum 200), (''ta_signal'', JObj [(''main_document'', JStr ''true'')])]])]"

definition demo_capture :: "evidence \<Rightarrow> accepted_capture" where
  "demo_capture e = \<lparr>ac_finalUrl = demo_landing, ac_suffix = ''irclickid=a1'', ac_evidence = e\<rparr>"


lemma demo_visit_accepted: "evaluateCaptureResult demo_env 0 (Some demo_visit) (Some None) = Inr (demo_capture DocumentResponse)"
  by code_simp


section \<open>The properties\<close>

text \<open>C4: An accepted capture is evidenced. Its suffix is, byte for byte, what the final address has between the first question
  mark and the fragment; the address passes the checks on addresses; the journey reported no error; no main document was a
  challenge, a 403 or a 429; and the last main document either loaded that address with a 2xx status, or redirected to it,
  or, exactly when a routing policy applies, passed the policy.\<close>

theorem accepted_capture_is_evidenced:
  assumes "evaluateCaptureResult env now v options = Inr a"
  shows "\<exists>pre frag main. ac_finalUrl a = pre @ CHR ''?'' # ac_suffix a @ frag \<and> CHR ''?'' \<notin> set pre \<and> CHR ''#'' \<notin> set (pre @ ac_suffix a)
      \<and> (frag = '''' \<or> hd frag = CHR ''#'') \<and> ac_suffix a \<noteq> ''''
      \<and> captureUrlIssue env (Some (JStr (ac_finalUrl a))) = None \<and> \<not> truthy (jget (members v) ''error'')
      \<and> last (main_documents (members v)) = main \<and> main \<in> set (main_documents (members v))
      \<and> {d \<in> set (main_documents (members v)). names_challenge (captureUrlIssue env (jget d ''url'')) \<or> mitigated env d
            \<or> http_status env (jget d ''status'') \<in> {Some 403, Some 429}} = {}
      \<and> policy_applies options (members v) main = (ac_evidence a = RedirectOnly)
      \<and> (case ac_evidence a of
           DocumentResponse \<Rightarrow> loaded_document env main (ac_finalUrl a)
         | RedirectLocation \<Rightarrow> redirected_to env main (ac_finalUrl a)
         | RedirectOnly \<Rightarrow> redirect_only env (case options of Some p \<Rightarrow> p | None \<Rightarrow> jget (members v) ''redirect_capture'')
             (main_documents (members v)) main (ac_finalUrl a) = None)"
proof -
  from assms obtain main where m: "main_documents (members v) \<noteq> []" "main = last (main_documents (members v))"
    "\<forall>d\<in>set (main_documents (members v)). edgeStopForResponse env now d = None"
    "find fst (early_checks env (members v) (Some main)) = None"
    "text_of (jget (members v) ''final_landing_url'') = Some (ac_finalUrl a)"
    "suffix_of (ac_finalUrl a) = Some (ac_suffix a)"
    "judge_evidence env options (members v) (main_documents (members v)) main (ac_finalUrl a) = Inr (ac_evidence a)"
    by (rule evaluate_Inr)
  from m(6) obtain pre frag where bytes: "ac_finalUrl a = pre @ CHR ''?'' # ac_suffix a @ frag" "CHR ''?'' \<notin> set pre"
      "CHR ''#'' \<notin> set (pre @ ac_suffix a)" "frag = '''' \<or> hd frag = CHR ''#''" "ac_suffix a \<noteq> ''''"
    by (rule suffix_of_Some)
  have "jget (members v) ''final_landing_url'' = Some (JStr (ac_finalUrl a))"
    using m(5) by (auto simp: text_of_def split: option.splits json.splits)
  then have checks: "captureUrlIssue env (Some (JStr (ac_finalUrl a))) = None" "\<not> truthy (jget (members v) ''error'')"
    using m(4) by (simp_all add: early_checks_def Let_def split: if_splits)
  have docs: "{d \<in> set (main_documents (members v)). names_challenge (captureUrlIssue env (jget d ''url'')) \<or> mitigated env d
            \<or> http_status env (jget d ''status'') \<in> {Some 403, Some 429}} = {}"
    using m(3) by (auto simp: edge_stop_None)
  have judged: "policy_applies options (members v) main = (ac_evidence a = RedirectOnly)
      \<and> (case ac_evidence a of
           DocumentResponse \<Rightarrow> loaded_document env main (ac_finalUrl a)
         | RedirectLocation \<Rightarrow> redirected_to env main (ac_finalUrl a)
         | RedirectOnly \<Rightarrow> redirect_only env (case options of Some p \<Rightarrow> p | None \<Rightarrow> jget (members v) ''redirect_capture'')
             (main_documents (members v)) main (ac_finalUrl a) = None)"
    using m(7) by (auto simp: judge_evidence_def split: if_splits option.splits)
  have "main \<in> set (main_documents (members v))" using m(1,2) by simp
  with bytes checks docs judged m(2) show ?thesis by blast
qed

lemma accepted_capture_is_evidenced_witness:
  "\<exists>pre frag. demo_landing = pre @ CHR ''?'' # ''irclickid=a1'' @ frag \<and> CHR ''?'' \<notin> set pre
     \<and> loaded_document demo_env (last (main_documents (members (Some demo_visit)))) demo_landing"
  using accepted_capture_is_evidenced [OF demo_visit_accepted] by (auto simp: demo_capture_def)



end
