(* ===== verification/Capture_Pipeline.thy ===== *)
theory Capture_Pipeline
  imports Control_Endpoint Capture_Gate Campaign_Payload
begin

text \<open>
  From a browser result to the fleet: the part of \<open>web/server/control.mjs\<close> that turns what the workers report into captures
  and hands them on (\<open>queueL4Capture\<close>, \<open>persistL4Capture\<close>, \<open>publishL4CaptureToMesh\<close>), in front of the endpoint and the tables
  of the fleet. The promise chain of a run is a list of jobs, each waiting for the one before it; a delivery is a request under
  way, served by the fleet and then answered, with anything in between. What a rejection records is in \<open>Campaign_Control\<close>;
  the mirror file, the broadcasts and the reply of the Google Ads endpoint are left out, and a campaign is not saved again or
  deleted while its captures are on their way.
\<close>

section \<open>State\<close>

record l4_capture =
  lc_runId :: string
  lc_at :: time
  lc_finalUrl :: string
  lc_suffix :: string
  lc_evidence :: evidence
  lc_egress :: "json option"

record fleet_run =
  fr_campaign :: string
  fr_redirect :: "json option"
  fr_syncAds :: bool
  fr_mesh :: bool
  fr_providerId :: "json option"
  fr_suffix :: "string option"
  fr_version :: "int option"
  fr_error :: bool

record fleet_campaign =
  fc_name :: string
  fc_manager :: string
  fc_customerId :: string
  fc_campaignId :: string
  fc_shard :: string
  fc_latestSuffix :: "string option"
  fc_history :: "l4_capture list"
  fc_meshVersion :: "int option"
  fc_error :: bool

text \<open>A job of a run's chain: waiting, pushing to Google Ads, sending a request to the fleet, or with its answer (the shard) or error.\<close>

datatype job_stage =
    Waiting
  | Pushing l4_capture
  | Sending l4_capture int json
  | Delivered l4_capture int string
  | DeliveryFailed l4_capture

record capture_job =
  cj_id :: nat
  cj_after :: "nat option"
  cj_run :: string
  cj_result :: json
  cj_stage :: job_stage

record pipe_world =
  pw_now :: time
  pw_db :: fleet_db
  pw_campaigns :: "string \<rightharpoonup> fleet_campaign"
  pw_runs :: "string \<rightharpoonup> fleet_run"
  pw_queues :: "string \<rightharpoonup> nat"
  pw_next :: nat
  pw_jobs :: "capture_job list"

record pipe_env =
  pe_web :: web_env
  pe_auth :: auth_env
  pe_control :: control_env
  pe_bridgeToken :: string
  pe_iso :: "time \<Rightarrow> string"

section \<open>Captures\<close>

definition clean_json :: "web_env \<Rightarrow> json option \<Rightarrow> nat \<Rightarrow> string" where
  "clean_json web v n = take n (js_trim (js_String (we_print web) (js_coalesce v (Some (JStr '''')))))"

definition text_member :: "string \<Rightarrow> string \<Rightarrow> json_object" where
  "text_member k s = (if s = '''' then [] else [(k, JStr s)])"

text \<open>The observation time of the source when it is a date, the capture's own otherwise.\<close>

definition observed_at :: "pipe_env \<Rightarrow> json_object \<Rightarrow> time \<Rightarrow> string" where
  "observed_at env source capturedAt =
     (case we_date (pe_web env) (js_String (we_print (pe_web env)) (js_or (jget source ''observed_at'') (Some (JStr '''')))) of
        None \<Rightarrow> pe_iso env capturedAt | Some t \<Rightarrow> pe_iso env t)"

definition captureEgressIdentity :: "pipe_env \<Rightarrow> fleet_run \<Rightarrow> json_object \<Rightarrow> time \<Rightarrow> json option" where
  "captureEgressIdentity env run result capturedAt =
     (let source = members (jget result ''geo_resolved''); web = pe_web env;
          text = (\<lambda>k n. text_member k (clean_json web (jget source k) n)); conf = text_of (jget source ''confidence'')
      in if clean_json web (jget source ''ip'') 64 = '''' then None
         else Some (JObj (
             text ''ip'' 64
             @ text_member ''country'' (to_upper (clean_json web (jget source ''country'') 2))
             @ text ''state'' 120 @ text ''city'' 160 @ text ''timezone'' 80
             @ (case js_to_number (we_print web) (jget source ''asn'') of Num r \<Rightarrow> if is_safe_integer r \<and> 0 < r then [(''asn'', JNum r)] else [] | _ \<Rightarrow> [])
             @ text ''organization'' 240 @ text ''isp'' 240
             @ text_member ''intelligenceProvider'' (clean_json web (jget source ''intelligence_provider'') 80)
             @ [(''proxyProvider'', JStr (clean_json web (js_or (fr_providerId run) (Some (JStr ''iproyal''))) 80))]
             @ text_member ''proxyMode'' (clean_json web (jget result ''proxy_mode'') 40)
             @ [(''confidence'', JStr (case conf of Some c \<Rightarrow> if c \<in> set [''stable_session'', ''observed_probe'', ''direct''] then c else ''observed_probe'' | None \<Rightarrow> ''observed_probe'')),
                (''verified'', JBool (jget source ''verified'' = Some (JBool True))),
                (''observedAt'', JStr (observed_at env source capturedAt))])))"

definition capture_of_result :: "pipe_env \<Rightarrow> string \<Rightarrow> fleet_run \<Rightarrow> json \<Rightarrow> time \<Rightarrow> accepted_capture \<Rightarrow> l4_capture" where
  "capture_of_result env rid run result now a =
     \<lparr>lc_runId = rid, lc_at = now, lc_finalUrl = ac_finalUrl a, lc_suffix = ac_suffix a, lc_evidence = ac_evidence a,
      lc_egress = captureEgressIdentity env run (object_of result) now\<rparr>"

text \<open>\<open>[...history, capture].slice(-100)\<close>\<close>

definition last_captures :: "l4_capture list \<Rightarrow> l4_capture \<Rightarrow> l4_capture list" where
  "last_captures history c = (let h = history @ [c] in drop (length h - 100) h)"

definition store_capture_on :: "l4_capture \<Rightarrow> fleet_campaign \<Rightarrow> fleet_campaign" where
  "store_capture_on c camp = camp\<lparr>fc_latestSuffix := Some (lc_suffix c), fc_history := last_captures (fc_history camp) c\<rparr>"

definition persistL4Capture :: "pipe_env \<Rightarrow> string \<Rightarrow> fleet_run \<Rightarrow> json \<Rightarrow> pipe_world \<Rightarrow> l4_capture option \<times> pipe_world" where
  "persistL4Capture env rid run result w =
     (case evaluateCaptureResult (pe_web env) (pw_now w) (Some result) (Some (fr_redirect run)) of
        Inl _ \<Rightarrow> (None, w)
      | Inr a \<Rightarrow>
          (let c = capture_of_result env rid run result (pw_now w) a
           in (Some c, w\<lparr>pw_campaigns := (pw_campaigns w)(fr_campaign run := map_option (store_capture_on c) (pw_campaigns w (fr_campaign run)))\<rparr>)))"

section \<open>Requests to the fleet\<close>

definition fleet_target :: "fleet_campaign \<Rightarrow> (string \<times> string) option" where
  "fleet_target camp =
     (let customer = normalizedGoogleAdsId (fc_customerId camp); campaign = normalizedGoogleAdsId (fc_campaignId camp)
      in if length customer \<noteq> 10 \<or> campaign = [] \<or> 20 < length campaign then None else Some (customer, campaign))"

definition enqueue_body :: "string \<Rightarrow> fleet_campaign \<Rightarrow> string \<times> string \<Rightarrow> l4_capture \<Rightarrow> int \<Rightarrow> json" where
  "enqueue_body record camp target c version = JObj
     ([(''action'', JStr ''fleet-enqueue''), (''campaignRecordId'', JStr record), (''campaignName'', JStr (fc_name camp)),
       (''managerCustomerId'', JStr (fc_manager camp)), (''customerId'', JStr (fst target)), (''googleCampaignId'', JStr (snd target)),
       (''shardId'', JStr (if fc_shard camp = '''' then ''default'' else fc_shard camp)), (''exactSuffix'', JStr (lc_suffix c)),
       (''version'', JNum (of_int version)), (''sourceRunId'', JStr (lc_runId c)),
       (''captureEgress'', case lc_egress c of None \<Rightarrow> JNull | Some e \<Rightarrow> e)])"

text \<open>\<open>scriptBridgeRequest\<close>: the token goes out both as an API key and as a bearer token.\<close>

definition bridge_request :: "pipe_env \<Rightarrow> http_request" where
  "bridge_request env =
     (let token = pe_bridgeToken env
      in \<lparr>hr_url = ''/api/script-bridge'', hr_path = ''/api/script-bridge'',
          hr_header = (if token = '''' then Map.empty
            else [''x-api-key'' \<mapsto> token, ''authorization'' \<mapsto> (if starts_with ''Bearer '' token then token else ''Bearer '' @ token)])\<rparr>)"

definition scriptBridgeRequest :: "pipe_env \<Rightarrow> json \<Rightarrow> time \<Rightarrow> fleet_db \<Rightarrow> control_body option \<times> fleet_db" where
  "scriptBridgeRequest env body now db =
     (case serve_control ((pe_auth env)\<lparr>ae_now := now\<rparr>) (pe_control env) (bridge_request env) (Parsed body) db of
        ((status, reply), db') \<Rightarrow> ((case reply of CtlError _ \<Rightarrow> None | _ \<Rightarrow> if 200 \<le> status \<and> status < 300 then Some reply else None), db'))"

text \<open>Every request gets a fresh job id.\<close>

definition with_uuid :: "string \<Rightarrow> pipe_env \<Rightarrow> pipe_env" where
  "with_uuid uuid env = env\<lparr>pe_control := (pe_control env)\<lparr>ce_uuid := uuid\<rparr>\<rparr>"

definition publish_stage :: "string \<Rightarrow> fleet_campaign option \<Rightarrow> l4_capture \<Rightarrow> time \<Rightarrow> job_stage" where
  "publish_stage record camp c now =
     (case camp of
        None \<Rightarrow> DeliveryFailed c
      | Some k \<Rightarrow> (case fleet_target k of None \<Rightarrow> DeliveryFailed c | Some t \<Rightarrow> Sending c now (enqueue_body record k t c now)))"

definition push_stage :: "fleet_campaign option \<Rightarrow> l4_capture \<Rightarrow> job_stage" where
  "push_stage camp c =
     (case camp of Some k \<Rightarrow> if fc_customerId k = '''' \<or> fc_campaignId k = '''' then DeliveryFailed c else Pushing c | None \<Rightarrow> Pushing c)"

section \<open>The chain of a run\<close>

definition update_run :: "string \<Rightarrow> (fleet_run \<Rightarrow> fleet_run) \<Rightarrow> pipe_world \<Rightarrow> pipe_world" where
  "update_run rid f w = w\<lparr>pw_runs := (pw_runs w)(rid := map_option f (pw_runs w rid))\<rparr>"

definition update_campaign :: "string \<Rightarrow> (fleet_campaign \<Rightarrow> fleet_campaign) \<Rightarrow> pipe_world \<Rightarrow> pipe_world" where
  "update_campaign k f w = w\<lparr>pw_campaigns := (pw_campaigns w)(k := map_option f (pw_campaigns w k))\<rparr>"

text \<open>The end of a job: what the run and the campaign remember of the capture and its delivery (version and shard).\<close>

definition settle :: "fleet_run \<Rightarrow> capture_job \<Rightarrow> l4_capture \<Rightarrow> (int \<times> string) option \<Rightarrow> bool \<Rightarrow> pipe_world \<Rightarrow> pipe_world" where
  "settle run j c delivery failed w =
     update_campaign (fr_campaign run) (\<lambda>k. k\<lparr>fc_latestSuffix := Some (lc_suffix c),
         fc_meshVersion := (case delivery of Some (v, _) \<Rightarrow> Some v | None \<Rightarrow> fc_meshVersion k),
         fc_shard := (case delivery of Some (_, s) \<Rightarrow> if s = '''' then fc_shard k else take 80 (js_trim s) | None \<Rightarrow> fc_shard k),
         fc_error := failed\<rparr>)
       (update_run (cj_run j) (\<lambda>r. r\<lparr>fr_suffix := Some (lc_suffix c), fr_version := map_option fst delivery, fr_error := failed\<rparr>)
         (w\<lparr>pw_jobs := filter (\<lambda>k. cj_id k \<noteq> cj_id j) (pw_jobs w)\<rparr>))"

definition set_stage :: "capture_job \<Rightarrow> job_stage \<Rightarrow> pipe_world \<Rightarrow> pipe_world" where
  "set_stage j s w = w\<lparr>pw_jobs := map (\<lambda>k. if cj_id k = cj_id j then k\<lparr>cj_stage := s\<rparr> else k) (pw_jobs w)\<rparr>"

definition queueL4Capture :: "string \<Rightarrow> json \<Rightarrow> pipe_world \<Rightarrow> pipe_world" where
  "queueL4Capture rid result w = w\<lparr>
     pw_jobs := pw_jobs w @ [\<lparr>cj_id = pw_next w, cj_after = pw_queues w rid, cj_run = rid, cj_result = result, cj_stage = Waiting\<rparr>],
     pw_queues := (pw_queues w)(rid \<mapsto> pw_next w), pw_next := pw_next w + 1\<rparr>"

text \<open>The start of a job, up to the first request it waits for.\<close>

definition begin_job :: "pipe_env \<Rightarrow> fleet_run \<Rightarrow> capture_job \<Rightarrow> pipe_world \<Rightarrow> pipe_world" where
  "begin_job env run j w =
     (let camp = pw_campaigns w (fr_campaign run); previous = Option.bind camp fc_latestSuffix
      in case persistL4Capture env (cj_run j) run (cj_result j) w of
           (None, w') \<Rightarrow> w'\<lparr>pw_jobs := filter (\<lambda>k. cj_id k \<noteq> cj_id j) (pw_jobs w')\<rparr>
         | (Some c, w') \<Rightarrow>
             if previous = Some (lc_suffix c) then settle run j c None False w'
             else if fr_syncAds run then set_stage j (push_stage camp c) w'
             else if fr_mesh run then set_stage j (publish_stage (fr_campaign run) (pw_campaigns w' (fr_campaign run)) c (pw_now w')) w'
             else settle run j c None False w')"

definition ready :: "pipe_world \<Rightarrow> capture_job \<Rightarrow> bool" where
  "ready w j \<longleftrightarrow> cj_stage j = Waiting \<and> (case cj_after j of None \<Rightarrow> True | Some i \<Rightarrow> i \<notin> cj_id ` set (pw_jobs w))"


section \<open>Steps\<close>

inductive pipe_step :: "pipe_env \<Rightarrow> pipe_world \<Rightarrow> pipe_world \<Rightarrow> bool" for env where
  time_passes: "pw_now w \<le> t \<Longrightarrow> pipe_step env w (w\<lparr>pw_now := t\<rparr>)"
| arrives: "pw_runs w rid \<noteq> None \<Longrightarrow> pipe_step env w (queueL4Capture rid result w)"
| begins: "j \<in> set (pw_jobs w) \<Longrightarrow> ready w j \<Longrightarrow> pw_runs w (cj_run j) = Some run \<Longrightarrow> pipe_step env w (begin_job env run j w)"
| pushed: "j \<in> set (pw_jobs w) \<Longrightarrow> cj_stage j = Pushing c \<Longrightarrow> pw_runs w (cj_run j) = Some run
    \<Longrightarrow> pipe_step env w (settle run j c None failed w)"
| served: "j \<in> set (pw_jobs w) \<Longrightarrow> cj_stage j = Sending c v body \<Longrightarrow> scriptBridgeRequest (with_uuid uuid env) body (pw_now w) (pw_db w) = (Some (CtlQueued tid sid cid), db)
    \<Longrightarrow> pipe_step env w (set_stage j (Delivered c v sid) (w\<lparr>pw_db := db\<rparr>))"
| refused: "j \<in> set (pw_jobs w) \<Longrightarrow> cj_stage j = Sending c v body \<Longrightarrow> scriptBridgeRequest (with_uuid uuid env) body (pw_now w) (pw_db w) = (reply, db)
    \<Longrightarrow> pipe_step env w (set_stage j (DeliveryFailed c) (w\<lparr>pw_db := db\<rparr>))"
| unreachable: "j \<in> set (pw_jobs w) \<Longrightarrow> cj_stage j = Sending c v body \<Longrightarrow> pipe_step env w (set_stage j (DeliveryFailed c) w)"
| settles: "j \<in> set (pw_jobs w) \<Longrightarrow> cj_stage j = Delivered c v sid \<Longrightarrow> pw_runs w (cj_run j) = Some run
    \<Longrightarrow> pipe_step env w (settle run j c (Some (v, sid)) False w)"
| fails: "j \<in> set (pw_jobs w) \<Longrightarrow> cj_stage j = DeliveryFailed c \<Longrightarrow> pw_runs w (cj_run j) = Some run
    \<Longrightarrow> pipe_step env w (settle run j c None True w)"




section \<open>One capture at a time, in the order of arrival\<close>








lemma job_parts [simp]:
  "pw_jobs (settle run j c d e w) = filter (\<lambda>k. cj_id k \<noteq> cj_id j) (pw_jobs w)" "pw_queues (settle run j c d e w) = pw_queues w"
  "pw_next (settle run j c d e w) = pw_next w" "pw_db (settle run j c d e w) = pw_db w"
  by (simp_all add: settle_def update_campaign_def update_run_def)







section \<open>Two captures of one run\<close>


lemma begin_unchanged:
  assumes "evaluateCaptureResult (pe_web env) (pw_now w) (Some (cj_result j)) (Some (fr_redirect run)) = Inr a"
    "pw_campaigns w (fr_campaign run) = Some k" "fc_latestSuffix k = Some (ac_suffix a)"
    "c = capture_of_result env (cj_run j) run (cj_result j) (pw_now w) a"
  shows "begin_job env run j w = settle run j c None False (w\<lparr>pw_campaigns := (pw_campaigns w)(fr_campaign run \<mapsto> store_capture_on c k)\<rparr>)"
  using assms by (simp add: begin_job_def persistL4Capture_def Let_def capture_of_result_def)

definition second_landing :: string where "second_landing = ''https://shop.example.org/?irclickid=b2''"

definition visit_of :: "string \<Rightarrow> json" where
  "visit_of url = JObj [(''final_landing_url'', JStr url),
     (''events'', JArr [JObj [(''url'', JStr url), (''status'', JNum 200), (''ta_signal'', JObj [(''main_document'', JStr ''true'')])]])]"

definition pipe_demo :: pipe_env where
  "pipe_demo = \<lparr>pe_web = demo_env\<lparr>we_url := (\<lambda>s. if s = second_landing
        then Some (demo_parts ''https://shop.example.org'' ''shop.example.org'' ''?irclickid=b2'' second_landing) else we_url demo_env s)\<rparr>,
     pe_auth = demo_auth, pe_control = demo_control, pe_bridgeToken = ''the-token'', pe_iso = (\<lambda>t. '''')\<rparr>"

definition demo_run :: fleet_run where
  "demo_run = \<lparr>fr_campaign = ''r1'', fr_redirect = None, fr_syncAds = False, fr_mesh = True, fr_providerId = None,
     fr_suffix = None, fr_version = None, fr_error = False\<rparr>"

definition demo_campaign :: fleet_campaign where
  "demo_campaign = \<lparr>fc_name = ''n'', fc_manager = ''1234567890'', fc_customerId = ''1112223333'', fc_campaignId = ''12345678'', fc_shard = demo_shard,
     fc_latestSuffix = None, fc_history = [], fc_meshVersion = None, fc_error = False\<rparr>"

definition demo_l4 :: "string \<Rightarrow> string \<Rightarrow> time \<Rightarrow> l4_capture" where
  "demo_l4 url suffix t = \<lparr>lc_runId = ''run'', lc_at = t, lc_finalUrl = url, lc_suffix = suffix, lc_evidence = DocumentResponse, lc_egress = None\<rparr>"

definition first_l4 :: l4_capture where "first_l4 = demo_l4 demo_landing ''irclickid=a1'' 1000"
definition second_l4 :: l4_capture where "second_l4 = demo_l4 second_landing ''irclickid=b2'' 2000"

lemma demo_first: "evaluateCaptureResult (pe_web pipe_demo) t (Some (visit_of demo_landing)) (Some None) = Inr \<lparr>ac_finalUrl = demo_landing, ac_suffix = ''irclickid=a1'', ac_evidence = DocumentResponse\<rparr>"
  by code_simp



section \<open>What the fleet makes of a capture\<close>

lemma newest_capture_snoc:
  assumes "\<And>d. d \<in> set cs \<Longrightarrow> capture_key d < capture_key c"
  shows "newest_capture (cs @ [c]) = Some c"
  using assms
proof (induction cs)
  case (Cons a cs)
  then have "newest_capture (cs @ [c]) = Some c" by simp
  then show ?case using Cons.prems [of a] by simp
qed simp

text \<open>A capture of a new version becomes the newest of its target, with the only open job.\<close>

lemma enqueue_is_latest:
  assumes "bridge_inv cfg db" "sane_config cfg" "enqueueBridgeCapture cfg digest now jid input db = (Inr (tid, sid, cid), db')"
    "\<forall>x\<in>set (captures db). c_captured_at x \<le> now" "\<forall>x\<in>set (captures db). (c_target_id x, c_version x) \<noteq> (tid, capture_version input now)"
  obtains x j where "latest_capture db' tid = Some x" "c_capture_id x = cid" "c_exact_suffix x = ci_exactSuffix input"
    "j \<in> set (jobs db')" "job_for tid cid j" "j_state j = Pending" "\<not> list_ex (open_other tid cid) (jobs db')" "deliverable (ci_exactSuffix input)"
proof -
  from assms(3) obtain db1 where up: "upsertBridgeTarget cfg digest now (ci_target input) db = Inr ((tid, sid), db1)"
      and enq: "enqueue_capture digest now jid tid input db1 = Inr (cid, db')" and dl: "deliverable (ci_exactSuffix input)"
    unfolding enqueueBridgeCapture_def by (auto simp: deliverable_def assertDeliverableSuffix_def split: sum.split_asm option.split_asm)
  have i: "enrollment_inv db" "queue_inv cfg db" using assms(1) by (simp_all add: bridge_inv_def)
  have q1: "queue_inv cfg db1" by (rule queue_inv_upsert(1) [OF i up])
  have t: "tid \<in> t_target_id ` set (targets db1)" by (rule queue_inv_upsert(2) [OF i up])
  have caps: "captures db1 = captures db"
  proof -
    from up obtain db2 where "captures db2 = captures db" "save_target cfg (ci_target input) tid sid now db2 = Inr db1"
      by (rule upsert_facts)
    then show ?thesis by (elim save_target_Inr) auto
  qed
  from enq obtain db2 js where st: "store_capture digest tid input now db1 = (cid, db2)"
      and ins: "insert_job jid tid cid now (revive_dead now) (update_where (open_other tid cid) (supersede now) (jobs db2)) = Inr js"
      and db': "db' = db2\<lparr>jobs := js\<rparr>" by (rule enqueue_capture_Inr)
  have co: "captures_ok db1" using q1 by (simp add: queue_inv_def)
  let ?same = "\<lambda>c. c_target_id c = tid \<and> c_version c = capture_version input now"
  have "find ?same (captures db1) = None" using assms(5) by (auto simp: caps find_None_iff)
  then obtain n where n: "cid = next_capture_id db1" "captures db2 = captures db1 @ [n]" "c_capture_id n = cid" "c_target_id n = tid"
      "c_exact_suffix n = ci_exactSuffix input" "c_captured_at n = now" "jobs db2 = jobs db1"
    using st by (auto simp: store_capture_def Let_def)
  have lt: "c_capture_id x < cid" if "x \<in> set (captures db1)" for x using co that n(1) by (simp add: captures_ok_def)
  have key: "capture_key x < capture_key n" if "x \<in> set (captures db1)" for x
    using lt [OF that] assms(4) that caps by (auto simp: capture_key_def n(3,6) less_prod_def)
  have new: "latest_capture db' tid = Some n"
    unfolding latest_capture_def db' by (simp add: n(2,4)) (rule newest_capture_snoc, use key in auto)
  have free: "\<not> list_ex (job_for tid cid) (update_where (open_other tid cid) (supersede now) (jobs db2))"
  proof -
    have "j_capture_id j \<noteq> cid" if "j \<in> set (jobs db1)" for j
      using q1 that lt unfolding queue_inv_def refs_ok_def by force
    then show ?thesis by (auto simp: list_ex_iff job_for_def open_other_def n(7) supersede_def clear_lease_def elim!: in_update_whereE)
  qed
  have js: "js = update_where (open_other tid cid) (supersede now) (jobs db2) @ [new_job jid tid cid now]"
    using insert_job_Inr [OF ins] free by blast
  have open0: "\<not> list_ex (open_other tid cid) js"
    by (auto simp: list_ex_iff js open_other_def new_job_def supersede_def clear_lease_def elim!: in_update_whereE)
  show ?thesis
    by (rule that [of n "new_job jid tid cid now"]) (use new n open0 dl in \<open>simp_all add: db' js job_for_def new_job_def\<close>)
qed

lemma enqueue_names_body: "body_text env [Some (JStr ''fleet-enqueue'')] = ''fleet-enqueue''"
  by (simp add: body_text_def)

lemma version_of_int: "v \<noteq> 0 \<Longrightarrow> version_of env now (Some (JNum (of_int v))) = Some v"
  by (simp add: version_of_def js_or_def truthy_def js_to_number_def)

text \<open>A request that was accepted has run \<open>enqueueBridgeCapture\<close> on the capture and its version.\<close>

lemma accepted_request:
  assumes "scriptBridgeRequest env (enqueue_body record camp target c v) now db = (Some (CtlQueued tid sid cid), db')"
    "v \<noteq> 0" "\<bar>v\<bar> \<le> 2 ^ 53 - 1"
  obtains input where "enqueueBridgeCapture (ce_cfg (pe_control env)) (ce_digest (pe_control env)) now (ce_uuid (pe_control env)) input db = (Inr (tid, sid, cid), db')"
    "ci_exactSuffix input = lc_suffix c" "capture_version input now = v"
proof -
  let ?auth = "(pe_auth env)\<lparr>ae_now := now\<rparr>" and ?ctl = "pe_control env"
  obtain body where b: "enqueue_body record camp target c v = JObj body" "jget body ''action'' = Some (JStr ''fleet-enqueue'')"
      "jget body ''exactSuffix'' = Some (JStr (lc_suffix c))" "jget body ''version'' = Some (JNum (of_int v))"
    by (simp add: enqueue_body_def)
  have pass: "control_POST ?auth ?ctl (bridge_request env) (Parsed (JObj body)) db = ((status, CtlQueued tid sid cid), db')"
    if "serve_control ?auth ?ctl (bridge_request env) (Parsed (JObj body)) db = ((status, CtlQueued tid sid cid), db')" for status
    using that by (auto simp: serve_control_def split: filtered.splits)
  obtain status where s: "control_POST ?auth ?ctl (bridge_request env) (Parsed (JObj body)) db = ((status, CtlQueued tid sid cid), db')"
    using assms(1) pass unfolding scriptBridgeRequest_def b(1)
    by (auto split: prod.split_asm control_body.split_asm if_splits)
  have disp: "control_dispatch ?auth ?ctl (bridge_request env) body db = enqueue_action ?ctl now body db"
    by (simp add: control_dispatch_def b(2) enqueue_names_body enqueue_names_def)
  have enq: "enqueueBridgeCapture (ce_cfg ?ctl) (ce_digest ?ctl) now (ce_uuid ?ctl) (capture_of_body ?ctl now body) db = (Inr (tid, sid, cid), db')"
    using s disp
    by (auto simp: control_POST_def json_body_def object_of_def enqueue_action_def split: if_splits sum.split_asm prod.split_asm)
  have v: "js_or (jget body ''version'') x = Some (JNum (of_int v))" for x using assms(2) by (simp add: b(4) js_or_def truthy_def)
  show ?thesis
    by (rule that [OF enq])
      (use assms(2,3) in \<open>simp_all add: capture_of_body_def Let_def b(3) js_coalesce_def capture_version_def v version_of_int\<close>)
qed



section \<open>Without the order: the maintenance timer\<close>

definition first_camp :: fleet_campaign where "first_camp = store_capture_on first_l4 demo_campaign"
definition second_camp :: fleet_campaign where "second_camp = store_capture_on second_l4 first_camp"
definition first_body :: json where "first_body = enqueue_body ''r1'' first_camp (''1112223333'', ''12345678'') first_l4 1000"
definition second_body :: json where "second_body = enqueue_body ''r1'' second_camp (''1112223333'', ''12345678'') second_l4 2000"

definition second_reply :: "control_body option \<times> fleet_db" where
  "second_reply = scriptBridgeRequest (with_uuid ''job-b'' pipe_demo) second_body 2000 demo_registered"

definition first_reply :: "control_body option \<times> fleet_db" where
  "first_reply = scriptBridgeRequest (with_uuid ''job-a'' pipe_demo) first_body 3000 (snd second_reply)"

lemma replies:
  "case fst second_reply of Some (CtlQueued tid sid cid) \<Rightarrow> sid = demo_shard | _ \<Rightarrow> False"
  "case fst first_reply of Some (CtlQueued tid sid cid) \<Rightarrow> sid = demo_shard | _ \<Rightarrow> False"
  by code_simp+


definition pworld :: "time \<Rightarrow> fleet_db \<Rightarrow> fleet_campaign \<Rightarrow> fleet_run \<Rightarrow> (string \<rightharpoonup> nat) \<Rightarrow> nat \<Rightarrow> capture_job list \<Rightarrow> pipe_world" where
  "pworld t db k r q n js = \<lparr>pw_now = t, pw_db = db, pw_campaigns = [''r1'' \<mapsto> k], pw_runs = [''run'' \<mapsto> r], pw_queues = q, pw_next = n, pw_jobs = js\<rparr>"

definition job0 :: "job_stage \<Rightarrow> capture_job" where
  "job0 s = \<lparr>cj_id = 0, cj_after = None, cj_run = ''run'', cj_result = visit_of demo_landing, cj_stage = s\<rparr>"







section \<open>The properties\<close>




definition queued_job :: capture_job where
  "queued_job = \<lparr>cj_id = 1, cj_after = Some 0, cj_run = ''run'', cj_result = visit_of demo_landing, cj_stage = Waiting\<rparr>"


text \<open>C5: From the browser to the fleet: when the fleet has accepted a capture, sent at a time that is not before the captures it
  holds and under a version its target has not had, that capture is the newest of its target, with exactly the bytes of the
  suffix, which passes the suffix gate, and the only open job of the target is the one that delivers it.\<close>

theorem accepted_capture_is_delivered_next:
  assumes "reachable_from fresh_db (bridge_step (fleet_config_of fenv) digest) db" "ce_cfg (pe_control env) = fleet_config_of fenv"
    and "scriptBridgeRequest env (enqueue_body record camp target c v) now db = (Some (CtlQueued tid sid cid), db')" "v \<noteq> 0" "\<bar>v\<bar> \<le> 2 ^ 53 - 1"
    and "\<forall>x\<in>set (captures db). c_captured_at x \<le> now" "\<forall>x\<in>set (captures db). (c_target_id x, c_version x) \<noteq> (tid, v)"
  shows "\<exists>x j. latest_capture db' tid = Some x \<and> c_capture_id x = cid \<and> c_exact_suffix x = lc_suffix c \<and> deliverable (lc_suffix c)
    \<and> j \<in> set (jobs db') \<and> job_for tid cid j \<and> j_state j = Pending \<and> {k \<in> set (jobs db'). open_other tid cid k} = {}"
proof -
  have inv: "bridge_inv (fleet_config_of fenv) db" using bridge.reachable_inv [OF assms(1)] .
  have sane: "sane_config (fleet_config_of fenv)" by simp
  from assms(3-5) obtain input where e: "enqueueBridgeCapture (fleet_config_of fenv) (ce_digest (pe_control env)) now (ce_uuid (pe_control env)) input db
        = (Inr (tid, sid, cid), db')" "ci_exactSuffix input = lc_suffix c" "capture_version input now = v"
    unfolding assms(2) [symmetric] by (rule accepted_request)
  from assms(7) have fresh: "\<forall>x\<in>set (captures db). (c_target_id x, c_version x) \<noteq> (tid, capture_version input now)" by (simp only: e(3))
  from inv sane e(1) assms(6) fresh obtain x j where "latest_capture db' tid = Some x" "c_capture_id x = cid" "c_exact_suffix x = ci_exactSuffix input"
    "j \<in> set (jobs db')" "job_for tid cid j" "j_state j = Pending" "\<not> list_ex (open_other tid cid) (jobs db')" "deliverable (ci_exactSuffix input)"
    by (rule enqueue_is_latest)
  then show ?thesis unfolding e(2) by (intro exI [of _ x] exI [of _ j]) (auto simp: list_ex_iff)
qed


lemma accepted_capture_is_delivered_next_witness:
  "\<exists>tid cid x. fst second_reply = Some (CtlQueued tid demo_shard cid) \<and> latest_capture (snd second_reply) tid = Some x \<and> c_exact_suffix x = ''irclickid=b2''"
proof -
  obtain tid cid where r: "fst second_reply = Some (CtlQueued tid demo_shard cid)"
    using replies(1) by (auto split: option.splits control_body.splits)
  have "captures demo_registered = []" by code_simp
  obtain sid m where reg: "registerBridgeShard (\<lambda>s. s) 500 demo_shard ''0123456789012345678901234567'' [] empty_db = Inr ((sid, m), demo_registered)"
    using demo_register_ok by blast
  have start: "reachable_from fresh_db (bridge_step (fleet_config_of default_env) (\<lambda>s. s)) empty_db"
    by (rule reachable_from.init) (simp add: fresh_db_def empty_db_def)
  from reachable_from.step [OF start bridge_step.register [OF reg]]
  have "reachable_from fresh_db (bridge_step (fleet_config_of default_env) (\<lambda>s. s)) demo_registered" .
  moreover have "ce_cfg (pe_control (with_uuid ''job-b'' pipe_demo)) = fleet_config_of default_env"
    by (simp add: with_uuid_def pipe_demo_def demo_control_def default_cfg_def)
  moreover have "scriptBridgeRequest (with_uuid ''job-b'' pipe_demo) (enqueue_body ''r1'' second_camp (''1112223333'', ''12345678'') second_l4 2000) 2000 demo_registered
      = (Some (CtlQueued tid demo_shard cid), snd second_reply)"
    using r by (simp add: second_reply_def second_body_def prod_eq_iff)
  ultimately obtain x where "latest_capture (snd second_reply) tid = Some x" "c_exact_suffix x = lc_suffix second_l4"
    using accepted_capture_is_delivered_next [of default_env "\<lambda>s. s" demo_registered "with_uuid ''job-b'' pipe_demo" "''r1''" second_camp
        "(''1112223333'', ''12345678'')" second_l4 2000 2000 tid demo_shard cid "snd second_reply"] \<open>captures demo_registered = []\<close> by auto
  with r show ?thesis by (auto simp: second_l4_def demo_l4_def)
qed






text \<open>C38: A delivery that failed is not made up for: the suffix is remembered as the campaign's latest all the same, so when the next
  capture brings it again nothing is sent, and the error is taken back.\<close>

theorem failed_delivery_is_forgotten:
  assumes "j \<in> set (pw_jobs w)" "cj_stage j = DeliveryFailed c" "pw_runs w (cj_run j) = Some run" "pw_campaigns w (fr_campaign run) = Some k"
    and "w1 = settle run j c None True w" "i \<in> set (pw_jobs w1)" "ready w1 i" "pw_runs w1 (cj_run i) = Some run'" "fr_campaign run' = fr_campaign run"
    and "evaluateCaptureResult (pe_web env) (pw_now w1) (Some (cj_result i)) (Some (fr_redirect run')) = Inr a" "ac_suffix a = lc_suffix c"
  shows "pipe_step env w w1 \<and> pipe_step env w1 (begin_job env run' i w1) \<and> pw_db (begin_job env run' i w1) = pw_db w
    \<and> {x \<in> set (pw_jobs (begin_job env run' i w1)). cj_id x \<in> {cj_id i, cj_id j}} = {}
    \<and> map_option fc_error (pw_campaigns w1 (fr_campaign run)) = Some True
    \<and> map_option fc_error (pw_campaigns (begin_job env run' i w1) (fr_campaign run)) = Some False
    \<and> map_option fc_latestSuffix (pw_campaigns (begin_job env run' i w1) (fr_campaign run)) = Some (Some (lc_suffix c))"
proof -
  obtain k1 where k1: "pw_campaigns w1 (fr_campaign run) = Some k1" "fc_latestSuffix k1 = Some (lc_suffix c)" "fc_error k1"
    using assms(4) unfolding assms(5) by (simp add: settle_def update_campaign_def update_run_def)
  let ?c = "capture_of_result env (cj_run i) run' (cj_result i) (pw_now w1) a"
  have b: "begin_job env run' i w1 = settle run' i ?c None False (w1\<lparr>pw_campaigns := (pw_campaigns w1)(fr_campaign run' \<mapsto> store_capture_on ?c k1)\<rparr>)"
    by (rule begin_unchanged [OF assms(10)]) (use k1 assms(9,11) in simp_all)
  have "pipe_step env w w1" unfolding assms(5) by (rule pipe_step.fails [OF assms(1-3)])
  moreover have "pipe_step env w1 (begin_job env run' i w1)" by (rule pipe_step.begins [OF assms(6-8)])
  moreover have "lc_suffix ?c = lc_suffix c" using assms(11) by (simp add: capture_of_result_def)
  moreover have "pw_db w1 = pw_db w" "pw_jobs w1 = filter (\<lambda>x. cj_id x \<noteq> cj_id j) (pw_jobs w)" by (simp_all add: assms(5))
  ultimately show ?thesis
    using k1 assms(9) by (auto simp: b) (auto simp: settle_def update_campaign_def update_run_def)
qed


lemma failed_delivery_is_forgotten_witness:
  "let w = pworld 1000 demo_registered first_camp demo_run [''run'' \<mapsto> 1] 2 [job0 (DeliveryFailed first_l4), queued_job];
       w1 = settle demo_run (job0 (DeliveryFailed first_l4)) first_l4 None True w; w2 = begin_job pipe_demo (the (pw_runs w1 ''run'')) queued_job w1
   in pipe_step pipe_demo w w1 \<and> pipe_step pipe_demo w1 w2 \<and> pw_db w2 = demo_registered \<and> map_option fc_error (pw_campaigns w2 ''r1'') = Some False
      \<and> map_option fc_latestSuffix (pw_campaigns w2 ''r1'') = Some (Some ''irclickid=a1'')"
proof -
  let ?w = "pworld 1000 demo_registered first_camp demo_run [''run'' \<mapsto> 1] 2 [job0 (DeliveryFailed first_l4), queued_job]"
  let ?w1 = "settle demo_run (job0 (DeliveryFailed first_l4)) first_l4 None True ?w"
  obtain run' where run': "pw_runs ?w1 ''run'' = Some run'" "fr_campaign run' = ''r1''" "fr_redirect run' = None"
    by (simp add: settle_def update_campaign_def update_run_def pworld_def job0_def demo_run_def)
  have e: "evaluateCaptureResult (pe_web pipe_demo) (pw_now ?w1) (Some (cj_result queued_job)) (Some (fr_redirect run'))
      = Inr \<lparr>ac_finalUrl = demo_landing, ac_suffix = ''irclickid=a1'', ac_evidence = DocumentResponse\<rparr>"
    by (simp add: queued_job_def run'(3) demo_first)
  have parts: "job0 (DeliveryFailed first_l4) \<in> set (pw_jobs ?w)" "cj_stage (job0 (DeliveryFailed first_l4)) = DeliveryFailed first_l4"
    "pw_runs ?w (cj_run (job0 (DeliveryFailed first_l4))) = Some demo_run" "pw_campaigns ?w (fr_campaign demo_run) = Some first_camp"
    "queued_job \<in> set (pw_jobs ?w1)" "ready ?w1 queued_job" "cj_run queued_job = ''run''" "lc_suffix first_l4 = ''irclickid=a1''"
    by (simp_all add: pworld_def job0_def demo_run_def queued_job_def ready_def first_l4_def demo_l4_def)
  from failed_delivery_is_forgotten [OF parts(1-4) refl parts(5,6) _ _ e] run' parts(7,8)
  show ?thesis by (simp add: Let_def demo_run_def) (simp add: pworld_def)
qed

end
