(* ===== verification/Target_Guard.thy ===== *)
theory Target_Guard
  imports Control_Endpoint Capture_Gate "HOL-Library.Word" "HOL-Library.AList"
begin

text \<open>
  Which addresses a request may go to: \<open>web/lib/url-security.ts\<close> for the dashboard's own requests, and the target checks of
  \<open>web/server/control.mjs\<close> with their cache of resolved names. \<open>isIP\<close>, the URL parser and the resolver are parameters; a
  resolver that fails or is too slow is \<open>None\<close>.
\<close>

unbundle bit_operations_syntax

section \<open>Addresses\<close>

text \<open>\<open>parts.map(Number)\<close>, when there are four bytes.\<close>

definition byte_of :: "js_number \<Rightarrow> int option" where
  "byte_of v = (case v of Num r \<Rightarrow> if r = of_int \<lfloor>r\<rfloor> \<and> 0 \<le> r \<and> r \<le> 255 then Some \<lfloor>r\<rfloor> else None | _ \<Rightarrow> None)"

definition ipv4Bytes :: "string \<Rightarrow> (int \<times> int \<times> int \<times> int) option" where
  "ipv4Bytes address =
     (case map (\<lambda>p. byte_of (js_Number p)) (split_char CHR ''.'' address) of
        [Some a, Some b, Some c, Some d] \<Rightarrow> Some (a, b, c, d) | _ \<Rightarrow> None)"

definition reserved_bytes :: "int \<Rightarrow> int \<Rightarrow> int \<Rightarrow> bool" where
  "reserved_bytes a b c \<longleftrightarrow> a = 0 \<or> a = 10 \<or> a = 127 \<or> (a = 100 \<and> 64 \<le> b \<and> b \<le> 127) \<or> (a = 169 \<and> b = 254)
     \<or> (a = 172 \<and> 16 \<le> b \<and> b \<le> 31) \<or> (a = 192 \<and> b = 0 \<and> c = 0) \<or> (a = 192 \<and> b = 0 \<and> c = 2) \<or> (a = 192 \<and> b = 168)
     \<or> (a = 198 \<and> (b = 18 \<or> b = 19)) \<or> (a = 198 \<and> b = 51 \<and> c = 100) \<or> (a = 203 \<and> b = 0 \<and> c = 113) \<or> 224 \<le> a"

definition blockedIpv4 :: "string \<Rightarrow> bool" where
  "blockedIpv4 address = (case ipv4Bytes address of None \<Rightarrow> True | Some (a, b, c, d) \<Rightarrow> reserved_bytes a b c)"

definition before_zone :: "string \<Rightarrow> string" where
  "before_zone s = hd (split_char CHR ''%'' s)"

definition normalizedIpv6 :: "string \<Rightarrow> string" where
  "normalizedIpv6 address = before_zone (unbracketed (to_lower address))"

text \<open>\<open>Number.parseInt(normalized.split(":")[0] || "0", 16)\<close> as the 32-bit number the bit operations see.\<close>

definition hex_digits :: "string \<Rightarrow> string" where
  "hex_digits s = takeWhile (\<lambda>c. radix_digit 16 c \<noteq> None) s"

definition first_group :: "string \<Rightarrow> 32 word" where
  "first_group s = (case radix_value 16 (hex_digits (hd (split_char CHR '':'' s))) 0 of None \<Rightarrow> 0 | Some n \<Rightarrow> of_nat n)"

definition reserved_ipv6 :: "string \<Rightarrow> bool" where
  "reserved_ipv6 s \<longleftrightarrow> first_group s AND 0xfe00 = 0xfc00 \<or> first_group s AND 0xffc0 = 0xfe80 \<or> first_group s AND 0xff00 = 0xff00
     \<or> starts_with ''2001:db8:'' s"

text \<open>\<open>/^::ffff:(\d+\.\d+\.\d+\.\d+)$/\<close>\<close>

definition mapped_ipv4 :: "string \<Rightarrow> string option" where
  "mapped_ipv4 s =
     (let r = drop 7 s; ps = split_char CHR ''.'' r
      in if starts_with ''::ffff:'' s \<and> length ps = 4 \<and> list_all (\<lambda>p. p \<noteq> '''' \<and> list_all is_digit p) ps then Some r else None)"

definition isBlockedAddress :: "(string \<Rightarrow> nat) \<Rightarrow> string \<Rightarrow> bool" where
  "isBlockedAddress isIP address =
     (let version = isIP (before_zone (unbracketed address)); s = normalizedIpv6 address
      in if version = 4 then blockedIpv4 address
         else if version \<noteq> 6 \<or> s = ''::'' \<or> s = ''::1'' then True
         else (case mapped_ipv4 s of Some v4 \<Rightarrow> blockedIpv4 v4 | None \<Rightarrow> reserved_ipv6 s))"

text \<open>The checks of \<open>control.mjs\<close>, which refuse every mapped address.\<close>

definition blockedTargetIpv4 :: "string \<Rightarrow> bool" where
  "blockedTargetIpv4 address =
     (let bytes = map (\<lambda>p. byte_of (js_Number p)) (split_char CHR ''.'' address)
      in if length bytes \<noteq> 4 \<or> list_ex (\<lambda>v. v = None) bytes then True
         else reserved_bytes (the (bytes ! 0)) (the (bytes ! 1)) (the (bytes ! 2)))"

definition blockedTargetAddress :: "(string \<Rightarrow> nat) \<Rightarrow> string \<Rightarrow> bool" where
  "blockedTargetAddress isIP address =
     (let s = normalizedIpv6 address
      in if isIP s = 4 then blockedTargetIpv4 s
         else if isIP s \<noteq> 6 \<or> s = ''::'' \<or> s = ''::1'' \<or> starts_with ''::ffff:'' s then True
         else reserved_ipv6 s)"

section \<open>The dashboard's outgoing requests\<close>

record guard_env =
  ge_isIP :: "string \<Rightarrow> nat"
  ge_var :: "string \<Rightarrow> string option"
  ge_resolve :: "string \<Rightarrow> string list option"

datatype guard_error = BadUrl | BadScheme | HasCredentials | LocalHost | NotListed | ReservedAddress | Unresolved | ResolvesReserved

definition without_dot :: "string \<Rightarrow> string" where
  "without_dot h = (if h \<noteq> [] \<and> last h = CHR ''.'' then butlast h else h)"

definition blocked_hosts :: "string list" where
  "blocked_hosts = [''localhost'', ''metadata.google.internal'', ''metadata.google'', ''instance-data'', ''kubernetes.default'']"

definition blocked_suffixes :: "string list" where
  "blocked_suffixes = [''.localhost'', ''.local'', ''.internal'', ''.home'', ''.lan'']"

definition local_host :: "string \<Rightarrow> bool" where
  "local_host h \<longleftrightarrow> h \<in> set blocked_hosts \<or> list_ex (\<lambda>e. ends_with e h) blocked_suffixes"

definition guard_var :: "guard_env \<Rightarrow> string \<Rightarrow> string \<Rightarrow> string" where
  "guard_var env name d = (case ge_var env name of None \<Rightarrow> d | Some v \<Rightarrow> v)"

definition allowlist :: "guard_env \<Rightarrow> string list" where
  "allowlist env = filter (\<lambda>v. v \<noteq> '''') (map (\<lambda>v. (let t = to_lower (js_trim v) in if starts_with ''*.'' t then drop 1 t else t))
     (split_char CHR '','' (guard_var env ''TAH_TRAFFIC_ALLOWED_HOSTS'' '''')))"

definition allowedHostname :: "guard_env \<Rightarrow> string \<Rightarrow> bool" where
  "allowedHostname env h \<longleftrightarrow>
     list_ex (\<lambda>e. if starts_with ''.'' e then ends_with e h \<and> length e < length h else h = e) (allowlist env)
     \<or> to_lower (js_trim (guard_var env ''TAH_TARGET_POLICY'' ''allowlist'')) = ''public''
     \<or> allowlist env = [] \<and> ge_var env ''NODE_ENV'' \<noteq> Some ''production'' \<and> ge_var env ''TAH_ALLOW_UNLISTED_LOCAL_TARGETS'' = Some ''1''"

definition assertSafeOutboundUrl :: "guard_env \<Rightarrow> url_parts option \<Rightarrow> guard_error + string" where
  "assertSafeOutboundUrl env url =
     (case url of
        None \<Rightarrow> Inl BadUrl
      | Some u \<Rightarrow>
         (let h = without_dot (to_lower (u_hostname u))
          in if u_protocol u \<notin> {''http:'', ''https:''} then Inl BadScheme
             else if u_username u \<noteq> '''' \<or> u_password u \<noteq> '''' then Inl HasCredentials
             else if h = '''' \<or> local_host h then Inl LocalHost
             else if \<not> allowedHostname env h then Inl NotListed
             else if ge_isIP env h \<noteq> 0 then (if isBlockedAddress (ge_isIP env) h then Inl ReservedAddress else Inr h)
             else (case ge_resolve env h of
                     None \<Rightarrow> Inl Unresolved
                   | Some as \<Rightarrow> if as = [] then Inl Unresolved
                                else if list_ex (isBlockedAddress (ge_isIP env)) as then Inl ResolvesReserved else Inr h)))"

section \<open>The targets of runs\<close>

text \<open>The cache: names in the order they were entered, with the time until which they count as checked. A call is shown
  as one step, from reading the cache to entering the name in it.\<close>

type_synonym dns_cache = "(string \<times> time) list"

definition listed_targets :: "string option \<Rightarrow> string list" where
  "listed_targets v = filter (\<lambda>t. t \<noteq> '''') (map (\<lambda>t. to_lower (js_trim t)) (split_char CHR '','' (case v of None \<Rightarrow> '''' | Some t \<Rightarrow> t)))"

definition targetExplicitlyAllowed :: "string list \<Rightarrow> string \<Rightarrow> bool" where
  "targetExplicitlyAllowed allowed hostname =
     (let host = without_dot (to_lower hostname)
      in list_ex (\<lambda>raw. (let a = without_dot raw; e = (if starts_with ''*.'' a then drop 2 a else a)
           in e \<noteq> '''' \<and> e \<noteq> ''*'' \<and> (host = e \<or> ends_with (CHR ''.'' # e) host))) allowed)"

definition remember :: "time \<Rightarrow> ms \<Rightarrow> string \<Rightarrow> dns_cache \<Rightarrow> dns_cache" where
  "remember now ttl host cache =
     (let kept = (if 4096 \<le> length cache then filter (\<lambda>(h, t). now < t) cache else cache);
          kept' = (if 4096 \<le> length cache \<and> 4096 \<le> length kept then [] else kept)
      in AList.update host (now + ttl) kept')"

definition assertPublicTargetHostname :: "guard_env \<Rightarrow> time \<Rightarrow> time \<Rightarrow> ms \<Rightarrow> string \<Rightarrow> dns_cache \<Rightarrow> (guard_error + unit) \<times> dns_cache" where
  "assertPublicTargetHostname env now answered ttl host cache =
     (if local_host host then (Inl LocalHost, cache)
      else if ge_isIP env host \<noteq> 0 then ((if blockedTargetAddress (ge_isIP env) host then Inl ReservedAddress else Inr ()), cache)
      else if now < (case map_of cache host of None \<Rightarrow> 0 | Some t \<Rightarrow> t) then (Inr (), cache)
      else (case ge_resolve env host of
              None \<Rightarrow> (Inl Unresolved, cache)
            | Some as \<Rightarrow>
                if as = [] then (Inl Unresolved, cache)
                else if list_ex (blockedTargetAddress (ge_isIP env)) as then (Inl ResolvesReserved, cache)
                else (Inr (), remember answered ttl host cache)))"

definition assertTargetAllowed :: "guard_env \<Rightarrow> string list \<Rightarrow> bool \<Rightarrow> bool \<Rightarrow> time \<Rightarrow> time \<Rightarrow> ms \<Rightarrow> url_parts option \<Rightarrow> dns_cache \<Rightarrow> (guard_error + unit) \<times> dns_cache" where
  "assertTargetAllowed env allowed public unlistedDev now answered ttl url cache =
     (case url of
        None \<Rightarrow> (Inl BadUrl, cache)
      | Some u \<Rightarrow>
         (let host = without_dot (to_lower (u_hostname u))
          in if u_protocol u \<notin> {''http:'', ''https:''} then (Inl BadScheme, cache)
             else if u_username u \<noteq> '''' \<or> u_password u \<noteq> '''' then (Inl HasCredentials, cache)
             else if host = '''' then (Inl BadUrl, cache)
             else if targetExplicitlyAllowed allowed host \<or> unlistedDev then (Inr (), cache)
             else if \<not> public then (Inl NotListed, cache)
             else assertPublicTargetHostname env now answered ttl host cache))"

definition stagingTargetAllowed :: "string list \<Rightarrow> url_parts option \<Rightarrow> bool" where
  "stagingTargetAllowed staging url =
     (case url of None \<Rightarrow> False
      | Some u \<Rightarrow> (let host = to_lower (u_hostname u) in list_ex (\<lambda>a. host = a \<or> ends_with (CHR ''.'' # a) host) staging))"


section \<open>The reserved networks\<close>

definition reserved_networks :: "(32 word \<times> nat) list" where
  "reserved_networks = [(0, 8), (0x0A000000, 8), (0x7F000000, 8), (0x64400000, 10), (0xA9FE0000, 16), (0xAC100000, 12), (0xC0000000, 24),
     (0xC0000200, 24), (0xC0A80000, 16), (0xC6120000, 15), (0xC6336400, 24), (0xCB007100, 24), (0xE0000000, 3)]"

definition in_network :: "32 word \<Rightarrow> 32 word \<times> nat \<Rightarrow> bool" where
  "in_network w n \<longleftrightarrow> drop_bit (32 - snd n) w = drop_bit (32 - snd n) (fst n)"

definition ip_nat :: "nat \<Rightarrow> nat \<Rightarrow> nat \<Rightarrow> nat \<Rightarrow> nat" where
  "ip_nat a b c d = a * 16777216 + b * 65536 + c * 256 + d"

definition dotted :: "nat \<Rightarrow> nat \<Rightarrow> nat \<Rightarrow> nat \<Rightarrow> string" where
  "dotted a b c d = nat_digits a @ ''.'' @ nat_digits b @ ''.'' @ nat_digits c @ ''.'' @ nat_digits d"

lemma dot_not_digit: "CHR ''.'' \<notin> set (nat_digits n)"
  using nat_digits_digit [of "CHR ''.''" n] by (auto simp: is_digit_def)

lemma split_dotted: "split_char CHR ''.'' (dotted a b c d) = [nat_digits a, nat_digits b, nat_digits c, nat_digits d]"
  by (simp add: dotted_def split_char_at dot_not_digit split_char_none)

lemma byte_of_digits: "n < 256 \<Longrightarrow> byte_of (js_Number (nat_digits n)) = Some (int n)"
  by (simp add: js_Number_nat_digits byte_of_def)

lemma ipv4Bytes_dotted:
  assumes "a < 256" "b < 256" "c < 256" "d < 256"
  shows "ipv4Bytes (dotted a b c d) = Some (int a, int b, int c, int d)"
  using assms by (simp add: ipv4Bytes_def split_dotted byte_of_digits)

lemma ip_nat_div:
  assumes "a < 256" "b < 256" "c < 256" "d < 256"
  shows "ip_nat a b c d div 65536 = a * 256 + b" "ip_nat a b c d div 256 = a * 65536 + b * 256 + c"
    "ip_nat a b c d div 16777216 = a" "ip_nat a b c d div 4194304 = a * 4 + b div 64"
    "ip_nat a b c d div 1048576 = a * 16 + b div 16" "ip_nat a b c d div 131072 = a * 128 + b div 2" "ip_nat a b c d div 536870912 = a div 32"
proof -
  have quot: "(q * m + r) div m = q" if "r < m" for q m r :: nat using that by simp
  have 2: "ip_nat a b c d div 65536 = a * 256 + b"
    using quot [of "c * 256 + d" 65536 "a * 256 + b"] assms by (simp add: ip_nat_def algebra_simps)
  have step: "ip_nat a b c d div (65536 * k) = (a * 256 + b) div k" for k by (simp add: div_mult2_eq 2)
  have 1: "(a * 256 + b) div 256 = a" using quot [of b 256 a] assms by simp
  show "ip_nat a b c d div 65536 = a * 256 + b" by (rule 2)
  show "ip_nat a b c d div 256 = a * 65536 + b * 256 + c"
    using quot [of d 256 "a * 65536 + b * 256 + c"] assms by (simp add: ip_nat_def algebra_simps)
  show "ip_nat a b c d div 16777216 = a" using step [of 256] 1 by simp
  show "ip_nat a b c d div 4194304 = a * 4 + b div 64" using step [of 64] div_mult_self4 [of 64 b "a * 4"] by (simp add: algebra_simps)
  show "ip_nat a b c d div 1048576 = a * 16 + b div 16" using step [of 16] div_mult_self4 [of 16 b "a * 16"] by (simp add: algebra_simps)
  show "ip_nat a b c d div 131072 = a * 128 + b div 2" using step [of 2] div_mult_self4 [of 2 b "a * 128"] by (simp add: algebra_simps)
  show "ip_nat a b c d div 536870912 = a div 32" using step [of 8192] div_mult2_eq [of "a * 256 + b" 256 32] 1 by simp
qed

lemma in_network_nat:
  assumes "n < 2 ^ 32" "m < 2 ^ 32"
  shows "in_network (word_of_nat n) (word_of_nat m, l) \<longleftrightarrow> n div 2 ^ (32 - l) = m div 2 ^ (32 - l)"
proof -
  have u: "unat (word_of_nat k :: 32 word) = k" if "k < 2 ^ 32" for k using that by (simp add: unat_of_nat)
  have "in_network (word_of_nat n) (word_of_nat m, l)
      \<longleftrightarrow> unat (drop_bit (32 - l) (word_of_nat n :: 32 word)) = unat (drop_bit (32 - l) (word_of_nat m :: 32 word))"
    by (simp only: in_network_def fst_conv snd_conv word_unat_eq_iff)
  then show ?thesis unfolding unat_drop_bit_eq u [OF assms(1)] u [OF assms(2)] by (simp only: drop_bit_eq_div)
qed

lemma ip_nat_bound:
  assumes "a < 256" "b < 256" "c < 256" "d < 256"
  shows "ip_nat a b c d < 2 ^ 32"
  using assms unfolding ip_nat_def by simp


lemma two_digits: "(y::nat) < m \<Longrightarrow> z < m \<Longrightarrow> x * m + y = u * m + z \<longleftrightarrow> x = u \<and> y = z"
proof (rule iffI)
  assume h: "y < m" "z < m" and e: "x * m + y = u * m + z"
  have "(x * m + y) div m = x" "(u * m + z) div m = u" "(x * m + y) mod m = y" "(u * m + z) mod m = z" using h by simp_all
  then show "x = u \<and> y = z" using e by metis
qed simp

lemma octet_cases:
  assumes "a < 256" "b < (256::nat)"
  shows "a * 4 + b div 64 = 401 \<longleftrightarrow> a = 100 \<and> 64 \<le> b \<and> b \<le> 127" "a * 256 + b = 43518 \<longleftrightarrow> a = 169 \<and> b = 254"
    "a * 16 + b div 16 = 2753 \<longleftrightarrow> a = 172 \<and> 16 \<le> b \<and> b \<le> 31" "a * 256 + b = 49320 \<longleftrightarrow> a = 192 \<and> b = 168"
    "a * 128 + b div 2 = 25353 \<longleftrightarrow> a = 198 \<and> (b = 18 \<or> b = 19)" "a div 32 = 7 \<longleftrightarrow> 224 \<le> a"
proof -
  have quot: "x div m = k \<longleftrightarrow> k * m \<le> x \<and> x < Suc k * m" if "0 < m" for x m k :: nat
    using that by (metis div_nat_eqI div_times_less_eq_dividend dividend_less_div_times mult.commute mult_Suc add.commute)
  have q: "b div 64 < 4" "b div 16 < 16" "b div 2 < 128" using assms(2) by (simp_all add: less_mult_imp_div_less)
  have "b div 64 = 1 \<longleftrightarrow> 64 \<le> b \<and> b \<le> 127" using quot [of 64 b 1] by auto
  then show "a * 4 + b div 64 = 401 \<longleftrightarrow> a = 100 \<and> 64 \<le> b \<and> b \<le> 127" using two_digits [OF q(1), of 1 a 100] by simp
  show "a * 256 + b = 43518 \<longleftrightarrow> a = 169 \<and> b = 254" using two_digits [OF assms(2), of 254 a 169] by simp
  have "b div 16 = 1 \<longleftrightarrow> 16 \<le> b \<and> b \<le> 31" using quot [of 16 b 1] by auto
  then show "a * 16 + b div 16 = 2753 \<longleftrightarrow> a = 172 \<and> 16 \<le> b \<and> b \<le> 31" using two_digits [OF q(2), of 1 a 172] by simp
  show "a * 256 + b = 49320 \<longleftrightarrow> a = 192 \<and> b = 168" using two_digits [OF assms(2), of 168 a 192] by simp
  have "b div 2 = 9 \<longleftrightarrow> b = 18 \<or> b = 19" using quot [of 2 b 9] by auto
  then show "a * 128 + b div 2 = 25353 \<longleftrightarrow> a = 198 \<and> (b = 18 \<or> b = 19)" using two_digits [OF q(3), of 9 a 198] by simp
  show "a div 32 = 7 \<longleftrightarrow> 224 \<le> a" using quot [of 32 a 7] assms(1) by auto
qed

lemma three_digits:
  assumes "b < 256" "c < 256" "q < 256" "r < (256::nat)"
  shows "a * 65536 + b * 256 + c = p * 65536 + q * 256 + r \<longleftrightarrow> a = p \<and> b = q \<and> c = r"
proof -
  have "a * 65536 + b * 256 + c = (a * 256 + b) * 256 + c" "p * 65536 + q * 256 + r = (p * 256 + q) * 256 + r" by simp_all
  then show ?thesis by (simp only: two_digits [OF assms(2,4)] two_digits [OF assms(1,3)] conj_assoc)
qed

lemma network_cases:
  assumes "a < 256" "b < 256" "c < 256" "d < 256"
  shows "list_ex (in_network (word_of_nat (ip_nat a b c d))) reserved_networks \<longleftrightarrow> reserved_bytes (int a) (int b) (int c)"
proof -
  note v = ip_nat_div [OF assms]
  let ?w = "word_of_nat (ip_nat a b c d) :: 32 word"
  have net: "in_network ?w (word_of_nat m, l) \<longleftrightarrow> ip_nat a b c d div 2 ^ (32 - l) = m div 2 ^ (32 - l)" if "m < 2 ^ 32" for m l
    by (rule in_network_nat [OF ip_nat_bound [OF assms] that])
  have "in_network ?w (0, 8) \<longleftrightarrow> a = 0" using net [of 0 8] v(3) by simp
  moreover have "in_network ?w (0x0A000000, 8) \<longleftrightarrow> a = 10" using net [of "0x0A000000" 8] v(3) by simp
  moreover have "in_network ?w (0x7F000000, 8) \<longleftrightarrow> a = 127" using net [of "0x7F000000" 8] v(3) by simp
  moreover have "in_network ?w (0x64400000, 10) \<longleftrightarrow> a * 4 + b div 64 = 401" using net [of "0x64400000" 10] v(4) by simp
  moreover have "in_network ?w (0xA9FE0000, 16) \<longleftrightarrow> a * 256 + b = 43518" using net [of "0xA9FE0000" 16] v(1) by simp
  moreover have "in_network ?w (0xAC100000, 12) \<longleftrightarrow> a * 16 + b div 16 = 2753" using net [of "0xAC100000" 12] v(5) by simp
  moreover have "in_network ?w (0xC0000000, 24) \<longleftrightarrow> a * 65536 + b * 256 + c = 12582912" using net [of "0xC0000000" 24] v(2) by simp
  moreover have "in_network ?w (0xC0000200, 24) \<longleftrightarrow> a * 65536 + b * 256 + c = 12582914" using net [of "0xC0000200" 24] v(2) by simp
  moreover have "in_network ?w (0xC0A80000, 16) \<longleftrightarrow> a * 256 + b = 49320" using net [of "0xC0A80000" 16] v(1) by simp
  moreover have "in_network ?w (0xC6120000, 15) \<longleftrightarrow> a * 128 + b div 2 = 25353" using net [of "0xC6120000" 15] v(6) by simp
  moreover have "in_network ?w (0xC6336400, 24) \<longleftrightarrow> a * 65536 + b * 256 + c = 12989284" using net [of "0xC6336400" 24] v(2) by simp
  moreover have "in_network ?w (0xCB007100, 24) \<longleftrightarrow> a * 65536 + b * 256 + c = 13303921" using net [of "0xCB007100" 24] v(2) by simp
  moreover have "in_network ?w (0xE0000000, 3) \<longleftrightarrow> a div 32 = 7" using net [of "0xE0000000" 3] v(7) by simp
  moreover note octet_cases [OF assms(1,2)]
  moreover have "a * 65536 + b * 256 + c = 12582912 \<longleftrightarrow> a = 192 \<and> b = 0 \<and> c = 0" "a * 65536 + b * 256 + c = 12582914 \<longleftrightarrow> a = 192 \<and> b = 0 \<and> c = 2"
    "a * 65536 + b * 256 + c = 12989284 \<longleftrightarrow> a = 198 \<and> b = 51 \<and> c = 100" "a * 65536 + b * 256 + c = 13303921 \<longleftrightarrow> a = 203 \<and> b = 0 \<and> c = 113"
    using three_digits [OF assms(2,3), of 0 0 a 192] three_digits [OF assms(2,3), of 0 2 a 192]
      three_digits [OF assms(2,3), of 51 100 a 198] three_digits [OF assms(2,3), of 0 113 a 203] by simp_all
  ultimately have "list_ex (in_network ?w) reserved_networks \<longleftrightarrow>
      a = 0 \<or> a = 10 \<or> a = 127 \<or> (a = 100 \<and> 64 \<le> b \<and> b \<le> 127) \<or> (a = 169 \<and> b = 254) \<or> (a = 172 \<and> 16 \<le> b \<and> b \<le> 31)
     \<or> (a = 192 \<and> b = 0 \<and> c = 0) \<or> (a = 192 \<and> b = 0 \<and> c = 2) \<or> (a = 192 \<and> b = 168)
     \<or> (a = 198 \<and> (b = 18 \<or> b = 19)) \<or> (a = 198 \<and> b = 51 \<and> c = 100) \<or> (a = 203 \<and> b = 0 \<and> c = 113) \<or> 224 \<le> a"
    by (simp only: reserved_networks_def list_ex_Nil_iff list_ex_Cons_iff simp_thms)
  also have "\<dots> \<longleftrightarrow> reserved_bytes (int a) (int b) (int c)" unfolding reserved_bytes_def by simp
  finally show ?thesis .
qed

text \<open>C32: The dashboard's list of byte comparisons is the table of reserved networks read by longest prefix: an address written in dotted
  form is refused exactly when its 32-bit value agrees with one of the thirteen networks on that network's leading bits.\<close>
theorem reserved_networks_exact:
  assumes "a < 256" "b < 256" "c < 256" "d < 256"
  shows "blockedIpv4 (dotted a b c d) \<longleftrightarrow> list_ex (in_network (word_of_nat (ip_nat a b c d))) reserved_networks"
  using assms by (simp only: blockedIpv4_def ipv4Bytes_dotted network_cases) simp

theorem reserved_networks_exact_witness:
  "blockedIpv4 (dotted 172 31 255 1) \<and> list_ex (in_network (word_of_nat (ip_nat 172 31 255 1))) reserved_networks \<and> \<not> blockedIpv4 (dotted 172 32 0 1)"
proof -
  have "reserved_bytes 172 31 255" "\<not> reserved_bytes 172 32 0" by (simp_all add: reserved_bytes_def)
  then have "blockedIpv4 (dotted 172 31 255 1)" "\<not> blockedIpv4 (dotted 172 32 0 1)" by (simp_all add: blockedIpv4_def ipv4Bytes_dotted)
  then show ?thesis using reserved_networks_exact [of 172 31 255 1] by simp
qed

lemma same_ipv4_checks: "blockedTargetIpv4 s = blockedIpv4 s"
proof -
  let ?bs = "map (\<lambda>p. byte_of (js_Number p)) (split_char CHR ''.'' s)"
  show ?thesis
  proof (cases "length ?bs = 4")
    case True
    then obtain w x y z where b: "?bs = [w, x, y, z]" by (auto simp: length_Suc_conv numeral_eq_Suc)
    then show ?thesis unfolding blockedTargetIpv4_def blockedIpv4_def ipv4Bytes_def b Let_def
      by (cases w; cases x; cases y; cases z) simp_all
  next
    case False
    have "(case xs of [Some a, Some b, Some c, Some d] \<Rightarrow> Some (a, b, c, d) | _ \<Rightarrow> None) = None" if "length xs \<noteq> 4" for xs :: "int option list"
      using that by (auto split: list.splits option.splits)
    then show ?thesis using False unfolding blockedTargetIpv4_def blockedIpv4_def ipv4Bytes_def Let_def by simp
  qed
qed

lemma target_check_is_stricter:
  assumes "normalizedIpv6 x = x" "before_zone (unbracketed x) = x"
  shows "blockedTargetAddress ip x \<longleftrightarrow> isBlockedAddress ip x \<or> ip x \<noteq> 4 \<and> starts_with ''::ffff:'' x"
proof (cases "starts_with ''::ffff:'' x")
  case True
  then show ?thesis using assms by (simp add: blockedTargetAddress_def isBlockedAddress_def same_ipv4_checks Let_def)
next
  case False
  then have "mapped_ipv4 x = None" by (simp add: mapped_ipv4_def Let_def)
  then show ?thesis using False assms by (simp add: blockedTargetAddress_def isBlockedAddress_def same_ipv4_checks Let_def)
qed

text \<open>A run against a public name is started only when the name, or every address it resolves to, is outside the reserved ranges, unless
  the check of the last minutes still counts.\<close>
lemma target_is_public:
  assumes "assertPublicTargetHostname env now answered ttl host cache = (Inr (), cache')" "0 \<le> now"
  shows "\<not> local_host host \<and> (ge_isIP env host \<noteq> 0 \<and> \<not> blockedTargetAddress (ge_isIP env) host
     \<or> (\<exists>t. map_of cache host = Some t \<and> now < t)
     \<or> (\<exists>as. ge_resolve env host = Some as \<and> as \<noteq> [] \<and> (\<forall>a \<in> set as. \<not> blockedTargetAddress (ge_isIP env) a) \<and> map_of cache' host = Some (answered + ttl)))"
  using assms
  by (auto simp: assertPublicTargetHostname_def remember_def Let_def update_conv list_ex_iff split: if_splits option.splits)

lemma remember_bound: "length (remember now ttl host cache) \<le> 4096"
proof -
  have up: "length (AList.update k v xs) \<le> Suc (length xs)" for k :: string and v :: time and xs by (induction xs) auto
  have "length (filter f cache) < 4096 \<Longrightarrow> length (AList.update host v (filter f cache)) \<le> 4096" for f v
    using up [of host v "filter f cache"] by linarith
  moreover have "length cache < 4096 \<Longrightarrow> length (AList.update host v cache) \<le> 4096" for v using up [of host v cache] by linarith
  ultimately show ?thesis by (auto simp: remember_def Let_def not_le)
qed

lemma outbound_url_is_safe:
  assumes "assertSafeOutboundUrl env url = Inr h"
  shows "allowedHostname env h \<and> \<not> local_host h \<and> h \<noteq> [] \<and>
     (if ge_isIP env h \<noteq> 0 then \<not> isBlockedAddress (ge_isIP env) h
      else (\<exists>as. ge_resolve env h = Some as \<and> as \<noteq> [] \<and> (\<forall>a \<in> set as. \<not> isBlockedAddress (ge_isIP env) a)))"
  using assms by (auto simp: assertSafeOutboundUrl_def Let_def list_ex_iff split: option.splits if_splits)

end
