(* ===== verification/Spec2Isabelle.thy ===== *)
theory Spec2Isabelle
  imports Bridge_Fairness Relay_System Rate_Limit Cross_Process_Lock Capacity_Planner Health_Rules Proxy_Runtime Campaign_Rest Leader_Store Capture_Pipeline Target_Guard
begin

text \<open>
  A verification library for the control application of this repository: the part that queues and runs campaigns,
  takes a captured click suffix, assigns it to a worker shard, delivers it to Google Ads exactly as captured, and
  watches itself while it does so.

  \<^bold>\<open>The program.\<close> The campaign controller (\<open>web/server/control.mjs\<close>) keeps campaigns in a queue, launches their runs within
  the limits of the host, partly in shared processes (\<open>web/server/orchestrator-worker-pool.mjs\<close>), and restarts, stops
  and schedules them. A run captures the query string behind a redirect. The delivery bridge
  (\<open>web/lib/script-bridge-store.ts\<close>, PostgreSQL) keeps campaigns, shards, captures and jobs; it leases jobs to worker
  scripts and accepts their acknowledgements. A worker (\<open>web/lib/relational-fleet-worker.ts\<close>) is a generated script
  that Google Ads starts every hour; it talks to the bridge through \<open>web/app/api/script-bridge/jobs/route.ts\<close>, which
  \<open>web/lib/rate-limit.ts\<close> throttles. Critical sections across processes use \<open>web/lib/cross-process-lock.ts\<close>. The
  capacity planner (\<open>web/lib/capacity-planner.ts\<close>) tells how many hosts, shards and tunnels a fleet needs, and the
  health evaluator (\<open>web/lib/health-alert-store.ts\<close>) turns the state of all of this into alerts. Campaign browsers go out
  through proxies: \<open>web/server/proxy-runtime-service.mjs\<close> chooses one for a campaign and
  \<open>web/server/proxy-lease-coordinator.mjs\<close> makes sure that an endpoint has one user at a time.

  \<^bold>\<open>Theories and code.\<close>
  \<^item> \<open>Fleet_Prelude\<close>: the error monad of the handlers, the strings and environment idioms of the sources, keyed tables
    (locale \<open>keyed_table\<close>) and reachability with invariants (locale \<open>step_invariant\<close>). \<open>Js_Value\<close>: JavaScript numbers,
    \<open>Number(text)\<close>, parsed JSON and its coercions.
  \<^item> \<open>Fleet_Schedule\<close>: the tunables and the learning of the hourly trigger (\<open>adaptiveExecutionWindow\<close>).
    \<open>Capture_Suffix\<close>: the suffix gate of \<open>packages/contracts/src/captureSafety.ts\<close>; \<open>Capture_Gate\<close>: the rest of that file, which
    decides whether the result of a browser journey is a capture (\<open>evaluateCaptureResult\<close>), and the routing policies of
    \<open>redirectCapture.ts\<close>.
  \<^item> \<open>Bridge_Tables\<close> has one record per SQL table and the row filters of the queries; \<open>Bridge_Enrollment\<close> the operations
    on shards and campaigns (\<open>createBridgeShard\<close>, \<open>upsertBridgeTarget\<close>, \<open>setBridgeTargetEnabled\<close>, ...); \<open>Bridge_Delivery\<close>
    the queue (\<open>enqueueBridgeCapture\<close>, \<open>leaseBridgeJobs\<close>, \<open>acknowledgeBridgeJob\<close>, \<open>renewBridgeLeases\<close>);
    \<open>Bridge_Manifest\<close> the manifest, readiness and listings. Every transaction is one function from tables to an
    error or a result with new tables; names are those of the code.
  \<^item> \<open>Bridge_Ownership\<close>, \<open>Bridge_Queue\<close>, \<open>Bridge_Protocol\<close>, \<open>Bridge_Guarantees\<close> and \<open>Bridge_Fairness\<close> hold the theorems
    about the bridge: \<open>bridge_step\<close> has one rule per handler, and invariants hold in every reachable state.
  \<^item> \<open>Rate_Limit\<close>, \<open>Cross_Process_Lock\<close>, \<open>Capacity_Planner\<close>: the libraries of the same names. The lock file protocol is a
    step relation over any number of processes.
  \<^item> \<open>Bridge_Route\<close> is the endpoint, \<open>Fleet_Worker\<close> the worker with Google's services as parameters (record
    \<open>services\<close>), and \<open>Relay_System\<close> runs the worker against the endpoint and the tables. \<open>Control_Endpoint\<close> is the endpoint
    of the dashboard and the control service (\<open>web/app/api/script-bridge/route.ts\<close>) behind the request filter
    (\<open>web/proxy.ts\<close>), with tokens and sessions; \<open>Capture_Pipeline\<close> is the way of a capture from the controller through it
    into the tables, with one promise chain per run and requests that may be slow, fail or lose their answer.
  \<^item> \<open>Target_Guard\<close> is \<open>web/lib/url-security.ts\<close> and the target checks of \<open>control.mjs\<close>: the reserved address ranges, the
    allowlists and the cache of resolved names.
  \<^item> \<open>Leader_Store\<close> is \<open>web/server/distributed-store.mjs\<close>: the lease of the leading control process, fencing tokens and the stored
    state, for any number of processes with clocks of their own (locale \<open>control_store\<close>, interpreted on both stores).
  \<^item> \<open>Health_Alerts\<close> is the alert store and its life cycle; \<open>Health_Rules\<close> the rules of \<open>evaluateHealth\<close> over the rows
    they read, composed with the store.
  \<^item> \<open>Proxy_Lease\<close> has both lease repositories, both locks and the coordinator; the locales \<open>lease_store\<close>, \<open>lock_store\<close> and
    \<open>proxy_leases\<close> state what the coordinator needs of a store, and are interpreted on the in-memory pair and on
    PostgreSQL with Redis. \<open>Proxy_Runtime\<close> is the choice of provider, pool and endpoint with the circuit breakers.
  \<^item> \<open>Worker_Pool\<close> is the pool of shared processes (locale \<open>task_pool\<close>); \<open>Campaign_Schedule\<close> the clock windows of schedules;
    \<open>Campaign_Payload\<close> the checks of \<open>validate\<close>, \<open>saveCampaignInternal\<close> and \<open>startRun\<close>; \<open>Campaign_Control\<close> the controller
    of \<open>control.mjs\<close> with \<open>campaign-proxy-admission.mjs\<close>, \<open>campaign-proxy-selection.mjs\<close> and \<open>resource-admission.mjs\<close>: code
    between two awaits is one function, and \<open>control_step\<close> interleaves them. \<open>Campaign_Safety\<close> has the invariants of the
    controller, \<open>Campaign_Rest\<close> what stopping a campaign guarantees and what a launch under way undoes.

  \<^bold>\<open>What is shown.\<close> The bridge never has two live leases for one campaign, leases only what is enabled, enrolled and
  due, accepts only the exact lease and suffix it gave out, applies it once and never moves a campaign between
  manager accounts or beyond a shard's capacity on enrollment. Waiting updates are leased when their turn comes,
  expired leases return, and a leased update completes. The endpoint changes nothing for strangers, a worker reports
  a delivery as verified only after reading the same suffix back, and every worker run ends before Google's limit
  under the stated cost of calls. Alerts follow the evaluation exactly, and a read-back mismatch is always reported.
  A proxy endpoint has at most one user however coordinators interleave, a superseded lease is fenced, the in-memory
  lock refines the one on Redis, and resolving a proxy leaks no lease and obeys the campaign's policy.
  However launches, exits, commands, saves and the watchdog interleave, a campaign has one active run, a gateway
  port one user, and the runs stay within the limits of the host; the pump takes the first campaign that is ready;
  a stopped campaign stays at rest unless a launch of it was already under way; the shared pool is a bounded set of
  tasks; a schedule window is open exactly in the stated hours of the stated days.
  A capture is accepted only with evidence of the destination, byte for byte, and with a routing policy only the issuer's own
  redirect counts; the captures of a run are handed on in order, and an accepted capture is what the fleet delivers next.
  Stored control state is only replaced under the same or a later fencing token, by one process per token; without the
  control token or a signed session no request changes the fleet.
  The comparisons of address bytes are the table of the reserved networks on 32-bit words.
  The remaining theorems record where the code departs from its documents; they are listed as findings.

  \<^bold>\<open>Bounds and fuel.\<close> Loops that are bounded in the source recurse structurally. The worker's polling loop is bounded by
  its deadline: locale \<open>relay_clock\<close> assumes that time advances by at least a millisecond per cycle, and the fuel
  is the remaining time plus one. Searching nested JSON has the source's depth limit of seven levels. Milliseconds
  and versions are integers, which is exact for the doubles the code holds them in below 2 to the 53; the int4
  arithmetic of the queue's backoff is written out where it can overflow.

  \<^bold>\<open>Parameters.\<close> Random tokens, SHA-256, the row locks that \<open>SKIP LOCKED\<close> meets, PostgreSQL's own clock, the Redis
  answer, Google's services, HMAC, base64url, the JSON and URL parsers, \<open>Date.parse\<close> and the decimal text of non-integers are arguments of the definitions. What
  a theorem needs of them is a named hypothesis with a witness.

  \<^bold>\<open>Not modelled.\<close> The React pages and components, the Next.js routes that only read files, the connection handling and
  SQL migrations of the stores, the browser tiers, antidetection, MITM and telemetry packages, which drive external
  programs, the time zone table of \<open>packages/tz\<close>, which is data, the legacy bridge in
  \<open>web/lib/google-ads-script-bridge.ts\<close>, and in \<open>web/server/control.mjs\<close> the enrolment requests, challenge
  files, the capacity snapshot and the sockets; the controller starts without runs that outlived an earlier process.
  Titles and messages of alerts and log output are left out.
\<close>

end
